(* ===== verification/KBase.thy ===== *)
theory KBase
  imports Main "HOL-Library.Word"
begin

unbundle bit_operations_syntax

text \<open>
  Prelude of the development: the machine types, the C truth values, the fault type that stands
  for every way the kernel stops, the sequencing combinator of fallible operations, and the
  generic lemmas about words, lists and fixed size tables that the components share.

  A pointer is a natural number, NULL is 0. Structures live in explicit stores (functions from
  pointers to records), so aliasing between two pointers to one structure is visible.
  An \<open>int\<close> of the source is an \<open>int\<close> here (none of the modelled counters of that type leaves
  its range, which the invariants state); an \<open>unsigned long\<close> is a 64 bit word and wraps.
\<close>

type_synonym u8 = "8 word"
type_synonym u16 = "16 word"
type_synonym u32 = "32 word"
type_synonym u64 = "64 word"
type_synonym ptr = nat

abbreviation (input) NULL :: ptr where "NULL \<equiv> 0"
abbreviation (input) TRUE :: int where "TRUE \<equiv> 1"
abbreviation (input) FALSE :: int where "FALSE \<equiv> 0"

text \<open>
  The ways an operation fails to return. \<open>KPanic\<close> is a call of panic() or x_panic(), \<open>KDie\<close> a
  call of die() or keDie(), \<open>Hang\<close> an endless loop written on purpose, \<open>NullDeref\<close> an access
  through a NULL pointer, \<open>OutOfBounds\<close> an array access outside the array, \<open>Uninit\<close> a use of an
  uninitialised variable, \<open>DivByZero\<close> a division by zero. The last four are undefined in C; the
  model stops there and promises nothing about what the machine does.
\<close>

datatype kfault =
    KPanic string
  | KDie string
  | NullDeref string
  | OutOfBounds string
  | Uninit string
  | DivByZero string
  | Hang string

fun kbind :: "'e + 'a \<Rightarrow> ('a \<Rightarrow> 'e + 'b) \<Rightarrow> 'e + 'b" where
  "kbind (Inl e) f = Inl e"
| "kbind (Inr x) f = f x"

named_theorems kdefs \<open>definitions of the kernel operations, unfolded together\<close>
named_theorems kframe \<open>which parts of the state an operation leaves alone\<close>

subsection \<open>Fallible sequencing\<close>

lemma kbind_Inr_iff: "kbind m f = Inr y \<longleftrightarrow> (\<exists>x. m = Inr x \<and> f x = Inr y)"
  by (cases m) auto

lemma kbind_Inl_iff: "kbind m f = Inl e \<longleftrightarrow> m = Inl e \<or> (\<exists>x. m = Inr x \<and> f x = Inl e)"
  by (cases m) auto

lemma kbind_assoc: "kbind (kbind m f) g = kbind m (\<lambda>x. kbind (f x) g)"
  by (cases m) auto

lemma kbind_if: "kbind (if b then x else y) f = (if b then kbind x f else kbind y f)"
  by simp

text \<open>A fallible loop over a list of indices, the shape of the kernel's table scans.\<close>

fun kfold :: "('i \<Rightarrow> 's \<Rightarrow> 'e + 's) \<Rightarrow> 'i list \<Rightarrow> 's \<Rightarrow> 'e + 's" where
  "kfold f [] s = Inr s"
| "kfold f (i # is) s = kbind (f i s) (kfold f is)"

lemma kfold_append: "kfold f (xs @ ys) s = kbind (kfold f xs s) (kfold f ys)"
proof (induction xs arbitrary: s)
  case Nil
  then show ?case by simp
next
  case (Cons a xs)
  then show ?case by (cases "f a s") simp_all
qed

lemma kfold_invariant:
  assumes "kfold f is s = Inr s'" and "P s"
    and "\<And>i s s'. i \<in> set is \<Longrightarrow> P s \<Longrightarrow> f i s = Inr s' \<Longrightarrow> P s'"
  shows "P s'"
  using assms
proof (induction "is" arbitrary: s)
  case Nil
  then show ?case by simp
next
  case (Cons i "is")
  from Cons.prems(1) obtain s1 where s1: "f i s = Inr s1" "kfold f is s1 = Inr s'"
    by (auto simp: kbind_Inr_iff)
  have "P s1" using Cons.prems(2,3) s1(1) by auto
  then show ?case using Cons.IH[OF s1(2)] Cons.prems(3) by auto
qed

text \<open>A loop whose body keeps an invariant and never faults under it never faults.\<close>

lemma kfold_total:
  assumes "P s"
    and "\<And>i s. i \<in> set is \<Longrightarrow> P s \<Longrightarrow> \<exists>s'. f i s = Inr s' \<and> P s'"
  shows "\<exists>s'. kfold f is s = Inr s' \<and> P s'"
  using assms
proof (induction "is" arbitrary: s)
  case Nil
  then show ?case by simp
next
  case (Cons i "is")
  from Cons.prems(2)[of i s] Cons.prems(1) obtain s1 where s1: "f i s = Inr s1" "P s1"
    by auto
  from Cons.IH[OF s1(2)] Cons.prems(2) obtain s' where "kfold f is s1 = Inr s'" "P s'"
    by auto
  with s1 show ?case by auto
qed

text \<open>Iterations that do nothing can be dropped: a scan over a mostly empty table.\<close>

lemma kfold_skip:
  assumes "\<And>i. i \<in> set is \<Longrightarrow> f i s = Inr s"
  shows "kfold f is s = Inr s"
  using assms by (induction "is") auto

subsection \<open>Words and integers\<close>

lemma take_bit_range_16: "0 \<le> take_bit 16 (x::int) \<and> take_bit 16 x < 65536"
proof -
  have "take_bit 16 x < 2 ^ 16" by (rule take_bit_int_less_exp)
  then show ?thesis by simp
qed

lemma and_mask_16: "(x::int) AND 0xFFFF = take_bit 16 x"
proof -
  have "(0xFFFF::int) = mask 16" by (simp add: mask_eq_exp_minus_1)
  then show ?thesis by (simp only: take_bit_eq_mask)
qed

lemma and_mask_16_id: "0 \<le> x \<Longrightarrow> x < 65536 \<Longrightarrow> (x::int) AND 0xFFFF = x"
  unfolding and_mask_16 by (simp add: take_bit_int_eq_self)

lemma and_mask_16_bounds: "0 \<le> (x::int) AND 0xFFFF \<and> x AND 0xFFFF < 65536"
  unfolding and_mask_16 by (rule take_bit_range_16)

lemma word_one_le_iff: "1 \<le> (w :: 'a::len word) \<longleftrightarrow> w \<noteq> 0"
  by (metis word_less_1 linorder_not_less)

lemma word_max_one: "max 1 (w :: 'a::len word) = (if w = 0 then 1 else w)"
  by (simp add: max_def word_one_le_iff)

subsection \<open>Cyclic indices\<close>

lemma cyclic_succ:
  assumes "0 < n" "(a :: int) mod n < n - 1"
  shows "(a + 1) mod n = a mod n + 1"
proof -
  have "(a + 1) mod n = (a mod n + 1) mod n" by (simp add: mod_simps)
  also have "\<dots> = a mod n + 1" using assms by (intro mod_pos_pos_trivial) (simp_all add: add_nonneg_nonneg)
  finally show ?thesis .
qed

lemma cyclic_pred:
  assumes "0 < n" "0 < (a :: int) mod n"
  shows "(a - 1) mod n = a mod n - 1"
proof -
  have "a mod n < n" using assms(1) by (rule pos_mod_bound)
  have "(a - 1) mod n = (a mod n - 1) mod n" by (simp add: mod_simps)
  also have "\<dots> = a mod n - 1"
    using assms \<open>a mod n < n\<close> by (intro mod_pos_pos_trivial) linarith+
  finally show ?thesis .
qed

lemma cyclic_inj:
  assumes "j < n" "k < n"
  shows "((a :: int) + int j) mod int n = (a + int k) mod int n \<longleftrightarrow> j = k"
proof
  assume "(a + int j) mod int n = (a + int k) mod int n"
  then have "int j mod int n = int k mod int n"
    by (metis add_diff_cancel_left' mod_diff_left_eq)
  then show "j = k" using assms by simp
qed simp

subsection \<open>Fixed size tables\<close>

text \<open>The indices of a table of \<open>n\<close> slots, starting at \<open>k\<close>, in the order the loops take them.\<close>

definition slots :: "int \<Rightarrow> int \<Rightarrow> int list" where
  "slots k n = [k..n - 1]"

lemma set_slots [simp]: "set (slots k n) = {k..<n}"
  by (auto simp: slots_def)

lemma distinct_slots [simp]: "distinct (slots k n)"
  by (simp add: slots_def)

lemma slots_Cons: "k < n \<Longrightarrow> slots k n = k # slots (k + 1) n"
  unfolding slots_def by (subst upto.simps) simp

lemma slots_empty: "n \<le> k \<Longrightarrow> slots k n = []"
  unfolding slots_def by simp

lemma slots_split: "k \<le> m \<Longrightarrow> m \<le> n \<Longrightarrow> slots k n = slots k m @ slots m n"
  unfolding slots_def using upto_split1[of k m "n - 1"] upto_split2[of k "m - 1" "n - 1"]
  by (cases "m = n") auto

lemma find_slots_first:
  assumes "find P (slots k n) = Some i"
  shows "k \<le> i \<and> i < n \<and> P i \<and> (\<forall>j. k \<le> j \<and> j < i \<longrightarrow> \<not> P j)"
proof -
  from assms obtain m where m: "m < length (slots k n)" "P (slots k n ! m)" "i = slots k n ! m"
      "\<forall>j<m. \<not> P (slots k n ! j)"
    by (auto simp: find_Some_iff)
  have nth: "slots k n ! j = k + int j" if "j < length (slots k n)" for j
    using that by (simp add: slots_def nth_upto)
  have i: "i = k + int m" using m nth by simp
  have "\<not> P j" if "k \<le> j" "j < i" for j
  proof -
    have "nat (j - k) < m" using that i by simp
    moreover have "slots k n ! nat (j - k) = j"
      using that i nth[of "nat (j - k)"] m(1) by simp
    ultimately show ?thesis using m(4) by auto
  qed
  moreover have "k \<le> i \<and> i < n"
    using m(1) i by (auto simp: slots_def)
  ultimately show ?thesis using m by auto
qed

lemma find_slots_None: "find P (slots k n) = None \<longleftrightarrow> (\<forall>i. k \<le> i \<and> i < n \<longrightarrow> \<not> P i)"
  by (auto simp: find_None_iff)

end
