(* ===== verification/KState.thy ===== *)
theory KState
  imports KBase
begin

text \<open>
  The kernel's data model: the C structures as records, the C enumerations as datatypes, and one
  record \<open>kstate\<close> with the global variables of the modelled files and the stores that hold the
  structures (\<open>tmem\<close> for \<open>struct thread_d\<close>, \<open>mmem\<close> for \<open>struct msg_d\<close>, \<open>pmem\<close> for
  \<open>struct process_d\<close>). Field names are the source's with a letter for the structure in front
  (\<open>t_state\<close> is \<open>thread->state\<close>), because record selectors share one name space.
\<close>

section \<open>Constants of the headers\<close>

definition THREAD_COUNT_MAX :: int where "THREAD_COUNT_MAX = 1024"
definition PROCESS_COUNT_MAX :: int where "PROCESS_COUNT_MAX = 1024"
definition MSG_QUEUE_MAX :: int where "MSG_QUEUE_MAX = 64"
definition INIT_TID :: int where "INIT_TID = 0"
definition USER_THRESHOLD_TID :: int where "USER_THRESHOLD_TID = 100"
definition KERNEL_MESSAGE_TID :: int where "KERNEL_MESSAGE_TID = 99"
definition THREAD_MAGIC :: int where "THREAD_MAGIC = 1234"

definition PRIORITY_MIN :: u64 where "PRIORITY_MIN = 1"
definition PRIORITY_SYSTEM_THRESHOLD :: u64 where "PRIORITY_SYSTEM_THRESHOLD = 4"
definition PRIORITY_MAX :: u64 where "PRIORITY_MAX = 6"

definition CONFIG_QUANTUM_MULTIPLIER :: u64 where "CONFIG_QUANTUM_MULTIPLIER = 1"
definition QUANTUM_MIN :: u64 where "QUANTUM_MIN = CONFIG_QUANTUM_MULTIPLIER * 1"
definition QUANTUM_NORMAL_THRESHOLD :: u64 where
  "QUANTUM_NORMAL_THRESHOLD = CONFIG_QUANTUM_MULTIPLIER * 1"
definition QUANTUM_NORMAL_TIME_CRITICAL :: u64 where
  "QUANTUM_NORMAL_TIME_CRITICAL = CONFIG_QUANTUM_MULTIPLIER * 3"
definition QUANTUM_SYSTEM_TIME_CRITICAL :: u64 where
  "QUANTUM_SYSTEM_TIME_CRITICAL = CONFIG_QUANTUM_MULTIPLIER * 6"
definition QUANTUM_MAX :: u64 where "QUANTUM_MAX = CONFIG_QUANTUM_MULTIPLIER * 6"

definition JIFFY_FREQ :: u64 where "JIFFY_FREQ = 1000"

definition LOCKED :: u64 where "LOCKED = 0"
definition UNLOCKED :: u64 where "UNLOCKED = 1"
definition SCHED_POLICY_RR :: int where "SCHED_POLICY_RR = 0"
definition SCHED_POLICY_QUEUES :: int where "SCHED_POLICY_QUEUES = 1"
definition SCHED_CURRENT_QUEUE :: int where "SCHED_CURRENT_QUEUE = 0"
definition SCHED_P1_QUEUE :: int where "SCHED_P1_QUEUE = 1"
definition SCHED_P6_QUEUE :: int where "SCHED_P6_QUEUE = 6"
definition SCHEQ_QUEUE_COUNT_MAX :: int where "SCHEQ_QUEUE_COUNT_MAX = 7"
definition SYSTEM_SCHEDULING :: int where "SYSTEM_SCHEDULING = 3"
definition SYSTEM_RUNNING :: int where "SYSTEM_RUNNING = 4"

lemmas quantum_defs = QUANTUM_MIN_def QUANTUM_NORMAL_THRESHOLD_def
  QUANTUM_NORMAL_TIME_CRITICAL_def QUANTUM_SYSTEM_TIME_CRITICAL_def QUANTUM_MAX_def
  CONFIG_QUANTUM_MULTIPLIER_def

lemmas priority_defs = PRIORITY_MIN_def PRIORITY_SYSTEM_THRESHOLD_def PRIORITY_MAX_def

lemmas const_defs = THREAD_COUNT_MAX_def PROCESS_COUNT_MAX_def MSG_QUEUE_MAX_def INIT_TID_def
  USER_THRESHOLD_TID_def KERNEL_MESSAGE_TID_def THREAD_MAGIC_def JIFFY_FREQ_def
  LOCKED_def UNLOCKED_def SCHED_POLICY_RR_def SCHED_POLICY_QUEUES_def
  SYSTEM_SCHEDULING_def SYSTEM_RUNNING_def

section \<open>Thread states\<close>

text \<open>The enumeration \<open>thread_state_t\<close> of thread.h, in the order of the enumeration.\<close>

datatype thread_state =
    INITIALIZED | STANDBY | ZOMBIE | DEAD
  | READY | RUNNING | WAITING | BLOCKED

fun thread_state_code :: "thread_state \<Rightarrow> int" where
  "thread_state_code INITIALIZED = 0"
| "thread_state_code STANDBY = 1"
| "thread_state_code ZOMBIE = 2"
| "thread_state_code DEAD = 3"
| "thread_state_code READY = 4"
| "thread_state_code RUNNING = 5"
| "thread_state_code WAITING = 6"
| "thread_state_code BLOCKED = 7"

lemma thread_state_code_inj: "thread_state_code a = thread_state_code b \<longleftrightarrow> a = b"
  by (cases a; cases b) auto

text \<open>The C enumeration is ordered by its numeric values, and so is its model.\<close>

instantiation thread_state :: linorder
begin

definition less_eq_thread_state :: "thread_state \<Rightarrow> thread_state \<Rightarrow> bool" where
  "a \<le> b \<longleftrightarrow> thread_state_code a \<le> thread_state_code b"

definition less_thread_state :: "thread_state \<Rightarrow> thread_state \<Rightarrow> bool" where
  "a < b \<longleftrightarrow> thread_state_code a < thread_state_code b"

instance
  by standard (auto simp: less_eq_thread_state_def less_thread_state_def thread_state_code_inj)

end

instantiation thread_state :: enum
begin

definition enum_thread_state :: "thread_state list" where
  "enum_thread_state = [INITIALIZED, STANDBY, ZOMBIE, DEAD, READY, RUNNING, WAITING, BLOCKED]"

definition enum_all_thread_state :: "(thread_state \<Rightarrow> bool) \<Rightarrow> bool" where
  "enum_all_thread_state P \<longleftrightarrow> P INITIALIZED \<and> P STANDBY \<and> P ZOMBIE \<and> P DEAD
     \<and> P READY \<and> P RUNNING \<and> P WAITING \<and> P BLOCKED"

definition enum_ex_thread_state :: "(thread_state \<Rightarrow> bool) \<Rightarrow> bool" where
  "enum_ex_thread_state P \<longleftrightarrow> P INITIALIZED \<or> P STANDBY \<or> P ZOMBIE \<or> P DEAD
     \<or> P READY \<or> P RUNNING \<or> P WAITING \<or> P BLOCKED"

instance
proof
  show uniq: "(UNIV :: thread_state set) = set Enum.enum"
    by (auto simp: enum_thread_state_def intro: thread_state.exhaust)
  show "distinct (Enum.enum :: thread_state list)"
    by (simp add: enum_thread_state_def)
  fix P :: "thread_state \<Rightarrow> bool"
  show "Enum.enum_all P \<longleftrightarrow> Ball UNIV P"
    unfolding enum_all_thread_state_def by (metis UNIV_I thread_state.exhaust)
  show "Enum.enum_ex P \<longleftrightarrow> Bex UNIV P"
    unfolding enum_ex_thread_state_def by (metis UNIV_I thread_state.exhaust)
qed

end

text \<open>
  The two groups of states of thread.h: 'Earth' (creation and termination) and 'Space'
  (execution), told apart by their numeric value.
\<close>

definition space_state :: "thread_state \<Rightarrow> bool" where
  "space_state st \<longleftrightarrow> READY \<le> st"

lemma space_state_iff: "space_state st \<longleftrightarrow> st \<in> {READY, RUNNING, WAITING, BLOCKED}"
  by (cases st) (auto simp: space_state_def less_eq_thread_state_def)

section \<open>Structures\<close>

text \<open>\<open>struct x64_context_d\<close>: the saved registers of a thread.\<close>

record x64_context =
  c_ss :: u16
  c_rsp :: u64
  c_rflags :: u64
  c_cs :: u16
  c_rip :: u64
  c_ds :: u16
  c_es :: u16
  c_fs :: u16
  c_gs :: u16
  c_rax :: u64
  c_rbx :: u64
  c_rcx :: u64
  c_rdx :: u64
  c_rsi :: u64
  c_rdi :: u64
  c_rbp :: u64
  c_r8 :: u64
  c_r9 :: u64
  c_r10 :: u64
  c_r11 :: u64
  c_r12 :: u64
  c_r13 :: u64
  c_r14 :: u64
  c_r15 :: u64
  c_fpu_buffer :: "int \<Rightarrow> u8"

text \<open>
  The globals contextSS, contextRSP, ... of x64cont.c, through which the interrupt handler in
  assembly passes the interrupted thread's registers to save_current_context() and takes the next
  thread's from restore_current_context().
\<close>

record context_globals =
  contextSS :: u64
  contextRSP :: u64
  contextRFLAGS :: u64
  contextCS :: u64
  contextRIP :: u64
  contextDS :: u64
  contextES :: u64
  contextFS :: u64
  contextGS :: u64
  contextRAX :: u64
  contextRBX :: u64
  contextRCX :: u64
  contextRDX :: u64
  contextRSI :: u64
  contextRDI :: u64
  contextRBP :: u64
  contextR8 :: u64
  contextR9 :: u64
  contextR10 :: u64
  contextR11 :: u64
  contextR12 :: u64
  contextR13 :: u64
  contextR14 :: u64
  contextR15 :: u64
  contextCPL :: u64
  context_fpu_buffer :: "int \<Rightarrow> u8"

text \<open>\<open>struct msg_d\<close> of ipc.h: one slot of a thread's message queue.\<close>

record msg_d =
  m_used :: int
  m_magic :: int
  m_opaque_window :: ptr
  m_msg :: int
  m_long1 :: u64
  m_long2 :: u64
  m_long3 :: u64
  m_long4 :: u64
  m_sender_tid :: int
  m_receiver_tid :: int
  m_sender_pid :: int
  m_receiver_pid :: int
  m_next :: ptr

text \<open>
  \<open>struct thread_d\<close> of thread.h, with the fields the modelled files read or write. The
  console, page fault, surface and user session fields are left out.
\<close>

record thread_d =
  t_used :: int
  t_magic :: int
  t_type :: int
  t_tid :: int
  t_flags :: u64
  t_exit_in_progress :: int
  t_input_mode :: int
  t_protected :: int
  t_owner_process :: ptr
  t_owner_pid :: int
  t_base_priority :: u64
  t_priority :: u64
  t_state :: thread_state
  t_new_clone :: int
  t_yield_in_progress :: int
  t_sleep_in_progress :: int
  t_desired_sleep_ms :: u64
  t_cry_if_i_want_to :: int
  t_waiting_for_timeout :: int
  t_plane :: int
  t_current_processor :: int
  t_next_processor :: int
  t_affinity_processor :: int
  t_pml4_PA :: u64
  t_cpl :: int
  t_rflags_initial_iopl :: u32
  t_rflags_current_iopl :: u32
  t_is_preemptable :: int
  t_HeapStart :: u64
  t_HeapSize :: u64
  t_StackStart :: u64
  t_StackSize :: u64
  t_to_supervisor :: u64
  t_to_user :: u64
  t_initial_jiffy :: u64
  t_ready_jiffy :: u64
  t_waiting_jiffy :: u64
  t_blocked_jiffy :: u64
  t_zombie_jiffy :: u64
  t_wake_jiffy :: u64
  t_step :: u64
  t_initial_time_ms :: u64
  t_total_time_ms :: u64
  t_credits :: u64
  t_quantum :: u64
  t_quantum_limit_min :: u64
  t_quantum_limit_max :: u64
  t_standbyCount :: u64
  t_standbyCount_ms :: u64
  t_runningCount :: u64
  t_runningCount_ms :: u64
  t_readyCount :: u64
  t_readyCount_ms :: u64
  t_ready_limit :: u64
  t_waitingCount :: u64
  t_waitingCount_ms :: u64
  t_waiting_limit :: u64
  t_blockedCount :: u64
  t_blockedCount_ms :: u64
  t_blocked_limit :: u64
  t_scheduledCount :: u64
  t_ticks_remaining :: u64
  t_alarm :: u64
  t_profiler_percentage_running :: u64
  t_profiler_percentage_running_res :: u64
  t_profiler_percentage_running_mod :: u64
  t_profiler_ticks_running :: u64
  t_profiler_last_ticks :: u64
  t_link :: ptr
  t_is_linked :: int
  t_MsgQueue :: "int \<Rightarrow> ptr"
  t_MsgQueueHead :: int
  t_MsgQueueTail :: int
  t_isResponder :: int
  t_signal :: u64
  t_umask :: u64
  t_exit_code :: int
  t_context :: x64_context
  t_saved :: int
  t_initial_rip :: u64
  t_threadname :: "u8 list"
  t_threadName_len :: int
  t_next :: ptr

text \<open>\<open>struct process_d\<close> of process.h, with the fields the modelled files use.\<close>

datatype process_state =
    PROCESS_CREATED | PROCESS_INITIALIZED | PROCESS_RUNNING | PROCESS_BLOCKED
  | PROCESS_TERMINATED | PROCESS_IN_MEMORY | PROCESS_OUT_OF_MEMORY

record process_d =
  p_used :: int
  p_magic :: int
  p_pid :: int
  p_ppid :: int
  p_state :: process_state
  p_Objects :: "int \<Rightarrow> ptr"
  p_allocated_memory :: u64
  p_pml4_PA :: u64
  p_HeapStart :: u64
  p_HeapSize :: u64
  p_HeapPointer :: u64
  p_control :: ptr
  p_wait4pid :: int

text \<open>\<open>struct dispatch_count_d\<close> of dispatch.h.\<close>

record dispatch_count_d =
  d_used :: int
  d_magic :: int
  d_initialized :: int
  SelectIdleCount :: u64
  SelectInitializedCount :: u64
  SelectNextCount :: u64
  SelectCurrentCount :: u64
  SelectAnyCount :: u64
  SelectIdealCount :: u64
  SelectDispatcherQueueCount :: u64

text \<open>\<open>struct mmblock_d\<close> of mmblock.h: the header in front of every block of the kernel heap.\<close>

record mmblock_d =
  b_Header :: u64
  b_headerSize :: u64
  b_userArea :: u64
  b_userareaSize :: u64
  b_Footer :: u64
  b_Id :: int
  b_Used :: int
  b_Magic :: int
  b_Free :: int

text \<open>
  The globals of mm.c, with the block headers that live inside the heap itself and, apart from
  them, the heap's bytes.
\<close>

record heap_state =
  kernel_heap_start :: u64
  kernel_heap_end :: u64
  g_heap_pointer :: u64
  g_available_heap :: u64
  heapCount :: u64
  heapList :: "int \<Rightarrow> u64"
  mmblockCount :: int
  mmblockList :: "int \<Rightarrow> u64"
  mm_prev_pointer :: u64
  KernelHeap_initialized :: int
  KernelHeap_start :: u64
  KernelHeap_end :: u64
  kernel_stack_start :: u64
  kernel_stack_end :: u64
  KernelStack_initialized :: int
  KernelStack_start :: u64
  KernelStack_end :: u64
  blocks :: "u64 \<Rightarrow> mmblock_d"
  hmem :: "u64 \<Rightarrow> u8"

text \<open>\<open>struct page_d\<close> of x64mm.h: one entry of the list of allocated pages.\<close>

record page_d =
  g_id :: int
  g_used :: int
  g_magic :: int
  g_absolute_frame_number :: u32
  g_locked :: int
  g_free :: int
  g_ref_count :: int
  g_next :: ptr

text \<open>The globals of pages.c, mmpool.c and slab.c.\<close>

record paging_state =
  table_pointer_heap_base :: u64
  gKernelPML4Address :: u64
  kernel_pdpt0_va :: u64
  kernel_pd0_va :: u64
  g_pagedpool_va :: u64
  g_extraheap2_va :: u64
  g_extraheap3_va :: u64
  pageAllocList :: "int \<Rightarrow> ptr"
  pgmem :: "ptr \<Rightarrow> page_d"
  pool_initialized :: int
  pool_va :: "int \<Rightarrow> u64"
  pool_Free :: "int \<Rightarrow> int"

text \<open>\<open>struct timer_d\<close> of pit.h, and the globals of pit.c that are not shared with other files.\<close>

record timer_d =
  i_used :: int
  i_magic :: int
  i_id :: int
  i_type :: int
  i_process :: ptr
  i_thread :: ptr
  i_pid :: int
  i_tid :: int
  i_count_down :: int
  i_initial_count_down :: int

record timer_state =
  seconds :: u64
  PIT_initialized :: int
  PIT_dev_freq :: u32
  PIT_clocks_per_sec :: u32
  PIT_period :: u32
  timerList :: "int \<Rightarrow> ptr"
  timem :: "ptr \<Rightarrow> timer_d"
  time_out :: u64
  randseed :: int
  profiler_ticks_count :: u64
  UpdateScreenFlag :: int
  timerShowTextCursor :: int

section \<open>The kernel state\<close>

text \<open>
  \<open>umem\<close> is the machine's memory by 64 bit cells, as far as the kernel accesses it directly: user
  buffers and page tables. \<open>rr_residue\<close> is what the uninitialised local TmpThread of
  __scheduler_rr() happens to hold, indexed by the number of the round: nothing is assumed of it.
\<close>

record kstate =
  threadList :: "int \<Rightarrow> ptr"
  tmem :: "ptr \<Rightarrow> thread_d"
  mmem :: "ptr \<Rightarrow> msg_d"
  processList :: "int \<Rightarrow> ptr"
  pmem :: "ptr \<Rightarrow> process_d"
  umem :: "u64 \<Rightarrow> u64"
  current_thread :: int
  foreground_thread :: int
  timeout_thread :: ptr
  InitThread :: ptr
  current_pid :: int
  jiffies :: u64
  DS_initialized :: int
  DS_tid :: int
  UP_IdleThread :: ptr
  UP_CurrentThread :: ptr
  UP_threads_counter :: u64
  sched_initialized :: int
  sched_policy :: int
  rr_round_counter :: u64
  sched_flags :: u64
  g_scheduler_status :: u64
  system_state :: int
  currentq :: ptr
  pq :: "int \<Rightarrow> ptr"
  qList :: "int \<Rightarrow> ptr"
  task_switch_status :: u64
  DispatchCountBlock :: "dispatch_count_d option"
  dead_thread_collector_flag :: int
  dead_thread_collector_status :: int
  sys_time_hz :: u64
  profiler_ticks_limit :: u64
  profiler_percentage_all_normal_threads :: u64
  profiler_percentage_idle_thread :: u64
  cpu_context :: context_globals
  cr3 :: u64
  spawn_eoi_is_necessary :: int
  gramado_ports :: "int \<Rightarrow> int"
  ws_callback_ready :: int
  ws_callback_address :: u64
  asmflagDoCallbackAfterCR3 :: u64
  ring3_callback_address :: u64
  rr_residue :: "u64 \<Rightarrow> ptr"
  heap :: heap_state
  paging :: paging_state
  sys_time_ms :: u64
  timer :: timer_state

section \<open>Zeroed structures\<close>

text \<open>
  What memset(p, 0, sizeof(*p)) leaves of a structure, and the kernel state before any
  initialization: the globals of a C program start at zero or at the value of their initializer.
\<close>

definition zero_context :: x64_context where
  "zero_context =
   \<lparr>c_ss = 0, c_rsp = 0, c_rflags = 0, c_cs = 0, c_rip = 0, c_ds = 0, c_es = 0, c_fs = 0,
    c_gs = 0, c_rax = 0, c_rbx = 0, c_rcx = 0, c_rdx = 0, c_rsi = 0, c_rdi = 0, c_rbp = 0,
    c_r8 = 0, c_r9 = 0, c_r10 = 0, c_r11 = 0, c_r12 = 0, c_r13 = 0, c_r14 = 0, c_r15 = 0,
    c_fpu_buffer = \<lambda>_. 0\<rparr>"

definition zero_globals :: context_globals where
  "zero_globals =
   \<lparr>contextSS = 0, contextRSP = 0, contextRFLAGS = 0, contextCS = 0, contextRIP = 0,
    contextDS = 0, contextES = 0, contextFS = 0, contextGS = 0, contextRAX = 0, contextRBX = 0,
    contextRCX = 0, contextRDX = 0, contextRSI = 0, contextRDI = 0, contextRBP = 0, contextR8 = 0,
    contextR9 = 0, contextR10 = 0, contextR11 = 0, contextR12 = 0, contextR13 = 0, contextR14 = 0,
    contextR15 = 0, contextCPL = 0, context_fpu_buffer = \<lambda>_. 0\<rparr>"

definition zero_msg :: msg_d where
  "zero_msg =
   \<lparr>m_used = 0, m_magic = 0, m_opaque_window = 0, m_msg = 0, m_long1 = 0, m_long2 = 0,
    m_long3 = 0, m_long4 = 0, m_sender_tid = 0, m_receiver_tid = 0, m_sender_pid = 0,
    m_receiver_pid = 0, m_next = 0\<rparr>"

definition zero_thread :: thread_d where
  "zero_thread =
   \<lparr>t_used = 0, t_magic = 0, t_type = 0, t_tid = 0, t_flags = 0, t_exit_in_progress = 0,
    t_input_mode = 0, t_protected = 0, t_owner_process = 0, t_owner_pid = 0, t_base_priority = 0,
    t_priority = 0, t_state = INITIALIZED, t_new_clone = 0, t_yield_in_progress = 0,
    t_sleep_in_progress = 0, t_desired_sleep_ms = 0, t_cry_if_i_want_to = 0,
    t_waiting_for_timeout = 0, t_plane = 0, t_current_processor = 0, t_next_processor = 0,
    t_affinity_processor = 0, t_pml4_PA = 0, t_cpl = 0, t_rflags_initial_iopl = 0,
    t_rflags_current_iopl = 0, t_is_preemptable = 0, t_HeapStart = 0, t_HeapSize = 0,
    t_StackStart = 0, t_StackSize = 0, t_to_supervisor = 0, t_to_user = 0, t_initial_jiffy = 0,
    t_ready_jiffy = 0, t_waiting_jiffy = 0, t_blocked_jiffy = 0, t_zombie_jiffy = 0,
    t_wake_jiffy = 0, t_step = 0, t_initial_time_ms = 0, t_total_time_ms = 0, t_credits = 0,
    t_quantum = 0, t_quantum_limit_min = 0, t_quantum_limit_max = 0, t_standbyCount = 0,
    t_standbyCount_ms = 0, t_runningCount = 0, t_runningCount_ms = 0, t_readyCount = 0,
    t_readyCount_ms = 0, t_ready_limit = 0, t_waitingCount = 0, t_waitingCount_ms = 0,
    t_waiting_limit = 0, t_blockedCount = 0, t_blockedCount_ms = 0, t_blocked_limit = 0,
    t_scheduledCount = 0, t_ticks_remaining = 0, t_alarm = 0, t_profiler_percentage_running = 0,
    t_profiler_percentage_running_res = 0, t_profiler_percentage_running_mod = 0,
    t_profiler_ticks_running = 0, t_profiler_last_ticks = 0, t_link = 0, t_is_linked = 0,
    t_MsgQueue = \<lambda>_. 0, t_MsgQueueHead = 0, t_MsgQueueTail = 0, t_isResponder = 0,
    t_signal = 0, t_umask = 0, t_exit_code = 0, t_context = zero_context, t_saved = 0,
    t_initial_rip = 0, t_threadname = replicate 64 0, t_threadName_len = 0, t_next = 0\<rparr>"

definition zero_process :: process_d where
  "zero_process =
   \<lparr>p_used = 0, p_magic = 0, p_pid = 0, p_ppid = 0, p_state = PROCESS_CREATED,
    p_Objects = \<lambda>_. 0, p_allocated_memory = 0, p_pml4_PA = 0, p_HeapStart = 0,
    p_HeapSize = 0, p_HeapPointer = 0, p_control = 0, p_wait4pid = 0\<rparr>"

definition zero_block :: mmblock_d where
  "zero_block =
   \<lparr>b_Header = 0, b_headerSize = 0, b_userArea = 0, b_userareaSize = 0, b_Footer = 0,
    b_Id = 0, b_Used = 0, b_Magic = 0, b_Free = 0\<rparr>"

definition zero_heap :: heap_state where
  "zero_heap =
   \<lparr>kernel_heap_start = 0, kernel_heap_end = 0, g_heap_pointer = 0, g_available_heap = 0,
    heapCount = 0, heapList = \<lambda>_. 0, mmblockCount = 0, mmblockList = \<lambda>_. 0,
    mm_prev_pointer = 0, KernelHeap_initialized = 0, KernelHeap_start = 0, KernelHeap_end = 0,
    kernel_stack_start = 0, kernel_stack_end = 0, KernelStack_initialized = 0, KernelStack_start = 0,
    KernelStack_end = 0, blocks = \<lambda>_. zero_block, hmem = \<lambda>_. 0\<rparr>"

definition zero_page :: page_d where
  "zero_page =
   \<lparr>g_id = 0, g_used = 0, g_magic = 0, g_absolute_frame_number = 0, g_locked = 0,
    g_free = 0, g_ref_count = 0, g_next = 0\<rparr>"

definition zero_paging :: paging_state where
  "zero_paging =
   \<lparr>table_pointer_heap_base = 0, gKernelPML4Address = 0, kernel_pdpt0_va = 0,
    kernel_pd0_va = 0, g_pagedpool_va = 0, g_extraheap2_va = 0, g_extraheap3_va = 0,
    pageAllocList = \<lambda>_. 0, pgmem = \<lambda>_. zero_page, pool_initialized = 0,
    pool_va = \<lambda>_. 0, pool_Free = \<lambda>_. 0\<rparr>"

definition zero_timer :: timer_d where
  "zero_timer =
   \<lparr>i_used = 0, i_magic = 0, i_id = 0, i_type = 0, i_process = 0, i_thread = 0, i_pid = 0,
    i_tid = 0, i_count_down = 0, i_initial_count_down = 0\<rparr>"

definition zero_timers :: timer_state where
  "zero_timers =
   \<lparr>seconds = 0, PIT_initialized = 0, PIT_dev_freq = 0, PIT_clocks_per_sec = 0, PIT_period = 0,
    timerList = \<lambda>_. 0, timem = \<lambda>_. zero_timer, time_out = 0, randseed = 1234,
    profiler_ticks_count = 0, UpdateScreenFlag = 0, timerShowTextCursor = FALSE\<rparr>"

definition bss_state :: kstate where
  "bss_state =
   \<lparr>threadList = \<lambda>_. 0, tmem = \<lambda>_. zero_thread, mmem = \<lambda>_. zero_msg,
    processList = \<lambda>_. 0, pmem = \<lambda>_. zero_process, umem = \<lambda>_. 0,
    current_thread = 0, foreground_thread = 0, timeout_thread = 0, InitThread = 0, current_pid = 0,
    jiffies = 0, DS_initialized = 0, DS_tid = 0, UP_IdleThread = 0, UP_CurrentThread = 0,
    UP_threads_counter = 0, sched_initialized = 0, sched_policy = 0, rr_round_counter = 0,
    sched_flags = 0, g_scheduler_status = 0, system_state = 0, currentq = 0, pq = \<lambda>_. 0,
    qList = \<lambda>_. 0, task_switch_status = 0, DispatchCountBlock = None,
    dead_thread_collector_flag = 0, dead_thread_collector_status = 0, sys_time_hz = 0,
    profiler_ticks_limit = 0, profiler_percentage_all_normal_threads = 0,
    profiler_percentage_idle_thread = 0, cpu_context = zero_globals, cr3 = 0,
    spawn_eoi_is_necessary = 0, gramado_ports = \<lambda>_. 0, ws_callback_ready = 0,
    ws_callback_address = 0, asmflagDoCallbackAfterCR3 = 0, ring3_callback_address = 0,
    rr_residue = \<lambda>_. 0, heap = zero_heap, paging = zero_paging,
    sys_time_ms = 0, timer = zero_timers\<rparr>"

lemmas zero_defs = zero_context_def zero_globals_def zero_msg_def zero_thread_def zero_process_def
  zero_block_def zero_heap_def zero_page_def zero_paging_def zero_timer_def zero_timers_def bss_state_def

text \<open>
  A kernel operation takes the state and returns either a fault or its result with the new
  state. An operation of the source that cannot fault is a plain function on the state.
\<close>

type_synonym 'a kresult = "kfault + ('a \<times> kstate)"

section \<open>Access to structures\<close>

text \<open>
  A tid is in range when it indexes \<open>threadList\<close>. The slot's pointer is the thread, and the
  thread is valid when its \<open>used\<close> and \<open>magic\<close> say so: the check almost every function starts with.
\<close>

definition tid_ok :: "int \<Rightarrow> bool" where
  "tid_ok tid \<longleftrightarrow> 0 \<le> tid \<and> tid < THREAD_COUNT_MAX"

definition pid_ok :: "int \<Rightarrow> bool" where
  "pid_ok pid \<longleftrightarrow> 0 \<le> pid \<and> pid < PROCESS_COUNT_MAX"

definition thread_valid :: "thread_d \<Rightarrow> bool" where
  "thread_valid t \<longleftrightarrow> t_used t = TRUE \<and> t_magic t = 1234"

definition slot_valid :: "kstate \<Rightarrow> int \<Rightarrow> bool" where
  "slot_valid s tid \<longleftrightarrow> tid_ok tid \<and> threadList s tid \<noteq> NULL
     \<and> thread_valid (tmem s (threadList s tid))"

definition upd_thread :: "ptr \<Rightarrow> (thread_d \<Rightarrow> thread_d) \<Rightarrow> kstate \<Rightarrow> kstate" where
  "upd_thread p f s = s\<lparr>tmem := (tmem s)(p := f (tmem s p))\<rparr>"

definition upd_msg :: "ptr \<Rightarrow> (msg_d \<Rightarrow> msg_d) \<Rightarrow> kstate \<Rightarrow> kstate" where
  "upd_msg p f s = s\<lparr>mmem := (mmem s)(p := f (mmem s p))\<rparr>"

definition upd_process :: "ptr \<Rightarrow> (process_d \<Rightarrow> process_d) \<Rightarrow> kstate \<Rightarrow> kstate" where
  "upd_process p f s = s\<lparr>pmem := (pmem s)(p := f (pmem s p))\<rparr>"

lemma tmem_upd_thread [simp]:
  "tmem (upd_thread p f s) q = (if q = p then f (tmem s p) else tmem s q)"
  by (simp add: upd_thread_def)

lemma mmem_upd_msg [simp]:
  "mmem (upd_msg p f s) q = (if q = p then f (mmem s p) else mmem s q)"
  by (simp add: upd_msg_def)

lemma pmem_upd_process [simp]:
  "pmem (upd_process p f s) q = (if q = p then f (pmem s p) else pmem s q)"
  by (simp add: upd_process_def)

text \<open>The frame of a structure update: every other part of the state is as it was.\<close>

lemma upd_thread_frame [simp]:
  "threadList (upd_thread p f s) = threadList s"
  "mmem (upd_thread p f s) = mmem s"
  "processList (upd_thread p f s) = processList s"
  "pmem (upd_thread p f s) = pmem s"
  "umem (upd_thread p f s) = umem s"
  "current_thread (upd_thread p f s) = current_thread s"
  "foreground_thread (upd_thread p f s) = foreground_thread s"
  "timeout_thread (upd_thread p f s) = timeout_thread s"
  "InitThread (upd_thread p f s) = InitThread s"
  "current_pid (upd_thread p f s) = current_pid s"
  "jiffies (upd_thread p f s) = jiffies s"
  "DS_initialized (upd_thread p f s) = DS_initialized s"
  "DS_tid (upd_thread p f s) = DS_tid s"
  "UP_IdleThread (upd_thread p f s) = UP_IdleThread s"
  "UP_CurrentThread (upd_thread p f s) = UP_CurrentThread s"
  "UP_threads_counter (upd_thread p f s) = UP_threads_counter s"
  "sched_initialized (upd_thread p f s) = sched_initialized s"
  "sched_policy (upd_thread p f s) = sched_policy s"
  "rr_round_counter (upd_thread p f s) = rr_round_counter s"
  "sched_flags (upd_thread p f s) = sched_flags s"
  "g_scheduler_status (upd_thread p f s) = g_scheduler_status s"
  "system_state (upd_thread p f s) = system_state s"
  "currentq (upd_thread p f s) = currentq s"
  "pq (upd_thread p f s) = pq s"
  "qList (upd_thread p f s) = qList s"
  "task_switch_status (upd_thread p f s) = task_switch_status s"
  "DispatchCountBlock (upd_thread p f s) = DispatchCountBlock s"
  "dead_thread_collector_flag (upd_thread p f s) = dead_thread_collector_flag s"
  "dead_thread_collector_status (upd_thread p f s) = dead_thread_collector_status s"
  "sys_time_hz (upd_thread p f s) = sys_time_hz s"
  "profiler_ticks_limit (upd_thread p f s) = profiler_ticks_limit s"
  "cpu_context (upd_thread p f s) = cpu_context s"
  "cr3 (upd_thread p f s) = cr3 s"
  "spawn_eoi_is_necessary (upd_thread p f s) = spawn_eoi_is_necessary s"
  "gramado_ports (upd_thread p f s) = gramado_ports s"
  "ws_callback_ready (upd_thread p f s) = ws_callback_ready s"
  "ws_callback_address (upd_thread p f s) = ws_callback_address s"
  "rr_residue (upd_thread p f s) = rr_residue s"
  "heap (upd_thread p f s) = heap s"
  "paging (upd_thread p f s) = paging s"
  "sys_time_ms (upd_thread p f s) = sys_time_ms s"
  "timer (upd_thread p f s) = timer s"
  by (simp_all add: upd_thread_def)

lemma upd_msg_frame [simp]:
  "threadList (upd_msg p f s) = threadList s"
  "tmem (upd_msg p f s) = tmem s"
  "processList (upd_msg p f s) = processList s"
  "pmem (upd_msg p f s) = pmem s"
  "umem (upd_msg p f s) = umem s"
  "current_thread (upd_msg p f s) = current_thread s"
  "foreground_thread (upd_msg p f s) = foreground_thread s"
  "timeout_thread (upd_msg p f s) = timeout_thread s"
  "InitThread (upd_msg p f s) = InitThread s"
  "current_pid (upd_msg p f s) = current_pid s"
  "jiffies (upd_msg p f s) = jiffies s"
  "DS_initialized (upd_msg p f s) = DS_initialized s"
  "DS_tid (upd_msg p f s) = DS_tid s"
  "UP_IdleThread (upd_msg p f s) = UP_IdleThread s"
  "UP_CurrentThread (upd_msg p f s) = UP_CurrentThread s"
  "UP_threads_counter (upd_msg p f s) = UP_threads_counter s"
  "sched_initialized (upd_msg p f s) = sched_initialized s"
  "sched_policy (upd_msg p f s) = sched_policy s"
  "rr_round_counter (upd_msg p f s) = rr_round_counter s"
  "sched_flags (upd_msg p f s) = sched_flags s"
  "g_scheduler_status (upd_msg p f s) = g_scheduler_status s"
  "system_state (upd_msg p f s) = system_state s"
  "currentq (upd_msg p f s) = currentq s"
  "pq (upd_msg p f s) = pq s"
  "qList (upd_msg p f s) = qList s"
  "task_switch_status (upd_msg p f s) = task_switch_status s"
  "DispatchCountBlock (upd_msg p f s) = DispatchCountBlock s"
  "dead_thread_collector_flag (upd_msg p f s) = dead_thread_collector_flag s"
  "dead_thread_collector_status (upd_msg p f s) = dead_thread_collector_status s"
  "sys_time_hz (upd_msg p f s) = sys_time_hz s"
  "profiler_ticks_limit (upd_msg p f s) = profiler_ticks_limit s"
  "cpu_context (upd_msg p f s) = cpu_context s"
  "cr3 (upd_msg p f s) = cr3 s"
  "spawn_eoi_is_necessary (upd_msg p f s) = spawn_eoi_is_necessary s"
  "gramado_ports (upd_msg p f s) = gramado_ports s"
  "ws_callback_ready (upd_msg p f s) = ws_callback_ready s"
  "ws_callback_address (upd_msg p f s) = ws_callback_address s"
  "rr_residue (upd_msg p f s) = rr_residue s"
  "heap (upd_msg p f s) = heap s"
  "paging (upd_msg p f s) = paging s"
  "sys_time_ms (upd_msg p f s) = sys_time_ms s"
  "timer (upd_msg p f s) = timer s"
  by (simp_all add: upd_msg_def)

lemma upd_process_frame [simp]:
  "threadList (upd_process p f s) = threadList s"
  "tmem (upd_process p f s) = tmem s"
  "mmem (upd_process p f s) = mmem s"
  "processList (upd_process p f s) = processList s"
  "umem (upd_process p f s) = umem s"
  "current_thread (upd_process p f s) = current_thread s"
  "foreground_thread (upd_process p f s) = foreground_thread s"
  "timeout_thread (upd_process p f s) = timeout_thread s"
  "InitThread (upd_process p f s) = InitThread s"
  "current_pid (upd_process p f s) = current_pid s"
  "jiffies (upd_process p f s) = jiffies s"
  "DS_initialized (upd_process p f s) = DS_initialized s"
  "DS_tid (upd_process p f s) = DS_tid s"
  "UP_IdleThread (upd_process p f s) = UP_IdleThread s"
  "UP_CurrentThread (upd_process p f s) = UP_CurrentThread s"
  "UP_threads_counter (upd_process p f s) = UP_threads_counter s"
  "sched_initialized (upd_process p f s) = sched_initialized s"
  "sched_policy (upd_process p f s) = sched_policy s"
  "rr_round_counter (upd_process p f s) = rr_round_counter s"
  "sched_flags (upd_process p f s) = sched_flags s"
  "g_scheduler_status (upd_process p f s) = g_scheduler_status s"
  "system_state (upd_process p f s) = system_state s"
  "currentq (upd_process p f s) = currentq s"
  "pq (upd_process p f s) = pq s"
  "qList (upd_process p f s) = qList s"
  "task_switch_status (upd_process p f s) = task_switch_status s"
  "DispatchCountBlock (upd_process p f s) = DispatchCountBlock s"
  "dead_thread_collector_flag (upd_process p f s) = dead_thread_collector_flag s"
  "dead_thread_collector_status (upd_process p f s) = dead_thread_collector_status s"
  "sys_time_hz (upd_process p f s) = sys_time_hz s"
  "profiler_ticks_limit (upd_process p f s) = profiler_ticks_limit s"
  "cpu_context (upd_process p f s) = cpu_context s"
  "cr3 (upd_process p f s) = cr3 s"
  "spawn_eoi_is_necessary (upd_process p f s) = spawn_eoi_is_necessary s"
  "gramado_ports (upd_process p f s) = gramado_ports s"
  "ws_callback_ready (upd_process p f s) = ws_callback_ready s"
  "ws_callback_address (upd_process p f s) = ws_callback_address s"
  "rr_residue (upd_process p f s) = rr_residue s"
  "heap (upd_process p f s) = heap s"
  "paging (upd_process p f s) = paging s"
  "sys_time_ms (upd_process p f s) = sys_time_ms s"
  "timer (upd_process p f s) = timer s"
  by (simp_all add: upd_process_def)

lemma upd_thread_compose: "upd_thread p f (upd_thread p g s) = upd_thread p (f \<circ> g) s"
  by (simp add: upd_thread_def)

end
