(* ===== verification/KThread.thy ===== *)
theory KThread
  imports KState
begin

text \<open>
  Threads: the state changes of core/ke/intake/sched/schedi.c, the thread library of
  core/ke/intake/tlib.c and the accessors of core/ke/intake/thread.c.

  Most operations of schedi.c share a contract: look the tid up in \<open>threadList\<close>, return at once
  when the tid is out of range or the slot does not hold a valid thread, and otherwise change
  fields of that one structure. The locale \<open>guarded_thread_op\<close> states the contract and
  \<open>thread_state_op\<close> the case of the operations that move the thread to a fixed state; each
  do_thread_...() is an instance.
\<close>

section \<open>State changes (schedi.c)\<close>

definition do_credits :: "ptr \<Rightarrow> kstate \<Rightarrow> kstate" where
  "do_credits thread s =
    (if thread = NULL then s
     else if t_used (tmem s thread) \<noteq> TRUE then s
     else if t_magic (tmem s thread) \<noteq> 1234 then s
     else upd_thread thread (\<lambda>t. t\<lparr>t_credits := t_credits t + 1\<rparr>) s)"

definition do_credits_by_tid :: "int \<Rightarrow> kstate \<Rightarrow> kstate" where
  "do_credits_by_tid tid s =
    (if tid < 0 \<or> tid \<ge> THREAD_COUNT_MAX then s
     else let thread = threadList s tid in
       if thread \<noteq> NULL then do_credits thread s else s)"

definition do_thread_blocked :: "int \<Rightarrow> kstate \<Rightarrow> kstate" where
  "do_thread_blocked tid s =
    (if tid < 0 \<or> tid \<ge> THREAD_COUNT_MAX then s
     else let t = threadList s tid in
       if t = NULL then s
       else if t_used (tmem s t) \<noteq> TRUE then s
       else if t_magic (tmem s t) \<noteq> 1234 then s
       else upd_thread t (\<lambda>r. r\<lparr>t_state := BLOCKED, t_blocked_jiffy := jiffies s\<rparr>) s)"

definition do_thread_dead :: "int \<Rightarrow> kstate \<Rightarrow> kstate" where
  "do_thread_dead tid s =
    (if tid < 0 \<or> tid \<ge> THREAD_COUNT_MAX then s
     else let t = threadList s tid in
       if t = NULL then s
       else if t_used (tmem s t) \<noteq> TRUE then s
       else if t_magic (tmem s t) \<noteq> 1234 then s
       else upd_thread t (\<lambda>r. r\<lparr>t_state := DEAD\<rparr>) s)"

definition do_thread_initialized :: "int \<Rightarrow> kstate \<Rightarrow> kstate" where
  "do_thread_initialized tid s =
    (if tid < 0 \<or> tid \<ge> THREAD_COUNT_MAX then s
     else let t = threadList s tid in
       if t = NULL then s
       else if t_used (tmem s t) \<noteq> TRUE then s
       else if t_magic (tmem s t) \<noteq> 1234 then s
       else upd_thread t (\<lambda>r. r\<lparr>t_state := INITIALIZED\<rparr>) s)"

definition do_thread_ready :: "int \<Rightarrow> kstate \<Rightarrow> kstate" where
  "do_thread_ready tid s =
    (if tid < 0 \<or> tid \<ge> THREAD_COUNT_MAX then s
     else let t = threadList s tid in
       if t = NULL then s
       else if t_used (tmem s t) \<noteq> TRUE then s
       else if t_magic (tmem s t) \<noteq> 1234 then s
       else upd_thread t (\<lambda>r. r\<lparr>t_state := READY, t_ready_jiffy := jiffies s\<rparr>) s)"

definition do_thread_running :: "int \<Rightarrow> kstate \<Rightarrow> kstate" where
  "do_thread_running tid s =
    (if tid < 0 \<or> tid \<ge> THREAD_COUNT_MAX then s
     else let t = threadList s tid in
       if t \<noteq> NULL \<and> t_used (tmem s t) = TRUE \<and> t_magic (tmem s t) = 1234
       then upd_thread t (\<lambda>r. r\<lparr>t_state := RUNNING\<rparr>) s
       else s)"

definition do_thread_standby :: "int \<Rightarrow> kstate \<Rightarrow> kstate" where
  "do_thread_standby tid s =
    (if tid < 0 \<or> tid \<ge> THREAD_COUNT_MAX then s
     else let t = threadList s tid in
       if t = NULL then s
       else if t_used (tmem s t) \<noteq> TRUE then s
       else if t_magic (tmem s t) \<noteq> 1234 then s
       else upd_thread t (\<lambda>r. r\<lparr>t_state := STANDBY\<rparr>) s)"

definition do_thread_waiting :: "int \<Rightarrow> u64 \<Rightarrow> kstate \<Rightarrow> kstate" where
  "do_thread_waiting tid ms s =
    (if tid < 0 \<or> tid \<ge> THREAD_COUNT_MAX then s
     else let t = threadList s tid in
       if t = NULL then s
       else if t_used (tmem s t) \<noteq> TRUE then s
       else if t_magic (tmem s t) \<noteq> 1234 then s
       else let JiffiesToWait = (if ms = 0 then 1 else ms) in
         upd_thread t (\<lambda>r. r\<lparr>t_state := WAITING, t_waiting_jiffy := jiffies s,
           t_wake_jiffy := jiffies s + JiffiesToWait\<rparr>) s)"

definition do_thread_zombie :: "int \<Rightarrow> kstate \<Rightarrow> kstate" where
  "do_thread_zombie tid s =
    (if tid < 0 \<or> tid \<ge> THREAD_COUNT_MAX then s
     else let t = threadList s tid in
       if t = NULL then s
       else if t_used (tmem s t) \<noteq> TRUE then s
       else if t_magic (tmem s t) \<noteq> 1234 then s
       else if tid = INIT_TID then s
       else upd_thread t (\<lambda>r. r\<lparr>t_state := ZOMBIE, t_zombie_jiffy := jiffies s\<rparr>) s)"

definition do_waitpid :: "int \<Rightarrow> kstate \<Rightarrow> int kresult" where
  "do_waitpid pid s =
    (if \<not> pid_ok (current_pid s) then Inl (OutOfBounds ''processList'')
     else let p = processList s (current_pid s) in
       if p = NULL then Inr (-1, s)
       else if p_used (pmem s p) = 1 \<and> p_magic (pmem s p) = 1234 then
         let s1 = upd_process p (\<lambda>r. r\<lparr>p_state := PROCESS_BLOCKED, p_wait4pid := pid\<rparr>) s;
             c = p_control (pmem s1 p)
         in if c = NULL then Inl (NullDeref ''p->control'')
            else Inr (-1, upd_thread c (\<lambda>r. r\<lparr>t_state := BLOCKED\<rparr>) s1)
       else Inr (-1, s))"

definition schediSelectForExecution :: "ptr \<Rightarrow> kstate \<Rightarrow> kstate" where
  "schediSelectForExecution Thread s =
    (if Thread = NULL then s
     else upd_thread Thread (\<lambda>r. r\<lparr>t_state := STANDBY, t_standbyCount := 0\<rparr>) s)"

definition get_current_thread :: "kstate \<Rightarrow> int" where
  "get_current_thread s = current_thread s"

definition set_current_thread :: "int \<Rightarrow> kstate \<Rightarrow> kstate" where
  "set_current_thread tid s =
    (if tid < 0 \<or> tid \<ge> THREAD_COUNT_MAX then s
     else if tid = current_thread s then s
     else let t = threadList s tid in
       if t = NULL then s
       else if t_used (tmem s t) \<noteq> TRUE then s
       else if t_magic (tmem s t) \<noteq> 1234 then s
       else s\<lparr>current_thread := tid\<rparr>)"

definition set_foreground_thread :: "int \<Rightarrow> kstate \<Rightarrow> kstate" where
  "set_foreground_thread tid s =
    (if tid < 0 \<or> tid \<ge> THREAD_COUNT_MAX then s
     else if tid = foreground_thread s then s
     else let t = threadList s tid in
       if t = NULL then s
       else if t_used (tmem s t) \<noteq> TRUE then s
       else if t_magic (tmem s t) \<noteq> 1234 then s
       else s\<lparr>foreground_thread := tid\<rparr>)"

definition wait_for_a_reason :: "int \<Rightarrow> int \<Rightarrow> kstate \<Rightarrow> kstate" where
  "wait_for_a_reason tid reason s =
    (if tid < 0 \<or> tid \<ge> THREAD_COUNT_MAX then s
     else if reason < 0 \<or> reason \<ge> 10 then s
     else let t = threadList s tid in
       if t = NULL then s
       else if t_used (tmem s t) = TRUE \<and> t_magic (tmem s t) = 1234
       then upd_thread t (\<lambda>r. r\<lparr>t_state := WAITING\<rparr>) s
       else s)"

text \<open>Two functions whose bodies are commented out behind a panic.\<close>

definition wakeup_thread_reason :: "int \<Rightarrow> int \<Rightarrow> kstate \<Rightarrow> int kresult" where
  "wakeup_thread_reason tid reason s = Inl (KPanic ''wakeup_thread_reason: #todo'')"

definition wakeup_scan_thread_reason :: "int \<Rightarrow> kstate \<Rightarrow> int kresult" where
  "wakeup_scan_thread_reason reason s = Inl (KPanic ''wakeup_scan_thread_reason: #todo'')"

definition wakeup_thread :: "int \<Rightarrow> kstate \<Rightarrow> kstate" where
  "wakeup_thread tid s =
    (if tid < 0 \<or> tid \<ge> THREAD_COUNT_MAX then s
     else let t = threadList s tid in
       if t = NULL then s
       else if t_used (tmem s t) \<noteq> TRUE then s
       else if t_magic (tmem s t) \<noteq> 1234 then s
       else if t_saved (tmem s t) = FALSE then s
       else if t_state (tmem s t) = READY then s
       else if t_state (tmem s t) = RUNNING then s
       else if t_state (tmem s t) = BLOCKED then s
       else do_thread_ready tid s)"

definition yield :: "int \<Rightarrow> kstate \<Rightarrow> kstate" where
  "yield tid s =
    (if tid < 0 \<or> tid \<ge> THREAD_COUNT_MAX then s
     else let t = threadList s tid in
       if t = NULL then s
       else if t_used (tmem s t) \<noteq> TRUE \<or> t_magic (tmem s t) \<noteq> 1234 then s
       else upd_thread t (\<lambda>r. r\<lparr>t_yield_in_progress := TRUE\<rparr>) s)"

definition sleep_until :: "int \<Rightarrow> u64 \<Rightarrow> kstate \<Rightarrow> kstate" where
  "sleep_until tid ms s =
    (if tid < 0 \<or> tid \<ge> THREAD_COUNT_MAX then s
     else do_thread_waiting tid (if ms = 0 then 1 else ms) s)"

definition sleep :: "int \<Rightarrow> u64 \<Rightarrow> kstate \<Rightarrow> kstate" where
  "sleep tid ms s =
    (if tid < 0 \<or> tid \<ge> THREAD_COUNT_MAX then s
     else let t = threadList s tid in
       if t = NULL then s
       else if t_used (tmem s t) \<noteq> TRUE \<or> t_magic (tmem s t) \<noteq> 1234 then s
       else upd_thread t (\<lambda>r. r\<lparr>t_sleep_in_progress := TRUE, t_desired_sleep_ms := ms\<rparr>) s)"

definition schedi_drop_quantum :: "ptr \<Rightarrow> kstate \<Rightarrow> kstate" where
  "schedi_drop_quantum thread s =
    (if thread = NULL then s
     else if t_magic (tmem s thread) \<noteq> 1234 then s
     else upd_thread thread (\<lambda>r. r\<lparr>t_quantum := QUANTUM_MIN\<rparr>) s)"

section \<open>The thread library (tlib.c)\<close>

definition link_two_threads :: "ptr \<Rightarrow> ptr \<Rightarrow> kstate \<Rightarrow> int \<times> kstate" where
  "link_two_threads primary secondary s =
    (if primary = NULL then (-1, s)
     else if t_magic (tmem s primary) \<noteq> 1234 then (-1, s)
     else if secondary = NULL then (-1, s)
     else if t_magic (tmem s secondary) \<noteq> 1234 then (-1, s)
     else (0, upd_thread secondary (\<lambda>r. r\<lparr>t_link := primary, t_is_linked := TRUE\<rparr>)
            (upd_thread primary (\<lambda>r. r\<lparr>t_link := secondary, t_is_linked := TRUE\<rparr>) s)))"

definition unlink_two_threads :: "ptr \<Rightarrow> ptr \<Rightarrow> kstate \<Rightarrow> int \<times> kstate" where
  "unlink_two_threads primary secondary s =
    (if primary = NULL then (-1, s)
     else if t_magic (tmem s primary) \<noteq> 1234 then (-1, s)
     else if secondary = NULL then (-1, s)
     else if t_magic (tmem s secondary) \<noteq> 1234 then (-1, s)
     else (0, upd_thread secondary (\<lambda>r. r\<lparr>t_link := NULL, t_is_linked := FALSE\<rparr>)
            (upd_thread primary (\<lambda>r. r\<lparr>t_link := NULL, t_is_linked := FALSE\<rparr>) s)))"

definition set_thread_priority :: "ptr \<Rightarrow> u64 \<Rightarrow> kstate \<Rightarrow> kstate" where
  "set_thread_priority t priority s =
    (if priority < PRIORITY_MIN then s
     else if priority > PRIORITY_MAX then s
     else if t = NULL then s
     else if t_used (tmem s t) \<noteq> TRUE \<or> t_magic (tmem s t) \<noteq> 1234 then s
     else let OldPriority = t_priority (tmem s t); BasePriority = t_base_priority (tmem s t) in
       if priority = OldPriority then s
       else if priority < BasePriority then s
       else let
         s1 = (if priority > PRIORITY_MAX
               then upd_thread t (\<lambda>r. r\<lparr>t_priority := PRIORITY_MAX\<rparr>) s else s);
         s2 = (if priority \<noteq> OldPriority
               then upd_thread t (\<lambda>r. r\<lparr>t_priority := priority\<rparr>) s1 else s1);
         s3 = (if t_quantum (tmem s2 t) < QUANTUM_MIN
               then upd_thread t (\<lambda>r. r\<lparr>t_quantum := QUANTUM_MIN\<rparr>) s2 else s2)
       in if t_quantum (tmem s3 t) > QUANTUM_MAX
          then upd_thread t (\<lambda>r. r\<lparr>t_quantum := QUANTUM_MAX\<rparr>) s3 else s3)"

definition threadi_power :: "ptr \<Rightarrow> u64 \<Rightarrow> kstate \<Rightarrow> kstate" where
  "threadi_power t priority s =
    (if t = NULL then s
     else if t_used (tmem s t) \<noteq> TRUE \<or> t_magic (tmem s t) \<noteq> 1234 then s
     else let
       s1 = upd_thread t (\<lambda>r. r\<lparr>t_priority := PRIORITY_MAX\<rparr>) s;
       s2 = (if t_priority (tmem s1 t) \<ge> PRIORITY_MIN \<and> t_priority (tmem s1 t) \<le> PRIORITY_MAX
             then upd_thread t (\<lambda>r. r\<lparr>t_priority := priority\<rparr>) s1 else s1)
     in upd_thread t (\<lambda>r. r\<lparr>t_quantum := QUANTUM_MAX\<rparr>) s2)"

definition release :: "int \<Rightarrow> kstate \<Rightarrow> kstate" where
  "release tid s = (if tid < 0 \<or> tid \<ge> THREAD_COUNT_MAX then s else do_thread_ready tid s)"

definition SetThread_PML4PA :: "ptr \<Rightarrow> u64 \<Rightarrow> kstate \<Rightarrow> kstate" where
  "SetThread_PML4PA thread pa s =
    (if thread = NULL then s else upd_thread thread (\<lambda>r. r\<lparr>t_pml4_PA := pa\<rparr>) s)"

definition check_for_dead_thread_collector :: "kstate \<Rightarrow> kstate" where
  "check_for_dead_thread_collector s =
    (if dead_thread_collector_flag s = 1 then s else s\<lparr>dead_thread_collector_flag := FALSE\<rparr>)"

text \<open>
  kill_thread() calls panic() before it looks at its argument; the code after the call, which
  marks the structure DEAD and invalid, is never reached.
\<close>

definition kill_thread :: "int \<Rightarrow> kstate \<Rightarrow> unit kresult" where
  "kill_thread tid s = Inl (KPanic ''kill_thread: #debug'')"

definition dead_thread_collector_step :: "ptr \<Rightarrow> int \<Rightarrow> kstate \<Rightarrow> kfault + kstate" where
  "dead_thread_collector_step Idle i s =
    (let Target = threadList s i in
     if Target \<noteq> NULL \<and> t_state (tmem s Target) = ZOMBIE \<and> t_used (tmem s Target) = TRUE
        \<and> t_magic (tmem s Target) = 1234
     then (if Target = Idle then Inl (KPanic ''dead_thread_collector: Idle thread'')
           else if t_tid (tmem s Target) = current_thread s
           then Inl (KPanic ''dead_thread_collector: current_thread'')
           else kbind (kill_thread (t_tid (tmem s Target)) s) (\<lambda>(_, s'). Inr s'))
     else Inr s)"

definition dead_thread_collector :: "kstate \<Rightarrow> kfault + kstate" where
  "dead_thread_collector s =
    (let Idle = UP_IdleThread s in
     if Idle = NULL then Inl (KPanic ''dead_thread_collector: Idle'')
     else if t_magic (tmem s Idle) \<noteq> 1234 then Inl (KPanic ''dead_thread_collector: Idle validation'')
     else kfold (dead_thread_collector_step Idle) (slots 0 THREAD_COUNT_MAX) s)"

definition kill_all_threads :: "kstate \<Rightarrow> kfault + kstate" where
  "kill_all_threads s =
    kfold (\<lambda>i s. kbind (kill_thread i s) (\<lambda>(_, s'). Inr s')) (slots 1 THREAD_COUNT_MAX) s"

definition kill_zombie_threads_step :: "int \<Rightarrow> kstate \<Rightarrow> kfault + kstate" where
  "kill_zombie_threads_step i s =
    (let t = threadList s i in
     if t \<noteq> NULL then
       if t_used (tmem s t) = TRUE then
         if t_magic (tmem s t) = 1234 then
           if t_state (tmem s t) = ZOMBIE
           then kbind (kill_thread (t_tid (tmem s t)) s) (\<lambda>(_, s'). Inr s')
           else Inr s
         else Inr s
       else Inr s
     else Inr s)"

definition kill_zombie_threads :: "kstate \<Rightarrow> kfault + kstate" where
  "kill_zombie_threads s = kfold kill_zombie_threads_step (slots 0 THREAD_COUNT_MAX) s"

section \<open>Accessors (thread.c)\<close>

definition FindReadyThread :: "kstate \<Rightarrow> ptr" where
  "FindReadyThread s =
    (case find (\<lambda>i. threadList s i \<noteq> NULL \<and> t_used (tmem s (threadList s i)) = TRUE
                 \<and> t_magic (tmem s (threadList s i)) = 1234
                 \<and> t_state (tmem s (threadList s i)) = READY) (slots 0 THREAD_COUNT_MAX) of
       Some i \<Rightarrow> threadList s i
     | None \<Rightarrow> NULL)"

definition GetThreadState :: "ptr \<Rightarrow> kstate \<Rightarrow> int" where
  "GetThreadState thread s =
    (if thread = NULL then -1
     else if t_used (tmem s thread) \<noteq> TRUE then -1
     else thread_state_code (t_state (tmem s thread)))"

definition GetThreadType :: "ptr \<Rightarrow> kstate \<Rightarrow> int" where
  "GetThreadType thread s =
    (if thread = NULL then -1
     else if t_used (tmem s thread) \<noteq> TRUE then -1
     else t_type (tmem s thread))"

definition SetCurrentTID :: "int \<Rightarrow> kstate \<Rightarrow> kstate" where
  "SetCurrentTID tid s = s\<lparr>current_thread := tid\<rparr>"

definition GetCurrentTID :: "kstate \<Rightarrow> int" where
  "GetCurrentTID s = current_thread s"

definition GetThreadByTID :: "int \<Rightarrow> kstate \<Rightarrow> ptr" where
  "GetThreadByTID tid s =
    (if tid < 0 \<or> tid \<ge> THREAD_COUNT_MAX then NULL else threadList s tid)"

definition GetCurrentThread :: "kstate \<Rightarrow> ptr" where
  "GetCurrentThread s =
    (if current_thread s < 0 then NULL else GetThreadByTID (current_thread s) s)"

definition GetForegroundThread :: "kstate \<Rightarrow> ptr" where
  "GetForegroundThread s =
    (if foreground_thread s < 0 then NULL else GetThreadByTID (foreground_thread s) s)"

definition GetDSThread :: "kstate \<Rightarrow> ptr" where
  "GetDSThread s = (if DS_initialized s \<noteq> TRUE then NULL else GetThreadByTID (DS_tid s) s)"

definition SelectForExecution :: "ptr \<Rightarrow> kstate \<Rightarrow> kstate" where
  "SelectForExecution Thread s =
    (if Thread = NULL then s else schediSelectForExecution Thread s)"

section \<open>The contract of the guarded operations\<close>

lemmas slot_defs = slot_valid_def tid_ok_def thread_valid_def

text \<open>
  What no thread operation may touch: the identity of the structure (used, magic, tid) and its
  message queue. Both are what other components rely on.
\<close>

definition same_identity :: "thread_d \<Rightarrow> thread_d \<Rightarrow> bool" where
  "same_identity a b \<longleftrightarrow> t_used a = t_used b \<and> t_magic a = t_magic b \<and> t_tid a = t_tid b
     \<and> t_MsgQueue a = t_MsgQueue b \<and> t_MsgQueueHead a = t_MsgQueueHead b
     \<and> t_MsgQueueTail a = t_MsgQueueTail b"

lemma same_identity_refl [simp]: "same_identity t t"
  by (simp add: same_identity_def)

text \<open>
  The well-formedness of the thread table: the structure in slot \<open>i\<close> carries the tid \<open>i\<close>, so two
  slots never share a valid structure.
\<close>

definition threads_wf :: "kstate \<Rightarrow> bool" where
  "threads_wf s \<longleftrightarrow> (\<forall>i. slot_valid s i \<longrightarrow> t_tid (tmem s (threadList s i)) = i)"

lemma threads_wf_inj:
  assumes "threads_wf s" "slot_valid s i" "slot_valid s j" "threadList s i = threadList s j"
  shows "i = j"
  using assms unfolding threads_wf_def by metis

text \<open>An update that keeps identities keeps the table's validity and its well-formedness.\<close>

lemma slot_valid_upd_thread [simp]:
  assumes "\<And>t. same_identity (f t) t"
  shows "slot_valid (upd_thread p f s) i = slot_valid s i"
  using assms unfolding slot_defs same_identity_def by simp

lemma threads_wf_upd_thread [simp]:
  assumes "\<And>t. same_identity (f t) t"
  shows "threads_wf (upd_thread p f s) = threads_wf s"
  unfolding threads_wf_def slot_valid_upd_thread[OF assms]
  using assms by (auto simp: same_identity_def)

locale guarded_thread_op =
  fixes operation :: "int \<Rightarrow> kstate \<Rightarrow> kstate"
    and update :: "kstate \<Rightarrow> int \<Rightarrow> thread_d \<Rightarrow> thread_d"
  assumes operation_eq: "operation tid s =
      (if slot_valid s tid then upd_thread (threadList s tid) (update s tid) s else s)"
    and update_identity: "same_identity (update s tid t) t"
begin

lemma noop_on_invalid: "\<not> slot_valid s tid \<Longrightarrow> operation tid s = s"
  by (simp add: operation_eq)

lemma on_valid:
  "slot_valid s tid \<Longrightarrow> tmem (operation tid s) (threadList s tid) = update s tid (tmem s (threadList s tid))"
  by (simp add: operation_eq)

lemma other_threads: "p \<noteq> threadList s tid \<Longrightarrow> tmem (operation tid s) p = tmem s p"
  by (simp add: operation_eq)

lemma table_frame: "threadList (operation tid s) = threadList s"
  "current_thread (operation tid s) = current_thread s"
  "foreground_thread (operation tid s) = foreground_thread s"
  "mmem (operation tid s) = mmem s" "jiffies (operation tid s) = jiffies s"
  "pmem (operation tid s) = pmem s" "processList (operation tid s) = processList s"
  "UP_IdleThread (operation tid s) = UP_IdleThread s" "heap (operation tid s) = heap s"
  "current_pid (operation tid s) = current_pid s"
  by (simp_all add: operation_eq)

lemma keeps_identity: "same_identity (tmem (operation tid s) p) (tmem s p)"
  by (simp add: operation_eq update_identity)

lemma keeps_validity: "slot_valid (operation tid s) i = slot_valid s i"
  by (simp add: operation_eq update_identity)

lemma keeps_threads_wf: "threads_wf (operation tid s) = threads_wf s"
  by (simp add: operation_eq update_identity)

end

text \<open>The operations that move a thread to one state, whatever state it was in.\<close>

locale thread_state_op = guarded_thread_op operation update
  for operation :: "int \<Rightarrow> kstate \<Rightarrow> kstate" and update :: "kstate \<Rightarrow> int \<Rightarrow> thread_d \<Rightarrow> thread_d" +
  fixes target :: thread_state
  assumes update_state: "t_state (update s tid t) = target"
begin

lemma reaches: "slot_valid s tid \<Longrightarrow> t_state (tmem (operation tid s) (threadList s tid)) = target"
  by (simp add: on_valid update_state)

lemma other_states:
  assumes "threads_wf s" "slot_valid s i" "i \<noteq> tid"
  shows "tmem (operation tid s) (threadList s i) = tmem s (threadList s i)"
proof (cases "slot_valid s tid")
  case True
  then have "threadList s i \<noteq> threadList s tid"
    using threads_wf_inj[OF assms(1,2)] assms(3) by blast
  then show ?thesis by (rule other_threads)
next
  case False
  then show ?thesis by (simp add: noop_on_invalid)
qed

lemma state_change:
  assumes "threads_wf s" "slot_valid s i"
  shows "t_state (tmem (operation tid s) (threadList s i)) =
    (if i = tid then target else t_state (tmem s (threadList s i)))"
  using assms reaches other_states by (cases "i = tid") auto

end

text \<open>Each operation in the form of the contract; the interpretations discharge the laws.\<close>

interpretation blocked_op: thread_state_op do_thread_blocked
    "\<lambda>s tid r. r\<lparr>t_state := BLOCKED, t_blocked_jiffy := jiffies s\<rparr>" BLOCKED
  by unfold_locales (auto simp: do_thread_blocked_def slot_defs same_identity_def Let_def)

interpretation dead_op: thread_state_op do_thread_dead
    "\<lambda>s tid r. r\<lparr>t_state := DEAD\<rparr>" DEAD
  by unfold_locales (auto simp: do_thread_dead_def slot_defs same_identity_def Let_def)

interpretation initialized_op: thread_state_op do_thread_initialized
    "\<lambda>s tid r. r\<lparr>t_state := INITIALIZED\<rparr>" INITIALIZED
  by unfold_locales (auto simp: do_thread_initialized_def slot_defs same_identity_def Let_def)

interpretation ready_op: thread_state_op do_thread_ready
    "\<lambda>s tid r. r\<lparr>t_state := READY, t_ready_jiffy := jiffies s\<rparr>" READY
  by unfold_locales (auto simp: do_thread_ready_def slot_defs same_identity_def Let_def)

interpretation running_op: thread_state_op do_thread_running
    "\<lambda>s tid r. r\<lparr>t_state := RUNNING\<rparr>" RUNNING
  by unfold_locales (auto simp: do_thread_running_def slot_defs same_identity_def Let_def)

interpretation standby_op: thread_state_op do_thread_standby
    "\<lambda>s tid r. r\<lparr>t_state := STANDBY\<rparr>" STANDBY
  by unfold_locales (auto simp: do_thread_standby_def slot_defs same_identity_def Let_def)

interpretation waiting_op: thread_state_op "\<lambda>tid. do_thread_waiting tid ms"
    "\<lambda>s tid r. r\<lparr>t_state := WAITING, t_waiting_jiffy := jiffies s,
       t_wake_jiffy := jiffies s + (if ms = 0 then 1 else ms)\<rparr>" WAITING for ms
  by unfold_locales (auto simp: do_thread_waiting_def slot_defs same_identity_def Let_def)

interpretation sleep_until_op: thread_state_op "\<lambda>tid. sleep_until tid ms"
    "\<lambda>s tid r. r\<lparr>t_state := WAITING, t_waiting_jiffy := jiffies s,
       t_wake_jiffy := jiffies s + (if ms = 0 then 1 else ms)\<rparr>" WAITING for ms
  by unfold_locales (auto simp: sleep_until_def waiting_op.operation_eq slot_valid_def tid_ok_def
    same_identity_def)

interpretation release_op: thread_state_op release
    "\<lambda>s tid r. r\<lparr>t_state := READY, t_ready_jiffy := jiffies s\<rparr>" READY
  by unfold_locales (auto simp: release_def ready_op.operation_eq slot_valid_def tid_ok_def
    same_identity_def)

interpretation zombie_op: guarded_thread_op do_thread_zombie
    "\<lambda>s tid r. if tid = INIT_TID then r else r\<lparr>t_state := ZOMBIE, t_zombie_jiffy := jiffies s\<rparr>"
  by unfold_locales (auto simp: do_thread_zombie_def slot_defs same_identity_def Let_def upd_thread_def)

interpretation yield_op: guarded_thread_op yield
    "\<lambda>s tid r. r\<lparr>t_yield_in_progress := TRUE\<rparr>"
  by unfold_locales (auto simp: yield_def slot_defs same_identity_def Let_def)

interpretation sleep_op: guarded_thread_op "\<lambda>tid. sleep tid ms"
    "\<lambda>s tid r. r\<lparr>t_sleep_in_progress := TRUE, t_desired_sleep_ms := ms\<rparr>" for ms
  by unfold_locales (auto simp: sleep_def slot_defs same_identity_def Let_def)

interpretation credits_op: guarded_thread_op do_credits_by_tid
    "\<lambda>s tid r. r\<lparr>t_credits := t_credits r + 1\<rparr>"
  by unfold_locales (auto simp: do_credits_by_tid_def do_credits_def slot_defs same_identity_def Let_def)

interpretation reason_op: guarded_thread_op "\<lambda>tid. wait_for_a_reason tid reason"
    "\<lambda>s tid r. if reason < 0 \<or> reason \<ge> 10 then r else r\<lparr>t_state := WAITING\<rparr>" for reason
  by unfold_locales
    (auto simp: wait_for_a_reason_def slot_defs same_identity_def Let_def upd_thread_def)

text \<open>wakeup_thread() leaves alone a thread without a saved context and one that is not waiting.\<close>

definition wakeable :: "thread_d \<Rightarrow> bool" where
  "wakeable t \<longleftrightarrow> t_saved t \<noteq> FALSE \<and> t_state t \<notin> {READY, RUNNING, BLOCKED}"

interpretation wakeup_op: guarded_thread_op wakeup_thread
    "\<lambda>s tid r. if wakeable r then r\<lparr>t_state := READY, t_ready_jiffy := jiffies s\<rparr> else r"
proof unfold_locales
  fix tid s t
  show "wakeup_thread tid s = (if slot_valid s tid then upd_thread (threadList s tid)
      (\<lambda>r. if wakeable r then r\<lparr>t_state := READY, t_ready_jiffy := jiffies s\<rparr> else r) s else s)"
    unfolding wakeup_thread_def ready_op.operation_eq
    by (auto simp: slot_defs wakeable_def Let_def upd_thread_def)
  show "same_identity (if wakeable t then t\<lparr>t_state := READY, t_ready_jiffy := jiffies s\<rparr> else t) t"
    by (simp add: same_identity_def)
qed

section \<open>Properties\<close>

text \<open>
  wakeup_thread() moves exactly one thread, the one asked for, to READY, and only when it is
  in the table, has a saved context and is neither READY, RUNNING nor BLOCKED; every other valid
  thread keeps its state.
\<close>

theorem wakeup_thread_states:
  assumes "threads_wf s" and "slot_valid s i"
  shows "t_state (tmem (wakeup_thread tid s) (threadList s i)) =
    (if i = tid \<and> wakeable (tmem s (threadList s i)) then READY
     else t_state (tmem s (threadList s i)))"
proof (cases "i = tid")
  case True
  then show ?thesis using assms wakeup_op.on_valid[of s tid] by simp
next
  case False
  then have "slot_valid s tid \<Longrightarrow> threadList s i \<noteq> threadList s tid"
    using threads_wf_inj[OF assms] by blast
  then show ?thesis using False
    by (cases "slot_valid s tid") (simp_all add: wakeup_op.other_threads wakeup_op.noop_on_invalid)
qed

text \<open>
  sleep_until() puts the thread in WAITING and schedules its wake up between one and \<open>ms\<close>
  jiffies after now: a request of 0 ms counts as 1 (the sum wraps at 64 bits as in the source).
  Every other thread of a well-formed table is untouched.
\<close>

lemma sleep_until_schedules:
  assumes "threads_wf s" and "slot_valid s tid"
  shows "t_state (tmem (sleep_until tid ms s) (threadList s tid)) = WAITING
    \<and> t_wake_jiffy (tmem (sleep_until tid ms s) (threadList s tid)) - jiffies s = max 1 ms
    \<and> t_waiting_jiffy (tmem (sleep_until tid ms s) (threadList s tid)) = jiffies s
    \<and> (\<forall>i. slot_valid s i \<and> i \<noteq> tid \<longrightarrow>
          tmem (sleep_until tid ms s) (threadList s i) = tmem s (threadList s i))"
proof -
  have "(if ms = 0 then 1 else ms) = max 1 ms"
    by (simp add: word_max_one)
  then show ?thesis
    using assms sleep_until_op.on_valid[OF assms(2), of ms] sleep_until_op.other_states[OF assms(1)]
    by auto
qed

text \<open>The effect of set_thread_priority() on the structure, in one step.\<close>

definition priority_update :: "u64 \<Rightarrow> thread_d \<Rightarrow> thread_d" where
  "priority_update p r = r\<lparr>t_priority := p, t_quantum := min QUANTUM_MAX (max QUANTUM_MIN (t_quantum r))\<rparr>"

lemma quantum_unchanged: "q = t_quantum r \<Longrightarrow> r\<lparr>t_priority := p, t_quantum := q\<rparr> = r\<lparr>t_priority := p\<rparr>"
  by simp

lemma set_thread_priority_eq:
  "set_thread_priority t p s =
    (if PRIORITY_MIN \<le> p \<and> p \<le> PRIORITY_MAX \<and> t \<noteq> NULL \<and> thread_valid (tmem s t)
        \<and> p \<noteq> t_priority (tmem s t) \<and> t_base_priority (tmem s t) \<le> p
     then upd_thread t (priority_update p) s else s)"
proof (cases "PRIORITY_MIN \<le> p \<and> p \<le> PRIORITY_MAX \<and> t \<noteq> NULL \<and> thread_valid (tmem s t)
        \<and> p \<noteq> t_priority (tmem s t) \<and> t_base_priority (tmem s t) \<le> p")
  case True
  have q: "QUANTUM_MIN \<le> QUANTUM_MAX" by (simp add: quantum_defs)
  have "\<not> p < PRIORITY_MIN" "\<not> p > PRIORITY_MAX" "\<not> p < t_base_priority (tmem s t)"
    "t \<noteq> NULL" "t_used (tmem s t) = TRUE" "t_magic (tmem s t) = 1234" "p \<noteq> t_priority (tmem s t)"
    using True by (auto simp: thread_valid_def)
  then have "set_thread_priority t p s = upd_thread t (priority_update p) s"
    unfolding set_thread_priority_def Let_def
    using q by (simp add: upd_thread_def priority_update_def min_def max_def not_less quantum_unchanged)
  then show ?thesis using True by simp
next
  case False
  then have "set_thread_priority t p s = s"
    unfolding set_thread_priority_def Let_def thread_valid_def not_less[symmetric]
    by (cases "p < PRIORITY_MIN"; cases "p > PRIORITY_MAX"; cases "t = NULL";
        cases "t_used (tmem s t) = TRUE"; cases "t_magic (tmem s t) = 1234";
        cases "p = t_priority (tmem s t)"; simp)
  then show ?thesis using False by auto
qed

text \<open>
  set_thread_priority() never leaves the limits: it keeps a priority between the thread's base
  priority and PRIORITY_MAX when it was there before, and when it changes the priority it also
  brings the quantum into QUANTUM_MIN..QUANTUM_MAX. It accepts exactly the requests inside the
  limits that are not below the base priority; any other leaves the structure unchanged.
\<close>

lemma set_thread_priority_limits:
  assumes "t \<noteq> NULL" and "thread_valid (tmem s t)"
    and "t_base_priority (tmem s t) \<le> t_priority (tmem s t)" and "t_priority (tmem s t) \<le> PRIORITY_MAX"
  shows "t_base_priority (tmem s t) \<le> t_priority (tmem (set_thread_priority t p s) t)
    \<and> t_priority (tmem (set_thread_priority t p s) t) \<le> PRIORITY_MAX
    \<and> (t_priority (tmem (set_thread_priority t p s) t) = p
        \<longleftrightarrow> p = t_priority (tmem s t)
            \<or> PRIORITY_MIN \<le> p \<and> p \<le> PRIORITY_MAX \<and> t_base_priority (tmem s t) \<le> p)
    \<and> (t_priority (tmem (set_thread_priority t p s) t) \<noteq> t_priority (tmem s t)
        \<longrightarrow> QUANTUM_MIN \<le> t_quantum (tmem (set_thread_priority t p s) t)
          \<and> t_quantum (tmem (set_thread_priority t p s) t) \<le> QUANTUM_MAX)
    \<and> (t_priority (tmem (set_thread_priority t p s) t) = t_priority (tmem s t)
        \<longrightarrow> set_thread_priority t p s = s)"
proof -
  have "QUANTUM_MIN \<le> QUANTUM_MAX" by (simp add: quantum_defs)
  then show ?thesis using assms unfolding set_thread_priority_eq
    by (auto simp: priority_update_def)
qed

section \<open>A concrete kernel state\<close>

text \<open>
  A running system with two threads, tid 0 and tid 100, each with its ring of 64 message
  structures: the input the witnesses of the development evaluate the operations on.
\<close>

definition demo_thread :: "ptr \<Rightarrow> thread_d" where
  "demo_thread p = zero_thread\<lparr>t_used := TRUE, t_magic := 1234, t_tid := int p - 1,
     t_state := WAITING, t_saved := TRUE, t_base_priority := 4, t_priority := 4, t_quantum := 9,
     t_MsgQueue := \<lambda>i. 64 * p + nat i\<rparr>"

definition demo :: kstate where
  "demo = bss_state\<lparr>threadList := (\<lambda>tid. if tid = 0 \<or> tid = 100 then nat tid + 1 else 0),
     tmem := demo_thread, mmem := (\<lambda>_. zero_msg\<lparr>m_used := TRUE, m_magic := 1234\<rparr>),
     jiffies := 500, current_thread := 100, DS_initialized := TRUE, DS_tid := 100,
     UP_IdleThread := 1\<rparr>"

lemma demo_simps [simp]:
  "threadList demo tid = (if tid = 0 \<or> tid = 100 then nat tid + 1 else 0)"
  "tmem demo = demo_thread" "mmem demo = (\<lambda>_. zero_msg\<lparr>m_used := TRUE, m_magic := 1234\<rparr>)"
  "current_thread demo = 100" "DS_tid demo = 100" "DS_initialized demo = TRUE" "jiffies demo = 500"
  "UP_IdleThread demo = 1" "umem demo a = 0"
  by (simp_all add: demo_def bss_state_def)

lemma demo_thread_simps [simp]:
  "t_used (demo_thread p) = TRUE" "t_magic (demo_thread p) = 1234" "t_tid (demo_thread p) = int p - 1"
  "t_state (demo_thread p) = WAITING" "t_saved (demo_thread p) = TRUE"
  "t_base_priority (demo_thread p) = 4" "t_priority (demo_thread p) = 4" "t_quantum (demo_thread p) = 9"
  "t_MsgQueue (demo_thread p) i = 64 * p + nat i"
  "t_MsgQueueHead (demo_thread p) = 0" "t_MsgQueueTail (demo_thread p) = 0"
  by (simp_all add: demo_thread_def zero_thread_def)

lemma demo_valid [simp]: "slot_valid demo tid \<longleftrightarrow> tid = 0 \<or> tid = 100"
  by (auto simp: slot_defs THREAD_COUNT_MAX_def)

lemma demo_threads_wf [simp]: "threads_wf demo"
  by (auto simp: threads_wf_def)

theorem wakeup_thread_states_witness: "t_state (tmem (wakeup_thread 100 demo) 101) = READY"
  using wakeup_thread_states[of demo 100 100] by (simp add: wakeable_def)

lemma sleep_until_schedules_example:
  "t_wake_jiffy (tmem (sleep_until 100 0 demo) 101) - 500 = 1
   \<and> tmem (sleep_until 100 0 demo) 1 = demo_thread 1"
proof -
  have *: "t_wake_jiffy (tmem (sleep_until 100 0 demo) (threadList demo 100)) - jiffies demo = max 1 0"
    "\<forall>i. slot_valid demo i \<and> i \<noteq> 100
       \<longrightarrow> tmem (sleep_until 100 0 demo) (threadList demo i) = tmem demo (threadList demo i)"
    using sleep_until_schedules[of demo 100 0] by auto
  show ?thesis using *(1) *(2)[rule_format, of 0] by (simp add: max_def)
qed

lemma set_thread_priority_limits_example:
  "t_priority (tmem (set_thread_priority 101 6 demo) 101) = 6
   \<and> t_quantum (tmem (set_thread_priority 101 6 demo) 101) \<le> QUANTUM_MAX"
  using set_thread_priority_limits[of 101 demo 6] by (simp add: thread_valid_def priority_defs)

end
