(* ===== verification/KFifo.thy ===== *)
theory KFifo
  imports KBase
begin

text \<open>
  The contract of a bounded queue, as a locale over the operations that put and take an element,
  and what a sender of a burst can rely on. The message rings of \<open>KIpc\<close> and the packet buffers of
  \<open>KNet\<close> are its two instances.
\<close>

fun enq_all :: "('a \<Rightarrow> 'q \<Rightarrow> 'q option) \<Rightarrow> 'a list \<Rightarrow> 'q \<Rightarrow> 'q option" where
  "enq_all enq [] q = Some q"
| "enq_all enq (x # xs) q = (case enq x q of None \<Rightarrow> None | Some q' \<Rightarrow> enq_all enq xs q')"

fun deq_all :: "('q \<Rightarrow> ('b \<times> 'q) option) \<Rightarrow> nat \<Rightarrow> 'q \<Rightarrow> ('b list \<times> 'q) option" where
  "deq_all deq 0 q = Some ([], q)"
| "deq_all deq (Suc n) q = (case deq q of None \<Rightarrow> None
     | Some (y, q') \<Rightarrow> (case deq_all deq n q' of None \<Rightarrow> None | Some (ys, q'') \<Rightarrow> Some (y # ys, q'')))"

locale bounded_fifo =
  fixes enq :: "'a \<Rightarrow> 'q \<Rightarrow> 'q option" and deq :: "'q \<Rightarrow> ('b \<times> 'q) option"
    and contents :: "'q \<Rightarrow> 'b list" and wire :: "'a \<Rightarrow> 'b" and accepts :: "'a \<Rightarrow> bool"
    and good :: "'q \<Rightarrow> bool" and room :: nat
  assumes enq_law: "good q \<Longrightarrow> accepts x \<Longrightarrow> length (contents q) < room
      \<Longrightarrow> \<exists>q'. enq x q = Some q' \<and> good q' \<and> contents q' = contents q @ [wire x]"
    and deq_law: "good q \<Longrightarrow> contents q = y # ys
      \<Longrightarrow> \<exists>q'. deq q = Some (y, q') \<and> good q' \<and> contents q' = ys"
begin

lemma enq_all_law:
  assumes "good q" "\<forall>x\<in>set xs. accepts x" "length (contents q) + length xs \<le> room"
  shows "\<exists>q'. enq_all enq xs q = Some q' \<and> good q' \<and> contents q' = contents q @ map wire xs"
  using assms
proof (induction xs arbitrary: q)
  case Nil
  then show ?case by simp
next
  case (Cons x xs)
  obtain q1 where q1: "enq x q = Some q1" "good q1" "contents q1 = contents q @ [wire x]"
    using enq_law[of q x] Cons.prems by auto
  with Cons.IH[of q1] Cons.prems show ?case by auto
qed

lemma deq_all_law:
  assumes "good q"
  shows "\<exists>q'. deq_all deq (length (contents q)) q = Some (contents q, q') \<and> good q' \<and> contents q' = []"
  using assms
proof (induction "contents q" arbitrary: q)
  case Nil
  then show ?case by (metis deq_all.simps(1) list.size(3))
next
  case (Cons y ys)
  obtain q1 where q1: "deq q = Some (y, q1)" "good q1" "contents q1 = ys"
    using deq_law[OF Cons.prems Cons.hyps(2)[symmetric]] by blast
  show ?case using Cons.hyps(1)[of q1] q1 Cons.hyps(2)[symmetric] by auto
qed

lemma burst_in_order:
  assumes "good q" "contents q = []" "\<forall>x\<in>set xs. accepts x" "length xs \<le> room"
  shows "\<exists>q1 q2. enq_all enq xs q = Some q1 \<and> deq_all deq (length xs) q1 = Some (map wire xs, q2)
     \<and> good q2 \<and> contents q2 = []"
proof -
  obtain q1 where q1: "enq_all enq xs q = Some q1" "good q1" "contents q1 = map wire xs"
    using enq_all_law[OF assms(1,3)] assms(2,4) by auto
  then show ?thesis using deq_all_law[OF q1(2)] by auto
qed

end

end
