(* ===== verification/KIpc.thy ===== *)
theory KIpc
  imports KThread KFifo
begin

text \<open>
  System messages: core/ke/intake/ipc.c. Every thread owns a ring of 64 message structures that
  create_thread() allocates once; posting fills the structure at \<open>MsgQueueTail\<close>, reading empties
  the one at \<open>MsgQueueHead\<close>. A slot is occupied when its message code is positive; there is no
  count and no full test, so the 65th message overwrites the oldest, and a read of an empty slot
  moves the head on. The message code is an \<open>int\<close>, so the mask with 0xFFFFFFFF and the cast back
  change nothing; the mask is kept where its result is stored in an \<open>unsigned long\<close>.
\<close>

section \<open>Posting\<close>

definition advance :: "int \<Rightarrow> int" where
  "advance i = (let j = i + 1 in if j \<ge> MSG_QUEUE_MAX then 0 else j)"

definition ipc_post_message_to_tid2 ::
  "int \<Rightarrow> int \<Rightarrow> int \<Rightarrow> u64 \<Rightarrow> u64 \<Rightarrow> u64 \<Rightarrow> u64 \<Rightarrow> kstate \<Rightarrow> int kresult" where
  "ipc_post_message_to_tid2 sender_tid receiver_tid msg long1 long2 long3 long4 s =
    (let src_tid = sender_tid AND 0xFFFF; dst_tid = receiver_tid AND 0xFFFF; MessageCode = msg in
     if MessageCode < 0 then Inr (-1, s)
     else if dst_tid < 0 \<or> dst_tid \<ge> THREAD_COUNT_MAX
     then Inl (KPanic ''ipc_post_message_to_tid2: dst_tid'')
     else let t = threadList s dst_tid in
     if t = NULL then Inl (KPanic ''ipc_post_message_to_tid2: t'')
     else if t_used (tmem s t) \<noteq> TRUE \<or> t_magic (tmem s t) \<noteq> 1234
     then Inl (KPanic ''ipc_post_message_to_tid2: t validation'')
     else if t_tid (tmem s t) \<noteq> dst_tid
     then Inl (KPanic ''ipc_post_message_to_tid2: t->tid != dst_tid'')
     else let
       s1 = upd_thread t (\<lambda>r. r\<lparr>t_waiting_for_timeout := TRUE\<rparr>) (s\<lparr>timeout_thread := t\<rparr>);
       tail = t_MsgQueueTail (tmem s1 t)
     in if tail < 0 \<or> tail \<ge> MSG_QUEUE_MAX then Inl (OutOfBounds ''MsgQueue'')
     else let m = t_MsgQueue (tmem s1 t) tail in
     if m = NULL then Inl (KPanic ''ipc_post_message_to_tid2: m'')
     else if m_used (mmem s1 m) \<noteq> TRUE \<or> m_magic (mmem s1 m) \<noteq> 1234
     then Inl (KPanic ''ipc_post_message_to_tid2: m validation'')
     else let
       s2 = upd_msg m (\<lambda>r. r\<lparr>m_opaque_window := NULL, m_msg := MessageCode, m_long1 := long1,
              m_long2 := long2, m_long3 := long3, m_long4 := long4, m_sender_tid := src_tid,
              m_receiver_tid := dst_tid, m_next := NULL\<rparr>) s1
     in Inr (0, upd_thread t (\<lambda>r. r\<lparr>t_MsgQueueTail := advance (t_MsgQueueTail r),
                                   t_isResponder := TRUE\<rparr>) s2))"

definition ipc_post_message_to_tid ::
  "int \<Rightarrow> int \<Rightarrow> int \<Rightarrow> u64 \<Rightarrow> u64 \<Rightarrow> kstate \<Rightarrow> int kresult" where
  "ipc_post_message_to_tid sender_tid receiver_tid msg long1 long2 s =
    (let src_tid = sender_tid AND 0xFFFF; dst_tid = receiver_tid AND 0xFFFF; MessageCode = msg in
     if MessageCode \<le> 0 then Inr (-1, s)
     else if dst_tid < 0 \<or> dst_tid \<ge> THREAD_COUNT_MAX
     then Inl (KPanic ''ipc_post_message_to_tid: dst_tid'')
     else let t = threadList s dst_tid in
     if t = NULL then Inl (KPanic ''ipc_post_message_to_tid: t'')
     else if t_used (tmem s t) \<noteq> TRUE \<or> t_magic (tmem s t) \<noteq> 1234
     then Inl (KPanic ''ipc_post_message_to_tid: t validation'')
     else if t_tid (tmem s t) \<noteq> dst_tid
     then Inl (KPanic ''ipc_post_message_to_tid: t->tid != dst_tid'')
     else let
       s1 = upd_thread t (\<lambda>r. r\<lparr>t_waiting_for_timeout := TRUE\<rparr>) (s\<lparr>timeout_thread := t\<rparr>);
       tail = t_MsgQueueTail (tmem s1 t)
     in if tail < 0 \<or> tail \<ge> MSG_QUEUE_MAX then Inl (OutOfBounds ''MsgQueue'')
     else let m = t_MsgQueue (tmem s1 t) tail in
     if m = NULL then Inl (KPanic ''ipc_post_message_to_tid: m'')
     else if m_used (mmem s1 m) \<noteq> TRUE \<or> m_magic (mmem s1 m) \<noteq> 1234
     then Inl (KPanic ''ipc_post_message_to_tid: m validation'')
     else let
       s2 = upd_msg m (\<lambda>r. r\<lparr>m_opaque_window := NULL, m_msg := MessageCode, m_long1 := long1,
              m_long2 := long2, m_long3 := jiffies s1, m_long4 := jiffies s1,
              m_sender_tid := src_tid, m_receiver_tid := dst_tid, m_next := NULL\<rparr>) s1
     in Inr (0, upd_thread t (\<lambda>r. r\<lparr>t_MsgQueueTail := advance (t_MsgQueueTail r),
                                   t_isResponder := TRUE\<rparr>) s2))"

definition ipc_post_message_to_foreground_thread :: "int \<Rightarrow> u64 \<Rightarrow> u64 \<Rightarrow> kstate \<Rightarrow> int kresult" where
  "ipc_post_message_to_foreground_thread msg long1 long2 s =
    (let ReceiverTID = foreground_thread s in
     if ReceiverTID < 0 \<or> ReceiverTID \<ge> THREAD_COUNT_MAX then Inr (-1, s)
     else if msg < 0 then Inr (-1, s)
     else ipc_post_message_to_tid 0 ReceiverTID msg long1 long2 s)"

definition ipc_post_message_to_init :: "int \<Rightarrow> u64 \<Rightarrow> u64 \<Rightarrow> kstate \<Rightarrow> int kresult" where
  "ipc_post_message_to_init msg long1 long2 s =
    (let ReceiverTID = INIT_TID in
     if ReceiverTID < 0 \<or> ReceiverTID \<ge> THREAD_COUNT_MAX then Inr (-1, s)
     else if msg < 0 then Inr (-1, s)
     else kbind (ipc_post_message_to_tid KERNEL_MESSAGE_TID ReceiverTID msg long1 long2 s)
            (\<lambda>(_, s'). Inr (0, s')))"

definition ipc_post_message_to_ds :: "int \<Rightarrow> u64 \<Rightarrow> u64 \<Rightarrow> kstate \<Rightarrow> int kresult" where
  "ipc_post_message_to_ds msg long1 long2 s =
    (if DS_initialized s \<noteq> TRUE then Inr (-1, s)
     else let ReceiverTID = DS_tid s in
     if ReceiverTID < 0 \<or> ReceiverTID \<ge> THREAD_COUNT_MAX then Inr (-1, s)
     else if msg < 0 then Inr (-1, s)
     else let s1 = do_credits_by_tid ReceiverTID s in
       kbind (ipc_post_message_to_tid 0 ReceiverTID msg long1 long2 s1) (\<lambda>(_, s'). Inr (0, s')))"

text \<open>The message codes of the input events.\<close>

definition MSG_KEYDOWN :: int where "MSG_KEYDOWN = 20"
definition MSG_KEYUP :: int where "MSG_KEYUP = 21"
definition MSG_SYSKEYDOWN :: int where "MSG_SYSKEYDOWN = 22"
definition MSG_SYSKEYUP :: int where "MSG_SYSKEYUP = 23"
definition MSG_MOUSEMOVE :: int where "MSG_MOUSEMOVE = 32"
definition MSG_MOUSEPRESSED :: int where "MSG_MOUSEPRESSED = 35"
definition MSG_MOUSERELEASED :: int where "MSG_MOUSERELEASED = 36"
definition MSG_TIMER :: int where "MSG_TIMER = 53"

lemmas msg_defs = MSG_KEYDOWN_def MSG_KEYUP_def MSG_SYSKEYDOWN_def MSG_SYSKEYUP_def
  MSG_MOUSEMOVE_def MSG_MOUSEPRESSED_def MSG_MOUSERELEASED_def MSG_TIMER_def

text \<open>Only the mouse move case returns 0; the others leave the switch into \<open>fail\<close> after posting.\<close>

definition ipc_post_input_event_to_ds :: "int \<Rightarrow> u64 \<Rightarrow> u64 \<Rightarrow> kstate \<Rightarrow> int kresult" where
  "ipc_post_input_event_to_ds event_id long1 long2 s =
    (let failed = (\<lambda>(_, s'). Inr (-1, s')) in
     if event_id < 0 then Inr (-1, s)
     else if event_id = MSG_MOUSEMOVE
     then kbind (ipc_post_message_to_ds event_id long1 long2 s) (\<lambda>(_, s'). Inr (0, s'))
     else if event_id = MSG_MOUSEPRESSED \<or> event_id = MSG_MOUSERELEASED
     then let button_number = long1 AND 0xFFFF in
       kbind (ipc_post_message_to_ds event_id button_number button_number s) failed
     else if event_id = MSG_KEYDOWN \<or> event_id = MSG_KEYUP \<or> event_id = MSG_SYSKEYDOWN
        \<or> event_id = MSG_SYSKEYUP
     then kbind (ipc_post_message_to_ds event_id long1 long1 s) failed
     else if event_id = MSG_TIMER
     then (if jiffies s mod JIFFY_FREQ = 0
           then kbind (ipc_post_message_to_ds MSG_TIMER 1234 (jiffies s) s) failed
           else Inr (-1, s))
     else Inr (-1, s))"

text \<open>\<open>(int) (ubuf[1] & 0xFFFFFFFF)\<close> reads the low half of the cell as a signed 32 bit number.\<close>

definition get_user :: "kstate \<Rightarrow> u64 \<Rightarrow> u64 \<Rightarrow> u64" where
  "get_user s ubuf i = umem s (ubuf + 8 * i)"

definition put_user :: "u64 \<Rightarrow> u64 \<Rightarrow> u64 \<Rightarrow> kstate \<Rightarrow> kstate" where
  "put_user ubuf i v s = s\<lparr>umem := (umem s)(ubuf + 8 * i := v)\<rparr>"

definition sys_post_message_to_tid :: "int \<Rightarrow> u64 \<Rightarrow> kstate \<Rightarrow> u64 kresult" where
  "sys_post_message_to_tid tid message_buffer s =
    (let src_tid = current_thread s; dst_tid = tid in
     if dst_tid < 0 \<or> dst_tid \<ge> THREAD_COUNT_MAX then Inr (0, s)
     else if message_buffer = 0 then Inr (0, s)
     else let ubuf = message_buffer;
       MessageCode = sint (ucast (get_user s ubuf 1 AND 0xFFFFFFFF) :: u32)
     in kbind (ipc_post_message_to_tid2 src_tid dst_tid MessageCode (get_user s ubuf 2)
          (get_user s ubuf 3) (get_user s ubuf 4) (get_user s ubuf 5) s)
          (\<lambda>(_, s'). Inr (0, s')))"

section \<open>Reading\<close>

text \<open>The copy of a message to the user's buffer and the clearing of its structure.\<close>

definition copy_message :: "u64 \<Rightarrow> ptr \<Rightarrow> kstate \<Rightarrow> kstate" where
  "copy_message ubuf m s =
    put_user ubuf 11 (jiffies s) (put_user ubuf 10 (m_long3 (mmem s m))
    (put_user ubuf 9 (word_of_int (m_receiver_tid (mmem s m)))
    (put_user ubuf 8 (word_of_int (m_sender_tid (mmem s m)))
    (put_user ubuf 5 (m_long4 (mmem s m)) (put_user ubuf 4 (m_long3 (mmem s m))
    (put_user ubuf 3 (m_long2 (mmem s m)) (put_user ubuf 2 (m_long1 (mmem s m))
    (put_user ubuf 1 (word_of_int (m_msg (mmem s m) AND 0xFFFFFFFF))
    (put_user ubuf 0 (of_nat (m_opaque_window (mmem s m))) s)))))))))"

definition clear_message :: "msg_d \<Rightarrow> msg_d" where
  "clear_message r = r\<lparr>m_opaque_window := NULL, m_msg := 0, m_long1 := 0, m_long2 := 0,
     m_long3 := 0, m_long4 := 0, m_sender_tid := 0, m_receiver_tid := 0, m_sender_pid := 0,
     m_receiver_pid := 0\<rparr>"

definition advance_head :: "ptr \<Rightarrow> kstate \<Rightarrow> kstate" where
  "advance_head t s = upd_thread t (\<lambda>r. r\<lparr>t_MsgQueueHead := advance (t_MsgQueueHead r)\<rparr>) s"

text \<open>The result is the C pointer: 1 for a message, 0 for none.\<close>

definition sys_get_message :: "u64 \<Rightarrow> kstate \<Rightarrow> int kresult" where
  "sys_get_message ubuf s =
    (if ubuf = 0 then Inl (KPanic ''sys_get_message: ubuf'')
     else if current_thread s < 0 \<or> current_thread s \<ge> THREAD_COUNT_MAX then Inr (0, s)
     else let t = threadList s (current_thread s) in
     if t = NULL then Inl (KPanic ''sys_get_message: t'')
     else if t_used (tmem s t) \<noteq> TRUE \<or> t_magic (tmem s t) \<noteq> 1234
     then Inl (KPanic ''sys_get_message: t validation'')
     else let head = t_MsgQueueHead (tmem s t) in
     if head < 0 \<or> head \<ge> MSG_QUEUE_MAX then Inl (OutOfBounds ''MsgQueue'')
     else let m = t_MsgQueue (tmem s t) head in
     if m = NULL then Inr (0, advance_head t s)
     else if m_used (mmem s m) \<noteq> TRUE \<or> m_magic (mmem s m) \<noteq> 1234 then Inr (0, advance_head t s)
     else if m_msg (mmem s m) \<le> 0 then Inr (0, advance_head t s)
     else Inr (1, advance_head t (upd_msg m clear_message (copy_message ubuf m s))))"

definition reset_queue :: "ptr \<Rightarrow> kstate \<Rightarrow> kstate" where
  "reset_queue t s = upd_thread t (\<lambda>r. r\<lparr>t_MsgQueueHead := 0, t_MsgQueueTail := 0\<rparr>) s"

definition sys_get_message2 :: "u64 \<Rightarrow> int \<Rightarrow> int \<Rightarrow> kstate \<Rightarrow> int kresult" where
  "sys_get_message2 ubuf index restart s =
    (if ubuf = 0 then Inl (KPanic ''sys_get_message2: ubuf'')
     else if current_thread s < 0 \<or> current_thread s \<ge> THREAD_COUNT_MAX then Inr (0, s)
     else let t = threadList s (current_thread s) in
     if t = NULL then Inl (KPanic ''sys_get_message2: t'')
     else if t_used (tmem s t) \<noteq> TRUE \<or> t_magic (tmem s t) \<noteq> 1234
     then Inl (KPanic ''sys_get_message2: t validation'')
     else let fail0 = (\<lambda>s. if restart = TRUE then Inr (0, reset_queue t s)
                           else Inr (0, advance_head t s)) in
     if index < 0 \<or> index \<ge> MSG_QUEUE_MAX then fail0 s
     else let s1 = upd_thread t (\<lambda>r. r\<lparr>t_MsgQueueHead := index\<rparr>) s;
              m = t_MsgQueue (tmem s1 t) index in
     if m = NULL then fail0 s1
     else if m_used (mmem s1 m) \<noteq> TRUE \<or> m_magic (mmem s1 m) \<noteq> 1234 then fail0 s1
     else if m_msg (mmem s1 m) \<le> 0 then fail0 s1
     else let s2 = upd_msg m clear_message (copy_message ubuf m s1) in
       if restart = TRUE then Inr (1, reset_queue t s2) else Inr (1, advance_head t s2))"

section \<open>Well-formed message queues\<close>

text \<open>
  \<open>ring s tid i\<close> is the message structure in slot \<open>i\<close> of a thread's ring. The table of rings is
  well formed when every valid thread has 64 valid structures and indices in range, and no
  structure belongs to two slots.
\<close>

abbreviation ring :: "kstate \<Rightarrow> int \<Rightarrow> int \<Rightarrow> ptr" where
  "ring s tid i \<equiv> t_MsgQueue (tmem s (threadList s tid)) i"

abbreviation qhead :: "kstate \<Rightarrow> int \<Rightarrow> int" where
  "qhead s tid \<equiv> t_MsgQueueHead (tmem s (threadList s tid))"

abbreviation qtail :: "kstate \<Rightarrow> int \<Rightarrow> int" where
  "qtail s tid \<equiv> t_MsgQueueTail (tmem s (threadList s tid))"

abbreviation in_ring :: "int \<Rightarrow> bool" where
  "in_ring i \<equiv> 0 \<le> i \<and> i < 64"

definition queue_wf :: "kstate \<Rightarrow> int \<Rightarrow> bool" where
  "queue_wf s tid \<longleftrightarrow> in_ring (qhead s tid) \<and> in_ring (qtail s tid)
     \<and> (\<forall>i. in_ring i \<longrightarrow> ring s tid i \<noteq> NULL \<and> m_used (mmem s (ring s tid i)) = TRUE
            \<and> m_magic (mmem s (ring s tid i)) = 1234)"

definition rings_disjoint :: "kstate \<Rightarrow> bool" where
  "rings_disjoint s \<longleftrightarrow> (\<forall>a b i j. slot_valid s a \<and> slot_valid s b \<and> in_ring i \<and> in_ring j
     \<and> ring s a i = ring s b j \<longrightarrow> a = b \<and> i = j)"

definition ipc_wf :: "kstate \<Rightarrow> bool" where
  "ipc_wf s \<longleftrightarrow> threads_wf s \<and> (\<forall>tid. slot_valid s tid \<longrightarrow> queue_wf s tid) \<and> rings_disjoint s"

lemma ipc_wf_threads: "ipc_wf s \<Longrightarrow> threads_wf s"
  by (simp add: ipc_wf_def)

lemma ipc_wf_tid: "ipc_wf s \<Longrightarrow> slot_valid s tid \<Longrightarrow> t_tid (tmem s (threadList s tid)) = tid"
  by (simp add: ipc_wf_def threads_wf_def)

lemma ipc_wf_slot:
  assumes "ipc_wf s" "slot_valid s tid" "in_ring i"
  shows "ring s tid i \<noteq> NULL" "m_used (mmem s (ring s tid i)) = TRUE"
    "m_magic (mmem s (ring s tid i)) = 1234"
  using assms by (auto simp: ipc_wf_def queue_wf_def)

lemma ipc_wf_indices:
  assumes "ipc_wf s" "slot_valid s tid"
  shows "in_ring (qhead s tid)" "in_ring (qtail s tid)"
  using assms by (auto simp: ipc_wf_def queue_wf_def)

lemma ring_inj:
  assumes "ipc_wf s" "slot_valid s a" "slot_valid s b" "in_ring i" "in_ring j"
  shows "ring s a i = ring s b j \<longleftrightarrow> a = b \<and> i = j"
  using assms unfolding ipc_wf_def rings_disjoint_def by blast

lemma threadList_inj:
  assumes "ipc_wf s" "slot_valid s a" "slot_valid s b"
  shows "threadList s a = threadList s b \<longleftrightarrow> a = b"
  using assms threads_wf_inj unfolding ipc_wf_def by blast

lemma advance_in_ring: "in_ring i \<Longrightarrow> in_ring (advance i)"
  by (simp add: advance_def MSG_QUEUE_MAX_def)

lemma advance_mod: "in_ring i \<Longrightarrow> advance i = (i + 1) mod 64"
  by (cases "i = 63") (simp_all add: advance_def MSG_QUEUE_MAX_def)

lemma slot_validD:
  assumes "slot_valid s tid"
  shows "0 \<le> tid" "tid < THREAD_COUNT_MAX" "\<not> tid < 0" "\<not> THREAD_COUNT_MAX \<le> tid"
    "threadList s tid \<noteq> NULL" "t_used (tmem s (threadList s tid)) = TRUE"
    "t_magic (tmem s (threadList s tid)) = 1234"
  using assms by (auto simp: slot_defs)

lemma tid_mask:
  assumes "slot_valid s tid"
  shows "tid AND 0xFFFF = tid"
  using slot_validD(1,2)[OF assms] by (intro and_mask_16_id) (simp_all add: THREAD_COUNT_MAX_def)

text \<open>
  Any change that keeps the thread table, the identity and the ring of every thread up to indices
  in range, and the validity of every message structure, keeps the rings well formed.
\<close>

definition ring_frame :: "kstate \<Rightarrow> kstate \<Rightarrow> bool" where
  "ring_frame s s' \<longleftrightarrow> threadList s' = threadList s
     \<and> (\<forall>p. t_used (tmem s' p) = t_used (tmem s p) \<and> t_magic (tmem s' p) = t_magic (tmem s p)
          \<and> t_tid (tmem s' p) = t_tid (tmem s p) \<and> t_MsgQueue (tmem s' p) = t_MsgQueue (tmem s p)
          \<and> (in_ring (t_MsgQueueHead (tmem s p)) \<longrightarrow> in_ring (t_MsgQueueHead (tmem s' p)))
          \<and> (in_ring (t_MsgQueueTail (tmem s p)) \<longrightarrow> in_ring (t_MsgQueueTail (tmem s' p))))
     \<and> (\<forall>m. m_used (mmem s' m) = m_used (mmem s m) \<and> m_magic (mmem s' m) = m_magic (mmem s m))"

lemma ring_frame_refl [simp]: "ring_frame s s"
  by (simp add: ring_frame_def)

lemma ring_frame_trans: "ring_frame a b \<Longrightarrow> ring_frame b c \<Longrightarrow> ring_frame a c"
  unfolding ring_frame_def by simp

lemma ring_frame_slot_valid: "ring_frame s s' \<Longrightarrow> slot_valid s' tid = slot_valid s tid"
  by (simp add: ring_frame_def slot_defs)

lemma ring_frame_ipc_wf:
  assumes "ring_frame s s'" "ipc_wf s"
  shows "ipc_wf s'"
proof -
  note v = ring_frame_slot_valid[OF assms(1)]
  have same: "threadList s' = threadList s" "\<And>p. t_tid (tmem s' p) = t_tid (tmem s p)"
    "\<And>p. t_MsgQueue (tmem s' p) = t_MsgQueue (tmem s p)"
    "\<And>m. m_used (mmem s' m) = m_used (mmem s m)" "\<And>m. m_magic (mmem s' m) = m_magic (mmem s m)"
    using assms(1) by (simp_all add: ring_frame_def)
  have "threads_wf s' = threads_wf s" and "rings_disjoint s' = rings_disjoint s"
    by (simp_all only: threads_wf_def rings_disjoint_def same v)
  moreover have "queue_wf s' tid" if "slot_valid s tid" for tid
    using assms that unfolding ipc_wf_def queue_wf_def ring_frame_def by simp
  ultimately show ?thesis using assms(2) by (simp add: ipc_wf_def v)
qed

lemma ring_frame_thread_op:
  assumes "guarded_thread_op operation update"
  shows "ring_frame s (operation tid s)"
  using guarded_thread_op.keeps_identity[OF assms, where tid = tid and s = s]
    guarded_thread_op.table_frame[OF assms, where tid = tid and s = s]
  unfolding ring_frame_def same_identity_def by simp

section \<open>What posting and reading do\<close>

text \<open>The effect of a successful post on a well-formed table, as one state update.\<close>

definition post_effect :: "int \<Rightarrow> int \<Rightarrow> int \<Rightarrow> u64 \<Rightarrow> u64 \<Rightarrow> u64 \<Rightarrow> u64 \<Rightarrow> kstate \<Rightarrow> kstate" where
  "post_effect src tid msg l1 l2 l3 l4 s =
    (let t = threadList s tid in
     upd_thread t (\<lambda>r. r\<lparr>t_waiting_for_timeout := TRUE,
                         t_MsgQueueTail := advance (t_MsgQueueTail r), t_isResponder := TRUE\<rparr>)
      (upd_msg (ring s tid (qtail s tid))
        (\<lambda>r. r\<lparr>m_opaque_window := NULL, m_msg := msg, m_long1 := l1, m_long2 := l2, m_long3 := l3,
               m_long4 := l4, m_sender_tid := src AND 0xFFFF, m_receiver_tid := tid,
               m_next := NULL\<rparr>) (s\<lparr>timeout_thread := t\<rparr>)))"

lemma post2_effect:
  assumes wf: "ipc_wf s" and v: "slot_valid s tid" and c: "0 \<le> msg"
  shows "ipc_post_message_to_tid2 src tid msg l1 l2 l3 l4 s = Inr (0, post_effect src tid msg l1 l2 l3 l4 s)"
proof -
  note facts = slot_validD[OF v] tid_mask[OF v] ipc_wf_tid[OF wf v] ipc_wf_indices[OF wf v]
    ipc_wf_slot[OF wf v ipc_wf_indices(2)[OF wf v]] c
  show ?thesis
    unfolding ipc_post_message_to_tid2_def post_effect_def Let_def tid_mask[OF v]
    using facts by (simp add: MSG_QUEUE_MAX_def not_less upd_thread_def upd_msg_def)
qed

lemma post_effect_eq:
  assumes wf: "ipc_wf s" and v: "slot_valid s tid" and c: "0 < msg"
  shows "ipc_post_message_to_tid src tid msg l1 l2 s
    = Inr (0, post_effect src tid msg l1 l2 (jiffies s) (jiffies s) s)"
proof -
  note facts = slot_validD[OF v] tid_mask[OF v] ipc_wf_tid[OF wf v] ipc_wf_indices[OF wf v]
    ipc_wf_slot[OF wf v ipc_wf_indices(2)[OF wf v]] c
  show ?thesis
    unfolding ipc_post_message_to_tid_def post_effect_def Let_def tid_mask[OF v]
    using facts by (simp add: MSG_QUEUE_MAX_def not_le upd_thread_def upd_msg_def)
qed

lemma post_effect_frame: "ring_frame s (post_effect src tid msg l1 l2 l3 l4 s)"
  by (simp add: ring_frame_def post_effect_def Let_def advance_in_ring)

lemma post_effect_simps [simp]:
  "threadList (post_effect src tid msg l1 l2 l3 l4 s) = threadList s"
  "current_thread (post_effect src tid msg l1 l2 l3 l4 s) = current_thread s"
  "jiffies (post_effect src tid msg l1 l2 l3 l4 s) = jiffies s"
  "umem (post_effect src tid msg l1 l2 l3 l4 s) = umem s"
  by (simp_all add: post_effect_def Let_def)

text \<open>What a reader finds in its buffer, and the same data taken from a message structure.\<close>

type_synonym mail = "u64 \<times> u64 \<times> u64 \<times> u64 \<times> u64 \<times> u64"

definition delivered :: "u64 \<Rightarrow> kstate \<Rightarrow> mail" where
  "delivered ubuf s = (get_user s ubuf 1, get_user s ubuf 2, get_user s ubuf 3, get_user s ubuf 4,
     get_user s ubuf 5, get_user s ubuf 8)"

definition mail_of :: "msg_d \<Rightarrow> mail" where
  "mail_of m = (word_of_int (m_msg m AND 0xFFFFFFFF), m_long1 m, m_long2 m, m_long3 m, m_long4 m,
     word_of_int (m_sender_tid m))"

lemma put_user_frame [simp]:
  "threadList (put_user u i v s) = threadList s" "tmem (put_user u i v s) = tmem s"
  "mmem (put_user u i v s) = mmem s" "jiffies (put_user u i v s) = jiffies s"
  "current_thread (put_user u i v s) = current_thread s"
  by (simp_all add: put_user_def)

lemma get_put_user: "get_user (put_user u i v s) u j = (if 8 * i = 8 * j then v else get_user s u j)"
  by (auto simp: get_user_def put_user_def)

lemma copy_message_frame [simp]:
  "threadList (copy_message u m s) = threadList s" "tmem (copy_message u m s) = tmem s"
  "mmem (copy_message u m s) = mmem s" "jiffies (copy_message u m s) = jiffies s"
  "current_thread (copy_message u m s) = current_thread s"
  by (simp_all add: copy_message_def)

lemma delivered_copy: "delivered ubuf (copy_message ubuf m s) = mail_of (mmem s m)"
  by (simp add: delivered_def copy_message_def mail_of_def get_put_user)

lemma delivered_umem: "umem s' = umem s \<Longrightarrow> delivered ubuf s' = delivered ubuf s"
  by (simp add: delivered_def get_user_def)

lemma clear_message_simps [simp]: "m_used (clear_message r) = m_used r"
  "m_magic (clear_message r) = m_magic r" "m_msg (clear_message r) = 0"
  by (simp_all add: clear_message_def)

definition get_effect :: "u64 \<Rightarrow> int \<Rightarrow> kstate \<Rightarrow> kstate" where
  "get_effect ubuf tid s =
    (let t = threadList s tid; m = ring s tid (qhead s tid) in
     if m_msg (mmem s m) \<le> 0 then advance_head t s
     else advance_head t (upd_msg m clear_message (copy_message ubuf m s)))"

lemma sys_get_message_effect:
  assumes wf: "ipc_wf s" and v: "slot_valid s (current_thread s)" and "ubuf \<noteq> 0"
  shows "sys_get_message ubuf s =
    Inr (if 0 < m_msg (mmem s (ring s (current_thread s) (qhead s (current_thread s)))) then 1 else 0,
         get_effect ubuf (current_thread s) s)"
proof -
  note facts = slot_validD[OF v] ipc_wf_indices[OF wf v] ipc_wf_slot[OF wf v ipc_wf_indices(1)[OF wf v]]
  show ?thesis
    unfolding sys_get_message_def get_effect_def Let_def
    using facts assms(3) by (simp add: MSG_QUEUE_MAX_def not_less)
qed

lemma get_effect_frame: "ring_frame s (get_effect ubuf tid s)"
  by (simp add: ring_frame_def get_effect_def Let_def advance_head_def advance_in_ring)

lemma get_effect_simps [simp]:
  "threadList (get_effect ubuf tid s) = threadList s"
  "current_thread (get_effect ubuf tid s) = current_thread s"
  "jiffies (get_effect ubuf tid s) = jiffies s"
  by (simp_all add: get_effect_def Let_def advance_head_def)

lemma get_effect_head:
  assumes "ipc_wf s" "slot_valid s tid"
  shows "t_MsgQueueHead (tmem (get_effect ubuf tid s) (threadList s tid)) = (qhead s tid + 1) mod 64"
    "t_MsgQueueTail (tmem (get_effect ubuf tid s) (threadList s tid)) = qtail s tid"
    "t_MsgQueue (tmem (get_effect ubuf tid s) (threadList s tid)) = t_MsgQueue (tmem s (threadList s tid))"
  using advance_mod[OF ipc_wf_indices(1)[OF assms]]
  by (simp_all add: get_effect_def Let_def advance_head_def)

lemma get_effect_mmem:
  "mmem (get_effect ubuf tid s) p = (if p = ring s tid (qhead s tid) \<and> 0 < m_msg (mmem s p)
     then clear_message (mmem s p) else mmem s p)"
  by (auto simp: get_effect_def Let_def advance_head_def)

lemma get_effect_delivered:
  "0 < m_msg (mmem s (ring s tid (qhead s tid)))
   \<Longrightarrow> delivered ubuf (get_effect ubuf tid s) = mail_of (mmem s (ring s tid (qhead s tid)))"
  using delivered_umem[of "advance_head (threadList s tid) (upd_msg (ring s tid (qhead s tid))
      clear_message (copy_message ubuf (ring s tid (qhead s tid)) s))"
      "copy_message ubuf (ring s tid (qhead s tid)) s" ubuf]
  by (simp add: get_effect_def Let_def advance_head_def delivered_copy)

section \<open>First in, first out\<close>

text \<open>
  The ring as a queue. \<open>pending\<close> is the number of slots from head to tail; the ring is tidy when
  exactly those slots hold a message. A read of an empty ring moves the head past the tail and
  makes it untidy, so the queue laws hold for a reader that does not poll an empty queue.
\<close>

definition pending :: "kstate \<Rightarrow> int \<Rightarrow> nat" where
  "pending s tid = nat ((qtail s tid - qhead s tid) mod 64)"

definition slot_at :: "kstate \<Rightarrow> int \<Rightarrow> nat \<Rightarrow> ptr" where
  "slot_at s tid k = ring s tid ((qhead s tid + int k) mod 64)"

definition mailbox_tidy :: "kstate \<Rightarrow> int \<Rightarrow> bool" where
  "mailbox_tidy s tid \<longleftrightarrow> (\<forall>k<64. 0 < m_msg (mmem s (slot_at s tid k)) \<longleftrightarrow> k < pending s tid)"

definition mailbox :: "kstate \<Rightarrow> int \<Rightarrow> mail list" where
  "mailbox s tid = map (\<lambda>k. mail_of (mmem s (slot_at s tid k))) [0..<pending s tid]"

definition reader_ok :: "u64 \<Rightarrow> int \<Rightarrow> kstate \<Rightarrow> bool" where
  "reader_ok ubuf tid s \<longleftrightarrow> ubuf \<noteq> 0 \<and> ipc_wf s \<and> current_thread s = tid \<and> slot_valid s tid
     \<and> mailbox_tidy s tid"

text \<open>A letter: sender, code and the four words of a message.\<close>

type_synonym letter = "int \<times> int \<times> u64 \<times> u64 \<times> u64 \<times> u64"

definition send :: "int \<Rightarrow> letter \<Rightarrow> kstate \<Rightarrow> kstate option" where
  "send tid x s = (case x of (src, msg, l1, l2, l3, l4) \<Rightarrow>
    (case ipc_post_message_to_tid2 src tid msg l1 l2 l3 l4 s of
       Inl _ \<Rightarrow> None
     | Inr (r, s') \<Rightarrow> if r = 0 then Some s' else None))"

definition receive :: "u64 \<Rightarrow> kstate \<Rightarrow> (mail \<times> kstate) option" where
  "receive ubuf s = (case sys_get_message ubuf s of
       Inl _ \<Rightarrow> None
     | Inr (r, s') \<Rightarrow> if r = 1 then Some (delivered ubuf s', s') else None)"

definition wire :: "letter \<Rightarrow> mail" where
  "wire x = (case x of (src, msg, l1, l2, l3, l4) \<Rightarrow>
     (word_of_int (msg AND 0xFFFFFFFF), l1, l2, l3, l4, word_of_int (src AND 0xFFFF)))"

definition sendable :: "letter \<Rightarrow> bool" where
  "sendable x = (case x of (src, msg, _) \<Rightarrow> 0 < msg)"

lemma pending_less: "pending s tid < 64"
  by (simp add: pending_def nat_less_iff)

lemma slot_at_eq_iff:
  assumes "ipc_wf s" "slot_valid s tid" "j < 64" "k < 64"
  shows "slot_at s tid j = slot_at s tid k \<longleftrightarrow> j = k"
proof -
  show ?thesis
    using assms ring_inj[OF assms(1,2,2)] cyclic_inj[of j 64 k "qhead s tid"] by (simp add: slot_at_def)
qed

lemma slot_at_tail:
  assumes "ipc_wf s" "slot_valid s tid"
  shows "slot_at s tid (pending s tid) = ring s tid (qtail s tid)"
  using ipc_wf_indices(2)[OF assms] by (simp add: slot_at_def pending_def mod_simps)

lemma post_effect_ring:
  assumes "ipc_wf s" "slot_valid s tid"
  shows "t_MsgQueueHead (tmem (post_effect src tid msg l1 l2 l3 l4 s) (threadList s tid)) = qhead s tid"
    "t_MsgQueueTail (tmem (post_effect src tid msg l1 l2 l3 l4 s) (threadList s tid)) = (qtail s tid + 1) mod 64"
    "slot_at (post_effect src tid msg l1 l2 l3 l4 s) tid = slot_at s tid"
  using advance_mod[OF ipc_wf_indices(2)[OF assms]]
  by (simp_all add: post_effect_def Let_def slot_at_def fun_eq_iff)

lemma post_effect_mmem:
  "mmem (post_effect src tid msg l1 l2 l3 l4 s) p =
    (if p = ring s tid (qtail s tid)
     then (mmem s p)\<lparr>m_opaque_window := NULL, m_msg := msg, m_long1 := l1, m_long2 := l2, m_long3 := l3,
               m_long4 := l4, m_sender_tid := src AND 0xFFFF, m_receiver_tid := tid, m_next := NULL\<rparr>
     else mmem s p)"
  by (simp add: post_effect_def Let_def)

lemma pending_post:
  assumes "ipc_wf s" "slot_valid s tid" "pending s tid < 63"
  shows "pending (post_effect src tid msg l1 l2 l3 l4 s) tid = Suc (pending s tid)"
proof -
  have "(qtail s tid - qhead s tid + 1) mod 64 = (qtail s tid - qhead s tid) mod 64 + 1"
    using assms(3) by (intro cyclic_succ) (simp_all add: pending_def)
  then have "((qtail s tid + 1) mod 64 - qhead s tid) mod 64 = (qtail s tid - qhead s tid) mod 64 + 1"
    by (simp add: mod_simps algebra_simps)
  then show ?thesis
    by (simp add: pending_def post_effect_ring[OF assms(1,2)] nat_add_distrib)
qed

lemma pending_get:
  assumes "ipc_wf s" "slot_valid s tid" "0 < pending s tid"
  shows "pending (get_effect ubuf tid s) tid = pending s tid - 1"
proof -
  have p: "0 < (qtail s tid - qhead s tid) mod 64" using assms(3) by (simp add: pending_def)
  have "(qtail s tid - qhead s tid - 1) mod 64 = (qtail s tid - qhead s tid) mod 64 - 1"
    using p by (intro cyclic_pred) simp_all
  then have "(qtail s tid - (qhead s tid + 1) mod 64) mod 64 = (qtail s tid - qhead s tid) mod 64 - 1"
    by (simp add: mod_simps algebra_simps)
  then show ?thesis
    using p by (simp add: pending_def get_effect_head[OF assms(1,2)] nat_diff_distrib)
qed

lemma slot_at_get:
  assumes "ipc_wf s" "slot_valid s tid"
  shows "slot_at (get_effect ubuf tid s) tid k = slot_at s tid (Suc k)"
  by (simp add: slot_at_def get_effect_head[OF assms] mod_simps add.assoc)

lemma slot_at_0: "ipc_wf s \<Longrightarrow> slot_valid s tid \<Longrightarrow> ring s tid (qhead s tid) = slot_at s tid 0"
  using ipc_wf_indices(1)[of s tid] by (simp add: slot_at_def)

lemma reader_okD:
  assumes "reader_ok ubuf tid s"
  shows "ubuf \<noteq> 0" "ipc_wf s" "current_thread s = tid" "slot_valid s tid" "mailbox_tidy s tid"
  using assms by (simp_all add: reader_ok_def)

lemma length_mailbox [simp]: "length (mailbox s tid) = pending s tid"
  by (simp add: mailbox_def)

lemma mailbox_post:
  assumes wf: "ipc_wf s" and v: "slot_valid s tid" and tidy: "mailbox_tidy s tid"
    and room: "pending s tid < 63" and msg: "0 < msg"
  shows "mailbox (post_effect src tid msg l1 l2 l3 l4 s) tid
      = mailbox s tid @ [wire (src, msg, l1, l2, l3, l4)]" (is "mailbox ?s' tid = _")
    and "mailbox_tidy (post_effect src tid msg l1 l2 l3 l4 s) tid"
proof -
  have n: "pending ?s' tid = Suc (pending s tid)" by (rule pending_post[OF wf v room])
  have at: "slot_at ?s' tid = slot_at s tid" by (rule post_effect_ring(3)[OF wf v])
  have tail: "slot_at s tid k = ring s tid (qtail s tid) \<longleftrightarrow> k = pending s tid" if "k < 64" for k
    using slot_at_eq_iff[OF wf v that, of "pending s tid"] room by (simp add: slot_at_tail[OF wf v])
  have old: "mmem ?s' (slot_at s tid k) = mmem s (slot_at s tid k)" if "k < pending s tid" for k
    using tail[of k] that room by (simp add: post_effect_mmem)
  have new: "mail_of (mmem ?s' (slot_at s tid (pending s tid))) = wire (src, msg, l1, l2, l3, l4)"
    using tail[of "pending s tid"] room by (simp add: post_effect_mmem mail_of_def wire_def)
  show "mailbox ?s' tid = mailbox s tid @ [wire (src, msg, l1, l2, l3, l4)]"
    using old new by (simp add: mailbox_def n at)
  show "mailbox_tidy ?s' tid"
    using tidy tail msg by (simp add: mailbox_tidy_def n at post_effect_mmem less_Suc_eq)
qed

lemma post_effect_keeps:
  assumes "ipc_wf s" "slot_valid s tid"
  shows "ipc_wf (post_effect src dst msg l1 l2 l3 l4 s)"
    "slot_valid (post_effect src dst msg l1 l2 l3 l4 s) tid"
  using ring_frame_ipc_wf[OF post_effect_frame assms(1)] ring_frame_slot_valid[OF post_effect_frame]
    assms(2) by auto

lemma send_law:
  assumes ok: "reader_ok ubuf tid s" and x: "sendable x" and room: "pending s tid < 63"
  shows "\<exists>s'. send tid x s = Some s' \<and> reader_ok ubuf tid s' \<and> mailbox s' tid = mailbox s tid @ [wire x]"
proof -
  obtain src msg l1 l2 l3 l4 where xe: "x = (src, msg, l1, l2, l3, l4)" by (cases x) auto
  note f = reader_okD[OF ok]
  have msg: "0 < msg" using x by (simp add: sendable_def xe)
  have "send tid x s = Some (post_effect src tid msg l1 l2 l3 l4 s)"
    using post2_effect[OF f(2,4), of msg src l1 l2 l3 l4] msg by (simp add: send_def xe)
  then show ?thesis
    using mailbox_post[OF f(2,4,5) room msg] post_effect_keeps[OF f(2,4)] f(1,3)
    by (simp add: reader_ok_def xe)
qed

lemma receive_law:
  assumes ok: "reader_ok ubuf tid s" and m: "mailbox s tid = y # ys"
  shows "\<exists>s'. receive ubuf s = Some (y, s') \<and> reader_ok ubuf tid s' \<and> mailbox s' tid = ys"
proof -
  note f = reader_okD[OF ok]
  let ?s' = "get_effect ubuf tid s"
  have p: "0 < pending s tid" using m length_mailbox[of s tid] by simp
  have occ: "0 < m_msg (mmem s (slot_at s tid 0))"
    using f(5) p by (simp add: mailbox_tidy_def)
  have y: "y = mail_of (mmem s (slot_at s tid 0))"
    using m p by (simp add: mailbox_def upt_conv_Cons)
  have got: "receive ubuf s = Some (y, ?s')"
    using sys_get_message_effect[of s ubuf] f occ get_effect_delivered[of s tid ubuf] y
    by (simp add: receive_def slot_at_0[OF f(2,4)])
  have n: "pending ?s' tid = pending s tid - 1" by (rule pending_get[OF f(2,4) p])
  have at: "slot_at ?s' tid k = slot_at s tid (Suc k)" for k by (rule slot_at_get[OF f(2,4)])
  have rest: "mmem ?s' (slot_at s tid (Suc k)) = mmem s (slot_at s tid (Suc k))" if "k < 63" for k
    using that slot_at_eq_iff[OF f(2,4), of "Suc k" 0] by (simp add: get_effect_mmem slot_at_0[OF f(2,4)])
  have "mailbox ?s' tid = tl (mailbox s tid)"
  proof (rule nth_equalityI)
    show "length (mailbox ?s' tid) = length (tl (mailbox s tid))" by (simp add: n)
    fix i assume "i < length (mailbox ?s' tid)"
    then show "mailbox ?s' tid ! i = tl (mailbox s tid) ! i"
      using p pending_less[of s tid] rest[of i] nth_upt[of 0 "Suc i" "pending s tid"]
      by (simp add: mailbox_def n at nth_tl)
  qed
  moreover have "mailbox_tidy ?s' tid"
    unfolding mailbox_tidy_def n at
  proof (intro allI impI)
    fix k :: nat assume k: "k < 64"
    show "0 < m_msg (mmem ?s' (slot_at s tid (Suc k))) \<longleftrightarrow> k < pending s tid - 1"
    proof (cases "k < 63")
      case True
      then show ?thesis using f(5) rest[OF True] p by (auto simp: mailbox_tidy_def)
    next
      case False
      then have "k = 63" using k by simp
      then have "slot_at s tid (Suc k) = slot_at s tid 0" by (simp add: slot_at_def)
      then show ?thesis using occ False pending_less[of s tid]
        by (simp add: get_effect_mmem slot_at_0[OF f(2,4)])
    qed
  qed
  moreover have "ipc_wf ?s'" "slot_valid ?s' tid"
    using ring_frame_ipc_wf[OF get_effect_frame f(2)] ring_frame_slot_valid[OF get_effect_frame] f(4)
    by auto
  ultimately show ?thesis using got f(1,3) m by (simp add: reader_ok_def)
qed

text \<open>A thread's ring is a queue with room for 63 messages.\<close>

interpretation mailbox_queue: bounded_fifo "send tid" "receive ubuf" "\<lambda>s. mailbox s tid" wire sendable
    "reader_ok ubuf tid" 63 for tid ubuf
  by unfold_locales (auto simp: send_law receive_law)

section \<open>Polling\<close>

fun polls :: "nat \<Rightarrow> u64 \<Rightarrow> kstate \<Rightarrow> kfault + kstate" where
  "polls 0 ubuf s = Inr s"
| "polls (Suc n) ubuf s = kbind (sys_get_message ubuf s) (\<lambda>(_, s'). polls n ubuf s')"

lemma get_effect_keeps:
  assumes "ipc_wf s" "slot_valid s tid"
  shows "ipc_wf (get_effect ubuf tid s)" "slot_valid (get_effect ubuf tid s) tid"
  using ring_frame_ipc_wf[OF get_effect_frame assms(1)] ring_frame_slot_valid[OF get_effect_frame] assms(2)
  by auto

lemma polls_effect:
  assumes "ipc_wf s" "slot_valid s tid" "current_thread s = tid" "ubuf \<noteq> 0" "n < 64"
  shows "\<exists>s'. polls n ubuf s = Inr s' \<and> ipc_wf s' \<and> slot_valid s' tid \<and> current_thread s' = tid
     \<and> (\<forall>k. slot_at s' tid k = slot_at s tid (n + k))
     \<and> (\<forall>k. n \<le> k \<and> k < 64 \<longrightarrow> mmem s' (slot_at s tid k) = mmem s (slot_at s tid k))"
  using assms
proof (induction n arbitrary: s)
  case 0
  then show ?case by simp
next
  case (Suc n)
  note wf = Suc.prems(1,2)
  let ?s1 = "get_effect ubuf tid s"
  have "polls (Suc n) ubuf s = polls n ubuf ?s1"
    using sys_get_message_effect[of s ubuf] Suc.prems by simp
  moreover obtain s' where s': "polls n ubuf ?s1 = Inr s'" "ipc_wf s'" "slot_valid s' tid"
      "current_thread s' = tid" "\<forall>k. slot_at s' tid k = slot_at ?s1 tid (n + k)"
      "\<forall>k. n \<le> k \<and> k < 64 \<longrightarrow> mmem s' (slot_at ?s1 tid k) = mmem ?s1 (slot_at ?s1 tid k)"
    using Suc.IH[of ?s1] get_effect_keeps[OF wf] Suc.prems(3-5) by auto
  moreover have "mmem s' (slot_at s tid k) = mmem s (slot_at s tid k)" if k: "Suc n \<le> k" "k < 64" for k
  proof -
    obtain j where j: "k = Suc j" using k by (cases k) auto
    then have "mmem s' (slot_at s tid k) = mmem ?s1 (slot_at s tid k)"
      using s'(6) k by (simp add: slot_at_get[OF wf])
    also have "\<dots> = mmem s (slot_at s tid k)"
      using slot_at_eq_iff[OF wf, of k 0] k j by (simp add: get_effect_mmem slot_at_0[OF wf])
    finally show ?thesis .
  qed
  ultimately show ?case by (simp add: slot_at_get[OF wf])
qed

lemma slot_at_distance:
  assumes "in_ring k"
  shows "slot_at s tid (nat ((k - qhead s tid) mod 64)) = ring s tid k"
  using assms by (simp add: slot_at_def mod_simps)

section \<open>Properties\<close>

text \<open>
  C5. Messages are delivered in the order they were sent, none lost, none invented: up to 63
  messages sent to an empty, tidy mailbox are all accepted, and that many reads by its owner
  return exactly their contents in the order of sending and leave the mailbox empty.
\<close>

theorem messages_in_order:
  assumes "reader_ok ubuf tid s" and "mailbox s tid = []"
    and "\<forall>x\<in>set letters. sendable x" and "length letters \<le> 63"
  shows "\<exists>s1 s2. enq_all (send tid) letters s = Some s1
     \<and> deq_all (receive ubuf) (length letters) s1 = Some (map wire letters, s2)
     \<and> reader_ok ubuf tid s2 \<and> mailbox s2 tid = []"
  using mailbox_queue.burst_in_order[OF assms] .

text \<open>
  C26. No message is lost to empty polls: a message that sits in any slot of the reader's ring is
  returned by the read that follows as many reads as the head is slots away from it, so after at
  most 64 reads, whatever the other slots hold.
\<close>

theorem message_found_within_64_polls:
  assumes "ipc_wf s" and "slot_valid s (current_thread s)" and "ubuf \<noteq> 0" and "in_ring k"
    and "0 < m_msg (mmem s (ring s (current_thread s) k))"
  shows "\<exists>n s1 s2. n < 64 \<and> polls n ubuf s = Inr s1 \<and> sys_get_message ubuf s1 = Inr (1, s2)
     \<and> delivered ubuf s2 = mail_of (mmem s (ring s (current_thread s) k))"
proof -
  let ?tid = "current_thread s" and ?n = "nat ((k - qhead s (current_thread s)) mod 64)"
  have n: "?n < 64" by (simp add: nat_less_iff)
  have at: "slot_at s ?tid ?n = ring s ?tid k" by (rule slot_at_distance[OF assms(4)])
  obtain s1 where s1: "polls ?n ubuf s = Inr s1" "ipc_wf s1" "slot_valid s1 ?tid"
      "current_thread s1 = ?tid" "\<forall>j. slot_at s1 ?tid j = slot_at s ?tid (?n + j)"
      "\<forall>j. ?n \<le> j \<and> j < 64 \<longrightarrow> mmem s1 (slot_at s ?tid j) = mmem s (slot_at s ?tid j)"
    using polls_effect[OF assms(1,2) refl assms(3) n] by blast
  have head: "ring s1 ?tid (qhead s1 ?tid) = ring s ?tid k"
    using s1(5)[rule_format, of 0] at by (simp add: slot_at_0[OF s1(2,3)])
  have same: "mmem s1 (ring s ?tid k) = mmem s (ring s ?tid k)"
    using s1(6)[rule_format, of ?n] n at by simp
  have "sys_get_message ubuf s1 = Inr (1, get_effect ubuf ?tid s1)"
    using sys_get_message_effect[of s1 ubuf] s1 assms(3,5) head same by simp
  moreover have "delivered ubuf (get_effect ubuf ?tid s1) = mail_of (mmem s (ring s ?tid k))"
    using get_effect_delivered[of s1 ?tid ubuf] head same assms(5) by simp
  ultimately show ?thesis using n s1(1) by blast
qed

text \<open>
  C28. A post never fails on a valid receiver and touches nobody else: it returns 0, keeps every
  ring well formed, and leaves the structure, the ring and all messages of every other thread as
  they were.
\<close>

theorem post_is_isolated:
  assumes "ipc_wf s" and "slot_valid s tid" and "0 \<le> msg"
  shows "\<exists>s'. ipc_post_message_to_tid2 src tid msg l1 l2 l3 l4 s = Inr (0, s') \<and> ipc_wf s'
     \<and> threadList s' = threadList s
     \<and> (\<forall>i. slot_valid s i \<and> i \<noteq> tid \<longrightarrow> tmem s' (threadList s i) = tmem s (threadList s i)
          \<and> (\<forall>k. in_ring k \<longrightarrow> mmem s' (ring s i k) = mmem s (ring s i k)))"
proof (intro exI conjI allI impI)
  let ?s' = "post_effect src tid msg l1 l2 l3 l4 s"
  show "ipc_post_message_to_tid2 src tid msg l1 l2 l3 l4 s = Inr (0, ?s')"
    by (rule post2_effect[OF assms])
  show "ipc_wf ?s'" by (rule ring_frame_ipc_wf[OF post_effect_frame assms(1)])
  show "threadList ?s' = threadList s" by simp
  fix i k assume i: "slot_valid s i \<and> i \<noteq> tid"
  then show "tmem ?s' (threadList s i) = tmem s (threadList s i)"
    using threadList_inj[OF assms(1) _ assms(2), of i] by (simp add: post_effect_def Let_def)
  show "mmem ?s' (ring s i k) = mmem s (ring s i k)" if "in_ring k"
    using ring_inj[OF assms(1) _ assms(2) that ipc_wf_indices(2)[OF assms(1,2)], of i] i
    by (simp add: post_effect_mmem)
qed

text \<open>
  C38. Posting to a full ring is not refused: when head and tail meet, the new message takes the
  slot the reader looks at next, so it is the next one delivered, ahead of the 63 older messages
  that may still be there, and the one it replaced is gone.
\<close>

theorem post_to_full_ring_overtakes:
  assumes "ipc_wf s" and "slot_valid s (current_thread s)" and "ubuf \<noteq> 0" and "sendable x"
    and "qhead s (current_thread s) = qtail s (current_thread s)"
  shows "\<exists>s1 s2. send (current_thread s) x s = Some s1 \<and> receive ubuf s1 = Some (wire x, s2)
     \<and> (\<forall>k. in_ring k \<and> k \<noteq> qhead s (current_thread s) \<longrightarrow>
          mmem s2 (ring s (current_thread s) k) = mmem s (ring s (current_thread s) k))"
proof -
  let ?tid = "current_thread s"
  obtain src msg l1 l2 l3 l4 where xe: "x = (src, msg, l1, l2, l3, l4)" by (cases x) auto
  have msg: "0 < msg" using assms(4) by (simp add: sendable_def xe)
  let ?s1 = "post_effect src ?tid msg l1 l2 l3 l4 s"
  have ring1: "t_MsgQueue (tmem ?s1 (threadList s ?tid)) = t_MsgQueue (tmem s (threadList s ?tid))"
    by (simp add: post_effect_def Let_def)
  have m: "mmem ?s1 (ring ?s1 ?tid (qhead ?s1 ?tid)) =
      (mmem s (ring s ?tid (qtail s ?tid)))\<lparr>m_opaque_window := NULL, m_msg := msg, m_long1 := l1,
        m_long2 := l2, m_long3 := l3, m_long4 := l4, m_sender_tid := src AND 0xFFFF,
        m_receiver_tid := ?tid, m_next := NULL\<rparr>"
    by (simp add: post_effect_mmem post_effect_ring[OF assms(1,2)] ring1 assms(5))
  have wf1: "ipc_wf ?s1" "slot_valid ?s1 ?tid"
    using ring_frame_ipc_wf[OF post_effect_frame assms(1)]
      ring_frame_slot_valid[OF post_effect_frame] assms(2) by auto
  have "send ?tid x s = Some ?s1"
    using post2_effect[OF assms(1,2), of msg src l1 l2 l3 l4] msg by (simp add: send_def xe)
  moreover have "receive ubuf ?s1 = Some (wire x, get_effect ubuf ?tid ?s1)"
    using sys_get_message_effect[of ?s1 ubuf] get_effect_delivered[of ?s1 ?tid ubuf] wf1 assms(3) m msg
    by (simp add: receive_def mail_of_def wire_def xe)
  moreover have "mmem (get_effect ubuf ?tid ?s1) (ring s ?tid k) = mmem s (ring s ?tid k)"
    if "in_ring k" "k \<noteq> qhead s ?tid" for k
    using ring_inj[OF assms(1,2,2) that(1) ipc_wf_indices(2)[OF assms(1,2)]] that(2) assms(5)
    by (simp add: get_effect_mmem post_effect_mmem post_effect_ring[OF assms(1,2)] ring1)
  ultimately show ?thesis by blast
qed

text \<open>
  A user program can stop the kernel with one message: the service 112 returns 0 for an
  out-of-range tid and for a null buffer, but for a tid in range that no valid thread has it
  panics, unless the message code is negative. It panics in no other case.
\<close>

lemma sys_post_message_panics_iff:
  assumes "ipc_wf s"
  shows "(\<exists>e. sys_post_message_to_tid tid buf s = Inl e) \<longleftrightarrow>
     tid_ok tid \<and> buf \<noteq> 0 \<and> \<not> slot_valid s tid
     \<and> 0 \<le> sint (ucast (get_user s buf 1 AND 0xFFFFFFFF) :: u32)"
proof (cases "tid_ok tid \<and> buf \<noteq> 0")
  case False
  then show ?thesis by (auto simp: sys_post_message_to_tid_def tid_ok_def)
next
  case True
  let ?c = "sint (ucast (get_user s buf 1 AND 0xFFFFFFFF) :: u32)"
  have tid: "0 \<le> tid" "tid < THREAD_COUNT_MAX" "tid AND 0xFFFF = tid" "buf \<noteq> 0"
    using True by (auto simp: tid_ok_def THREAD_COUNT_MAX_def intro: and_mask_16_id)
  show ?thesis
  proof (cases "slot_valid s tid \<and> 0 \<le> ?c")
    case True
    then show ?thesis using post2_effect[OF assms, of tid ?c] tid
      by (simp add: sys_post_message_to_tid_def Let_def)
  next
    case False
    then show ?thesis using tid True
      by (cases "?c < 0") (auto simp: sys_post_message_to_tid_def ipc_post_message_to_tid2_def Let_def
        slot_defs)
  qed
qed

lemma do_credits_frame: "ring_frame s (do_credits_by_tid tid s)"
  by (rule ring_frame_thread_op[OF credits_op.guarded_thread_op_axioms])

text \<open>
  A key event always reports failure: with the display server running on a valid thread,
  ipc_post_input_event_to_ds() posts the key to it, credits it, and returns -1, as it does for an
  event it does not know.
\<close>

lemma key_event_posted_but_fails:
  assumes "ipc_wf s" and "slot_valid s (DS_tid s)" and "DS_initialized s = TRUE"
    and "event \<in> {MSG_KEYDOWN, MSG_KEYUP, MSG_SYSKEYDOWN, MSG_SYSKEYUP}"
  shows "\<exists>s'. ipc_post_input_event_to_ds event key raw s = Inr (-1, s') \<and> ipc_wf s'
     \<and> qtail s' (DS_tid s) = (qtail s (DS_tid s) + 1) mod 64
     \<and> mail_of (mmem s' (ring s (DS_tid s) (qtail s (DS_tid s))))
         = (word_of_int event, key, key, jiffies s, jiffies s, 0)"
proof -
  let ?d = "DS_tid s" and ?s1 = "do_credits_by_tid (DS_tid s) s"
  have ev: "0 < event" "event AND 0xFFFFFFFF = event"
    "event \<noteq> MSG_MOUSEMOVE" "event \<noteq> MSG_MOUSEPRESSED" "event \<noteq> MSG_MOUSERELEASED"
    using assms(4) by (auto simp: msg_defs)
  have wf1: "ipc_wf ?s1" "slot_valid ?s1 ?d"
    using ring_frame_ipc_wf[OF do_credits_frame assms(1)] ring_frame_slot_valid[OF do_credits_frame]
      assms(2) by auto
  let ?s' = "post_effect 0 ?d event key key (jiffies s) (jiffies s) ?s1"
  have s1: "threadList ?s1 = threadList s" "mmem ?s1 = mmem s" "jiffies ?s1 = jiffies s"
    by (simp_all add: credits_op.table_frame)
  have id: "t_MsgQueue (tmem ?s1 p) = t_MsgQueue (tmem s p)"
    "t_MsgQueueTail (tmem ?s1 p) = t_MsgQueueTail (tmem s p)" for p
    using credits_op.keeps_identity[of ?d s p] by (simp_all add: same_identity_def)
  have "ipc_post_message_to_tid 0 ?d event key key ?s1 = Inr (0, ?s')"
    using post_effect_eq[OF wf1 ev(1), of 0 key key] s1 by simp
  then have "ipc_post_input_event_to_ds event key raw s = Inr (-1, ?s')"
    using assms(3,4) slot_validD(1-4)[OF assms(2)] ev
    by (auto simp: ipc_post_input_event_to_ds_def ipc_post_message_to_ds_def Let_def)
  moreover have "ipc_wf ?s'" by (rule ring_frame_ipc_wf[OF post_effect_frame wf1(1)])
  moreover have "qtail ?s' ?d = (qtail s ?d + 1) mod 64"
    using post_effect_ring(2)[OF wf1] by (simp add: s1 id)
  moreover have "mail_of (mmem ?s' (ring s ?d (qtail s ?d)))
      = (word_of_int event, key, key, jiffies s, jiffies s, 0)"
    by (simp add: post_effect_mmem s1 id mail_of_def ev)
  ultimately show ?thesis by blast
qed

section \<open>Witnesses\<close>

lemma demo_ipc_wf [simp]: "ipc_wf demo"
proof -
  have "queue_wf demo tid" if "slot_valid demo tid" for tid
    using that by (auto simp: queue_wf_def)
  moreover have "rings_disjoint demo"
  proof -
    have eq: "p = q \<and> i = j" if "64 * p + nat i = 64 * q + nat j" "in_ring i" "in_ring j" for p q i j
    proof -
      have "nat i < 64" "nat j < 64" using that(2,3) by (simp_all add: nat_less_iff)
      then have "(64 * p + nat i) div 64 = p" "(64 * q + nat j) div 64 = q" by simp_all
      then have "p = q" using that(1) by metis
      then show ?thesis using that by (simp add: eq_nat_nat_iff)
    qed
    show ?thesis unfolding rings_disjoint_def by (auto dest!: eq split: if_splits)
  qed
  ultimately show ?thesis by (simp add: ipc_wf_def)
qed

lemma demo_reader_ok: "reader_ok 4096 100 demo" "mailbox demo 100 = []"
  by (simp_all add: reader_ok_def mailbox_tidy_def pending_def mailbox_def zero_msg_def)

definition demo_posted :: kstate where
  "demo_posted = post_effect 0 100 20 65 30 0 0 demo"

lemma demo_posted_facts: "ipc_wf demo_posted" "slot_valid demo_posted 100"
  "current_thread demo_posted = 100"
  "0 < m_msg (mmem demo_posted (ring demo_posted 100 0))"
  using ring_frame_ipc_wf[OF post_effect_frame demo_ipc_wf, of 0 100 20 65 30 0 0]
    ring_frame_slot_valid[OF post_effect_frame[of demo 0 100 20 65 30 0 0], of 100]
  by (simp_all add: demo_posted_def post_effect_def Let_def)

theorem messages_in_order_witness:
  "\<exists>s1 s2. enq_all (send 100) [(0, 20, 65, 30, 0, 0), (0, 21, 65, 30, 0, 0)] demo = Some s1
     \<and> deq_all (receive 4096) 2 s1 = Some ([(20, 65, 30, 0, 0, 0), (21, 65, 30, 0, 0, 0)], s2)"
proof -
  have "wire (0, 20, 65, 30, 0, 0) = (20, 65, 30, 0, 0, 0)" "wire (0, 21, 65, 30, 0, 0) = (21, 65, 30, 0, 0, 0)"
    by (simp_all add: wire_def)
  then show ?thesis
    using messages_in_order[OF demo_reader_ok, of "[(0, 20, 65, 30, 0, 0), (0, 21, 65, 30, 0, 0)]"]
    by (fastforce simp: sendable_def numeral_2_eq_2)
qed

theorem message_found_within_64_polls_witness:
  "\<exists>n s1 s2. n < 64 \<and> polls n 4096 demo_posted = Inr s1 \<and> sys_get_message 4096 s1 = Inr (1, s2)"
  using message_found_within_64_polls[of demo_posted 4096 0] demo_posted_facts by fastforce

theorem post_is_isolated_witness:
  "\<exists>s'. ipc_post_message_to_tid2 0 100 20 65 30 0 0 demo = Inr (0, s') \<and> tmem s' 1 = demo_thread 1"
  using post_is_isolated[of demo 100 20 0 65 30 0 0] by fastforce

theorem post_to_full_ring_overtakes_witness:
  "\<exists>s1 s2. send 100 (0, 20, 65, 30, 0, 0) demo = Some s1 \<and> receive 4096 s1 = Some (wire (0, 20, 65, 30, 0, 0), s2)"
  using post_to_full_ring_overtakes[of demo 4096 "(0, 20, 65, 30, 0, 0)"] by (auto simp: sendable_def)

lemma sys_post_message_panics_iff_example: "\<exists>e. sys_post_message_to_tid 7 4096 demo = Inl e"
  using sys_post_message_panics_iff[of demo 7 4096] by (simp add: tid_ok_def THREAD_COUNT_MAX_def
    get_user_def)

lemma key_event_posted_but_fails_example:
  "\<exists>s'. ipc_post_input_event_to_ds 20 65 30 demo = Inr (-1, s') \<and> qtail s' 100 = 1"
  using key_event_posted_but_fails[of demo 20 65 30] by (auto simp: msg_defs)

end
