(* ===== verification/KSched.thy ===== *)
theory KSched
  imports KIpc
begin

text \<open>
  The scheduler: the queue heads of sched/schedq.c and the round robin scheduler of
  sched/sched.c. One call of __scheduler_rr() walks the thread table once and links the threads
  of the next round through their \<open>next\<close> fields, starting at the idle thread; \<open>currentq\<close> is the
  head and the file's \<open>p6q\<close> (here \<open>pq s 6\<close>) the last thread linked so far. The body of the loop is
  one definition per block of the source.
\<close>

section \<open>Queue heads (schedq.c)\<close>

definition qlist_set_element :: "int \<Rightarrow> ptr \<Rightarrow> kstate \<Rightarrow> int \<times> kstate" where
  "qlist_set_element index head_thread s =
    (if index < 0 \<or> index \<ge> SCHEQ_QUEUE_COUNT_MAX then (-1, s)
     else if head_thread = NULL then (-1, s)
     else if index = SCHED_CURRENT_QUEUE
     then (0, s\<lparr>qList := (qList s)(SCHED_CURRENT_QUEUE := head_thread)\<rparr>)
     else if index \<ge> SCHED_P1_QUEUE \<or> index \<le> SCHED_P6_QUEUE
     then (0, s\<lparr>qList := (qList s)(index := head_thread)\<rparr>)
     else (-1, s))"

definition qlist_get_element :: "int \<Rightarrow> kstate \<Rightarrow> ptr" where
  "qlist_get_element index s =
    (if index < 0 \<or> index \<ge> SCHEQ_QUEUE_COUNT_MAX then NULL
     else if index = SCHED_CURRENT_QUEUE then qList s SCHED_CURRENT_QUEUE
     else if index \<ge> SCHED_P1_QUEUE \<or> index \<le> SCHED_P6_QUEUE then qList s index
     else NULL)"

definition qlist_initialize :: "kstate \<Rightarrow> int \<times> kstate" where
  "qlist_initialize s =
    (0, fold (\<lambda>i s. s\<lparr>qList := (qList s)(i := 0)\<rparr>) (slots 0 SCHEQ_QUEUE_COUNT_MAX) s)"

section \<open>Scheduler state and services (sched.c)\<close>

definition MSG_NOTIFY_PARENT :: int where "MSG_NOTIFY_PARENT = 4000"

definition sched_notify_parent :: "ptr \<Rightarrow> int \<Rightarrow> kstate \<Rightarrow> unit kresult" where
  "sched_notify_parent thread event_number s =
    (if thread = NULL then Inr ((), s)
     else if t_magic (tmem s thread) \<noteq> 1234 then Inr ((), s)
     else let owner_pid = t_owner_pid (tmem s thread) in
     if owner_pid < 0 then Inr ((), s)
     else if owner_pid \<ge> PROCESS_COUNT_MAX then Inr ((), s)
     else let p_owner = processList s owner_pid in
     if p_owner = NULL then Inr ((), s)
     else if p_magic (pmem s p_owner) \<noteq> 1234 then Inr ((), s)
     else let parent_pid = p_ppid (pmem s p_owner) in
     if parent_pid < 0 then Inr ((), s)
     else if parent_pid \<ge> PROCESS_COUNT_MAX then Inr ((), s)
     else let p_parent = processList s parent_pid in
     if p_parent = NULL then Inr ((), s)
     else if p_magic (pmem s p_parent) \<noteq> 1234 then Inr ((), s)
     else let target_thread = p_control (pmem s p_parent) in
     if target_thread = NULL then Inr ((), s)
     else if t_magic (tmem s target_thread) \<noteq> 1234 then Inr ((), s)
     else let Sender = t_tid (tmem s thread); Receiver = t_tid (tmem s target_thread) in
       kbind (ipc_post_message_to_tid Sender Receiver MSG_NOTIFY_PARENT (word_of_int Sender)
                (word_of_int Receiver) s)
         (\<lambda>(_, s'). Inr ((), s')))"

definition scheduler_lock :: "kstate \<Rightarrow> kstate" where
  "scheduler_lock s = s\<lparr>g_scheduler_status := LOCKED\<rparr>"

definition scheduler_unlock :: "kstate \<Rightarrow> kstate" where
  "scheduler_unlock s = s\<lparr>g_scheduler_status := UNLOCKED\<rparr>"

definition scheduler_get_status :: "kstate \<Rightarrow> u64" where
  "scheduler_get_status s = g_scheduler_status s"

definition sched_cut_round :: "ptr \<Rightarrow> kstate \<Rightarrow> kstate" where
  "sched_cut_round last_thread s =
    (if last_thread = NULL then s
     else if t_used (tmem s last_thread) \<noteq> TRUE \<or> t_magic (tmem s last_thread) \<noteq> 1234 then s
     else if current_thread s < 0 \<or> current_thread s \<ge> THREAD_COUNT_MAX then s
     else let Current = threadList s (current_thread s) in
     if Current = NULL then s
     else if t_used (tmem s Current) \<noteq> TRUE \<or> t_magic (tmem s Current) \<noteq> 1234 then s
     else upd_thread last_thread (\<lambda>r. r\<lparr>t_next := NULL\<rparr>)
            (upd_thread Current (\<lambda>r. r\<lparr>t_next := last_thread\<rparr>) s))"

section \<open>The round robin scheduler\<close>

text \<open>Lines 335 to 366: the alarm and the wake up of a waiting thread.\<close>

definition rr_waiting :: "ptr \<Rightarrow> kstate \<Rightarrow> kstate" where
  "rr_waiting TmpThread s =
    (if t_used (tmem s TmpThread) = TRUE \<and> t_magic (tmem s TmpThread) = 1234
        \<and> t_state (tmem s TmpThread) = WAITING
     then let s1 = (if jiffies s > t_alarm (tmem s TmpThread)
                    then upd_thread TmpThread (\<lambda>r. r\<lparr>t_alarm := 0\<rparr>) s else s)
       in if jiffies s1 \<ge> t_wake_jiffy (tmem s1 TmpThread)
          then do_thread_ready (t_tid (tmem s1 TmpThread)) s1 else s1
     else s)"

text \<open>Lines 370 to 406: a zombie is taken out of use, and the loop's pointer becomes NULL.\<close>

definition rr_zombie :: "ptr \<Rightarrow> kstate \<Rightarrow> ptr kresult" where
  "rr_zombie TmpThread s =
    (if t_used (tmem s TmpThread) = TRUE \<and> t_magic (tmem s TmpThread) = 1234
        \<and> t_state (tmem s TmpThread) = ZOMBIE
     then let s1 = (if DS_initialized s = TRUE \<and> t_tid (tmem s TmpThread) = DS_tid s
                    then s\<lparr>DS_initialized := FALSE\<rparr> else s)
       in if TmpThread = InitThread s1 then Inl (KPanic ''__scheduler_rr: InitThread'')
          else Inr (NULL, upd_thread TmpThread (\<lambda>r. r\<lparr>t_used := FALSE, t_magic := 0\<rparr>) s1)
     else Inr (TmpThread, s))"

text \<open>Lines 413 to 473: a ready thread joins the round and gets its priority and quantum.\<close>

definition rr_quantum :: "ptr \<Rightarrow> ptr \<Rightarrow> kstate \<Rightarrow> kstate" where
  "rr_quantum Idle TmpThread s =
    (let
      s1 = upd_thread TmpThread (\<lambda>r. r\<lparr>t_quantum := QUANTUM_NORMAL_THRESHOLD\<rparr>) s;
      s2 = (if TmpThread = Idle
            then upd_thread TmpThread (\<lambda>r. r\<lparr>t_quantum := QUANTUM_NORMAL_THRESHOLD\<rparr>) s1 else s1);
      s3 = (if t_tid (tmem s2 TmpThread) = foreground_thread s2
            then upd_thread TmpThread (\<lambda>r. r\<lparr>t_quantum := QUANTUM_NORMAL_TIME_CRITICAL\<rparr>) s2 else s2);
      s4 = (if DS_initialized s3 = TRUE \<and> t_tid (tmem s3 TmpThread) = DS_tid s3
            then upd_thread TmpThread (\<lambda>r. r\<lparr>t_quantum := QUANTUM_SYSTEM_TIME_CRITICAL\<rparr>) s3 else s3)
     in if t_isResponder (tmem s4 TmpThread) = TRUE
        then upd_thread TmpThread (\<lambda>r. r\<lparr>t_quantum := QUANTUM_SYSTEM_TIME_CRITICAL,
               t_isResponder := FALSE\<rparr>) s4
        else s4)"

definition rr_link :: "ptr \<Rightarrow> kstate \<Rightarrow> kstate" where
  "rr_link TmpThread s =
    (let s1 = upd_thread (pq s 6) (\<lambda>r. r\<lparr>t_next := TmpThread\<rparr>) s
     in s1\<lparr>pq := (pq s1)(6 := t_next (tmem s1 (pq s1 6)))\<rparr>)"

definition rr_balance :: "ptr \<Rightarrow> kstate \<Rightarrow> kstate" where
  "rr_balance TmpThread s =
    (let
      s3 = upd_thread TmpThread (\<lambda>r. r\<lparr>t_runningCount := 0, t_runningCount_ms := 0,
             t_scheduledCount := t_scheduledCount r + 1\<rparr>) s;
      s4 = (if t_base_priority (tmem s3 TmpThread) < PRIORITY_MIN
            then upd_thread TmpThread (\<lambda>r. r\<lparr>t_base_priority := PRIORITY_MIN\<rparr>) s3 else s3);
      s5 = (if t_base_priority (tmem s4 TmpThread) > PRIORITY_MAX
            then upd_thread TmpThread (\<lambda>r. r\<lparr>t_base_priority := PRIORITY_MAX\<rparr>) s4 else s4)
     in upd_thread TmpThread (\<lambda>r. r\<lparr>t_priority := t_base_priority r\<rparr>) s5)"

definition rr_ready :: "ptr \<Rightarrow> ptr \<Rightarrow> kstate \<Rightarrow> kfault + kstate" where
  "rr_ready Idle TmpThread s =
    (if TmpThread = NULL then Inl (NullDeref ''TmpThread->used'')
     else if t_used (tmem s TmpThread) = TRUE \<and> t_magic (tmem s TmpThread) = 1234
        \<and> t_state (tmem s TmpThread) = READY
     then if pq s 6 = NULL then Inl (NullDeref ''p6q->next'')
     else Inr (rr_quantum Idle TmpThread (rr_balance TmpThread (rr_link TmpThread s)))
     else Inr s)"

text \<open>Lines 478 to 511: a thread that is exiting becomes a zombie, unless it is the idle thread.\<close>

definition rr_exit :: "ptr \<Rightarrow> ptr \<Rightarrow> kstate \<Rightarrow> kstate" where
  "rr_exit Idle TmpThread s =
    (if t_magic (tmem s TmpThread) = 1234 \<and> t_exit_in_progress (tmem s TmpThread) = TRUE
        \<and> TmpThread \<noteq> Idle
     then let s1 = upd_thread TmpThread (\<lambda>r. r\<lparr>t_state := ZOMBIE\<rparr>) s
       in if t_tid (tmem s1 TmpThread) = foreground_thread s1
          then s1\<lparr>foreground_thread := -1\<rparr> else s1
     else s)"

text \<open>Lines 516 to 523: two credits or more buy one tick.\<close>

definition rr_credits :: "ptr \<Rightarrow> kstate \<Rightarrow> kstate" where
  "rr_credits TmpThread s =
    (if t_magic (tmem s TmpThread) = 1234 \<and> t_credits (tmem s TmpThread) \<ge> 2
     then upd_thread TmpThread (\<lambda>r. r\<lparr>t_quantum := t_quantum r + 1, t_credits := 0\<rparr>) s
     else s)"

definition rr_step :: "ptr \<Rightarrow> int \<Rightarrow> kstate \<Rightarrow> kfault + kstate" where
  "rr_step Idle i s =
    (let TmpThread = threadList s i in
     if TmpThread = NULL then Inr s
     else kbind (rr_zombie TmpThread (rr_waiting TmpThread s)) (\<lambda>(Tmp, s1).
          kbind (rr_ready Idle Tmp s1) (\<lambda>s2. Inr (rr_credits Tmp (rr_exit Idle Tmp s2)))))"

text \<open>
  Lines 206 to 318: the queues are cleared, the idle thread's credits are reset, it becomes the
  head of the round, and the wake up reads \<open>TmpThread\<close> before the loop gives it a value.
\<close>

definition rr_clear :: "kstate \<Rightarrow> kstate" where
  "rr_clear s = s\<lparr>pq := (pq s)(1 := NULL, 2 := NULL, 3 := NULL, 4 := NULL, 5 := NULL, 6 := NULL),
                  currentq := NULL\<rparr>"

definition rr_idle :: "ptr \<Rightarrow> kstate \<Rightarrow> kstate" where
  "rr_idle Idle s = upd_thread Idle (\<lambda>r. r\<lparr>t_base_priority := PRIORITY_SYSTEM_THRESHOLD,
      t_priority := PRIORITY_SYSTEM_THRESHOLD, t_quantum := QUANTUM_NORMAL_THRESHOLD\<rparr>) s"

definition rr_heads :: "ptr \<Rightarrow> kstate \<Rightarrow> kstate" where
  "rr_heads Idle s =
    (let s3 = snd (qlist_set_element SCHED_CURRENT_QUEUE Idle (s\<lparr>currentq := Idle\<rparr>))
     in snd (qlist_set_element SCHED_P6_QUEUE Idle (s3\<lparr>pq := (pq s3)(6 := Idle)\<rparr>)))"

definition rr_prologue :: "kstate \<Rightarrow> kfault + kstate" where
  "rr_prologue s =
    (let s1 = rr_clear s in
     if sched_initialized s1 \<noteq> TRUE then Inl (KPanic ''__scheduler_rr: Scheduler not initialized'')
     else if sched_policy s1 \<noteq> SCHED_POLICY_RR then Inl (KPanic ''__scheduler_rr: Scheduler policy'')
     else let Idle = UP_IdleThread s1 in
     if Idle = NULL then Inl (KPanic ''__scheduler_rr: Idle'')
     else if t_used (tmem s1 Idle) \<noteq> TRUE \<or> t_magic (tmem s1 Idle) \<noteq> 1234
     then Inl (KPanic ''__scheduler_rr: Idle validation'')
     else if Idle \<noteq> InitThread s1 then Inl (KPanic ''__scheduler_rr: Idle != InitThread'')
     else let s2 = rr_idle Idle s1 in
     if t_tid (tmem s2 Idle) \<noteq> INIT_TID then Inl (KPanic ''__scheduler_rr: FirstTID'')
     else let s4 = rr_heads Idle s2 in
     if jiffies s4 \<ge> t_wake_jiffy (tmem s4 Idle)
     then let TmpThread = rr_residue s4 (rr_round_counter s4) in
       if TmpThread = NULL then Inl (NullDeref ''TmpThread->tid'')
       else Inr (do_thread_ready (t_tid (tmem s4 TmpThread)) s4)
     else Inr s4)"

text \<open>Lines 314 to 325 and 519 to 538: the walk over the table, and the end of the list.\<close>

definition scheduler_rr :: "kstate \<Rightarrow> int kresult" where
  "scheduler_rr s =
    kbind (rr_prologue s) (\<lambda>s1.
    let Idle = UP_IdleThread s1; FirstTID = t_tid (tmem s1 Idle); Start = t_tid (tmem s1 Idle) + 1 in
    kbind (kfold (rr_step Idle) (slots Start THREAD_COUNT_MAX) s1) (\<lambda>s2.
    if pq s2 6 = NULL then Inl (NullDeref ''p6q->next'')
    else let s3 = upd_thread (pq s2 6) (\<lambda>r. r\<lparr>t_next := NULL\<rparr>) s2
      in Inr (FirstTID, s3\<lparr>rr_round_counter := rr_round_counter s3 + 1\<rparr>)))"

definition scheduler :: "kstate \<Rightarrow> int kresult" where
  "scheduler s =
    (let Policy = sched_policy s in
     if system_state s \<noteq> SYSTEM_RUNNING then Inl (KPanic ''scheduler: system_state'')
     else let s1 = s\<lparr>system_state := SYSTEM_SCHEDULING\<rparr> in
     if UP_threads_counter s1 = 0 then Inl (KPanic ''scheduler: threads_counter == 0'')
     else if sched_initialized s1 \<noteq> TRUE then Inl (KPanic ''scheduler: SchedulerInfo.initialized'')
     else if Policy = SCHED_POLICY_RR then
       kbind (scheduler_rr s1) (\<lambda>(first_tid, s2).
         let Idle = UP_IdleThread s2 in
         if Idle = NULL then Inl (KPanic ''scheduler: Idle'')
         else if t_magic (tmem s2 Idle) \<noteq> 1234 then Inl (KPanic ''scheduler: Idle validation'')
         else if first_tid \<noteq> t_tid (tmem s2 Idle) then Inl (KPanic ''scheduler: first_tid != Idle->tid'')
         else Inr (first_tid, s2\<lparr>system_state := SYSTEM_RUNNING\<rparr>))
     else if Policy = SCHED_POLICY_QUEUES then Inl (KPanic ''scheduler: Policy not supported'')
     else Inl (KPanic ''scheduler: Invalid policy''))"

definition psScheduler :: "kstate \<Rightarrow> int kresult" where
  "psScheduler s =
    (if g_scheduler_status s = LOCKED then Inr (-1, s)
     else if UP_threads_counter s = 0 then Inl (KPanic ''psScheduler: No threads'')
     else if UP_threads_counter s = 1 then
       let s1 = s\<lparr>currentq := UP_IdleThread s\<rparr> in
       if currentq s1 = NULL then Inl (NullDeref ''currentq->tid'')
       else let s2 = s1\<lparr>current_thread := t_tid (tmem s1 (currentq s1))\<rparr>
         in Inr (current_thread s2, s2)
     else scheduler s)"

definition sched_count_active_threads :: "kstate \<Rightarrow> u64" where
  "sched_count_active_threads s =
    fold (\<lambda>i Counter. let t = threadList s i in
        if t \<noteq> NULL \<and> t_used (tmem s t) = TRUE \<and> t_magic (tmem s t) = 1234
           \<and> (t_state (tmem s t) = READY \<or> t_state (tmem s t) = RUNNING)
        then Counter + 1 else Counter)
      (slots 0 THREAD_COUNT_MAX) 0"

definition sys_broken_vessels :: "int \<Rightarrow> kstate \<Rightarrow> kstate" where
  "sys_broken_vessels tid s =
    (if tid < 0 \<or> tid \<ge> THREAD_COUNT_MAX then s
     else let t = threadList s tid in
     if t = NULL then s
     else if t_used (tmem s t) \<noteq> TRUE \<or> t_magic (tmem s t) \<noteq> 1234 then s
     else let
       s1 = (if t_quantum (tmem s t) + 1 \<le> t_quantum_limit_max (tmem s t)
             then upd_thread t (\<lambda>r. r\<lparr>t_quantum := t_quantum r + 1\<rparr>) s else s)
     in if t_quantum (tmem s1 t) > QUANTUM_MAX
        then upd_thread t (\<lambda>r. r\<lparr>t_quantum := QUANTUM_MAX\<rparr>) s1 else s1)"

definition sys_sleep :: "int \<Rightarrow> u64 \<Rightarrow> kstate \<Rightarrow> kstate" where
  "sys_sleep tid ms s =
    (if tid < 0 \<or> tid \<ge> THREAD_COUNT_MAX then s
     else if ms = 0 then s
     else sleep tid ms s)"

definition sys_yield :: "int \<Rightarrow> kstate \<Rightarrow> kstate" where
  "sys_yield tid s = (if tid < 0 \<or> tid \<ge> THREAD_COUNT_MAX then s else yield tid s)"

definition init_scheduler :: "u64 \<Rightarrow> kstate \<Rightarrow> int \<times> kstate" where
  "init_scheduler flags s =
    (let s1 = scheduler_lock (s\<lparr>sched_initialized := FALSE\<rparr>);
         s2 = snd (qlist_initialize s1)
     in (0, s2\<lparr>sched_policy := SCHED_POLICY_RR, rr_round_counter := 0, sched_flags := flags,
               sched_initialized := TRUE\<rparr>))"

section \<open>What one step of the walk does\<close>

text \<open>
  Every block of the loop body changes only the structure it is given, and of that neither the
  identity nor the \<open>next\<close> link; linking the thread into the round is the one exception.
\<close>

definition same_sched :: "kstate \<Rightarrow> kstate \<Rightarrow> bool" where
  "same_sched s s' \<longleftrightarrow> threadList s' = threadList s \<and> mmem s' = mmem s \<and> jiffies s' = jiffies s
     \<and> UP_IdleThread s' = UP_IdleThread s \<and> InitThread s' = InitThread s \<and> DS_tid s' = DS_tid s
     \<and> DS_initialized s' = DS_initialized s \<and> currentq s' = currentq s
     \<and> rr_round_counter s' = rr_round_counter s \<and> system_state s' = system_state s
     \<and> UP_threads_counter s' = UP_threads_counter s \<and> timeout_thread s' = timeout_thread s"

definition touches :: "ptr \<Rightarrow> kstate \<Rightarrow> kstate \<Rightarrow> bool" where
  "touches p s s' \<longleftrightarrow> same_sched s s' \<and> pq s' = pq s \<and> (\<forall>q. q \<noteq> p \<longrightarrow> tmem s' q = tmem s q)
     \<and> same_identity (tmem s' p) (tmem s p) \<and> t_next (tmem s' p) = t_next (tmem s p)"

lemma touches_refl [simp]: "touches p s s"
  by (simp add: touches_def same_sched_def)

lemma touches_trans: "touches p a b \<Longrightarrow> touches p b c \<Longrightarrow> touches p a c"
  by (auto simp: touches_def same_sched_def same_identity_def)

lemma touches_upd:
  assumes "\<And>r. same_identity (f r) r" "\<And>r. t_next (f r) = t_next r"
  shows "touches p s (upd_thread p f s)"
  using assms by (simp add: touches_def same_sched_def)

lemma touches_foreground: "touches p s s' \<Longrightarrow> touches p s (s'\<lparr>foreground_thread := x\<rparr>)"
  by (simp add: touches_def same_sched_def)

lemmas touch_simps = same_identity_def upd_thread_def

lemma same_identity_fields [simp]:
  "same_identity (r\<lparr>t_alarm := a\<rparr>) r" "same_identity (r\<lparr>t_quantum := u\<rparr>) r"
  "same_identity (r\<lparr>t_state := st\<rparr>) r" "same_identity (r\<lparr>t_next := n\<rparr>) r"
  "same_identity (r\<lparr>t_base_priority := u\<rparr>) r" "same_identity (r\<lparr>t_priority := u\<rparr>) r"
  "same_identity (r\<lparr>t_quantum := u, t_credits := c\<rparr>) r"
  "same_identity (r\<lparr>t_quantum := u, t_isResponder := i\<rparr>) r"
  "same_identity (r\<lparr>t_runningCount := u, t_runningCount_ms := v, t_scheduledCount := w\<rparr>) r"
  "same_identity (r\<lparr>t_base_priority := a, t_priority := b, t_quantum := u\<rparr>) r"
  by (simp_all add: same_identity_def)

lemma do_thread_ready_valid:
  assumes "slot_valid s tid"
  shows "do_thread_ready tid s
    = upd_thread (threadList s tid) (\<lambda>r. r\<lparr>t_state := READY, t_ready_jiffy := jiffies s\<rparr>) s"
  using assms by (simp add: ready_op.operation_eq)

definition wakes :: "kstate \<Rightarrow> thread_d \<Rightarrow> bool" where
  "wakes s t \<longleftrightarrow> t_state t = WAITING \<and> t_wake_jiffy t \<le> jiffies s"

lemma rr_waiting_effect:
  assumes "threads_wf s" "slot_valid s i" "p = threadList s i"
  shows "touches p s (rr_waiting p s)"
    "t_state (tmem (rr_waiting p s) p) = (if wakes s (tmem s p) then READY else t_state (tmem s p))"
    "t_credits (tmem (rr_waiting p s) p) = t_credits (tmem s p)"
    "t_isResponder (tmem (rr_waiting p s) p) = t_isResponder (tmem s p)"
    "t_exit_in_progress (tmem (rr_waiting p s) p) = t_exit_in_progress (tmem s p)"
    "foreground_thread (rr_waiting p s) = foreground_thread s"
proof -
  have id: "t_used (tmem s p) = 1" "t_magic (tmem s p) = 1234" "t_tid (tmem s p) = i"
    using assms slot_validD(6,7) by (auto simp: threads_wf_def)
  let ?s1 = "if jiffies s > t_alarm (tmem s p) then upd_thread p (\<lambda>r. r\<lparr>t_alarm := 0\<rparr>) s else s"
  have v1: "slot_valid ?s1 i" using assms(2) by simp
  have eq: "rr_waiting p s = (if t_state (tmem s p) \<noteq> WAITING then s
      else if jiffies s \<ge> t_wake_jiffy (tmem s p)
      then upd_thread p (\<lambda>r. r\<lparr>t_state := READY, t_ready_jiffy := jiffies s\<rparr>) ?s1 else ?s1)"
    using do_thread_ready_valid[OF v1] id assms(3) unfolding rr_waiting_def Let_def by auto
  have t: "touches p s ?s1" by (simp add: touches_upd)
  have r: "touches p a (upd_thread p (\<lambda>r. r\<lparr>t_state := READY, t_ready_jiffy := u\<rparr>) a)" for a u
    by (rule touches_upd) (simp_all add: same_identity_def)
  show "touches p s (rr_waiting p s)"
    unfolding eq using touches_trans[OF t r] t by auto
  show "t_state (tmem (rr_waiting p s) p) = (if wakes s (tmem s p) then READY else t_state (tmem s p))"
    "t_credits (tmem (rr_waiting p s) p) = t_credits (tmem s p)"
    "t_isResponder (tmem (rr_waiting p s) p) = t_isResponder (tmem s p)"
    "t_exit_in_progress (tmem (rr_waiting p s) p) = t_exit_in_progress (tmem s p)"
    "foreground_thread (rr_waiting p s) = foreground_thread s"
    unfolding eq by (simp_all add: wakes_def)
qed

lemma rr_quantum_effect:
  "touches p s (rr_quantum Idle p s)"
  "t_state (tmem (rr_quantum Idle p s) p) = t_state (tmem s p)"
  "t_exit_in_progress (tmem (rr_quantum Idle p s) p) = t_exit_in_progress (tmem s p)"
  "t_credits (tmem (rr_quantum Idle p s) p) = t_credits (tmem s p)"
  "foreground_thread (rr_quantum Idle p s) = foreground_thread s"
  "t_quantum (tmem (rr_quantum Idle p s) p) =
    (if t_isResponder (tmem s p) = TRUE \<or> DS_initialized s = TRUE \<and> t_tid (tmem s p) = DS_tid s
     then QUANTUM_SYSTEM_TIME_CRITICAL
     else if t_tid (tmem s p) = foreground_thread s then QUANTUM_NORMAL_TIME_CRITICAL
     else QUANTUM_NORMAL_THRESHOLD)"
  by (auto simp: rr_quantum_def Let_def touches_def same_sched_def same_identity_def)

lemma rr_balance_effect:
  "touches p s (rr_balance p s)"
  "t_state (tmem (rr_balance p s) p) = t_state (tmem s p)"
  "t_exit_in_progress (tmem (rr_balance p s) p) = t_exit_in_progress (tmem s p)"
  "t_isResponder (tmem (rr_balance p s) p) = t_isResponder (tmem s p)"
  "t_credits (tmem (rr_balance p s) p) = t_credits (tmem s p)"
  "foreground_thread (rr_balance p s) = foreground_thread s"
  by (simp_all add: rr_balance_def Let_def touches_def same_sched_def same_identity_def)

lemma rr_exit_effect:
  "touches p s (rr_exit Idle p s)"
  "t_credits (tmem (rr_exit Idle p s) p) = t_credits (tmem s p)"
  "t_quantum (tmem (rr_exit Idle p s) p) = t_quantum (tmem s p)"
  "t_exit_in_progress (tmem s p) \<noteq> TRUE \<Longrightarrow> t_state (tmem (rr_exit Idle p s) p) = t_state (tmem s p)"
  "foreground_thread (rr_exit Idle p s) = foreground_thread s
   \<or> foreground_thread (rr_exit Idle p s) = -1 \<and> foreground_thread s = t_tid (tmem s p)
      \<and> t_magic (tmem s p) = 1234"
  by (auto simp: rr_exit_def Let_def touches_def same_sched_def same_identity_def)

lemma rr_credits_effect:
  "touches p s (rr_credits p s)"
  "t_quantum (tmem (rr_credits p s) p) = t_quantum (tmem s p)
     + (if t_magic (tmem s p) = 1234 \<and> t_credits (tmem s p) \<ge> 2 then 1 else 0)"
  "foreground_thread (rr_credits p s) = foreground_thread s"
  "t_state (tmem (rr_credits p s) p) = t_state (tmem s p)"
  by (simp_all add: rr_credits_def touches_def same_sched_def same_identity_def)

text \<open>The threads that belong to the next round, and the quantum each one gets for it.\<close>

definition runnable :: "kstate \<Rightarrow> int \<Rightarrow> bool" where
  "runnable s i \<longleftrightarrow> slot_valid s i
     \<and> (t_state (tmem s (threadList s i)) = READY \<or> wakes s (tmem s (threadList s i)))"

definition zombie_at :: "kstate \<Rightarrow> int \<Rightarrow> bool" where
  "zombie_at s i \<longleftrightarrow> slot_valid s i \<and> t_state (tmem s (threadList s i)) = ZOMBIE"

definition round_quantum :: "kstate \<Rightarrow> int \<Rightarrow> u64" where
  "round_quantum s i = (let t = tmem s (threadList s i) in
     (if t_isResponder t = TRUE \<or> DS_initialized s = TRUE \<and> i = DS_tid s
      then QUANTUM_SYSTEM_TIME_CRITICAL
      else if i = foreground_thread s then QUANTUM_NORMAL_TIME_CRITICAL
      else QUANTUM_NORMAL_THRESHOLD)
     + (if t_credits t \<ge> 2 then 1 else 0))"

text \<open>The foreground thread only changes when it is the thread at hand and it exits.\<close>

definition fg_kept :: "int \<Rightarrow> kstate \<Rightarrow> kstate \<Rightarrow> bool" where
  "fg_kept i s s' \<longleftrightarrow> foreground_thread s' = foreground_thread s
     \<or> foreground_thread s' = -1 \<and> foreground_thread s = i"

lemma rr_ready_effect:
  assumes "p \<noteq> NULL" "t_used (tmem s p) = 1" "t_magic (tmem s p) = 1234" "t_state (tmem s p) = READY"
    and "l = pq s 6" "l \<noteq> NULL" "l \<noteq> p"
  shows "\<exists>s'. rr_ready Idle p s = Inr s' \<and> same_sched s s' \<and> pq s' = (pq s)(6 := p)
     \<and> foreground_thread s' = foreground_thread s
     \<and> (\<forall>q. q \<noteq> p \<and> q \<noteq> l \<longrightarrow> tmem s' q = tmem s q) \<and> tmem s' l = (tmem s l)\<lparr>t_next := p\<rparr>
     \<and> same_identity (tmem s' p) (tmem s p) \<and> t_next (tmem s' p) = t_next (tmem s p)
     \<and> t_credits (tmem s' p) = t_credits (tmem s p)
     \<and> t_state (tmem s' p) = READY \<and> t_exit_in_progress (tmem s' p) = t_exit_in_progress (tmem s p)
     \<and> t_quantum (tmem s' p) =
        (if t_isResponder (tmem s p) = TRUE \<or> DS_initialized s = TRUE \<and> t_tid (tmem s p) = DS_tid s
         then QUANTUM_SYSTEM_TIME_CRITICAL
         else if t_tid (tmem s p) = foreground_thread s then QUANTUM_NORMAL_TIME_CRITICAL
         else QUANTUM_NORMAL_THRESHOLD)"
proof -
  let ?s2 = "rr_link p s" and ?s6 = "rr_balance p (rr_link p s)"
  have eq: "rr_ready Idle p s = Inr (rr_quantum Idle p ?s6)"
    using assms(1-6) by (simp add: rr_ready_def)
  have s2: "tmem ?s2 r = (if r = l then (tmem s l)\<lparr>t_next := p\<rparr> else tmem s r)"
    "pq ?s2 = (pq s)(6 := p)" "same_sched s ?s2" "foreground_thread ?s2 = foreground_thread s" for r
    by (simp_all add: rr_link_def Let_def assms(5) same_sched_def)
  note t = rr_balance_effect[of p ?s2]
  have same: "t_isResponder (tmem ?s6 p) = t_isResponder (tmem s p)"
    "t_state (tmem ?s6 p) = READY" "t_exit_in_progress (tmem ?s6 p) = t_exit_in_progress (tmem s p)"
    "t_credits (tmem ?s6 p) = t_credits (tmem s p)" "foreground_thread ?s6 = foreground_thread s"
    "DS_initialized ?s6 = DS_initialized s" "DS_tid ?s6 = DS_tid s" "t_tid (tmem ?s6 p) = t_tid (tmem s p)"
    using assms(4,7) t s2(3,4) by (simp_all add: touches_def same_sched_def same_identity_def s2(1))
  note q = rr_quantum_effect[where p = p and s = ?s6 and Idle = Idle]
  have tq: "touches p ?s2 (rr_quantum Idle p ?s6)" by (rule touches_trans[OF t(1) q(1)])
  have "same_sched s (rr_quantum Idle p ?s6)"
    using tq s2(3) unfolding touches_def same_sched_def by simp
  moreover have "pq (rr_quantum Idle p ?s6) = (pq s)(6 := p)"
    "\<forall>r. r \<noteq> p \<and> r \<noteq> l \<longrightarrow> tmem (rr_quantum Idle p ?s6) r = tmem s r"
    "tmem (rr_quantum Idle p ?s6) l = (tmem s l)\<lparr>t_next := p\<rparr>"
    "same_identity (tmem (rr_quantum Idle p ?s6) p) (tmem s p)"
    "t_next (tmem (rr_quantum Idle p ?s6) p) = t_next (tmem s p)"
    using tq assms(7) unfolding touches_def s2(1,2) by simp_all
  ultimately show ?thesis unfolding eq using q(2-6) unfolding same by blast
qed

lemma rr_step_runnable:
  assumes wf: "threads_wf s" and run: "runnable s i" and p: "p = threadList s i"
    and l: "l = pq s 6" "l \<noteq> NULL" "l \<noteq> p"
  shows "\<exists>s'. rr_step Idle i s = Inr s' \<and> same_sched s s' \<and> pq s' = (pq s)(6 := p) \<and> fg_kept i s s'
     \<and> (\<forall>q. q \<noteq> p \<and> q \<noteq> l \<longrightarrow> tmem s' q = tmem s q) \<and> tmem s' l = (tmem s l)\<lparr>t_next := p\<rparr>
     \<and> same_identity (tmem s' p) (tmem s p) \<and> t_next (tmem s' p) = t_next (tmem s p)
     \<and> (t_exit_in_progress (tmem s p) \<noteq> TRUE \<longrightarrow> t_state (tmem s' p) = READY)
     \<and> t_quantum (tmem s' p) = round_quantum s i"
proof -
  have v: "slot_valid s i" using run by (simp add: runnable_def)
  have id: "p \<noteq> NULL" "t_used (tmem s p) = 1" "t_magic (tmem s p) = 1234" "t_tid (tmem s p) = i"
    using v wf slot_validD(5-7)[OF v] p by (auto simp: threads_wf_def)
  let ?s1 = "rr_waiting p s"
  note w = rr_waiting_effect[OF wf v p]
  have id1: "t_used (tmem ?s1 p) = 1" "t_magic (tmem ?s1 p) = 1234" "t_tid (tmem ?s1 p) = i"
    using w(1) id by (auto simp: touches_def same_identity_def)
  have ready: "t_state (tmem ?s1 p) = READY"
    using w(2) run p by (auto simp: runnable_def)
  have l1: "l = pq ?s1 6" using w(1) l by (simp add: touches_def)
  obtain s2 where s2: "rr_ready Idle p ?s1 = Inr s2" "same_sched ?s1 s2" "pq s2 = (pq ?s1)(6 := p)"
    "foreground_thread s2 = foreground_thread ?s1"
    "\<forall>q. q \<noteq> p \<and> q \<noteq> l \<longrightarrow> tmem s2 q = tmem ?s1 q" "tmem s2 l = (tmem ?s1 l)\<lparr>t_next := p\<rparr>"
    "same_identity (tmem s2 p) (tmem ?s1 p)" "t_next (tmem s2 p) = t_next (tmem ?s1 p)"
    "t_credits (tmem s2 p) = t_credits (tmem ?s1 p)" "t_state (tmem s2 p) = READY"
    "t_exit_in_progress (tmem s2 p) = t_exit_in_progress (tmem ?s1 p)"
    "t_quantum (tmem s2 p) =
        (if t_isResponder (tmem ?s1 p) = TRUE \<or> DS_initialized ?s1 = TRUE \<and> i = DS_tid ?s1
         then QUANTUM_SYSTEM_TIME_CRITICAL
         else if i = foreground_thread ?s1 then QUANTUM_NORMAL_TIME_CRITICAL
         else QUANTUM_NORMAL_THRESHOLD)"
    using rr_ready_effect[OF id(1) id1(1,2) ready l1 l(2,3), of Idle] unfolding id1(3) by blast
  let ?s3 = "rr_exit Idle p s2" and ?s4 = "rr_credits p (rr_exit Idle p s2)"
  note e = rr_exit_effect[where p = p and s = s2 and Idle = Idle]
    and c = rr_credits_effect[where p = p and s = "rr_exit Idle p s2"]
  have step: "rr_step Idle i s = Inr ?s4"
    using s2(1) id(1) p ready by (simp add: rr_step_def rr_zombie_def Let_def)
  have t: "touches p s2 ?s4" by (rule touches_trans[OF e(1) c(1)])
  have "same_sched s ?s4"
    using w(1) s2(2) t by (simp add: touches_def same_sched_def)
  moreover have "pq ?s4 = (pq s)(6 := p)" "\<forall>q. q \<noteq> p \<and> q \<noteq> l \<longrightarrow> tmem ?s4 q = tmem s q"
    "tmem ?s4 l = (tmem s l)\<lparr>t_next := p\<rparr>" "same_identity (tmem ?s4 p) (tmem s p)"
    "t_next (tmem ?s4 p) = t_next (tmem s p)"
    using w(1) s2(3,5-8) t l(3) by (simp_all add: touches_def same_identity_def)
  moreover have "fg_kept i s ?s4"
  proof -
    have "t_tid (tmem s2 p) = i" using s2(7) id1(3) by (simp add: same_identity_def)
    then show ?thesis using e(5) c(3) s2(4) w(6) by (auto simp: fg_kept_def)
  qed
  moreover have "t_exit_in_progress (tmem s p) \<noteq> TRUE \<longrightarrow> t_state (tmem ?s4 p) = READY"
    using e(4) c(4) s2(10,11) w(5) by simp
  moreover have "t_quantum (tmem ?s4 p) = round_quantum s i"
  proof -
    have "t_magic (tmem ?s3 p) = 1234" "t_credits (tmem ?s3 p) = t_credits (tmem s p)"
      using e(1,2) s2(7,9) id1(2) w(3) by (simp_all add: touches_def same_identity_def)
    moreover have "DS_initialized ?s1 = DS_initialized s" "DS_tid ?s1 = DS_tid s"
      using w(1) by (simp_all add: touches_def same_sched_def)
    ultimately show ?thesis
      unfolding round_quantum_def Let_def p[symmetric] using c(2) e(3) s2(12) w(4,6) by simp
  qed
  ultimately show ?thesis using step by blast
qed

text \<open>A slot that is empty, invalid, or holds a valid thread neither runnable nor a zombie.\<close>

lemma rr_step_idle:
  assumes wf: "threads_wf s" and i: "tid_ok i" and run: "\<not> runnable s i" "\<not> zombie_at s i"
  shows "\<exists>s'. rr_step Idle i s = Inr s' \<and> touches (threadList s i) s s' \<and>
     (slot_valid s i \<longrightarrow> fg_kept i s s') \<and> (threadList s i = NULL \<longrightarrow> s' = s)
     \<and> (\<not> slot_valid s i \<longrightarrow> foreground_thread s' = foreground_thread s
          \<or> foreground_thread s' = -1 \<and> t_magic (tmem s (threadList s i)) = 1234)"
proof (cases "threadList s i = NULL")
  case True
  then show ?thesis by (simp add: rr_step_def fg_kept_def)
next
  case ptr: False
  let ?p = "threadList s i"
  let ?s1 = "rr_waiting ?p s"
  let ?s3 = "rr_exit Idle ?p ?s1" and ?s4 = "rr_credits ?p (rr_exit Idle ?p ?s1)"
  have w: "touches ?p s ?s1 \<and> foreground_thread ?s1 = foreground_thread s
      \<and> \<not> (slot_valid s i \<and> t_state (tmem ?s1 ?p) \<in> {READY, ZOMBIE}) \<and> (\<not> slot_valid s i \<longrightarrow> ?s1 = s)"
  proof (cases "slot_valid s i")
    case True
    then show ?thesis using rr_waiting_effect[OF wf True refl] run
      by (auto simp: runnable_def zombie_at_def)
  next
    case False
    then have "?s1 = s" using ptr i by (auto simp: rr_waiting_def slot_valid_def thread_valid_def)
    then show ?thesis using False by simp
  qed
  have no: "\<not> (t_used (tmem ?s1 ?p) = 1 \<and> t_magic (tmem ?s1 ?p) = 1234
      \<and> t_state (tmem ?s1 ?p) \<in> {READY, ZOMBIE})"
    using w ptr i by (auto simp: slot_valid_def thread_valid_def touches_def same_identity_def)
  have step: "rr_step Idle i s = Inr ?s4"
    using no ptr by (auto simp: rr_step_def rr_zombie_def rr_ready_def Let_def)
  note e = rr_exit_effect[where p = ?p and s = ?s1 and Idle = Idle]
    and c = rr_credits_effect[where p = ?p and s = ?s3]
  have t: "touches ?p s ?s4"
    using touches_trans[OF conjunct1[OF w] touches_trans[OF e(1) c(1)]] .
  have "t_tid (tmem ?s1 ?p) = i" if "slot_valid s i"
    using that wf w by (auto simp: threads_wf_def touches_def same_identity_def)
  then show ?thesis
    using step t e(5) c(3) w ptr by (auto simp: fg_kept_def touches_def same_identity_def)
qed

section \<open>The round\<close>

text \<open>A list of threads joined by their \<open>next\<close> links, and the list a reader of the links finds.\<close>

fun linked :: "kstate \<Rightarrow> ptr list \<Rightarrow> bool" where
  "linked s [] \<longleftrightarrow> True"
| "linked s [p] \<longleftrightarrow> True"
| "linked s (p # q # ps) \<longleftrightarrow> t_next (tmem s p) = q \<and> linked s (q # ps)"

fun walk :: "nat \<Rightarrow> ptr \<Rightarrow> kstate \<Rightarrow> ptr list" where
  "walk 0 p s = []"
| "walk (Suc n) p s = (if p = NULL then [] else p # walk n (t_next (tmem s p)) s)"

lemma linked_snoc:
  "ps \<noteq> [] \<Longrightarrow> linked s (ps @ [p]) \<longleftrightarrow> linked s ps \<and> t_next (tmem s (last ps)) = p"
  by (induction s ps rule: linked.induct) auto

lemma linked_cong:
  "(\<And>q. q \<in> set (butlast ps) \<Longrightarrow> t_next (tmem s' q) = t_next (tmem s q)) \<Longrightarrow> linked s' ps = linked s ps"
proof (induction s ps rule: linked.induct)
  case (3 s p q ps)
  then have "linked s' (q # ps) = linked s (q # ps)" by (cases ps) auto
  then show ?case using "3.prems"[of p] by simp
qed auto

lemma walk_linked:
  assumes "linked s ps" "ps \<noteq> []" "\<forall>p\<in>set ps. p \<noteq> NULL" "t_next (tmem s (last ps)) = NULL"
    "length ps < n"
  shows "walk n (hd ps) s = ps"
  using assms
proof (induction s ps arbitrary: n rule: linked.induct)
  case (2 s p)
  then obtain m where "n = Suc m" "0 < m" by (cases n) auto
  then show ?case using 2 by (cases m) auto
next
  case (3 s p q ps)
  then obtain m where "n = Suc m" by (cases n) auto
  then show ?case using 3 by auto
qed auto

text \<open>The tids of the round, idle thread first, then the runnable threads in the order of the table.\<close>

definition round_tids :: "kstate \<Rightarrow> int \<Rightarrow> int list" where
  "round_tids s n = 0 # filter (runnable s) (slots 1 n)"

definition round_inv :: "kstate \<Rightarrow> int \<Rightarrow> kstate \<Rightarrow> bool" where
  "round_inv s0 i s \<longleftrightarrow> same_sched s0 s
     \<and> (\<forall>p. same_identity (tmem s p) (tmem s0 p))
     \<and> linked s (map (threadList s0) (round_tids s0 i))
     \<and> pq s 6 = threadList s0 (last (round_tids s0 i))
     \<and> (\<forall>j. i \<le> j \<and> slot_valid s0 j \<longrightarrow> tmem s (threadList s0 j) = tmem s0 (threadList s0 j))
     \<and> (\<forall>j. 0 < j \<and> j < i \<and> runnable s0 j \<longrightarrow> t_quantum (tmem s (threadList s0 j)) = round_quantum s0 j)
     \<and> (\<forall>j. 0 < j \<and> j < i \<and> runnable s0 j \<and> t_exit_in_progress (tmem s0 (threadList s0 j)) \<noteq> TRUE
          \<longrightarrow> t_state (tmem s (threadList s0 j)) = READY)
     \<and> t_state (tmem s (threadList s0 0)) = t_state (tmem s0 (threadList s0 0))
     \<and> (foreground_thread s = foreground_thread s0
        \<or> foreground_thread s = -1 \<and> foreground_thread s0 < i)"

text \<open>The table has no half-freed structures: a structure with the magic number is in use.\<close>

definition table_clean :: "kstate \<Rightarrow> bool" where
  "table_clean s \<longleftrightarrow> (\<forall>i. tid_ok i \<and> threadList s i \<noteq> NULL \<and> t_magic (tmem s (threadList s i)) = 1234
     \<longrightarrow> t_used (tmem s (threadList s i)) = TRUE)"

definition no_zombies :: "kstate \<Rightarrow> int \<Rightarrow> bool" where
  "no_zombies s n \<longleftrightarrow> (\<forall>i. 0 < i \<and> i < n \<longrightarrow> \<not> zombie_at s i)"

lemma round_tids_valid:
  "slot_valid s 0 \<Longrightarrow> j \<in> set (round_tids s i) \<Longrightarrow> slot_valid s j"
  by (auto simp: round_tids_def runnable_def)

lemma round_tids_less: "0 < i \<Longrightarrow> j \<in> set (round_tids s i) \<Longrightarrow> 0 \<le> j \<and> j < i"
  by (auto simp: round_tids_def)

lemma distinct_round:
  assumes "threads_wf s" "slot_valid s 0"
  shows "distinct (map (threadList s) (round_tids s i))"
proof -
  have "distinct (round_tids s i)" by (simp add: round_tids_def)
  moreover have "inj_on (threadList s) (set (round_tids s i))"
    using threads_wf_inj[OF assms(1)] round_tids_valid[OF assms(2)] by (blast intro: inj_onI)
  ultimately show ?thesis by (simp add: distinct_map)
qed

lemma slots_snoc: "k \<le> n \<Longrightarrow> slots k (n + 1) = slots k n @ [n]"
  using slots_split[of k n "n + 1"] slots_Cons[of n "n + 1"] slots_empty[of "n + 1" "n + 1"] by simp

lemma round_tids_snoc:
  "1 \<le> i \<Longrightarrow> round_tids s (i + 1) = round_tids s i @ (if runnable s i then [i] else [])"
  by (simp add: round_tids_def slots_snoc)

lemma touches_linked:
  assumes "touches p s s'"
  shows "linked s' ps = linked s ps"
  using assms by (intro linked_cong) (metis touches_def)

lemma round_inv_step:
  assumes ok: "threads_wf s0" "slot_valid s0 0" "table_clean s0" "\<not> zombie_at s0 i"
    and i: "1 \<le> i" "i < THREAD_COUNT_MAX" and inv: "round_inv s0 i s"
  shows "\<exists>s'. rr_step (threadList s0 0) i s = Inr s' \<and> round_inv s0 (i + 1) s'"
proof -
  note I = inv[unfolded round_inv_def]
  have tl: "threadList s = threadList s0" and jf: "jiffies s = jiffies s0"
    and ds: "DS_initialized s = DS_initialized s0" "DS_tid s = DS_tid s0"
    using I by (auto simp: same_sched_def)
  have idn: "t_used (tmem s p) = t_used (tmem s0 p)" "t_magic (tmem s p) = t_magic (tmem s0 p)"
    "t_tid (tmem s p) = t_tid (tmem s0 p)" for p
    using I by (auto simp: same_identity_def)
  have sv: "slot_valid s j = slot_valid s0 j" for j by (simp add: slot_defs tl idn)
  have wf: "threads_wf s" using ok(1) by (simp add: threads_wf_def sv tl idn)
  have at: "slot_valid s0 i \<Longrightarrow> tmem s (threadList s0 i) = tmem s0 (threadList s0 i)"
    using I by simp
  have run: "runnable s i = runnable s0 i" and zom: "zombie_at s i = zombie_at s0 i"
    using at by (auto simp: runnable_def zombie_at_def sv tl wakes_def jf)
  let ?p = "threadList s0 i" and ?L = "map (threadList s0) (round_tids s0 i)"
  have tok: "tid_ok i" using i by (simp add: tid_ok_def)
  have later: "threadList s0 j \<noteq> ?p" if "i < j" "slot_valid s0 j" for j
    using threads_wf_inj[OF ok(1) that(2), of i] that by (metis less_irrefl slot_valid_def tok)
  show ?thesis
  proof (cases "runnable s0 i")
    case True
    then have v: "slot_valid s0 i" by (simp add: runnable_def)
    let ?l = "threadList s0 (last (round_tids s0 i))"
    have ne: "round_tids s0 i \<noteq> []" by (simp add: round_tids_def)
    have lv: "slot_valid s0 (last (round_tids s0 i))" "last (round_tids s0 i) < i"
      using round_tids_valid[OF ok(2)] round_tids_less[of i] i last_in_set[OF ne] by auto
    have lp: "?l = pq s 6" "?l \<noteq> NULL" "?l \<noteq> ?p"
      using I slot_validD(5)[OF lv(1)] threads_wf_inj[OF ok(1) lv(1) v] lv(2) by auto
    obtain s' where s': "rr_step (threadList s0 0) i s = Inr s'" "same_sched s s'"
        "pq s' = (pq s)(6 := ?p)" "fg_kept i s s'" "\<forall>q. q \<noteq> ?p \<and> q \<noteq> ?l \<longrightarrow> tmem s' q = tmem s q"
        "tmem s' ?l = (tmem s ?l)\<lparr>t_next := ?p\<rparr>" "same_identity (tmem s' ?p) (tmem s ?p)"
        "t_next (tmem s' ?p) = t_next (tmem s ?p)" "t_quantum (tmem s' ?p) = round_quantum s i"
        "t_exit_in_progress (tmem s ?p) \<noteq> TRUE \<longrightarrow> t_state (tmem s' ?p) = READY"
      using rr_step_runnable[OF wf, of i ?p ?l "threadList s0 0"] run True lp tl by auto
    have snoc: "round_tids s0 (i + 1) = round_tids s0 i @ [i]"
      using round_tids_snoc[OF i(1), of s0] True by simp
    have d: "distinct (?L @ [?p])" using distinct_round[OF ok(1,2), of "i + 1"] snoc by simp
    have lL: "last ?L = ?l" "?L \<noteq> []" using ne by (simp_all add: last_map)
    have "linked s' ?L = linked s ?L"
    proof (rule linked_cong)
      fix q assume q: "q \<in> set (butlast ?L)"
      then have "q \<noteq> ?p" using d by (auto dest: in_set_butlastD)
      moreover have "q \<noteq> ?l" using q d lL by (metis append_butlast_last_id distinct_append
            not_distinct_conv_prefix)
      ultimately show "t_next (tmem s' q) = t_next (tmem s q)" using s'(5) by simp
    qed
    then have "linked s' (?L @ [?p])" using I lL s'(6) by (simp add: linked_snoc)
    moreover have "same_identity (tmem s' q) (tmem s0 q)" for q
      using s'(5-7) I by (cases "q = ?p"; cases "q = ?l") (auto simp: same_identity_def)
    moreover have "tmem s' (threadList s0 j) = tmem s0 (threadList s0 j)"
      if "i + 1 \<le> j" "slot_valid s0 j" for j
    proof -
      have "threadList s0 j \<noteq> ?l" using threads_wf_inj[OF ok(1) that(2) lv(1)] lv(2) that(1) by auto
      then show ?thesis using s'(5) later[of j] that I by auto
    qed
    moreover have "t_quantum (tmem s' (threadList s0 j)) = round_quantum s0 j"
      if "0 < j" "j < i + 1" "runnable s0 j" for j
    proof (cases "j = i")
      case True
      have "round_quantum s i = round_quantum s0 i"
        using I i at[OF v] by (auto simp: round_quantum_def Let_def tl ds)
      then show ?thesis using True s'(9) by simp
    next
      case False
      then have "threadList s0 j \<noteq> ?p" using threads_wf_inj[OF ok(1), of j i] that v
        by (auto simp: runnable_def)
      then have "t_quantum (tmem s' (threadList s0 j)) = t_quantum (tmem s (threadList s0 j))"
        using s'(5,6) by (cases "threadList s0 j = ?l") auto
      then show ?thesis using I that False by auto
    qed
    moreover have "t_state (tmem s' (threadList s0 j)) = READY"
      if "0 < j" "j < i + 1" "runnable s0 j" "t_exit_in_progress (tmem s0 (threadList s0 j)) \<noteq> TRUE" for j
    proof (cases "j = i")
      case True
      then show ?thesis using s'(10) that(4) at[OF v] by simp
    next
      case False
      then have "threadList s0 j \<noteq> ?p" using threads_wf_inj[OF ok(1), of j i] that v
        by (auto simp: runnable_def)
      then have "t_state (tmem s' (threadList s0 j)) = t_state (tmem s (threadList s0 j))"
        using s'(5,6) by (cases "threadList s0 j = ?l") auto
      then show ?thesis using I that False by auto
    qed
    moreover have "t_state (tmem s' (threadList s0 0)) = t_state (tmem s0 (threadList s0 0))"
    proof -
      have "threadList s0 0 \<noteq> ?p" using threads_wf_inj[OF ok(1) ok(2) v] i by auto
      then have "t_state (tmem s' (threadList s0 0)) = t_state (tmem s (threadList s0 0))"
        using s'(5,6) by (cases "threadList s0 0 = ?l") auto
      then show ?thesis using I by simp
    qed
    moreover have "foreground_thread s' = foreground_thread s0
        \<or> foreground_thread s' = -1 \<and> foreground_thread s0 < i + 1"
      using s'(4) I by (auto simp: fg_kept_def)
    moreover have "same_sched s0 s'" using I s'(2) by (simp add: same_sched_def)
    ultimately show ?thesis using s'(1,3) by (auto simp: round_inv_def snoc)
  next
    case False
    obtain s' where s': "rr_step (threadList s0 0) i s = Inr s'" "touches ?p s s'"
        "slot_valid s i \<longrightarrow> fg_kept i s s'" "?p = NULL \<longrightarrow> s' = s"
        "\<not> slot_valid s i \<longrightarrow> foreground_thread s' = foreground_thread s
          \<or> foreground_thread s' = -1 \<and> t_magic (tmem s ?p) = 1234"
      using rr_step_idle[OF wf tok, of "threadList s0 0"] run zom False ok(4) tl by auto
    have fg: "fg_kept i s s'"
    proof (cases "slot_valid s i \<or> ?p = NULL")
      case True
      then show ?thesis using s'(3,4) by (auto simp: fg_kept_def)
    next
      case False
      then have "t_magic (tmem s ?p) \<noteq> 1234"
        using ok(3) tok by (auto simp: table_clean_def slot_valid_def thread_valid_def tl idn)
      then show ?thesis using s'(5) False by (auto simp: fg_kept_def)
    qed
    have snoc: "round_tids s0 (i + 1) = round_tids s0 i"
      using round_tids_snoc[OF i(1), of s0] False by simp
    have inround: "threadList s0 j \<noteq> ?p" if "runnable s0 j" for j
    proof
      assume eq: "threadList s0 j = ?p"
      then have "slot_valid s0 i"
        using that tok by (auto simp: runnable_def slot_valid_def)
      then show False using threads_wf_inj[OF ok(1), of j i] that eq False by (auto simp: runnable_def)
    qed
    have t: "pq s' = pq s" "\<And>q. q \<noteq> ?p \<Longrightarrow> tmem s' q = tmem s q" "same_sched s s'"
      "\<And>q. same_identity (tmem s' q) (tmem s q)"
      using s'(2) unfolding touches_def by (auto, metis same_identity_refl)
    have "t_quantum (tmem s' (threadList s0 j)) = round_quantum s0 j"
      if "0 < j" "j < i + 1" "runnable s0 j" for j
    proof -
      have "j < i" using that False by (cases "j = i") auto
      then show ?thesis using I that t(2)[OF inround[OF that(3)]] by simp
    qed
    moreover have "t_state (tmem s' (threadList s0 j)) = READY"
      if "0 < j" "j < i + 1" "runnable s0 j" "t_exit_in_progress (tmem s0 (threadList s0 j)) \<noteq> TRUE" for j
    proof -
      have "j < i" using that False by (cases "j = i") auto
      then show ?thesis using I that t(2)[OF inround[OF that(3)]] by simp
    qed
    moreover have "t_state (tmem s' (threadList s0 0)) = t_state (tmem s0 (threadList s0 0))"
    proof -
      have "threadList s0 0 \<noteq> ?p"
      proof
        assume eq: "threadList s0 0 = ?p"
        then have "slot_valid s0 i" using ok(2) tok by (auto simp: slot_valid_def)
        then show False using threads_wf_inj[OF ok(1,2), of i] eq i by auto
      qed
      then show ?thesis using I t(2) by simp
    qed
    moreover have "tmem s' (threadList s0 j) = tmem s0 (threadList s0 j)"
      if "i + 1 \<le> j" "slot_valid s0 j" for j
      using I t(2)[OF later[of j]] that by simp
    moreover have "same_sched s0 s'" "\<forall>p. same_identity (tmem s' p) (tmem s0 p)"
      using I t(3,4) by (auto simp: same_sched_def same_identity_def)
    moreover have "linked s' (map (threadList s0) (round_tids s0 i))"
      using I touches_linked[OF s'(2)] by simp
    moreover have "pq s' 6 = threadList s0 (last (round_tids s0 i))" using I t(1) by simp
    moreover have "foreground_thread s' = foreground_thread s0
        \<or> foreground_thread s' = -1 \<and> foreground_thread s0 < i + 1"
      using I fg by (auto simp: fg_kept_def)
    ultimately show ?thesis using s'(1) by (simp add: round_inv_def snoc)
  qed
qed

lemma round_loop:
  assumes ok: "threads_wf s0" "slot_valid s0 0" "table_clean s0" "no_zombies s0 n"
    and start: "pq s0 6 = threadList s0 0" and n: "1 \<le> n" "n \<le> THREAD_COUNT_MAX"
  shows "\<exists>s. kfold (rr_step (threadList s0 0)) (slots 1 n) s0 = Inr s \<and> round_inv s0 n s"
  using n ok(4)
proof (induction n rule: int_ge_induct)
  case base
  have "round_inv s0 1 s0"
    using start by (auto simp: round_inv_def same_sched_def round_tids_def slots_empty)
  then show ?case by (simp add: slots_empty)
next
  case (step i)
  then obtain s where s: "kfold (rr_step (threadList s0 0)) (slots 1 i) s0 = Inr s" "round_inv s0 i s"
    by (auto simp: no_zombies_def)
  have "\<not> zombie_at s0 i" using step by (simp add: no_zombies_def)
  then obtain s' where "rr_step (threadList s0 0) i s = Inr s'" "round_inv s0 (i + 1) s'"
    using round_inv_step[OF ok(1-3) _ step.hyps _ s(2)] step.prems by auto
  then show ?case using s by (simp add: slots_snoc[OF step.hyps] kfold_append)
qed

text \<open>What the scheduler needs of the state it starts from.\<close>

definition sched_ok :: "kstate \<Rightarrow> bool" where
  "sched_ok s \<longleftrightarrow> sched_initialized s = TRUE \<and> sched_policy s = SCHED_POLICY_RR \<and> threads_wf s
     \<and> table_clean s \<and> slot_valid s 0 \<and> UP_IdleThread s = threadList s 0 \<and> InitThread s = threadList s 0"

definition idle_asleep :: "kstate \<Rightarrow> bool" where
  "idle_asleep s \<longleftrightarrow> jiffies s < t_wake_jiffy (tmem s (UP_IdleThread s))"

text \<open>The state the walk starts from, when the stale wake up is not taken.\<close>

definition rr_start :: "kstate \<Rightarrow> kstate" where
  "rr_start s = rr_heads (UP_IdleThread s) (rr_idle (UP_IdleThread s) (rr_clear s))"

lemma rr_heads_simps [simp]:
  "tmem (rr_heads Idle s) = tmem s" "threadList (rr_heads Idle s) = threadList s"
  "jiffies (rr_heads Idle s) = jiffies s" "UP_IdleThread (rr_heads Idle s) = UP_IdleThread s"
  "pq (rr_heads Idle s) 6 = Idle" "currentq (rr_heads Idle s) = Idle"
  "system_state (rr_heads Idle s) = system_state s" "DS_tid (rr_heads Idle s) = DS_tid s"
  "DS_initialized (rr_heads Idle s) = DS_initialized s" "InitThread (rr_heads Idle s) = InitThread s"
  "foreground_thread (rr_heads Idle s) = foreground_thread s"
  "rr_residue (rr_heads Idle s) = rr_residue s"
  "rr_round_counter (rr_heads Idle s) = rr_round_counter s"
  "UP_threads_counter (rr_heads Idle s) = UP_threads_counter s" "timeout_thread (rr_heads Idle s) = timeout_thread s"
  by (simp_all add: rr_heads_def qlist_set_element_def Let_def)

lemma rr_clear_simps [simp]:
  "tmem (rr_clear s) = tmem s" "threadList (rr_clear s) = threadList s"
  "jiffies (rr_clear s) = jiffies s" "UP_IdleThread (rr_clear s) = UP_IdleThread s"
  "sched_initialized (rr_clear s) = sched_initialized s" "sched_policy (rr_clear s) = sched_policy s"
  "system_state (rr_clear s) = system_state s" "DS_tid (rr_clear s) = DS_tid s"
  "DS_initialized (rr_clear s) = DS_initialized s" "InitThread (rr_clear s) = InitThread s"
  "foreground_thread (rr_clear s) = foreground_thread s" "rr_residue (rr_clear s) = rr_residue s"
  "rr_round_counter (rr_clear s) = rr_round_counter s"
  "UP_threads_counter (rr_clear s) = UP_threads_counter s" "timeout_thread (rr_clear s) = timeout_thread s"
  by (simp_all add: rr_clear_def)

lemma rr_start_simps [simp]:
  "threadList (rr_start s) = threadList s" "jiffies (rr_start s) = jiffies s"
  "UP_IdleThread (rr_start s) = UP_IdleThread s" "pq (rr_start s) 6 = UP_IdleThread s"
  "currentq (rr_start s) = UP_IdleThread s" "system_state (rr_start s) = system_state s"
  "DS_tid (rr_start s) = DS_tid s" "DS_initialized (rr_start s) = DS_initialized s"
  "foreground_thread (rr_start s) = foreground_thread s" "InitThread (rr_start s) = InitThread s"
  "rr_residue (rr_start s) = rr_residue s" "rr_round_counter (rr_start s) = rr_round_counter s"
  "UP_threads_counter (rr_start s) = UP_threads_counter s" "timeout_thread (rr_start s) = timeout_thread s"
  "same_identity (tmem (rr_start s) p) (tmem s p)"
  "p \<noteq> UP_IdleThread s \<Longrightarrow> tmem (rr_start s) p = tmem s p"
  "t_used (tmem (rr_start s) p) = t_used (tmem s p)" "t_magic (tmem (rr_start s) p) = t_magic (tmem s p)"
  "t_tid (tmem (rr_start s) p) = t_tid (tmem s p)"
  "t_state (tmem (rr_start s) p) = t_state (tmem s p)"
  "t_wake_jiffy (tmem (rr_start s) p) = t_wake_jiffy (tmem s p)"
  "t_MsgQueue (tmem (rr_start s) p) = t_MsgQueue (tmem s p)"
  "t_MsgQueueHead (tmem (rr_start s) p) = t_MsgQueueHead (tmem s p)"
  "t_MsgQueueTail (tmem (rr_start s) p) = t_MsgQueueTail (tmem s p)"
  by (simp_all add: rr_start_def rr_idle_def)

lemma rr_prologue_head:
  assumes "sched_ok s"
  shows "rr_prologue s =
    (if idle_asleep s then Inr (rr_start s)
     else let T = rr_residue s (rr_round_counter s) in
       if T = NULL then Inl (NullDeref ''TmpThread->tid'')
       else Inr (do_thread_ready (t_tid (tmem s T)) (rr_start s)))"
proof -
  note ok = assms[unfolded sched_ok_def]
  have v: "slot_valid s 0" using ok by simp
  have t0: "t_tid (tmem s (UP_IdleThread s)) = INIT_TID"
    using ok by (auto simp: threads_wf_def INIT_TID_def)
  have i: "UP_IdleThread s \<noteq> NULL" "t_used (tmem s (UP_IdleThread s)) = 1"
    "t_magic (tmem s (UP_IdleThread s)) = 1234" "UP_IdleThread s = InitThread s"
    "sched_initialized s = 1" "sched_policy s = SCHED_POLICY_RR"
    using ok slot_validD(5-7)[OF v] by auto
  have tid: "t_tid (tmem (rr_idle I (rr_clear s)) p) = t_tid (tmem s p)"
    "t_wake_jiffy (tmem (rr_idle I (rr_clear s)) p) = t_wake_jiffy (tmem s p)" for I p
    by (simp_all add: rr_idle_def)
  have idle: "rr_residue (rr_idle I (rr_clear s)) = rr_residue s" "jiffies (rr_idle I (rr_clear s)) = jiffies s"
    "rr_round_counter (rr_idle I (rr_clear s)) = rr_round_counter s" for I
    by (simp_all add: rr_idle_def)
  show ?thesis
    unfolding rr_prologue_def Let_def rr_clear_simps rr_heads_simps tid idle rr_start_def idle_asleep_def
    using i t0 by (simp add: not_less)
qed

lemma rr_start_same:
  assumes "sched_ok s"
  shows "slot_valid (rr_start s) i = slot_valid s i" "threads_wf (rr_start s)" "table_clean (rr_start s)"
    "runnable (rr_start s) i = runnable s i" "zombie_at (rr_start s) i = zombie_at s i"
    "0 < i \<Longrightarrow> runnable s i \<Longrightarrow> round_quantum (rr_start s) i = round_quantum s i"
proof -
  note ok = assms[unfolded sched_ok_def]
  show v: "slot_valid (rr_start s) i = slot_valid s i" for i by (simp add: slot_defs)
  show "threads_wf (rr_start s)" using ok by (simp add: threads_wf_def v)
  show "table_clean (rr_start s)" using ok by (simp add: table_clean_def)
  show "runnable (rr_start s) i = runnable s i" by (simp add: runnable_def v wakes_def)
  show "zombie_at (rr_start s) i = zombie_at s i" by (simp add: zombie_at_def v)
  show "round_quantum (rr_start s) i = round_quantum s i" if "0 < i" "runnable s i"
  proof -
    have "threadList s i \<noteq> UP_IdleThread s"
      using ok threads_wf_inj[of s i 0] that by (auto simp: runnable_def)
    then show ?thesis by (simp add: round_quantum_def Let_def)
  qed
qed

lemma round_tids_start:
  assumes "sched_ok s"
  shows "round_tids (rr_start s) n = round_tids s n"
proof -
  have "runnable (rr_start s) = runnable s" using rr_start_same(4)[OF assms] by (rule ext)
  then show ?thesis by (simp add: round_tids_def)
qed

lemma scheduler_rr_round:
  assumes ok: "sched_ok s" and nz: "no_zombies s THREAD_COUNT_MAX" and idle: "idle_asleep s"
  shows "\<exists>s'. scheduler_rr s = Inr (0, s') \<and> currentq s' = threadList s 0 \<and> system_state s' = system_state s
     \<and> UP_IdleThread s' = threadList s 0 \<and> (\<forall>p. same_identity (tmem s' p) (tmem s p))
     \<and> walk 1025 (currentq s') s' = map (threadList s) (round_tids s THREAD_COUNT_MAX)
     \<and> (\<forall>j. 0 < j \<and> j < THREAD_COUNT_MAX \<and> runnable s j
          \<longrightarrow> t_quantum (tmem s' (threadList s j)) = round_quantum s j)
     \<and> (\<forall>j. 0 < j \<and> j < THREAD_COUNT_MAX \<and> runnable s j
           \<and> t_exit_in_progress (tmem s (threadList s j)) \<noteq> TRUE
          \<longrightarrow> t_state (tmem s' (threadList s j)) = READY)
     \<and> t_state (tmem s' (threadList s 0)) = t_state (tmem s (threadList s 0))
     \<and> UP_threads_counter s' = UP_threads_counter s \<and> timeout_thread s' = timeout_thread s
     \<and> threadList s' = threadList s
     \<and> linked s' (map (threadList s) (round_tids s THREAD_COUNT_MAX))
     \<and> t_next (tmem s' (last (map (threadList s) (round_tids s THREAD_COUNT_MAX)))) = NULL"
proof -
  note o = ok[unfolded sched_ok_def] and st = rr_start_same[OF ok]
  let ?s0 = "rr_start s"
  have p: "rr_prologue s = Inr ?s0" using rr_prologue_head[OF ok] idle by simp
  have t0: "t_tid (tmem s (threadList s 0)) = 0" using o by (auto simp: threads_wf_def)
  have v0: "slot_valid ?s0 0" using o st(1) by simp
  have nz0: "no_zombies ?s0 THREAD_COUNT_MAX" using nz by (simp add: no_zombies_def st(5))
  have pq0: "pq ?s0 6 = threadList ?s0 0" using o by simp
  have "1 \<le> THREAD_COUNT_MAX" by (simp add: THREAD_COUNT_MAX_def)
  then obtain s2 where s2: "kfold (rr_step (threadList ?s0 0)) (slots 1 THREAD_COUNT_MAX) ?s0 = Inr s2"
      "round_inv ?s0 THREAD_COUNT_MAX s2"
    using round_loop[OF st(2) v0 st(3) nz0 pq0 _ order_refl] by blast
  note I = s2(2)[unfolded round_inv_def round_tids_start[OF ok] rr_start_simps(1)]
  let ?R = "round_tids s THREAD_COUNT_MAX" and ?L = "map (threadList s) (round_tids s THREAD_COUNT_MAX)"
  have ne: "?R \<noteq> []" "?L \<noteq> []" by (simp_all add: round_tids_def)
  have last: "pq s2 6 = last ?L" using I ne by (simp add: last_map)
  have nn: "\<forall>p\<in>set ?L. p \<noteq> NULL" using round_tids_valid[of s] o slot_validD(5) by auto
  then have lnn: "last ?L \<noteq> NULL" using ne(2) last_in_set by blast
  let ?s3 = "upd_thread (last ?L) (\<lambda>r. r\<lparr>t_next := NULL\<rparr>) s2"
  let ?s' = "?s3\<lparr>rr_round_counter := rr_round_counter ?s3 + 1\<rparr>"
  have run: "scheduler_rr s = Inr (0, ?s')"
    unfolding scheduler_rr_def p using o t0 s2(1) last lnn by (simp add: Let_def)
  have d: "distinct ?L" using distinct_round[of s] o by simp
  have "linked ?s' ?L = linked s2 ?L"
  proof (rule linked_cong)
    fix q assume "q \<in> set (butlast ?L)"
    then have "q \<noteq> last ?L" using d ne(2)
      by (metis append_butlast_last_id distinct_append not_distinct_conv_prefix)
    then show "t_next (tmem ?s' q) = t_next (tmem s2 q)" by simp
  qed
  then have lk: "linked ?s' ?L" using I by simp
  have len: "length ?L < 1025"
  proof -
    have "length (filter (runnable s) (slots 1 THREAD_COUNT_MAX)) \<le> length (slots 1 THREAD_COUNT_MAX)"
      by (rule length_filter_le)
    then show ?thesis by (simp add: round_tids_def slots_def THREAD_COUNT_MAX_def)
  qed
  have "hd ?L = threadList s 0" by (simp add: round_tids_def)
  then have "walk 1025 (threadList s 0) ?s' = ?L"
    using walk_linked[OF lk ne(2) nn _ len] by simp
  moreover have "currentq ?s' = threadList s 0" "system_state ?s' = system_state s"
    "UP_IdleThread ?s' = threadList s 0" "UP_threads_counter ?s' = UP_threads_counter s"
    "timeout_thread ?s' = timeout_thread s" "threadList ?s' = threadList s"
    using I o by (simp_all add: same_sched_def)
  moreover have tst: "t_state (tmem ?s' q) = t_state (tmem s2 q)" for q by simp
  moreover have "t_state (tmem ?s' (threadList s j)) = READY"
    if "0 < j" "j < THREAD_COUNT_MAX" "runnable s j" "t_exit_in_progress (tmem s (threadList s j)) \<noteq> TRUE" for j
  proof -
    have "t_exit_in_progress (tmem ?s0 p) = t_exit_in_progress (tmem s p)" for p
      by (simp add: rr_start_def rr_idle_def)
    then have "t_state (tmem s2 (threadList s j)) = READY" using I that st(4) by simp
    then show ?thesis unfolding tst .
  qed
  moreover have "t_state (tmem ?s' (threadList s 0)) = t_state (tmem s (threadList s 0))"
    unfolding tst using I by simp
  moreover have "t_next (tmem ?s' (last ?L)) = NULL" by simp
  moreover have "same_identity (tmem ?s' q) (tmem s q)" for q
    using I by (simp add: same_identity_def)
  moreover have "t_quantum (tmem ?s' (threadList s j)) = round_quantum s j"
    if "0 < j" "j < THREAD_COUNT_MAX" "runnable s j" for j
  proof -
    have "t_quantum (tmem s2 (threadList s j)) = round_quantum ?s0 j"
      using I that st(4) by simp
    moreover have "t_quantum (tmem ?s' q) = t_quantum (tmem s2 q)" for q by simp
    ultimately show ?thesis using st(6)[OF that(1,3)] by metis
  qed
  ultimately show ?thesis using run lk by (intro exI[of _ ?s']) simp
qed

lemma scheduler_result:
  assumes "sched_ok s" and "no_zombies s THREAD_COUNT_MAX" and "idle_asleep s"
    and "system_state s = SYSTEM_RUNNING" and "UP_threads_counter s \<noteq> 0"
  shows "\<exists>s'. scheduler s = Inr (0, s') \<and> system_state s' = SYSTEM_RUNNING
     \<and> currentq s' = threadList s 0 \<and> threadList s' = threadList s
     \<and> UP_threads_counter s' = UP_threads_counter s \<and> timeout_thread s' = timeout_thread s
     \<and> (\<forall>p. same_identity (tmem s' p) (tmem s p))
     \<and> walk 1025 (currentq s') s' = map (threadList s) (round_tids s THREAD_COUNT_MAX)
     \<and> linked s' (map (threadList s) (round_tids s THREAD_COUNT_MAX))
     \<and> t_state (tmem s' (threadList s 0)) = t_state (tmem s (threadList s 0))
     \<and> (\<forall>j. 0 < j \<and> runnable s j \<and> t_exit_in_progress (tmem s (threadList s j)) \<noteq> TRUE
          \<longrightarrow> t_state (tmem s' (threadList s j)) = READY)"
proof -
  let ?s = "s\<lparr>system_state := SYSTEM_SCHEDULING\<rparr>"
  have same: "sched_ok ?s = sched_ok s" "no_zombies ?s n = no_zombies s n" "idle_asleep ?s = idle_asleep s"
    "round_tids ?s n = round_tids s n" "runnable ?s = runnable s" for n
    by (simp_all add: sched_ok_def no_zombies_def idle_asleep_def round_tids_def zombie_at_def slot_defs
      threads_wf_def table_clean_def runnable_def[abs_def] wakes_def)
  obtain s' where s': "scheduler_rr ?s = Inr (0, s')" "UP_IdleThread s' = threadList ?s 0"
      "\<forall>p. same_identity (tmem s' p) (tmem ?s p)"
      "walk 1025 (currentq s') s' = map (threadList ?s) (round_tids ?s THREAD_COUNT_MAX)"
      "currentq s' = threadList ?s 0" "threadList s' = threadList ?s"
      "UP_threads_counter s' = UP_threads_counter ?s" "timeout_thread s' = timeout_thread ?s"
      "linked s' (map (threadList ?s) (round_tids ?s THREAD_COUNT_MAX))"
      "t_state (tmem s' (threadList ?s 0)) = t_state (tmem ?s (threadList ?s 0))"
      "\<forall>j. 0 < j \<and> j < THREAD_COUNT_MAX \<and> runnable ?s j
         \<and> t_exit_in_progress (tmem ?s (threadList ?s j)) \<noteq> TRUE
         \<longrightarrow> t_state (tmem s' (threadList ?s j)) = READY"
    using scheduler_rr_round[of ?s] assms same by blast
  note o = assms(1)[unfolded sched_ok_def]
  have idle: "threadList s 0 \<noteq> NULL" "t_magic (tmem s' (threadList s 0)) = 1234"
    "t_tid (tmem s' (threadList s 0)) = 0"
    using slot_validD(5,7)[of s 0] o s'(3) by (auto simp: same_identity_def threads_wf_def)
  let ?r = "s'\<lparr>system_state := SYSTEM_RUNNING\<rparr>"
  have run: "scheduler s = Inr (0, ?r)"
    unfolding scheduler_def using assms(4,5) o s'(1,2) idle by (simp add: Let_def SCHED_POLICY_RR_def)
  have w: "walk n p (t\<lparr>system_state := x\<rparr>) = walk n p t" for n p t x
    by (induction n arbitrary: p) simp_all
  have l: "linked (t\<lparr>system_state := x\<rparr>) ps = linked t ps" for t x ps
    by (rule linked_cong) simp
  have "j < THREAD_COUNT_MAX" if "runnable s j" for j
    using that by (simp add: runnable_def slot_valid_def tid_ok_def)
  then show ?thesis
    using run s'(2-) unfolding same by (intro exI[of _ ?r]) (simp add: w l)
qed

lemma scheduler_rr_zombie:
  assumes ok: "sched_ok s" and idle: "idle_asleep s" and z: "zombie_at s i" "0 < i" "i < THREAD_COUNT_MAX"
  shows "scheduler_rr s = Inl (NullDeref ''TmpThread->used'')"
proof -
  note o = ok[unfolded sched_ok_def] and st = rr_start_same[OF ok]
  let ?s0 = "rr_start s"
  have p: "rr_prologue s = Inr ?s0" using rr_prologue_head[OF ok] idle by simp
  have t0: "t_tid (tmem s (threadList s 0)) = 0" using o by (auto simp: threads_wf_def)
  obtain k where k: "find (zombie_at ?s0) (slots 1 THREAD_COUNT_MAX) = Some k"
    using z st(5) find_slots_None[of "zombie_at ?s0" 1 THREAD_COUNT_MAX]
    by (cases "find (zombie_at ?s0) (slots 1 THREAD_COUNT_MAX)") auto
  note k' = find_slots_first[OF k]
  have nz: "no_zombies ?s0 k" using k' by (simp add: no_zombies_def)
  have pq0: "pq ?s0 6 = threadList ?s0 0" and v0: "slot_valid ?s0 0" using o st(1) by simp_all
  obtain s2 where s2: "kfold (rr_step (threadList ?s0 0)) (slots 1 k) ?s0 = Inr s2" "round_inv ?s0 k s2"
    using round_loop[OF st(2) v0 st(3) nz pq0, of] k' by auto
  note I = s2(2)[unfolded round_inv_def]
  have tl: "threadList s2 = threadList s" using I by (simp add: same_sched_def)
  have zk: "slot_valid ?s0 k" "t_state (tmem ?s0 (threadList s k)) = ZOMBIE"
    using k' by (simp_all add: zombie_at_def)
  have at: "tmem s2 (threadList s k) = tmem ?s0 (threadList s k)" using I zk(1) by simp
  have nn: "threadList s k \<noteq> NULL" "threadList s k \<noteq> InitThread s2"
    "t_used (tmem ?s0 (threadList s k)) = 1" "t_magic (tmem ?s0 (threadList s k)) = 1234"
    using slot_validD(5-7)[OF zk(1)] threads_wf_inj[OF st(2) zk(1) v0] k' o I
    by (auto simp: same_sched_def)
  have w: "rr_waiting (threadList s k) s2 = s2" using zk(2) at by (simp add: rr_waiting_def)
  obtain s3 where "rr_zombie (threadList s k) s2 = Inr (NULL, s3)"
    using nn zk(2) at
    by (cases "DS_initialized s2 = TRUE \<and> t_tid (tmem s2 (threadList s k)) = DS_tid s2")
      (auto simp: rr_zombie_def Let_def)
  then have step: "rr_step (threadList s 0) k s2 = Inl (NullDeref ''TmpThread->used'')"
    using nn(1) w by (simp add: rr_step_def tl rr_ready_def Let_def)
  have "slots 1 THREAD_COUNT_MAX = slots 1 k @ k # slots (k + 1) THREAD_COUNT_MAX"
    using slots_split[of 1 k THREAD_COUNT_MAX] slots_Cons[of k THREAD_COUNT_MAX] k' by simp
  then have "kfold (rr_step (threadList s 0)) (slots 1 THREAD_COUNT_MAX) ?s0
      = Inl (NullDeref ''TmpThread->used'')"
    using s2(1) step by (simp add: kfold_append)
  then show ?thesis unfolding scheduler_rr_def p using o t0 by (simp add: Let_def)
qed

section \<open>Properties\<close>


text \<open>
  Quanta of a round: the scheduler gives every thread of the round 6 ticks when it is the
  display server or has just received a message, 3 when it is the foreground thread, 1 otherwise,
  and one more when it has collected two credits; nothing else changes the quantum, so it is at
  least 1 and at most 7.
\<close>

lemma scheduler_sets_quanta:
  assumes "sched_ok s" and "no_zombies s THREAD_COUNT_MAX" and "idle_asleep s"
    and "runnable s j" and "0 < j"
  shows "\<exists>s'. scheduler_rr s = Inr (0, s')
     \<and> t_quantum (tmem s' (threadList s j)) = round_quantum s j
     \<and> 1 \<le> t_quantum (tmem s' (threadList s j)) \<and> t_quantum (tmem s' (threadList s j)) \<le> 7"
proof -
  have "j < THREAD_COUNT_MAX" using assms(4) by (simp add: runnable_def slot_valid_def tid_ok_def)
  then obtain s' where "scheduler_rr s = Inr (0, s')"
      "t_quantum (tmem s' (threadList s j)) = round_quantum s j"
    using scheduler_rr_round[OF assms(1-3)] assms(4,5) by blast
  moreover have "1 \<le> round_quantum s j \<and> round_quantum s j \<le> 7"
    by (simp add: round_quantum_def Let_def quantum_defs)
  ultimately show ?thesis by auto
qed

text \<open>
  Reaping stops the kernel: when some thread other than the idle one is a zombie, the round
  robin walk takes it out of use, sets its loop pointer to NULL and reads through it.
\<close>

lemma zombie_stops_scheduler:
  assumes "sched_ok s" and "idle_asleep s" and "zombie_at s i" and "i \<noteq> 0"
  shows "scheduler_rr s = Inl (NullDeref ''TmpThread->used'')"
proof -
  have "0 < i" "i < THREAD_COUNT_MAX"
    using assms(3,4) by (simp_all add: zombie_at_def slot_valid_def tid_ok_def)
  then show ?thesis using scheduler_rr_zombie[OF assms(1-3)] by blast
qed

text \<open>
  The wake up of the idle thread goes to the wrong thread: once its wake time has come the
  prologue readies whatever thread the uninitialised pointer happens to name, a BLOCKED one
  included, and the idle thread keeps its state unless the pointer happens to name it.
\<close>

lemma stale_pointer_wakes_any_thread:
  assumes "sched_ok s" and "\<not> idle_asleep s" and "slot_valid s i"
    and "rr_residue s (rr_round_counter s) = threadList s i"
  shows "\<exists>s1. rr_prologue s = Inr s1 \<and> t_state (tmem s1 (threadList s i)) = READY
     \<and> (\<forall>j. slot_valid s j \<and> j \<noteq> i \<longrightarrow>
           t_state (tmem s1 (threadList s j)) = t_state (tmem s (threadList s j)))"
proof -
  have wf: "threads_wf s" using assms(1) by (simp add: sched_ok_def)
  have tid: "t_tid (tmem s (threadList s i)) = i" using wf assms(3) by (simp add: threads_wf_def)
  note st = rr_start_same[OF assms(1)]
  have "rr_prologue s = Inr (do_thread_ready i (rr_start s))"
    using rr_prologue_head[OF assms(1)] assms(2,4) slot_validD(5)[OF assms(3)] tid by simp
  moreover have "t_state (tmem (do_thread_ready i (rr_start s)) (threadList s j))
      = (if j = i then READY else t_state (tmem s (threadList s j)))" if "slot_valid s j" for j
    using ready_op.state_change[OF st(2), of j i] that st(1) by simp
  ultimately show ?thesis using assms(3) by auto
qed

section \<open>Witnesses\<close>

text \<open>The demonstration state with the scheduler initialised and the idle thread asleep until 1000.\<close>

definition demo_sched :: kstate where
  "demo_sched = demo\<lparr>sched_initialized := TRUE, sched_policy := SCHED_POLICY_RR, InitThread := 1,
     system_state := SYSTEM_RUNNING, UP_threads_counter := 2,
     tmem := (\<lambda>p. if p = 1 then (demo_thread 1)\<lparr>t_wake_jiffy := 1000\<rparr> else demo_thread p)\<rparr>"

definition demo_zombie :: kstate where
  "demo_zombie = upd_thread 101 (\<lambda>r. r\<lparr>t_state := ZOMBIE\<rparr>) demo_sched"

definition demo_stale :: kstate where
  "demo_stale = upd_thread 1 (\<lambda>r. r\<lparr>t_wake_jiffy := 0\<rparr>)
     (upd_thread 101 (\<lambda>r. r\<lparr>t_state := BLOCKED\<rparr>) demo_sched)\<lparr>rr_residue := \<lambda>_. 101\<rparr>"

lemma demo_sched_simps [simp]:
  "threadList demo_sched tid = (if tid = 0 \<or> tid = 100 then nat tid + 1 else 0)"
  "tmem demo_sched p = (if p = 1 then (demo_thread 1)\<lparr>t_wake_jiffy := 1000\<rparr> else demo_thread p)"
  "jiffies demo_sched = 500" "UP_IdleThread demo_sched = 1" "InitThread demo_sched = 1"
  "system_state demo_sched = SYSTEM_RUNNING" "UP_threads_counter demo_sched = 2"
  "sched_initialized demo_sched = TRUE" "sched_policy demo_sched = SCHED_POLICY_RR"
  "rr_round_counter demo_sched = 0"
  by (simp_all add: demo_sched_def) (simp add: demo_def bss_state_def)

lemma demo_sched_valid [simp]: "slot_valid demo_sched tid \<longleftrightarrow> tid = 0 \<or> tid = 100"
  by (auto simp: slot_defs THREAD_COUNT_MAX_def)

lemma demo_zombie_valid [simp]: "slot_valid demo_zombie tid \<longleftrightarrow> tid = 0 \<or> tid = 100"
  by (auto simp: slot_defs THREAD_COUNT_MAX_def demo_zombie_def)

lemma demo_stale_valid [simp]: "slot_valid demo_stale tid \<longleftrightarrow> tid = 0 \<or> tid = 100"
  by (auto simp: slot_defs THREAD_COUNT_MAX_def demo_stale_def)

lemma demo_stale_simps: "threadList demo_stale 100 = 101" "rr_residue demo_stale n = 101"
  "t_state (tmem demo_stale 101) = BLOCKED"
  by (simp_all add: demo_stale_def)

lemma demo_sched_ok: "sched_ok demo_sched" "sched_ok demo_zombie" "sched_ok demo_stale"
  by (auto simp: sched_ok_def threads_wf_def table_clean_def demo_zombie_def demo_stale_def
    tid_ok_def THREAD_COUNT_MAX_def slot_valid_def thread_valid_def)

lemma demo_awake: "idle_asleep demo_sched" "idle_asleep demo_zombie" "\<not> idle_asleep demo_stale"
  by (simp_all add: idle_asleep_def demo_zombie_def demo_stale_def)

lemma demo_sched_runnable: "runnable demo_sched 100" "no_zombies demo_sched n"
  by (auto simp: runnable_def wakes_def no_zombies_def zombie_at_def demo_thread_def zero_thread_def)


lemma scheduler_sets_quanta_example:
  "\<exists>s'. scheduler_rr demo_sched = Inr (0, s') \<and> t_quantum (tmem s' 101) \<le> 7"
  using scheduler_sets_quanta[OF demo_sched_ok(1) demo_sched_runnable(2) demo_awake(1)
      demo_sched_runnable(1)] by auto

lemma zombie_stops_scheduler_example:
  "scheduler_rr demo_zombie = Inl (NullDeref ''TmpThread->used'')"
  using zombie_stops_scheduler[OF demo_sched_ok(2) demo_awake(2), of 100]
  by (simp add: zombie_at_def demo_zombie_def)

lemma stale_pointer_wakes_any_thread_example:
  "t_state (tmem demo_stale 101) = BLOCKED
   \<and> (\<exists>s1. rr_prologue demo_stale = Inr s1 \<and> t_state (tmem s1 101) = READY)"
  using stale_pointer_wakes_any_thread[OF demo_sched_ok(3) demo_awake(3), of 100]
  by (auto simp: demo_stale_simps)

end
