(* ===== verification/KSwitch.thy ===== *)
theory KSwitch
  imports KSched
begin

text \<open>
  Task switching: the saved contexts of disp/x86_64/x64cont.c, the dispatcher of disp/dispatch.c,
  the first run of a thread in disp/spawn.c, schedi_check_for_standby() of schedi.c and the task
  switch of disp/ts.c with the process accessors of process.c it uses.

  A spawn leaves the kernel for user mode and never returns to its caller; \<open>EnteredUser rip rsp\<close>
  is that outcome. The goto loop of __task_switch() around the label ZeroGravity is
  \<open>zero_gravity\<close> with fuel, so that a run that never selects a thread is the value \<open>None\<close> for
  every fuel.
\<close>

section \<open>Processes (process.c)\<close>

definition set_current_process :: "int \<Rightarrow> kstate \<Rightarrow> kstate" where
  "set_current_process pid s = s\<lparr>current_pid := pid\<rparr>"

definition get_current_process :: "kstate \<Rightarrow> int" where
  "get_current_process s = current_pid s"

definition get_current_pid :: "kstate \<Rightarrow> int" where
  "get_current_pid s = get_current_process s"

definition get_current_process_pointer :: "kstate \<Rightarrow> kfault + ptr" where
  "get_current_process_pointer s =
    (if system_state s \<noteq> SYSTEM_RUNNING then Inr NULL
     else let pid = get_current_process s in
     if pid < 0 \<or> pid \<ge> PROCESS_COUNT_MAX then Inr NULL
     else let p = processList s pid in
     if p = NULL then Inl (NullDeref ''p->used'')
     else if p_used (pmem s p) \<noteq> TRUE then Inr NULL
     else if p_magic (pmem s p) \<noteq> 1234 then Inr NULL
     else Inr p)"

section \<open>Saved contexts (x64cont.c)\<close>

definition fpu_copy :: "(int \<Rightarrow> u8) \<Rightarrow> (int \<Rightarrow> u8) \<Rightarrow> int \<Rightarrow> u8" where
  "fpu_copy src dst i = (if 0 \<le> i \<and> i < 512 then src i else dst i)"

definition capture :: "context_globals \<Rightarrow> x64_context \<Rightarrow> x64_context" where
  "capture g c = c\<lparr>c_ss := ucast (contextSS g AND 0xFFFF), c_rsp := contextRSP g,
     c_rflags := contextRFLAGS g, c_cs := ucast (contextCS g AND 0xFFFF), c_rip := contextRIP g,
     c_ds := ucast (contextDS g AND 0xFFFF), c_es := ucast (contextES g AND 0xFFFF),
     c_fs := ucast (contextFS g AND 0xFFFF), c_gs := ucast (contextGS g AND 0xFFFF),
     c_rax := contextRAX g, c_rbx := contextRBX g, c_rcx := contextRCX g, c_rdx := contextRDX g,
     c_rsi := contextRSI g, c_rdi := contextRDI g, c_rbp := contextRBP g,
     c_r8 := contextR8 g, c_r9 := contextR9 g, c_r10 := contextR10 g, c_r11 := contextR11 g,
     c_r12 := contextR12 g, c_r13 := contextR13 g, c_r14 := contextR14 g, c_r15 := contextR15 g,
     c_fpu_buffer := fpu_copy (context_fpu_buffer g) (c_fpu_buffer c)\<rparr>"

definition save_current_context :: "kstate \<Rightarrow> kfault + kstate" where
  "save_current_context s =
    (if current_thread s < 0 \<or> current_thread s \<ge> THREAD_COUNT_MAX
     then Inl (KDie ''save_current_context: TID'')
     else let t = threadList s (current_thread s) in
     if t = NULL then Inl (KDie ''save_current_context: Struct'')
     else if t_used (tmem s t) \<noteq> TRUE \<or> t_magic (tmem s t) \<noteq> 1234
     then Inl (KDie ''save_current_context: Validation'')
     else let
       s1 = upd_thread t (\<lambda>r. r\<lparr>t_context := capture (cpu_context s) (t_context r)\<rparr>) s;
       cpl = uint (contextCPL (cpu_context s1) AND 3)
     in if cpl \<noteq> t_cpl (tmem s1 t) then Inl (KPanic ''save_current_context: cpl != t->cpl'')
     else if cpl \<noteq> 0 \<and> cpl \<noteq> 1 \<and> cpl \<noteq> 2 \<and> cpl \<noteq> 3 then Inl (KPanic ''save_current_context: cpl'')
     else if cpl = 0 then Inl (KPanic ''save_current_context: cpl 0'')
     else if cpl = 1 then Inl (KPanic ''save_current_context: cpl 1'')
     else if cpl = 2 then Inl (KPanic ''save_current_context: cpl 2'')
     else let
       s2 = (if cpl = 3 then upd_thread t (\<lambda>r. r\<lparr>t_to_supervisor := t_to_supervisor r + 1\<rparr>) s1 else s1);
       rflags = c_rflags (t_context (tmem s2 t))
     in Inr (upd_thread t (\<lambda>r. r\<lparr>t_rflags_current_iopl := ucast (rflags AND 0x200)\<rparr>) s2))"

definition release_context :: "x64_context \<Rightarrow> context_globals \<Rightarrow> context_globals" where
  "release_context c g = g\<lparr>contextSS := ucast (c_ss c) AND 0xFFFF, contextRSP := c_rsp c,
     contextRFLAGS := c_rflags c, contextCS := ucast (c_cs c) AND 0xFFFF, contextRIP := c_rip c,
     contextDS := ucast (c_ds c) AND 0xFFFF, contextES := ucast (c_es c) AND 0xFFFF,
     contextFS := ucast (c_fs c) AND 0xFFFF, contextGS := ucast (c_gs c) AND 0xFFFF,
     contextRAX := c_rax c, contextRBX := c_rbx c, contextRCX := c_rcx c, contextRDX := c_rdx c,
     contextRSI := c_rsi c, contextRDI := c_rdi c, contextRBP := c_rbp c,
     contextR8 := c_r8 c, contextR9 := c_r9 c, contextR10 := c_r10 c, contextR11 := c_r11 c,
     contextR12 := c_r12 c, contextR13 := c_r13 c, contextR14 := c_r14 c, contextR15 := c_r15 c,
     context_fpu_buffer := fpu_copy (c_fpu_buffer c) (context_fpu_buffer g)\<rparr>"

definition restore_current_context :: "kstate \<Rightarrow> kfault + kstate" where
  "restore_current_context s =
    (if current_thread s < 0 \<or> current_thread s \<ge> THREAD_COUNT_MAX
     then Inl (KDie ''restore_current_context: TID'')
     else let t = threadList s (current_thread s) in
     if t = NULL then Inl (KDie ''restore_current_context: t'')
     else if t_used (tmem s t) \<noteq> TRUE \<or> t_magic (tmem s t) \<noteq> 1234
     then Inl (KDie ''restore_current_context: t validation'')
     else let s1 = s\<lparr>cpu_context := release_context (t_context (tmem s t)) (cpu_context s)\<rparr> in
     if t_cpl (tmem s1 t) \<noteq> 3 then Inl (KPanic ''restore_current_context: t->cpl'')
     else let
       s2 = (if t_cpl (tmem s1 t) = 3
             then upd_thread t (\<lambda>r. r\<lparr>t_to_user := t_to_user r + 1\<rparr>) s1 else s1)
     in Inr (s2\<lparr>cr3 := t_pml4_PA (tmem s2 t)\<rparr>))"

definition contextCheckThreadRing3Context :: "int \<Rightarrow> kstate \<Rightarrow> kfault + int" where
  "contextCheckThreadRing3Context tid s =
    (if tid < 0 \<or> tid \<ge> THREAD_COUNT_MAX then Inr FALSE
     else let t = threadList s tid in
     if t = NULL then Inr FALSE
     else if t_used (tmem s t) \<noteq> TRUE \<or> t_magic (tmem s t) \<noteq> 1234 then Inr FALSE
     else if t_cpl (tmem s t) \<noteq> 3 then Inl (KPanic ''contextCheckThreadRing3Context: cpl'')
     else if t_rflags_initial_iopl (tmem s t) \<noteq> 3 then Inr FALSE
     else if t_rflags_current_iopl (tmem s t) \<noteq> 3 then Inr FALSE
     else if c_cs (t_context (tmem s t)) \<noteq> 0x1B then Inr FALSE
     else Inr TRUE)"

section \<open>The dispatcher (dispatch.c)\<close>

definition SELECT_IDLE_COUNT :: int where "SELECT_IDLE_COUNT = 1"
definition SELECT_INITIALIZED_COUNT :: int where "SELECT_INITIALIZED_COUNT = 2"
definition SELECT_NEXT_COUNT :: int where "SELECT_NEXT_COUNT = 3"
definition SELECT_CURRENT_COUNT :: int where "SELECT_CURRENT_COUNT = 4"
definition SELECT_ANY_COUNT :: int where "SELECT_ANY_COUNT = 5"
definition SELECT_IDEAL_COUNT :: int where "SELECT_IDEAL_COUNT = 6"
definition SELECT_DISPATCHER_COUNT :: int where "SELECT_DISPATCHER_COUNT = 7"

lemmas select_defs = SELECT_IDLE_COUNT_def SELECT_INITIALIZED_COUNT_def SELECT_NEXT_COUNT_def
  SELECT_CURRENT_COUNT_def SELECT_ANY_COUNT_def SELECT_IDEAL_COUNT_def SELECT_DISPATCHER_COUNT_def

definition count_dispatch :: "int \<Rightarrow> dispatch_count_d \<Rightarrow> dispatch_count_d" where
  "count_dispatch type d =
    (if type = SELECT_IDLE_COUNT then d\<lparr>SelectIdleCount := SelectIdleCount d + 1\<rparr>
     else if type = SELECT_INITIALIZED_COUNT
     then d\<lparr>SelectInitializedCount := SelectInitializedCount d + 1\<rparr>
     else if type = SELECT_NEXT_COUNT then d\<lparr>SelectNextCount := SelectNextCount d + 1\<rparr>
     else if type = SELECT_CURRENT_COUNT then d\<lparr>SelectCurrentCount := SelectCurrentCount d + 1\<rparr>
     else if type = SELECT_ANY_COUNT then d\<lparr>SelectAnyCount := SelectAnyCount d + 1\<rparr>
     else if type = SELECT_IDEAL_COUNT then d\<lparr>SelectIdealCount := SelectIdealCount d + 1\<rparr>
     else if type = SELECT_DISPATCHER_COUNT
     then d\<lparr>SelectDispatcherQueueCount := SelectDispatcherQueueCount d + 1\<rparr>
     else d)"

definition IncrementDispatcherCount :: "int \<Rightarrow> kstate \<Rightarrow> kfault + kstate" where
  "IncrementDispatcherCount type s =
    (if type < 0 then Inr s
     else case DispatchCountBlock s of
       None \<Rightarrow> Inl (KPanic ''IncrementDispatcherCount:'')
     | Some d \<Rightarrow>
       if d_magic d \<noteq> 1234 then Inl (KPanic ''IncrementDispatcherCount: validation'')
       else Inr (s\<lparr>DispatchCountBlock := Some (count_dispatch type d)\<rparr>))"

definition dispatcher :: "int \<Rightarrow> kstate \<Rightarrow> kfault + kstate" where
  "dispatcher type s =
    (if current_thread s < 0 \<or> current_thread s \<ge> THREAD_COUNT_MAX
     then Inl (KPanic ''dispatcher: current_thread'')
     else let t = threadList s (current_thread s) in
     if t = NULL then Inl (KPanic ''dispatcher: TargetThread'')
     else if t_magic (tmem s t) \<noteq> 1234 then Inl (KPanic ''dispatcher: magic'')
     else if t_state (tmem s t) \<noteq> READY then Inl (KPanic ''dispatcher: state'')
     else let
       s1 = (if t_state (tmem s t) = READY
             then upd_thread t (\<lambda>r. r\<lparr>t_state := RUNNING, t_runningCount := 0, t_runningCount_ms := 0,
                    t_readyCount := 0, t_readyCount_ms := 0, t_waitingCount := 0,
                    t_waitingCount_ms := 0, t_blockedCount := 0, t_blockedCount_ms := 0\<rparr>) s
             else s);
       s2 = (if t_base_priority (tmem s1 t) < PRIORITY_MIN
             then upd_thread t (\<lambda>r. r\<lparr>t_base_priority := PRIORITY_MIN\<rparr>) s1 else s1);
       s3 = (if t_priority (tmem s2 t) < PRIORITY_MIN
             then upd_thread t (\<lambda>r. r\<lparr>t_priority := PRIORITY_MIN\<rparr>) s2 else s2);
       s4 = (if t_quantum (tmem s3 t) < QUANTUM_MIN
             then upd_thread t (\<lambda>r. r\<lparr>t_quantum := QUANTUM_MIN\<rparr>) s3 else s3);
       s5 = s4\<lparr>UP_CurrentThread := t\<rparr>
     in restore_current_context (upd_thread t (\<lambda>r. r\<lparr>t_saved := FALSE\<rparr>) s5))"

section \<open>The first run of a thread (spawn.c, schedi.c)\<close>

datatype switch_outcome = Returned | EnteredUser u64 u64

definition spawn_set_eoi_state :: "kstate \<Rightarrow> kstate" where
  "spawn_set_eoi_state s = s\<lparr>spawn_eoi_is_necessary := TRUE\<rparr>"

definition spawn_reset_eoi_state :: "kstate \<Rightarrow> kstate" where
  "spawn_reset_eoi_state s = s\<lparr>spawn_eoi_is_necessary := FALSE\<rparr>"

definition get_taskswitch_status :: "kstate \<Rightarrow> u64" where
  "get_taskswitch_status s = task_switch_status s"

definition set_taskswitch_status :: "u64 \<Rightarrow> kstate \<Rightarrow> kstate" where
  "set_taskswitch_status status s = s\<lparr>task_switch_status := status\<rparr>"

definition taskswitch_lock :: "kstate \<Rightarrow> kstate" where
  "taskswitch_lock s = s\<lparr>task_switch_status := LOCKED\<rparr>"

definition taskswitch_unlock :: "kstate \<Rightarrow> kstate" where
  "taskswitch_unlock s = s\<lparr>task_switch_status := UNLOCKED\<rparr>"

text \<open>Lines 222 to 277 of spawn.c: the counters of a thread that starts to run.\<close>

definition spawn_prepare :: "ptr \<Rightarrow> kstate \<Rightarrow> kstate" where
  "spawn_prepare t s =
    (let s1 = upd_thread t (\<lambda>r. r\<lparr>t_saved := FALSE, t_exit_in_progress := FALSE,
         t_standbyCount := 0, t_standbyCount_ms := 0, t_runningCount := 0, t_runningCount_ms := 0,
         t_readyCount := 0, t_readyCount_ms := 0, t_waitingCount := 0, t_waitingCount_ms := 0,
         t_blockedCount := 0, t_blockedCount_ms := 0, t_initial_jiffy := jiffies s, t_step := 0,
         t_initial_time_ms := 0, t_total_time_ms := 0, t_next := InitThread s\<rparr>) s
     in if t_state (tmem s1 t) = STANDBY
        then upd_thread t (\<lambda>r. r\<lparr>t_state := RUNNING\<rparr>) s1 else s1)"

definition spawn_thread_by_tid_imp :: "int \<Rightarrow> kstate \<Rightarrow> switch_outcome kresult" where
  "spawn_thread_by_tid_imp tid s =
    (let next_tid = tid AND 0xFFFF in
     if next_tid < 0 \<or> next_tid \<ge> THREAD_COUNT_MAX then Inl (KDie ''spawn: next_tid'')
     else let t = threadList s next_tid in
     if t = NULL then Inl (KDie ''spawn: target_thread'')
     else if t_used (tmem s t) \<noteq> TRUE \<or> t_magic (tmem s t) \<noteq> 1234
     then Inl (KPanic ''spawn: target_thread validation'')
     else if t_tid (tmem s t) \<noteq> next_tid then Inl (KPanic ''spawn: tid validation'')
     else if t_state (tmem s t) \<noteq> STANDBY then Inl (KDie ''spawn: not in Standby'')
     else if t_saved (tmem s t) = TRUE then Inl (KDie ''spawn: Saved'')
     else let s1 = scheduler_unlock (set_taskswitch_status UNLOCKED (spawn_prepare t s)) in
     if t_state (tmem s1 t) \<noteq> RUNNING then Inl (KDie ''spawn: State'')
     else if t_owner_process (tmem s1 t) = NULL then Inl (KPanic ''spawn: owner_process'')
     else let cur_pid = t_owner_pid (tmem s1 t) in
     if cur_pid < 0 \<or> cur_pid \<ge> PROCESS_COUNT_MAX then Inl (KPanic ''spawn: cur_pid'')
     else let s2 = set_current_thread (t_tid (tmem s1 t)) (set_current_process cur_pid s1) in
     if current_thread s2 < 0 \<or> current_thread s2 \<ge> THREAD_COUNT_MAX
     then Inl (KPanic ''spawn: current_thread'')
     else kbind (IncrementDispatcherCount SELECT_INITIALIZED_COUNT s2) (\<lambda>s3.
       let s4 = s3\<lparr>cr3 := t_pml4_PA (tmem s3 t)\<rparr> in
       if spawn_eoi_is_necessary s4 \<noteq> TRUE then Inl (KPanic ''spawn: eoi_is_needed'')
       else if t_cpl (tmem s4 t) \<noteq> 3 then Inl (KPanic ''spawn: Invalid cpl'')
       else let s5 = upd_thread t (\<lambda>r. r\<lparr>t_to_user := t_to_user r + 1\<rparr>) s4 in
         Inr (EnteredUser (c_rip (t_context (tmem s5 t))) (c_rsp (t_context (tmem s5 t))), s5)))"

definition psSpawnThreadByTID :: "int \<Rightarrow> kstate \<Rightarrow> switch_outcome kresult" where
  "psSpawnThreadByTID tid s =
    (if tid < 0 \<or> tid \<ge> THREAD_COUNT_MAX then Inl (KDie ''psSpawnThreadByTID: TID'')
     else kbind (spawn_thread_by_tid_imp tid s) (\<lambda>(r, s').
       if r = Returned then Inl (KPanic ''psSpawnThreadByTID:'') else Inr (r, s')))"

text \<open>The lowest slot with a valid thread in STANDBY is spawned; without one the function returns.\<close>

definition standby_at :: "kstate \<Rightarrow> int \<Rightarrow> bool" where
  "standby_at s i \<longleftrightarrow> threadList s i \<noteq> NULL \<and> t_used (tmem s (threadList s i)) = TRUE
     \<and> t_magic (tmem s (threadList s i)) = 1234 \<and> t_state (tmem s (threadList s i)) = STANDBY"

definition schedi_check_for_standby :: "kstate \<Rightarrow> switch_outcome kresult" where
  "schedi_check_for_standby s =
    (case find (standby_at s) (slots 0 THREAD_COUNT_MAX) of
       None \<Rightarrow> Inr (Returned, s)
     | Some i \<Rightarrow> let target_tid = t_tid (tmem s (threadList s i)) in
         if target_tid < 0 \<or> target_tid \<ge> THREAD_COUNT_MAX
         then Inl (KPanic ''schedi_check_for_standby: fail'')
         else if target_tid = INIT_TID then Inl (KPanic ''schedi_check_for_standby: INIT_TID'')
         else kbind (psSpawnThreadByTID target_tid (set_current_thread target_tid s)) (\<lambda>(r, s').
           if r = Returned then Inl (KPanic ''schedi_check_for_standby: fail'') else Inr (r, s')))"

section \<open>The task switch (ts.c)\<close>

text \<open>
  __tsCry(0) tests bit 15 of 0 and does nothing, so the last statement of __tsOnFinishedExecuting()
  has no effect; the local test of the pending signals has an empty body.
\<close>

definition tsOnFinishedExecuting :: "ptr \<Rightarrow> kstate \<Rightarrow> switch_outcome kresult" where
  "tsOnFinishedExecuting t s =
    (if t = NULL then Inl (KPanic ''__tsOnFinishedExecuting: t'')
     else if t_magic (tmem s t) \<noteq> 1234 then Inl (KPanic ''__tsOnFinishedExecuting: t magic'')
     else let
       s1 = (if t_state (tmem s t) = RUNNING
             then upd_thread t (\<lambda>r. r\<lparr>t_state := READY, t_readyCount := 0\<rparr>) s else s)
     in kbind (schedi_check_for_standby s1) (\<lambda>(r, s2).
       if r \<noteq> Returned then Inr (r, s2)
       else if dead_thread_collector_status s2 = TRUE
       then Inr (Returned, check_for_dead_thread_collector s2)
       else Inr (Returned, s2)))"

text \<open>Lines 513 to 589: which thread is tried next.\<close>

definition ts_pick :: "kstate \<Rightarrow> kfault + kstate" where
  "ts_pick s =
    (if UP_threads_counter s = 0 then Inl (KPanic ''ts: No threads'')
     else if UP_threads_counter s = 1 then
       (if InitThread s \<noteq> UP_IdleThread s then Inl (KPanic ''ts: Invalid single thread'')
        else Inr (s\<lparr>currentq := UP_IdleThread s\<rparr>))
     else if timeout_thread s \<noteq> NULL \<and> t_magic (tmem s (timeout_thread s)) = 1234
        \<and> t_waiting_for_timeout (tmem s (timeout_thread s)) = TRUE
     then let
       s1 = upd_thread (timeout_thread s) (\<lambda>r. r\<lparr>t_waiting_for_timeout := FALSE\<rparr>) s;
       s2 = s1\<lparr>currentq := timeout_thread s1\<rparr>
     in Inr (upd_thread (currentq s2) (\<lambda>r. r\<lparr>t_next := NULL\<rparr>) s2)
     else if currentq s = NULL then Inl (NullDeref ''currentq->next'')
     else if t_next (tmem s (currentq s)) = NULL
     then kbind (psScheduler s) (\<lambda>(tid, s1). Inr (s1\<lparr>current_thread := tid\<rparr>))
     else Inr (s\<lparr>currentq := t_next (tmem s (currentq s))\<rparr>))"

text \<open>Lines 488 to 636: pick, validate, and try again through the scheduler.\<close>

fun zero_gravity :: "nat \<Rightarrow> kstate \<Rightarrow> (kfault + kstate) option" where
  "zero_gravity 0 s = None"
| "zero_gravity (Suc n) s =
    (case ts_pick s of
       Inl e \<Rightarrow> Some (Inl e)
     | Inr s1 \<Rightarrow> let t = currentq s1 in
         if t = NULL \<or> t_used (tmem s1 t) \<noteq> TRUE \<or> t_magic (tmem s1 t) \<noteq> 1234
            \<or> t_state (tmem s1 t) \<noteq> READY
         then (case psScheduler s1 of
                 Inl e \<Rightarrow> Some (Inl e)
               | Inr (tid, s2) \<Rightarrow> zero_gravity n (s2\<lparr>current_thread := tid\<rparr>))
         else Some (Inr (s1\<lparr>current_thread := t_tid (tmem s1 t)\<rparr>)))"

text \<open>Lines 650 to 762: the label dispatch_current.\<close>

definition ts_limits :: "ptr \<Rightarrow> kstate \<Rightarrow> kstate" where
  "ts_limits t s =
    (let
      s1 = upd_thread t (\<lambda>r. r\<lparr>t_standbyCount := 0, t_standbyCount_ms := 0, t_runningCount := 0,
             t_runningCount_ms := 0, t_readyCount := 0, t_readyCount_ms := 0, t_waitingCount := 0,
             t_waitingCount_ms := 0, t_blockedCount := 0, t_blockedCount_ms := 0\<rparr>) s;
      s2 = (if t_base_priority (tmem s1 t) > PRIORITY_MAX
            then upd_thread t (\<lambda>r. r\<lparr>t_base_priority := PRIORITY_MAX\<rparr>) s1 else s1);
      s3 = (if t_priority (tmem s2 t) > PRIORITY_MAX
            then upd_thread t (\<lambda>r. r\<lparr>t_priority := PRIORITY_MAX\<rparr>) s2 else s2)
     in if t_quantum (tmem s3 t) > QUANTUM_MAX
        then upd_thread t (\<lambda>r. r\<lparr>t_quantum := QUANTUM_MAX\<rparr>) s3 else s3)"

definition ts_dispatch_current :: "kstate \<Rightarrow> kfault + kstate" where
  "ts_dispatch_current s =
    (if current_thread s < 0 \<or> current_thread s \<ge> THREAD_COUNT_MAX
     then Inl (KPanic ''ts-dispatch_current: current_thread'')
     else let t = threadList s (current_thread s) in
     if t = NULL then Inl (KPanic ''ts-dispatch_current: TargetThread'')
     else if t_used (tmem s t) \<noteq> TRUE \<or> t_magic (tmem s t) \<noteq> 1234
     then Inl (KPanic ''ts-dispatch_current: validation'')
     else if t_state (tmem s t) \<noteq> READY then Inl (KPanic ''ts-dispatch_current: Not ready'')
     else kbind (IncrementDispatcherCount SELECT_DISPATCHER_COUNT (ts_limits t s)) (\<lambda>s1.
       kbind (dispatcher 1 s1) (\<lambda>s2.
       let pid = t_owner_pid (tmem s2 t) in
       if pid < 0 \<or> pid \<ge> THREAD_COUNT_MAX then Inl (KDie ''ts: targetthread_OwnerPID'')
       else let p = processList s2 pid in
       if p = NULL then Inl (NullDeref ''TargetProcess->name'')
       else if p_used (pmem s2 p) \<noteq> TRUE \<or> p_magic (pmem s2 p) \<noteq> 1234
       then Inl (KDie ''ts: TargetProcess validation'')
       else if p_pid (pmem s2 p) \<noteq> pid then Inl (KPanic ''ts: TargetProcess->pid'')
       else let s3 = set_current_process (p_pid (pmem s2 p)) s2 in
       if p_pml4_PA (pmem s3 p) = 0 then Inl (KDie ''ts: Process pml4'')
       else Inr s3)))"

text \<open>Lines 282 to 323: the owner becomes the current process, and the ticks are counted.\<close>

definition ts_account :: "ptr \<Rightarrow> kstate \<Rightarrow> kfault + kstate" where
  "ts_account t s =
    (let owner_pid = t_owner_pid (tmem s t) in
     if owner_pid < 0 \<or> owner_pid \<ge> PROCESS_COUNT_MAX then Inl (KPanic ''ts: owner_pid'')
     else let p = processList s owner_pid in
     if p = NULL then Inl (KPanic ''ts: CurrentProcess'')
     else if p_used (pmem s p) \<noteq> TRUE \<or> p_magic (pmem s p) \<noteq> 1234
     then Inl (KPanic ''ts: CurrentProcess validation'')
     else if p_pid (pmem s p) \<noteq> owner_pid then Inl (KPanic ''ts: CurrentProcess->pid'')
     else if sys_time_hz s = 0 then Inl (DivByZero ''sys_time_hz'')
     else let ms = JIFFY_FREQ div sys_time_hz s in
       Inr (upd_thread t (\<lambda>r. r\<lparr>t_step := t_step r + 1, t_total_time_ms := t_total_time_ms r + ms,
              t_runningCount := t_runningCount r + 1, t_runningCount_ms := t_runningCount_ms r + ms\<rparr>)
            (set_current_process owner_pid s)))"

text \<open>Lines 400 to 432: the quantum is not used up.\<close>

definition ts_in_quantum :: "ptr \<Rightarrow> kstate \<Rightarrow> kfault + kstate" where
  "ts_in_quantum t s =
    (let
      s1 = (if t_state (tmem s t) = RUNNING \<and> t_yield_in_progress (tmem s t) = TRUE
            then upd_thread t (\<lambda>r. r\<lparr>t_runningCount := t_quantum r, t_yield_in_progress := FALSE\<rparr>) s
            else s);
      s2 = (if t_state (tmem s1 t) = RUNNING \<and> t_sleep_in_progress (tmem s1 t) = TRUE
            then let a = upd_thread t (\<lambda>r. r\<lparr>t_runningCount := t_quantum r\<rparr>) s1;
                     b = sleep_until (t_tid (tmem a t)) (t_desired_sleep_ms (tmem a t)) a
                 in upd_thread t (\<lambda>r. r\<lparr>t_sleep_in_progress := FALSE\<rparr>) b
            else s1)
     in IncrementDispatcherCount SELECT_CURRENT_COUNT s2)"

definition task_switch :: "nat \<Rightarrow> kstate \<Rightarrow> (kfault + (switch_outcome \<times> kstate)) option" where
  "task_switch fuel s =
    (if current_thread s < 0 \<or> current_thread s \<ge> THREAD_COUNT_MAX
     then Some (Inl (KPanic ''ts: current_thread''))
     else let t = threadList s (current_thread s) in
     if t = NULL then Some (Inl (KPanic ''ts: CurrentThread''))
     else if t_used (tmem s t) \<noteq> TRUE \<or> t_magic (tmem s t) \<noteq> 1234
     then Some (Inl (KPanic ''ts: CurrentThread validation''))
     else case ts_account t s of
       Inl e \<Rightarrow> Some (Inl e)
     | Inr s1 \<Rightarrow>
       if task_switch_status s1 = LOCKED
       then Some (kbind (IncrementDispatcherCount SELECT_CURRENT_COUNT s1) (\<lambda>s'. Inr (Returned, s')))
       else if task_switch_status s1 \<noteq> UNLOCKED then Some (Inl (KPanic ''ts: task_switch_status''))
       else (case save_current_context s1 of
         Inl e \<Rightarrow> Some (Inl e)
       | Inr s2 \<Rightarrow> let s3 = upd_thread t (\<lambda>r. r\<lparr>t_saved := TRUE\<rparr>) s2 in
         if t_runningCount (tmem s3 t) < t_quantum (tmem s3 t)
         then Some (kbind (ts_in_quantum t s3) (\<lambda>s'. Inr (Returned, s')))
         else (case tsOnFinishedExecuting t s3 of
           Inl e \<Rightarrow> Some (Inl e)
         | Inr (r, s4) \<Rightarrow>
           if r \<noteq> Returned then Some (Inr (r, s4))
           else (case zero_gravity fuel s4 of
             None \<Rightarrow> None
           | Some (Inl e) \<Rightarrow> Some (Inl e)
           | Some (Inr s5) \<Rightarrow>
             Some (kbind (ts_dispatch_current s5) (\<lambda>s'. Inr (Returned, s')))))))"

definition GRAMADO_PORT_WS :: int where "GRAMADO_PORT_WS = 11"

definition socket_get_gramado_port :: "int \<Rightarrow> kstate \<Rightarrow> int" where
  "socket_get_gramado_port port s = (if port < 0 \<or> port > 31 then -1 else gramado_ports s port)"

definition prepare_next_ws_callback :: "kstate \<Rightarrow> kfault + kstate" where
  "prepare_next_ws_callback s =
    (if ws_callback_ready s \<noteq> TRUE then Inl (KPanic ''prepare_next_ws_callback: No ready'')
     else let s1 = s\<lparr>asmflagDoCallbackAfterCR3 := 0x1234 AND 0xFFFF\<rparr> in
     if ws_callback_address s1 = 0 then Inl (KPanic ''prepare_next_ws_callback: callback_address'')
     else Inr (s1\<lparr>ring3_callback_address := ws_callback_address s1, ws_callback_ready := FALSE,
                  ws_callback_address := 0\<rparr>))"

definition tsTaskSwitch :: "nat \<Rightarrow> kstate \<Rightarrow> (kfault + (switch_outcome \<times> kstate)) option" where
  "tsTaskSwitch fuel s =
    (let pid = get_current_process s in
     if pid < 0 \<or> pid \<ge> PROCESS_COUNT_MAX then Some (Inl (KDie ''psTaskSwitch: current_process_pid''))
     else if current_thread s < 0 \<or> current_thread s \<ge> THREAD_COUNT_MAX
     then Some (Inl (KDie ''psTaskSwitch: current_thread''))
     else let ws_pid = socket_get_gramado_port GRAMADO_PORT_WS s in
     if pid = ws_pid \<and> ws_callback_ready s = TRUE
     then Some (kbind (prepare_next_ws_callback s) (\<lambda>s'. Inr (Returned, s')))
     else task_switch fuel s)"

definition init_ts :: "kstate \<Rightarrow> int \<times> kstate" where
  "init_ts s = (0, taskswitch_lock s)"

section \<open>What a saved context promises\<close>

text \<open>
  The part of the machine's registers a user program sees: segments are 16 bits wide and the FPU
  image has 512 bytes.
\<close>

definition user_view :: "context_globals \<Rightarrow> u64 list \<times> u64 list \<times> (int \<Rightarrow> u8)" where
  "user_view g =
    ([contextRIP g, contextRSP g, contextRFLAGS g, contextRAX g, contextRBX g, contextRCX g,
      contextRDX g, contextRSI g, contextRDI g, contextRBP g, contextR8 g, contextR9 g,
      contextR10 g, contextR11 g, contextR12 g, contextR13 g, contextR14 g, contextR15 g],
     map (\<lambda>seg. seg AND 0xFFFF)
       [contextSS g, contextCS g, contextDS g, contextES g, contextFS g, contextGS g],
     (\<lambda>i. if 0 \<le> i \<and> i < 512 then context_fpu_buffer g i else 0))"

lemma segment_round_trip [simp]:
  "(ucast ((ucast (w :: u16) :: u64) AND 0xFFFF) :: u16) = w"
proof -
  have "(0xFFFF :: u64) = mask 16" by (simp add: mask_eq_exp_minus_1)
  then show ?thesis
    by (simp only: take_bit_eq_mask[symmetric]) (auto intro!: bit_word_eqI simp: bit_simps)
qed

lemma segment_masked [simp]:
  "(ucast (ucast ((w :: u64) AND 0xFFFF) :: u16) :: u64) AND 0xFFFF = w AND 0xFFFF"
proof -
  have "(0xFFFF :: u64) = mask 16" by (simp add: mask_eq_exp_minus_1)
  then show ?thesis
    by (simp only: take_bit_eq_mask[symmetric]) (auto intro!: bit_word_eqI simp: bit_simps)
qed

lemma and_mask_idem [simp]: "(w :: 'a::len word) AND m AND m = w AND m"
  by (simp add: and.assoc)

locale register_file =
  fixes save :: "'m \<Rightarrow> 'c \<Rightarrow> 'c" and load :: "'c \<Rightarrow> 'm \<Rightarrow> 'm" and view :: "'m \<Rightarrow> 'v"
  assumes load_save: "view (load (save g c) g') = view g"
begin

lemma load_twice: "view (load (save (load (save g c) g') c') g'') = view g"
  by (simp add: load_save)

lemma save_overwrites: "view (load (save g (save h c)) g') = view g"
  by (simp add: load_save)

end

interpretation regs: register_file capture release_context user_view
  by unfold_locales (auto simp: user_view_def capture_def release_context_def fpu_copy_def
    fun_eq_iff)

text \<open>A thread that can be saved and restored: valid, in user mode.\<close>

definition user_thread :: "kstate \<Rightarrow> int \<Rightarrow> bool" where
  "user_thread s i \<longleftrightarrow> slot_valid s i \<and> t_cpl (tmem s (threadList s i)) = 3"

definition save_image :: "context_globals \<Rightarrow> thread_d \<Rightarrow> thread_d" where
  "save_image g r = r\<lparr>t_context := capture g (t_context r),
      t_to_supervisor := t_to_supervisor r + 1,
      t_rflags_current_iopl := ucast (contextRFLAGS g AND 0x200)\<rparr>"

lemma save_image_fields [simp]:
  "t_context (save_image g r) = capture g (t_context r)"
  "same_identity (save_image g r) r" "t_used (save_image g r) = t_used r"
  "t_magic (save_image g r) = t_magic r" "t_tid (save_image g r) = t_tid r"
  "t_cpl (save_image g r) = t_cpl r" "t_pml4_PA (save_image g r) = t_pml4_PA r"
  "t_state (save_image g r) = t_state r" "t_next (save_image g r) = t_next r"
  "t_owner_pid (save_image g r) = t_owner_pid r" "t_quantum (save_image g r) = t_quantum r"
  "t_runningCount (save_image g r) = t_runningCount r"
  "t_yield_in_progress (save_image g r) = t_yield_in_progress r"
  "t_sleep_in_progress (save_image g r) = t_sleep_in_progress r"
  by (simp_all add: save_image_def same_identity_def)

lemma save_current_context_user:
  assumes "user_thread s (current_thread s)" "contextCPL (cpu_context s) AND 3 = 3"
  shows "save_current_context s
    = Inr (upd_thread (threadList s (current_thread s)) (save_image (cpu_context s)) s)"
proof -
  let ?t = "threadList s (current_thread s)"
  note v = assms(1)[unfolded user_thread_def]
  have g: "\<not> (current_thread s < 0 \<or> THREAD_COUNT_MAX \<le> current_thread s)" "?t \<noteq> NULL"
    "t_used (tmem s ?t) = 1" "t_magic (tmem s ?t) = 1234" "t_cpl (tmem s ?t) = 3"
    using v slot_validD[of s "current_thread s"] by auto
  show ?thesis
    unfolding save_current_context_def Let_def using g assms(2)
    by (simp add: upd_thread_def capture_def save_image_def)
qed

lemma restore_current_context_user:
  assumes "user_thread s (current_thread s)"
  shows "\<exists>s'. restore_current_context s = Inr s'
     \<and> cpu_context s' = release_context (t_context (tmem s (threadList s (current_thread s)))) (cpu_context s)
     \<and> cr3 s' = t_pml4_PA (tmem s (threadList s (current_thread s)))
     \<and> tmem s' = (tmem s)(threadList s (current_thread s) :=
          (tmem s (threadList s (current_thread s)))
            \<lparr>t_to_user := t_to_user (tmem s (threadList s (current_thread s))) + 1\<rparr>)
     \<and> current_thread s' = current_thread s \<and> threadList s' = threadList s
     \<and> processList s' = processList s \<and> pmem s' = pmem s \<and> UP_CurrentThread s' = UP_CurrentThread s"
proof -
  let ?t = "threadList s (current_thread s)"
  note v = assms(1)[unfolded user_thread_def]
  have g: "\<not> (current_thread s < 0 \<or> THREAD_COUNT_MAX \<le> current_thread s)" "?t \<noteq> NULL"
    "t_used (tmem s ?t) = 1" "t_magic (tmem s ?t) = 1234" "t_cpl (tmem s ?t) = 3"
    using v slot_validD[of s "current_thread s"] by auto
  then show ?thesis
    unfolding restore_current_context_def Let_def by (simp add: fun_eq_iff)
qed

text \<open>
  C29. Registers are private: when thread \<open>a\<close> is saved, thread \<open>b\<close> runs with registers \<open>g\<close> and is
  saved in its turn, then restoring \<open>a\<close> gives back exactly the registers a user program can see as
  they were when \<open>a\<close> was saved, in the address space of \<open>a\<close>, whatever \<open>b\<close> left in them.
\<close>

theorem registers_are_private:
  assumes "threads_wf s" and "user_thread s a" and "user_thread s b" and "a \<noteq> b"
    and "contextCPL (cpu_context s) AND 3 = 3" and "contextCPL g AND 3 = 3"
  shows "\<exists>s1 s2 s3. save_current_context (s\<lparr>current_thread := a\<rparr>) = Inr s1
     \<and> save_current_context (s1\<lparr>current_thread := b, cpu_context := g\<rparr>) = Inr s2
     \<and> restore_current_context (s2\<lparr>current_thread := a\<rparr>) = Inr s3
     \<and> user_view (cpu_context s3) = user_view (cpu_context s)
     \<and> cr3 s3 = t_pml4_PA (tmem s (threadList s a))"
proof -
  let ?a = "threadList s a" and ?b = "threadList s b"
  have ne: "?a \<noteq> ?b" using threads_wf_inj[of s a b] assms(1-4) by (auto simp: user_thread_def)
  let ?s0 = "s\<lparr>current_thread := a\<rparr>"
  let ?s1 = "upd_thread ?a (save_image (cpu_context s)) ?s0"
  let ?s1' = "?s1\<lparr>current_thread := b, cpu_context := g\<rparr>"
  let ?s2 = "upd_thread ?b (save_image g) ?s1'"
  let ?s2' = "?s2\<lparr>current_thread := a\<rparr>"
  have ua: "user_thread ?s0 a" using assms(2) by (simp add: user_thread_def slot_defs)
  have 1: "save_current_context ?s0 = Inr ?s1"
    using save_current_context_user[of ?s0] ua assms(5) by simp
  have ub: "user_thread ?s1' b" using assms(3) ne by (simp add: user_thread_def slot_defs)
  have 2: "save_current_context ?s1' = Inr ?s2"
    using save_current_context_user[of ?s1'] ub assms(6) by simp
  have "user_thread ?s2' a" using assms(2) ne by (simp add: user_thread_def slot_defs)
  moreover have at: "tmem ?s2' ?a = save_image (cpu_context s) (tmem s ?a)" using ne by simp
  ultimately obtain s3 where s3: "restore_current_context ?s2' = Inr s3"
      "cpu_context s3 = release_context (capture (cpu_context s) (t_context (tmem s ?a))) (cpu_context ?s2')"
      "cr3 s3 = t_pml4_PA (tmem s ?a)"
    using restore_current_context_user[of ?s2'] by auto
  then show ?thesis using 1 2 regs.load_save by (intro exI[of _ ?s1] exI[of _ ?s2] exI[of _ s3]) simp
qed

section \<open>Dispatching a thread\<close>

text \<open>A state that differs from another in one thread structure only.\<close>

definition only_thread :: "ptr \<Rightarrow> kstate \<Rightarrow> kstate \<Rightarrow> bool" where
  "only_thread t s s' \<longleftrightarrow> s' = upd_thread t (\<lambda>_. tmem s' t) s"

lemma only_thread_refl [simp, intro]: "only_thread t s s"
  by (simp add: only_thread_def upd_thread_def)

lemma only_thread_upd [simp]: "only_thread t s s' \<Longrightarrow> only_thread t s (upd_thread t f s')"
  unfolding only_thread_def upd_thread_def by (erule ssubst) (simp add: fun_upd_def cong: if_cong)

lemma only_threadE:
  assumes "only_thread t s s'"
  obtains r where "s' = upd_thread t (\<lambda>_. r) s" "tmem s' t = r"
  using assms that unfolding only_thread_def by blast

lemma ts_limits_effect:
  "only_thread t s (ts_limits t s)"
  "t_base_priority (tmem (ts_limits t s) t) = min PRIORITY_MAX (t_base_priority (tmem s t))"
  "t_priority (tmem (ts_limits t s) t) = min PRIORITY_MAX (t_priority (tmem s t))"
  "t_quantum (tmem (ts_limits t s) t) = min QUANTUM_MAX (t_quantum (tmem s t))"
  "t_runningCount (tmem (ts_limits t s) t) = 0"
  "same_identity (tmem (ts_limits t s) t) (tmem s t)"
  "t_state (tmem (ts_limits t s) t) = t_state (tmem s t)"
  "t_context (tmem (ts_limits t s) t) = t_context (tmem s t)"
  "t_pml4_PA (tmem (ts_limits t s) t) = t_pml4_PA (tmem s t)"
  "t_cpl (tmem (ts_limits t s) t) = t_cpl (tmem s t)"
  "t_owner_pid (tmem (ts_limits t s) t) = t_owner_pid (tmem s t)"
  by (auto simp: ts_limits_def Let_def min_def same_identity_def not_less)

text \<open>The state dispatcher() hands to restore_current_context().\<close>

definition dispatch_mark :: "ptr \<Rightarrow> kstate \<Rightarrow> kstate" where
  "dispatch_mark t s =
    (let
       s1 = upd_thread t (\<lambda>r. r\<lparr>t_state := RUNNING, t_runningCount := 0, t_runningCount_ms := 0,
                    t_readyCount := 0, t_readyCount_ms := 0, t_waitingCount := 0,
                    t_waitingCount_ms := 0, t_blockedCount := 0, t_blockedCount_ms := 0\<rparr>) s;
       s2 = (if t_base_priority (tmem s1 t) < PRIORITY_MIN
             then upd_thread t (\<lambda>r. r\<lparr>t_base_priority := PRIORITY_MIN\<rparr>) s1 else s1);
       s3 = (if t_priority (tmem s2 t) < PRIORITY_MIN
             then upd_thread t (\<lambda>r. r\<lparr>t_priority := PRIORITY_MIN\<rparr>) s2 else s2)
     in (if t_quantum (tmem s3 t) < QUANTUM_MIN
         then upd_thread t (\<lambda>r. r\<lparr>t_quantum := QUANTUM_MIN\<rparr>) s3 else s3))"

lemma dispatch_mark_effect:
  "only_thread t s (dispatch_mark t s)"
  "t_base_priority (tmem (dispatch_mark t s) t) = max PRIORITY_MIN (t_base_priority (tmem s t))"
  "t_priority (tmem (dispatch_mark t s) t) = max PRIORITY_MIN (t_priority (tmem s t))"
  "t_quantum (tmem (dispatch_mark t s) t) = max QUANTUM_MIN (t_quantum (tmem s t))"
  "t_runningCount (tmem (dispatch_mark t s) t) = 0"
  "same_identity (tmem (dispatch_mark t s) t) (tmem s t)"
  "t_state (tmem (dispatch_mark t s) t) = RUNNING"
  "t_context (tmem (dispatch_mark t s) t) = t_context (tmem s t)"
  "t_pml4_PA (tmem (dispatch_mark t s) t) = t_pml4_PA (tmem s t)"
  "t_cpl (tmem (dispatch_mark t s) t) = t_cpl (tmem s t)"
  "t_owner_pid (tmem (dispatch_mark t s) t) = t_owner_pid (tmem s t)"
  by (auto simp: dispatch_mark_def Let_def max_def same_identity_def not_less)

lemma dispatcher_eq:
  assumes "slot_valid s (current_thread s)" "t = threadList s (current_thread s)" "t_state (tmem s t) = READY"
  shows "dispatcher ty s = restore_current_context
    (upd_thread t (\<lambda>r. r\<lparr>t_saved := FALSE\<rparr>) ((dispatch_mark t s)\<lparr>UP_CurrentThread := t\<rparr>))"
proof -
  have g: "\<not> (current_thread s < 0 \<or> THREAD_COUNT_MAX \<le> current_thread s)" "t \<noteq> NULL"
    "t_magic (tmem s t) = 1234"
    using slot_validD[OF assms(1)] assms(2) by auto
  then show ?thesis
    unfolding dispatcher_def Let_def dispatch_mark_def using assms(2,3) by simp
qed

text \<open>A process a thread can be dispatched for.\<close>

definition process_ready :: "kstate \<Rightarrow> int \<Rightarrow> bool" where
  "process_ready s pid \<longleftrightarrow> pid_ok pid \<and> processList s pid \<noteq> NULL
     \<and> p_used (pmem s (processList s pid)) = TRUE \<and> p_magic (pmem s (processList s pid)) = 1234
     \<and> p_pid (pmem s (processList s pid)) = pid \<and> p_pml4_PA (pmem s (processList s pid)) \<noteq> 0"

definition counters_ok :: "kstate \<Rightarrow> bool" where
  "counters_ok s \<longleftrightarrow> (\<exists>d. DispatchCountBlock s = Some d \<and> d_magic d = 1234)"

lemma IncrementDispatcherCount_ok:
  assumes "counters_ok s" "0 \<le> ty"
  shows "\<exists>d. IncrementDispatcherCount ty s = Inr (s\<lparr>DispatchCountBlock := Some d\<rparr>) \<and> d_magic d = 1234"
  using assms by (auto simp: counters_ok_def IncrementDispatcherCount_def count_dispatch_def)

lemma ts_dispatch_current_result:
  assumes "t = threadList s (current_thread s)" and "user_thread s (current_thread s)"
    and "t_state (tmem s t) = READY" and "process_ready s (t_owner_pid (tmem s t))" and "counters_ok s"
  shows "\<exists>s'. ts_dispatch_current s = Inr s' \<and> t_state (tmem s' t) = RUNNING
     \<and> t_saved (tmem s' t) = FALSE \<and> t_runningCount (tmem s' t) = 0
     \<and> PRIORITY_MIN \<le> t_priority (tmem s' t) \<and> t_priority (tmem s' t) \<le> PRIORITY_MAX
     \<and> QUANTUM_MIN \<le> t_quantum (tmem s' t) \<and> t_quantum (tmem s' t) \<le> QUANTUM_MAX
     \<and> cpu_context s' = release_context (t_context (tmem s t)) (cpu_context s)
     \<and> cr3 s' = t_pml4_PA (tmem s t) \<and> current_pid s' = t_owner_pid (tmem s t)
     \<and> UP_CurrentThread s' = t \<and> current_thread s' = current_thread s
     \<and> (\<forall>q. q \<noteq> t \<longrightarrow> tmem s' q = tmem s q)"
proof -
  let ?c = "current_thread s" and ?pid = "t_owner_pid (tmem s t)"
  have v: "slot_valid s ?c" "t_cpl (tmem s t) = 3" using assms(1,2) by (simp_all add: user_thread_def)
  have g: "\<not> (?c < 0 \<or> THREAD_COUNT_MAX \<le> ?c)" "t \<noteq> NULL" "t_used (tmem s t) = 1"
    "t_magic (tmem s t) = 1234"
    using slot_validD[OF v(1)] assms(1) by auto
  note L = ts_limits_effect[of t s]
  obtain r1 where r1: "ts_limits t s = upd_thread t (\<lambda>_. r1) s" "tmem (ts_limits t s) t = r1"
    using L(1) by (rule only_threadE)
  have "counters_ok (ts_limits t s)" using assms(5) by (simp add: r1(1) counters_ok_def)
  then obtain d where d: "IncrementDispatcherCount SELECT_DISPATCHER_COUNT (ts_limits t s)
      = Inr ((ts_limits t s)\<lparr>DispatchCountBlock := Some d\<rparr>)"
    using IncrementDispatcherCount_ok[of "ts_limits t s" SELECT_DISPATCHER_COUNT]
    by (auto simp: SELECT_DISPATCHER_COUNT_def)
  let ?s1 = "(ts_limits t s)\<lparr>DispatchCountBlock := Some d\<rparr>"
  have s1: "tmem ?s1 q = (if q = t then r1 else tmem s q)" "current_thread ?s1 = ?c"
    "threadList ?s1 = threadList s" "cpu_context ?s1 = cpu_context s" "processList ?s1 = processList s"
    "pmem ?s1 = pmem s" for q
    by (simp_all add: r1(1))
  have v1: "slot_valid ?s1 ?c" using v(1) L(6) r1(2) assms(1)
    unfolding slot_valid_def thread_valid_def s1 by (simp add: same_identity_def)
  have st1: "t_state (tmem ?s1 t) = READY" using L(7) r1(2) assms(3) by (simp add: s1(1))
  note D = dispatch_mark_effect[of t ?s1]
  obtain r2 where r2: "dispatch_mark t ?s1 = upd_thread t (\<lambda>_. r2) ?s1" "tmem (dispatch_mark t ?s1) t = r2"
    using D(1) by (rule only_threadE)
  let ?s2 = "upd_thread t (\<lambda>r. r\<lparr>t_saved := FALSE\<rparr>) ((dispatch_mark t ?s1)\<lparr>UP_CurrentThread := t\<rparr>)"
  have s2: "tmem ?s2 q = (if q = t then r2\<lparr>t_saved := FALSE\<rparr> else tmem s q)" "current_thread ?s2 = ?c"
    "threadList ?s2 = threadList s" "cpu_context ?s2 = cpu_context s" "processList ?s2 = processList s"
    "pmem ?s2 = pmem s" "UP_CurrentThread ?s2 = t" for q
    using s1 by (simp_all add: r2(1))
  have eq: "dispatcher 1 ?s1 = restore_current_context ?s2"
    using dispatcher_eq[of ?s1 t 1] v1 st1 s1(2,3) assms(1) by simp
  have same2: "same_identity r2 (tmem s t)" "t_cpl r2 = 3" "t_context r2 = t_context (tmem s t)"
    "t_pml4_PA r2 = t_pml4_PA (tmem s t)" "t_owner_pid r2 = ?pid"
    using D(6,8-11) r2(2) L(6,8-11) r1(2) v(2) s1(1) by (simp_all add: same_identity_def)
  have "user_thread ?s2 (current_thread ?s2)"
    using v same2(1,2) assms(1)
    unfolding user_thread_def slot_valid_def thread_valid_def s2 by (auto simp: same_identity_def)
  then obtain s3 where s3: "restore_current_context ?s2 = Inr s3"
      "cpu_context s3 = release_context (t_context (tmem s t)) (cpu_context s)"
      "cr3 s3 = t_pml4_PA (tmem s t)" "current_thread s3 = ?c" "processList s3 = processList s"
      "pmem s3 = pmem s" "UP_CurrentThread s3 = t"
      "\<And>q. tmem s3 q = (if q = t then r2\<lparr>t_saved := FALSE, t_to_user := t_to_user r2 + 1\<rparr> else tmem s q)"
    using restore_current_context_user[of ?s2] same2(3,4) assms(1) unfolding s2 by (auto simp: fun_eq_iff)
  let ?s4 = "s3\<lparr>current_pid := ?pid\<rparr>"
  have p: "0 \<le> ?pid" "?pid < THREAD_COUNT_MAX" "processList s ?pid \<noteq> NULL"
    "p_used (pmem s (processList s ?pid)) = 1" "p_magic (pmem s (processList s ?pid)) = 1234"
    "p_pid (pmem s (processList s ?pid)) = ?pid" "p_pml4_PA (pmem s (processList s ?pid)) \<noteq> 0"
    using assms(4) by (auto simp: process_ready_def pid_ok_def PROCESS_COUNT_MAX_def THREAD_COUNT_MAX_def)
  have run: "ts_dispatch_current s = Inr ?s4"
    unfolding ts_dispatch_current_def assms(1)[symmetric] Let_def
    using g assms(3) d eq s3(1) p same2(5) by (simp add: s3(5,6,8) set_current_process_def)
  have lim: "PRIORITY_MIN \<le> t_priority r2" "t_priority r2 \<le> PRIORITY_MAX"
    "QUANTUM_MIN \<le> t_quantum r2" "t_quantum r2 \<le> QUANTUM_MAX" "t_runningCount r2 = 0" "t_state r2 = RUNNING"
  proof -
    have "t_priority r2 = max PRIORITY_MIN (min PRIORITY_MAX (t_priority (tmem s t)))"
      "t_quantum r2 = max QUANTUM_MIN (min QUANTUM_MAX (t_quantum (tmem s t)))"
      using D(3,4) r2(2) L(3,4) r1(2) by (simp_all add: s1(1))
    moreover have "PRIORITY_MIN \<le> PRIORITY_MAX" "QUANTUM_MIN \<le> QUANTUM_MAX"
      by (simp_all add: priority_defs quantum_defs)
    ultimately show "PRIORITY_MIN \<le> t_priority r2" "t_priority r2 \<le> PRIORITY_MAX"
      "QUANTUM_MIN \<le> t_quantum r2" "t_quantum r2 \<le> QUANTUM_MAX" by simp_all
    show "t_runningCount r2 = 0" "t_state r2 = RUNNING" using D(5,7) r2(2) by simp_all
  qed
  show ?thesis
    using run lim s3 by (intro exI[of _ ?s4]) simp
qed

text \<open>
  The dispatch: a READY user thread of a valid process is left RUNNING with its register image
  no longer marked as saved, its priority and quantum brought inside their limits and its running
  count at zero; its registers are in the machine, its address space and its process are the
  current ones, and no other thread structure has changed.
\<close>

lemma dispatch_runs_thread:
  assumes "t = threadList s (current_thread s)" and "user_thread s (current_thread s)"
    and "t_state (tmem s t) = READY" and "process_ready s (t_owner_pid (tmem s t))" and "counters_ok s"
  shows "\<exists>s'. ts_dispatch_current s = Inr s' \<and> t_state (tmem s' t) = RUNNING
     \<and> t_saved (tmem s' t) = FALSE \<and> t_runningCount (tmem s' t) = 0
     \<and> PRIORITY_MIN \<le> t_priority (tmem s' t) \<and> t_priority (tmem s' t) \<le> PRIORITY_MAX
     \<and> QUANTUM_MIN \<le> t_quantum (tmem s' t) \<and> t_quantum (tmem s' t) \<le> QUANTUM_MAX
     \<and> cpu_context s' = release_context (t_context (tmem s t)) (cpu_context s)
     \<and> cr3 s' = t_pml4_PA (tmem s t) \<and> current_pid s' = t_owner_pid (tmem s t)
     \<and> UP_CurrentThread s' = t \<and> current_thread s' = current_thread s
     \<and> (\<forall>q. q \<noteq> t \<longrightarrow> tmem s' q = tmem s q)"
  using ts_dispatch_current_result[OF assms] .

section \<open>A whole round\<close>

text \<open>
  The threads a run of task switches selects: after each selection the rest of the system does
  \<open>e\<close>, the dispatch, the thread's own instructions and the interrupts.
\<close>

fun run_round :: "(kstate \<Rightarrow> kstate) \<Rightarrow> nat \<Rightarrow> kstate \<Rightarrow> int list" where
  "run_round e 0 s = []"
| "run_round e (Suc n) s =
    (case zero_gravity 1 s of
       Some (Inr s') \<Rightarrow> current_thread s' # run_round e n (e s')
     | _ \<Rightarrow> [])"

text \<open>Between two switches nobody removes a waiting thread from the round.\<close>

definition quiet :: "(kstate \<Rightarrow> kstate) \<Rightarrow> bool" where
  "quiet e \<longleftrightarrow> (\<forall>s. currentq (e s) = currentq s \<and> UP_threads_counter (e s) = UP_threads_counter s
     \<and> timeout_thread (e s) = timeout_thread s
     \<and> (\<forall>p. t_used (tmem (e s) p) = t_used (tmem s p) \<and> t_magic (tmem (e s) p) = t_magic (tmem s p)
           \<and> t_tid (tmem (e s) p) = t_tid (tmem s p) \<and> t_next (tmem (e s) p) = t_next (tmem s p)
           \<and> (t_state (tmem s p) = READY \<and> p \<noteq> currentq s \<longrightarrow> t_state (tmem (e s) p) = READY)))"

definition can_run :: "kstate \<Rightarrow> ptr \<Rightarrow> bool" where
  "can_run s p \<longleftrightarrow> p \<noteq> NULL \<and> thread_valid (tmem s p) \<and> t_state (tmem s p) = READY"

lemma zero_gravity_pick:
  assumes "ts_pick s = Inr s'" "can_run s' (currentq s')"
  shows "zero_gravity (Suc n) s = Some (Inr (s'\<lparr>current_thread := t_tid (tmem s' (currentq s'))\<rparr>))"
  using assms by (simp add: can_run_def thread_valid_def Let_def)

lemma ts_pick_next:
  assumes "UP_threads_counter s \<noteq> 0" "UP_threads_counter s \<noteq> 1" "timeout_thread s = NULL"
    "currentq s \<noteq> NULL" "t_next (tmem s (currentq s)) \<noteq> NULL"
  shows "ts_pick s = Inr (s\<lparr>currentq := t_next (tmem s (currentq s))\<rparr>)"
  using assms by (simp add: ts_pick_def)

lemma run_round_linked:
  assumes "quiet e" "linked s (currentq s # qs)" "distinct (currentq s # qs)" "currentq s \<noteq> NULL"
    "\<forall>q\<in>set qs. can_run s q" "UP_threads_counter s \<noteq> 0" "UP_threads_counter s \<noteq> 1" "timeout_thread s = NULL"
  shows "run_round e (length qs) s = map (\<lambda>q. t_tid (tmem s q)) qs"
  using assms(2-)
proof (induction qs arbitrary: s)
  case (Cons q qs)
  have q: "t_next (tmem s (currentq s)) = q" "q \<noteq> NULL" "can_run s q"
    using Cons.prems by (auto simp: can_run_def)
  let ?s1 = "s\<lparr>currentq := q\<rparr>"
  let ?s2 = "?s1\<lparr>current_thread := t_tid (tmem ?s1 q)\<rparr>"
  have "can_run ?s1 q" using q(3) by (simp add: can_run_def)
  then have pick: "zero_gravity (Suc 0) s = Some (Inr ?s2)"
    using zero_gravity_pick[of s ?s1 0] ts_pick_next[of s] Cons.prems q by simp
  have e: "currentq (e ?s2) = q" "UP_threads_counter (e ?s2) = UP_threads_counter s"
    "timeout_thread (e ?s2) = timeout_thread s"
    "\<And>p. t_tid (tmem (e ?s2) p) = t_tid (tmem s p)" "\<And>p. t_next (tmem (e ?s2) p) = t_next (tmem s p)"
    "\<And>p. p \<noteq> q \<Longrightarrow> can_run s p \<Longrightarrow> can_run (e ?s2) p"
    using assms(1) by (simp_all add: quiet_def can_run_def thread_valid_def)
  have c: "\<forall>x\<in>set qs. can_run (e ?s2) x"
  proof
    fix x assume x: "x \<in> set qs"
    then have "x \<noteq> q" using Cons.prems(2) by auto
    then show "can_run (e ?s2) x" using e(6) x Cons.prems(4) by simp
  qed
  have "linked (e ?s2) (q # qs) = linked s (q # qs)" by (rule linked_cong) (rule e(5))
  then have "run_round e (length qs) (e ?s2) = map (\<lambda>q. t_tid (tmem (e ?s2) q)) qs"
    using Cons.prems q(1,2) e(1-3) c by (intro Cons.IH) simp_all
  then show ?case using pick e(4) by simp
qed simp


section \<open>Switches that keep, start or never find a thread\<close>

text \<open>
  C33. With one thread the switch may never return: when the only thread is the idle thread and it
  is not READY, the goto loop of the task switch tries it again forever, no state changes, and no
  amount of fuel lets it end.
\<close>

theorem lone_idle_thread_hangs:
  assumes "UP_threads_counter s = 1" and "InitThread s = UP_IdleThread s" and "UP_IdleThread s \<noteq> NULL"
    and "t_state (tmem s (UP_IdleThread s)) \<noteq> READY"
  shows "zero_gravity n s = None"
  using assms
proof (induction n arbitrary: s)
  case (Suc n)
  let ?s1 = "s\<lparr>currentq := UP_IdleThread s\<rparr>"
  have pick: "ts_pick s = Inr ?s1" using Suc.prems by (simp add: ts_pick_def)
  let ?tid = "t_tid (tmem s (UP_IdleThread s))"
  let ?s2 = "if g_scheduler_status s = LOCKED then ?s1\<lparr>current_thread := -1\<rparr> else ?s1\<lparr>current_thread := ?tid\<rparr>"
  have again: "zero_gravity (Suc n) s = zero_gravity n ?s2"
    using Suc.prems pick by (simp add: psScheduler_def Let_def)
  have "zero_gravity n ?s2 = None" using Suc.prems by (intro Suc.IH) auto
  then show ?case using again by simp
qed simp

text \<open>The same for a locked scheduler at the end of a round: nothing will ever change currentq.\<close>

lemma locked_scheduler_hangs:
  assumes "g_scheduler_status s = LOCKED" "UP_threads_counter s \<noteq> 0" "UP_threads_counter s \<noteq> 1"
    "timeout_thread s = NULL" "currentq s \<noteq> NULL" "t_next (tmem s (currentq s)) = NULL"
    "t_state (tmem s (currentq s)) \<noteq> READY"
  shows "zero_gravity n s = None"
  using assms
proof (induction n arbitrary: s)
  case (Suc n)
  have pick: "ts_pick s = Inr (s\<lparr>current_thread := -1\<rparr>)"
    using Suc.prems by (simp add: ts_pick_def psScheduler_def)
  have "zero_gravity (Suc n) s = zero_gravity n (s\<lparr>current_thread := -1\<rparr>)"
    using Suc.prems pick by (simp add: psScheduler_def Let_def)
  moreover have "zero_gravity n (s\<lparr>current_thread := -1\<rparr>) = None"
    using Suc.prems by (intro Suc.IH) simp_all
  ultimately show ?case by simp
qed simp

lemma spawn_prepare_effect:
  "only_thread t s (spawn_prepare t s)"
  "t_state (tmem (spawn_prepare t s) t) = (if t_state (tmem s t) = STANDBY then RUNNING else t_state (tmem s t))"
  "t_saved (tmem (spawn_prepare t s) t) = FALSE" "t_runningCount (tmem (spawn_prepare t s) t) = 0"
  "t_context (tmem (spawn_prepare t s) t) = t_context (tmem s t)"
  "t_cpl (tmem (spawn_prepare t s) t) = t_cpl (tmem s t)"
  "t_tid (tmem (spawn_prepare t s) t) = t_tid (tmem s t)"
  "t_pml4_PA (tmem (spawn_prepare t s) t) = t_pml4_PA (tmem s t)"
  "t_owner_pid (tmem (spawn_prepare t s) t) = t_owner_pid (tmem s t)"
  "t_owner_process (tmem (spawn_prepare t s) t) = t_owner_process (tmem s t)"
  "t_used (tmem (spawn_prepare t s) t) = t_used (tmem s t)"
  "t_magic (tmem (spawn_prepare t s) t) = t_magic (tmem s t)"
  by (simp_all add: spawn_prepare_def Let_def)

lemma set_current_thread_valid:
  assumes "slot_valid s tid"
  shows "set_current_thread tid s = s\<lparr>current_thread := tid\<rparr>"
  using slot_validD[OF assms] by (simp add: set_current_thread_def Let_def)

text \<open>
  C32. The first run: for a valid STANDBY user thread whose image is not marked as saved, the spawn
  leaves the kernel at the entry point and stack of its register image, with the thread RUNNING,
  current, in its own address space and process, both the task switch and the scheduler unlocked,
  and every other thread structure as it was.
\<close>

theorem spawn_enters_user_mode:
  assumes "threads_wf s" and "user_thread s tid" and "t = threadList s tid"
    and "t_state (tmem s t) = STANDBY" and "t_saved (tmem s t) \<noteq> TRUE"
    and "t_owner_process (tmem s t) \<noteq> NULL" and "pid_ok (t_owner_pid (tmem s t))"
    and "counters_ok s" and "spawn_eoi_is_necessary s = TRUE"
  shows "\<exists>s'. psSpawnThreadByTID tid s
        = Inr (EnteredUser (c_rip (t_context (tmem s t))) (c_rsp (t_context (tmem s t))), s')
     \<and> t_state (tmem s' t) = RUNNING \<and> t_runningCount (tmem s' t) = 0
     \<and> current_thread s' = tid \<and> current_pid s' = t_owner_pid (tmem s t)
     \<and> cr3 s' = t_pml4_PA (tmem s t)
     \<and> task_switch_status s' = UNLOCKED \<and> g_scheduler_status s' = UNLOCKED
     \<and> (\<forall>q. q \<noteq> t \<longrightarrow> tmem s' q = tmem s q)"
proof -
  note v = assms(2)[unfolded user_thread_def]
  have g: "0 \<le> tid" "tid < THREAD_COUNT_MAX" "t \<noteq> NULL" "t_used (tmem s t) = 1"
    "t_magic (tmem s t) = 1234" "t_tid (tmem s t) = tid" "t_cpl (tmem s t) = 3"
    using v slot_validD[of s tid] assms(1,3) by (auto simp: threads_wf_def)
  have m: "tid AND 0xFFFF = tid" using tid_mask[of s tid] v by simp
  note P = spawn_prepare_effect[of t s]
  obtain r where r: "spawn_prepare t s = upd_thread t (\<lambda>_. r) s" "tmem (spawn_prepare t s) t = r"
    using P(1) by (rule only_threadE)
  let ?s1 = "scheduler_unlock (set_taskswitch_status UNLOCKED (spawn_prepare t s))"
  have rf: "t_state r = RUNNING" "t_runningCount r = 0" "t_context r = t_context (tmem s t)" "t_cpl r = 3"
    "t_tid r = tid" "t_pml4_PA r = t_pml4_PA (tmem s t)" "t_owner_pid r = t_owner_pid (tmem s t)"
    "t_owner_process r = t_owner_process (tmem s t)" "t_used r = 1" "t_magic r = 1234"
    using P(2-) r(2) assms(4) g(4-7) by simp_all
  let ?s2 = "set_current_thread tid (set_current_process (t_owner_pid (tmem s t)) ?s1)"
  have sv: "slot_valid (set_current_process pid ?s1) tid" for pid
    using g rf by (simp add: slot_valid_def thread_valid_def tid_ok_def assms(3)[symmetric]
        scheduler_unlock_def set_taskswitch_status_def set_current_process_def r(1))
  have s2: "tmem ?s2 q = (if q = t then r else tmem s q)" "current_thread ?s2 = tid"
    "spawn_eoi_is_necessary ?s2 = spawn_eoi_is_necessary s" "DispatchCountBlock ?s2 = DispatchCountBlock s"
    "current_pid ?s2 = t_owner_pid (tmem s t)"
    "task_switch_status ?s2 = UNLOCKED" "g_scheduler_status ?s2 = UNLOCKED" for q
    using set_current_thread_valid[OF sv]
    by (simp_all add: scheduler_unlock_def set_taskswitch_status_def set_current_process_def r(1))
  have s1: "tmem ?s1 t = r" by (simp add: scheduler_unlock_def set_taskswitch_status_def r(1))
  have "counters_ok ?s2" using assms(8) by (simp add: counters_ok_def s2(4))
  then obtain d where d: "IncrementDispatcherCount SELECT_INITIALIZED_COUNT ?s2
      = Inr (?s2\<lparr>DispatchCountBlock := Some d\<rparr>)"
    using IncrementDispatcherCount_ok[of ?s2 SELECT_INITIALIZED_COUNT]
    by (auto simp: SELECT_INITIALIZED_COUNT_def)
  let ?s3 = "?s2\<lparr>DispatchCountBlock := Some d, cr3 := t_pml4_PA (tmem s t)\<rparr>"
  let ?s' = "upd_thread t (\<lambda>r. r\<lparr>t_to_user := t_to_user r + 1\<rparr>) ?s3"
  have "spawn_thread_by_tid_imp tid s
      = Inr (EnteredUser (c_rip (t_context (tmem s t))) (c_rsp (t_context (tmem s t))), ?s')"
    unfolding spawn_thread_by_tid_imp_def Let_def m assms(3)[symmetric] s1 rf
    using g assms(4-7,9) d rf by (simp add: pid_ok_def s2)
  then have run: "psSpawnThreadByTID tid s
      = Inr (EnteredUser (c_rip (t_context (tmem s t))) (c_rsp (t_context (tmem s t))), ?s')"
    using g(1,2) by (simp add: psSpawnThreadByTID_def)
  show ?thesis using run rf s2 by (intro exI[of _ ?s']) simp
qed

section \<open>One task switch from end to end\<close>

text \<open>A thread and a process the task switch accepts as the current ones.\<close>

definition switch_ok :: "kstate \<Rightarrow> bool" where
  "switch_ok s \<longleftrightarrow> user_thread s (current_thread s)
     \<and> process_ready s (t_owner_pid (tmem s (threadList s (current_thread s))))
     \<and> sys_time_hz s \<noteq> 0 \<and> task_switch_status s = UNLOCKED \<and> counters_ok s
     \<and> contextCPL (cpu_context s) AND 3 = 3"

text \<open>The thread's structure once its tick is counted and its registers are saved.\<close>

definition ticked :: "kstate \<Rightarrow> thread_d \<Rightarrow> thread_d" where
  "ticked s r = (save_image (cpu_context s)
     (r\<lparr>t_step := t_step r + 1, t_total_time_ms := t_total_time_ms r + JIFFY_FREQ div sys_time_hz s,
        t_runningCount := t_runningCount r + 1,
        t_runningCount_ms := t_runningCount_ms r + JIFFY_FREQ div sys_time_hz s\<rparr>))\<lparr>t_saved := TRUE\<rparr>"

lemma ticked_fields [simp]:
  "t_context (ticked s r) = capture (cpu_context s) (t_context r)" "t_saved (ticked s r) = TRUE"
  "t_used (ticked s r) = t_used r" "t_magic (ticked s r) = t_magic r" "t_tid (ticked s r) = t_tid r"
  "t_state (ticked s r) = t_state r" "t_next (ticked s r) = t_next r"
  "t_quantum (ticked s r) = t_quantum r" "t_runningCount (ticked s r) = t_runningCount r + 1"
  "t_yield_in_progress (ticked s r) = t_yield_in_progress r"
  "t_sleep_in_progress (ticked s r) = t_sleep_in_progress r"
  by (simp_all add: ticked_def)

lemma task_switch_head:
  assumes ok: "switch_ok s" and t: "t = threadList s (current_thread s)"
  defines "s3 \<equiv> upd_thread t (ticked s) (set_current_process (t_owner_pid (tmem s t)) s)"
  shows "task_switch fuel s =
    (if t_runningCount (tmem s t) + 1 < t_quantum (tmem s t)
     then Some (kbind (ts_in_quantum t s3) (\<lambda>s'. Inr (Returned, s')))
     else (case tsOnFinishedExecuting t s3 of
             Inl e \<Rightarrow> Some (Inl e)
           | Inr (r, s4) \<Rightarrow>
             if r \<noteq> Returned then Some (Inr (r, s4))
             else (case zero_gravity fuel s4 of
               None \<Rightarrow> None
             | Some (Inl e) \<Rightarrow> Some (Inl e)
             | Some (Inr s5) \<Rightarrow> Some (kbind (ts_dispatch_current s5) (\<lambda>s'. Inr (Returned, s'))))))"
proof -
  note o = ok[unfolded switch_ok_def user_thread_def t[symmetric]]
  have g: "\<not> (current_thread s < 0 \<or> THREAD_COUNT_MAX \<le> current_thread s)" "t \<noteq> NULL"
    "t_used (tmem s t) = 1" "t_magic (tmem s t) = 1234"
    using slot_validD[of s "current_thread s"] o t by auto
  have p: "0 \<le> t_owner_pid (tmem s t)" "t_owner_pid (tmem s t) < PROCESS_COUNT_MAX"
    "processList s (t_owner_pid (tmem s t)) \<noteq> NULL"
    "p_used (pmem s (processList s (t_owner_pid (tmem s t)))) = 1"
    "p_magic (pmem s (processList s (t_owner_pid (tmem s t)))) = 1234"
    "p_pid (pmem s (processList s (t_owner_pid (tmem s t)))) = t_owner_pid (tmem s t)"
    using o by (simp_all add: process_ready_def pid_ok_def)
  let ?acc = "\<lambda>r. r\<lparr>t_step := t_step r + 1, t_total_time_ms := t_total_time_ms r + JIFFY_FREQ div sys_time_hz s,
      t_runningCount := t_runningCount r + 1,
      t_runningCount_ms := t_runningCount_ms r + JIFFY_FREQ div sys_time_hz s\<rparr>"
  let ?s1 = "upd_thread t ?acc (set_current_process (t_owner_pid (tmem s t)) s)"
  have acc: "ts_account t s = Inr ?s1"
    unfolding ts_account_def Let_def using p o by simp
  have same: "current_thread ?s1 = current_thread s" "threadList ?s1 = threadList s"
    "cpu_context ?s1 = cpu_context s" "task_switch_status ?s1 = task_switch_status s"
    "current_pid ?s1 = t_owner_pid (tmem s t)" "tmem ?s1 t = ?acc (tmem s t)"
    by (simp_all add: set_current_process_def)
  have "user_thread ?s1 (current_thread ?s1)"
    using o g t unfolding user_thread_def slot_valid_def thread_valid_def same t[symmetric] by simp
  then have save: "save_current_context ?s1 = Inr (upd_thread t (save_image (cpu_context s)) ?s1)"
    using save_current_context_user[of ?s1] o t same by simp
  have s3: "upd_thread t (\<lambda>r. r\<lparr>t_saved := TRUE\<rparr>) (upd_thread t (save_image (cpu_context s)) ?s1) = s3"
    by (simp add: s3_def upd_thread_compose o_def ticked_def[abs_def])
  have "task_switch_status ?s1 = UNLOCKED" "UNLOCKED \<noteq> LOCKED"
    using o same by (simp_all add: UNLOCKED_def LOCKED_def)
  moreover have "t_runningCount (tmem s3 t) = t_runningCount (tmem s t) + 1"
    "t_quantum (tmem s3 t) = t_quantum (tmem s t)"
    by (simp_all add: s3_def set_current_process_def)
  ultimately show ?thesis
    unfolding task_switch_def Let_def t[symmetric] using g acc save s3 by simp
qed

text \<open>
  A tick inside the quantum: the thread keeps the processor. The switch counts one tick, saves
  the registers and returns; the current thread, its RUNNING state and every other thread are as
  they were.
\<close>

lemma tick_inside_quantum:
  assumes "switch_ok s" and "t = threadList s (current_thread s)"
    and "t_runningCount (tmem s t) + 1 < t_quantum (tmem s t)"
    and "t_yield_in_progress (tmem s t) \<noteq> TRUE" and "t_sleep_in_progress (tmem s t) \<noteq> TRUE"
  shows "\<exists>s'. task_switch fuel s = Some (Inr (Returned, s'))
     \<and> current_thread s' = current_thread s \<and> currentq s' = currentq s
     \<and> cpu_context s' = cpu_context s
     \<and> tmem s' = (tmem s)(t := ticked s (tmem s t))"
proof -
  let ?s3 = "upd_thread t (ticked s) (set_current_process (t_owner_pid (tmem s t)) s)"
  have "counters_ok ?s3" using assms(1) by (simp add: switch_ok_def counters_ok_def set_current_process_def)
  then obtain d where d: "IncrementDispatcherCount SELECT_CURRENT_COUNT ?s3
      = Inr (?s3\<lparr>DispatchCountBlock := Some d\<rparr>)"
    using IncrementDispatcherCount_ok[of ?s3 SELECT_CURRENT_COUNT] by (auto simp: SELECT_CURRENT_COUNT_def)
  have "ts_in_quantum t ?s3 = Inr (?s3\<lparr>DispatchCountBlock := Some d\<rparr>)"
    unfolding ts_in_quantum_def Let_def using assms(4,5) d by (simp add: set_current_process_def)
  then have "task_switch fuel s = Some (Inr (Returned, ?s3\<lparr>DispatchCountBlock := Some d\<rparr>))"
    using task_switch_head[OF assms(1,2)] assms(3) by simp
  then show ?thesis
    by (intro exI[of _ "?s3\<lparr>DispatchCountBlock := Some d\<rparr>"]) (simp add: set_current_process_def fun_eq_iff)
qed

lemma tsOnFinishedExecuting_plain:
  assumes "t \<noteq> NULL" "t_magic (tmem s t) = 1234" "t_state (tmem s t) = RUNNING"
    "\<forall>i. tid_ok i \<longrightarrow> \<not> standby_at s i" "dead_thread_collector_status s \<noteq> TRUE"
  shows "tsOnFinishedExecuting t s
    = Inr (Returned, upd_thread t (\<lambda>r. r\<lparr>t_state := READY, t_readyCount := 0\<rparr>) s)"
proof -
  let ?s1 = "upd_thread t (\<lambda>r. r\<lparr>t_state := READY, t_readyCount := 0\<rparr>) s"
  have "\<not> standby_at ?s1 i" if "0 \<le> i" "i < THREAD_COUNT_MAX" for i
    using assms(4) that by (auto simp: standby_at_def tid_ok_def)
  then have "find (standby_at ?s1) (slots 0 THREAD_COUNT_MAX) = None"
    by (simp add: find_slots_None)
  then show ?thesis using assms by (simp add: tsOnFinishedExecuting_def schedi_check_for_standby_def Let_def)
qed


section \<open>Witnesses\<close>

text \<open>
  The two threads of the demonstration state as user threads of process 100, tid 0 current with its
  quantum used up and tid 100 next in the round; \<open>x\<close> and \<open>y\<close> are their states.
\<close>

definition demo_user :: "thread_state \<Rightarrow> thread_state \<Rightarrow> ptr \<Rightarrow> thread_d" where
  "demo_user x y p = (demo_thread p)\<lparr>t_cpl := 3, t_owner_pid := 100, t_owner_process := 7,
     t_pml4_PA := 0x2000, t_state := (if p = 1 then x else y), t_wake_jiffy := 1000,
     t_runningCount := 9, t_next := (if p = 1 then 101 else NULL), t_saved := FALSE,
     t_context := zero_context\<lparr>c_rip := 0x201000, c_rsp := 0x2FFFF0\<rparr>\<rparr>"

definition demo_switch :: "thread_state \<Rightarrow> thread_state \<Rightarrow> kstate" where
  "demo_switch x y = demo_sched\<lparr>current_thread := 0, currentq := 1, tmem := demo_user x y,
     processList := (\<lambda>i. if i = 100 then 7 else NULL),
     pmem := (\<lambda>_. zero_process\<lparr>p_used := TRUE, p_magic := 1234, p_pid := 100, p_pml4_PA := 0x2000\<rparr>),
     sys_time_hz := 1000, task_switch_status := UNLOCKED, g_scheduler_status := UNLOCKED,
     DispatchCountBlock := Some \<lparr>d_used = TRUE, d_magic = 1234, d_initialized = TRUE, SelectIdleCount = 0,
       SelectInitializedCount = 0, SelectNextCount = 0, SelectCurrentCount = 0, SelectAnyCount = 0,
       SelectIdealCount = 0, SelectDispatcherQueueCount = 0\<rparr>,
     cpu_context := zero_globals\<lparr>contextCPL := 3, contextRAX := 7\<rparr>, spawn_eoi_is_necessary := TRUE\<rparr>"

lemma demo_user_simps [simp]:
  "t_used (demo_user x y p) = TRUE" "t_magic (demo_user x y p) = 1234" "t_tid (demo_user x y p) = int p - 1"
  "t_cpl (demo_user x y p) = 3" "t_owner_pid (demo_user x y p) = 100" "t_owner_process (demo_user x y p) = 7"
  "t_state (demo_user x y p) = (if p = 1 then x else y)" "t_runningCount (demo_user x y p) = 9"
  "t_quantum (demo_user x y p) = 9" "t_next (demo_user x y p) = (if p = 1 then 101 else NULL)"
  "t_saved (demo_user x y p) = FALSE" "t_wake_jiffy (demo_user x y p) = 1000"
  "t_exit_in_progress (demo_user x y p) = FALSE" "t_yield_in_progress (demo_user x y p) = FALSE"
  "t_sleep_in_progress (demo_user x y p) = FALSE"
  "t_context (demo_user x y p) = zero_context\<lparr>c_rip := 0x201000, c_rsp := 0x2FFFF0\<rparr>"
  by (simp_all add: demo_user_def) (simp_all add: demo_thread_def zero_thread_def)

lemma demo_switch_simps [simp]:
  "threadList (demo_switch x y) tid = (if tid = 0 \<or> tid = 100 then nat tid + 1 else 0)"
  "tmem (demo_switch x y) = demo_user x y" "current_thread (demo_switch x y) = 0"
  "currentq (demo_switch x y) = 1" "UP_IdleThread (demo_switch x y) = 1" "InitThread (demo_switch x y) = 1"
  "system_state (demo_switch x y) = SYSTEM_RUNNING" "UP_threads_counter (demo_switch x y) = 2"
  "sched_initialized (demo_switch x y) = TRUE" "sched_policy (demo_switch x y) = SCHED_POLICY_RR"
  "jiffies (demo_switch x y) = 500" "task_switch_status (demo_switch x y) = UNLOCKED"
  "g_scheduler_status (demo_switch x y) = UNLOCKED" "sys_time_hz (demo_switch x y) = 1000"
  "spawn_eoi_is_necessary (demo_switch x y) = TRUE" "timeout_thread (demo_switch x y) = NULL"
  "dead_thread_collector_status (demo_switch x y) = FALSE"
  "cpu_context (demo_switch x y) = zero_globals\<lparr>contextCPL := 3, contextRAX := 7\<rparr>"
  by (simp_all add: demo_switch_def) (simp_all add: demo_sched_def demo_def bss_state_def)

lemma demo_switch_valid [simp]: "slot_valid (demo_switch x y) tid \<longleftrightarrow> tid = 0 \<or> tid = 100"
  by (auto simp: slot_defs THREAD_COUNT_MAX_def)

lemma demo_switch_user [simp]: "user_thread (demo_switch x y) tid \<longleftrightarrow> tid = 0 \<or> tid = 100"
  by (auto simp: user_thread_def)

lemma demo_switch_ok:
  "threads_wf (demo_switch x y)" "process_ready (demo_switch x y) 100" "counters_ok (demo_switch x y)"
  "switch_ok (demo_switch x y)" "sched_ok (demo_switch x y)" "idle_asleep (demo_switch x y)"
proof -
  show wf: "threads_wf (demo_switch x y)" by (auto simp: threads_wf_def)
  show p: "process_ready (demo_switch x y) 100"
    by (simp add: process_ready_def pid_ok_def PROCESS_COUNT_MAX_def demo_switch_def)
  show c: "counters_ok (demo_switch x y)" by (simp add: counters_ok_def demo_switch_def)
  show "switch_ok (demo_switch x y)" using p c by (simp add: switch_ok_def)
  show "sched_ok (demo_switch x y)" using wf
    by (auto simp: sched_ok_def table_clean_def)
  show "idle_asleep (demo_switch x y)" by (simp add: idle_asleep_def)
qed

theorem registers_are_private_witness:
  "\<exists>s1 s2 s3. save_current_context ((demo_switch READY READY)\<lparr>current_thread := 0\<rparr>) = Inr s1
     \<and> save_current_context (s1\<lparr>current_thread := 100, cpu_context := zero_globals\<lparr>contextCPL := 3\<rparr>\<rparr>) = Inr s2
     \<and> restore_current_context (s2\<lparr>current_thread := 0\<rparr>) = Inr s3
     \<and> fst (user_view (cpu_context s3)) ! 3 = 7"
proof -
  have "fst (user_view (cpu_context (demo_switch READY READY))) ! 3 = 7"
    by (simp add: user_view_def)
  then show ?thesis
    using registers_are_private[OF demo_switch_ok(1), of READY READY 0 100 "zero_globals\<lparr>contextCPL := 3\<rparr>"]
    by fastforce
qed

lemma dispatch_runs_thread_example:
  "\<exists>s'. ts_dispatch_current (demo_switch READY READY) = Inr s' \<and> t_state (tmem s' 1) = RUNNING"
  using dispatch_runs_thread[of 1 "demo_switch READY READY"] demo_switch_ok by auto

definition demo_run :: "kstate \<Rightarrow> kstate" where
  "demo_run s = upd_thread (currentq s) (\<lambda>r. r\<lparr>t_state := RUNNING\<rparr>) s"

lemma demo_run_quiet: "quiet demo_run"
  by (simp add: quiet_def demo_run_def)


theorem lone_idle_thread_hangs_witness:
  "zero_gravity 1000 ((demo_switch RUNNING READY)\<lparr>UP_threads_counter := 1\<rparr>) = None"
  by (rule lone_idle_thread_hangs) simp_all

theorem spawn_enters_user_mode_witness:
  "\<exists>s'. psSpawnThreadByTID 100 (demo_switch READY STANDBY) = Inr (EnteredUser 0x201000 0x2FFFF0, s')
     \<and> current_thread s' = 100"
  using spawn_enters_user_mode[OF demo_switch_ok(1), of READY STANDBY 100 101] demo_switch_ok(3)
  by (auto simp: pid_ok_def PROCESS_COUNT_MAX_def)

lemma tick_inside_quantum_example:
  "\<exists>s'. task_switch 0 (upd_thread 1 (\<lambda>r. r\<lparr>t_runningCount := 0\<rparr>) (demo_switch RUNNING READY))
      = Some (Inr (Returned, s')) \<and> current_thread s' = 0"
proof -
  let ?s = "upd_thread 1 (\<lambda>r. r\<lparr>t_runningCount := 0\<rparr>) (demo_switch RUNNING READY)"
  have "switch_ok ?s" using demo_switch_ok(4)[of RUNNING READY]
    by (simp add: switch_ok_def user_thread_def process_ready_def counters_ok_def slot_defs)
  then show ?thesis using tick_inside_quantum[of ?s 1 0] by auto
qed


end
