(* ===== verification/KHeap.thy ===== *)
theory KHeap
  imports KSwitch
begin

text \<open>
  The kernel heap: mm.c and the allocation functions of kstdlib.c. The heap is a bump allocator: a
  block is a 72 byte header and the user area behind it, the heap pointer only grows, and freeing
  a block only marks its header. The allocator's own functions work on \<open>heap_state\<close>, kmalloc() on
  the kernel state.
\<close>

section \<open>The allocator (mm.c)\<close>

definition KERNEL_HEAP_START :: u64 where "KERNEL_HEAP_START = 0x30100000"
definition KERNEL_HEAP_END :: u64 where "KERNEL_HEAP_END = 0x301D0000"
definition KERNEL_STACK_END :: u64 where "KERNEL_STACK_END = 0x301E0000"
definition KERNEL_STACK_START :: u64 where "KERNEL_STACK_START = 0x301FFFF0"
definition HEAP_COUNT_MAX :: int where "HEAP_COUNT_MAX = 8"
definition MMBLOCK_COUNT_MAX :: int where "MMBLOCK_COUNT_MAX = 2 * 4096"

lemmas heap_consts = KERNEL_HEAP_START_def KERNEL_HEAP_END_def MMBLOCK_COUNT_MAX_def

text \<open>sizeof(struct mmblock_d): five longs, six ints and a pointer.\<close>

definition mmblock_size :: u64 where "mmblock_size = 5 * 8 + 6 * 4 + 8"

definition init_heap :: "heap_state \<Rightarrow> int \<times> heap_state" where
  "init_heap h =
    (let
      h1 = h\<lparr>KernelHeap_initialized := FALSE, kernel_heap_start := KERNEL_HEAP_START,
             kernel_heap_end := KERNEL_HEAP_END, KernelHeap_start := KERNEL_HEAP_START,
             KernelHeap_end := KERNEL_HEAP_END, g_heap_pointer := KERNEL_HEAP_START,
             g_available_heap := KERNEL_HEAP_END - KERNEL_HEAP_START, heapCount := 0\<rparr>;
      fail = (-1, h1\<lparr>KernelHeap_initialized := FALSE\<rparr>)
     in if g_heap_pointer h1 = 0 then fail
     else if g_heap_pointer h1 > kernel_heap_end h1 then fail
     else if kernel_heap_start h1 = 0 then fail
     else if kernel_heap_end h1 = 0 then fail
     else if g_available_heap h1 = 0 then fail
     else (0, (fold (\<lambda>i h. h\<lparr>heapList := (heapList h)(i := 0)\<rparr>) (slots 0 HEAP_COUNT_MAX) h1)
                \<lparr>KernelHeap_initialized := TRUE\<rparr>))"

definition init_stack :: "heap_state \<Rightarrow> int \<times> heap_state" where
  "init_stack h =
    (let h1 = h\<lparr>KernelStack_initialized := FALSE, kernel_stack_end := KERNEL_STACK_END,
                kernel_stack_start := KERNEL_STACK_START, KernelStack_end := KERNEL_STACK_END,
                KernelStack_start := KERNEL_STACK_START\<rparr>
     in if kernel_stack_end h1 = 0 \<or> kernel_stack_start h1 = 0
        then (-1, h1\<lparr>KernelStack_initialized := FALSE\<rparr>)
        else (0, h1\<lparr>KernelStack_initialized := TRUE\<rparr>))"

text \<open>Lines 317 to 352 of mmInitialize(): what phase 0 does to the heap and the block list.\<close>

definition mm_phase0 :: "heap_state \<Rightarrow> int \<times> heap_state" where
  "mm_phase0 h =
    (let (Status, h1) = init_heap h in
     if Status \<noteq> 0 then (FALSE, h1)
     else let (Status, h2) = init_stack h1 in
     if Status \<noteq> 0 then (FALSE, h2)
     else (TRUE, (fold (\<lambda>i h. h\<lparr>mmblockList := (mmblockList h)(i := 0)\<rparr>) (slots 0 MMBLOCK_COUNT_MAX) h2)
                   \<lparr>mmblockCount := 0\<rparr>))"

text \<open>The header heapAllocateMemory() writes, lines 540 to 595.\<close>

definition block_header :: "u64 \<Rightarrow> u64 \<Rightarrow> int \<Rightarrow> mmblock_d \<Rightarrow> mmblock_d" where
  "block_header base bytes n b = b\<lparr>b_Header := base, b_headerSize := mmblock_size,
     b_userArea := base + mmblock_size, b_userareaSize := bytes,
     b_Footer := base + mmblock_size + bytes, b_Id := n, b_Free := FALSE, b_Used := TRUE,
     b_Magic := 1234\<rparr>"

definition heapAllocateMemory :: "u64 \<Rightarrow> heap_state \<Rightarrow> kfault + (u64 \<times> heap_state)" where
  "heapAllocateMemory sz h =
    (let UserAreaInBytes = (if sz = 0 then 8 else sz) in
     if g_available_heap h = 0 then Inr (0, h)
     else if UserAreaInBytes \<ge> g_available_heap h then Inr (0, h)
     else let h1 = h\<lparr>mmblockCount := mmblockCount h + 1\<rparr> in
     if mmblockCount h1 \<ge> MMBLOCK_COUNT_MAX then Inl (KPanic ''heapAllocateMemory: mmblockCount'')
     else if g_heap_pointer h1 < KERNEL_HEAP_START \<or> g_heap_pointer h1 \<ge> KERNEL_HEAP_END
     then Inl (KPanic ''heapAllocateMemory: Out of kernel heap'')
     else let Current = g_heap_pointer h1 in
     if Current = 0 then Inr (0, h1)
     else let
       b = block_header Current UserAreaInBytes (mmblockCount h1) (blocks h1 Current);
       Total = b_Footer b - b_Header b
     in Inr (b_userArea b, h1\<lparr>blocks := (blocks h1)(Current := b),
          g_available_heap := g_available_heap h1 - Total, mm_prev_pointer := g_heap_pointer h1,
          g_heap_pointer := b_Footer b, mmblockList := (mmblockList h1)(mmblockCount h1 := Current)\<rparr>))"

definition heapFreeMemory :: "u64 \<Rightarrow> heap_state \<Rightarrow> heap_state" where
  "heapFreeMemory p h =
    (if p = 0 then h
     else if p < KERNEL_HEAP_START \<or> p \<ge> KERNEL_HEAP_END then h
     else let header = p - mmblock_size in
     if header = 0 then h
     else if b_Used (blocks h header) \<noteq> TRUE \<or> b_Magic (blocks h header) \<noteq> 1234 then h
     else h\<lparr>blocks := (blocks h)(header := (blocks h header)\<lparr>b_Used := TRUE, b_Magic := 4321\<rparr>)\<rparr>)"

definition get_process_heap_pointer :: "int \<Rightarrow> kstate \<Rightarrow> u64" where
  "get_process_heap_pointer pid s =
    (if pid < 0 \<or> pid \<ge> PROCESS_COUNT_MAX then 0
     else let p = processList s pid in
     if p = NULL then 0
     else if p_used (pmem s p) \<noteq> TRUE \<or> p_magic (pmem s p) \<noteq> 1234 then 0
     else let heapLimit = p_HeapStart (pmem s p) + p_HeapSize (pmem s p) in
     if p_HeapPointer (pmem s p) < p_HeapStart (pmem s p) \<or> p_HeapPointer (pmem s p) \<ge> heapLimit then 0
     else p_HeapPointer (pmem s p))"

section \<open>kmalloc and kfree (kstdlib.c)\<close>

text \<open>
  A size_t of the kernel is a signed 32 bit integer; the product in kcalloc() wraps at its width.
\<close>

definition memset_heap :: "u64 \<Rightarrow> u8 \<Rightarrow> int \<Rightarrow> heap_state \<Rightarrow> heap_state" where
  "memset_heap p v n h =
    h\<lparr>hmem := (\<lambda>a. if unat p \<le> unat a \<and> int (unat a) < int (unat p) + n then v else hmem h a)\<rparr>"

definition kmalloc_impl :: "int \<Rightarrow> int \<Rightarrow> heap_state \<Rightarrow> kfault + (u64 \<times> heap_state)" where
  "kmalloc_impl sz clean h =
    (let ul_size = word_of_int (sz AND 0xFFFFFFFF) in
     kbind (heapAllocateMemory ul_size h) (\<lambda>(p, h1).
       if clean = TRUE then (if p \<noteq> 0 then Inr (p, memset_heap p 0 sz h1) else Inr (p, h1))
       else Inr (p, h1)))"

definition kmalloc :: "int \<Rightarrow> kstate \<Rightarrow> u64 kresult" where
  "kmalloc sz s =
    kbind (get_current_process_pointer s) (\<lambda>process.
      if process = NULL then Inl (NullDeref ''process->magic'')
      else let Increment = (if p_magic (pmem s process) \<noteq> 1234 then FALSE else TRUE) in
      if sz < 0 then Inr (0, s)
      else let lsize = (if sz = 0 then 1 else sz) in
      kbind (kmalloc_impl lsize FALSE (heap s)) (\<lambda>(p, h1).
        let s1 = s\<lparr>heap := h1\<rparr> in
        if p = 0 then Inr (0, s1)
        else if Increment = TRUE \<and> process \<noteq> NULL \<and> p_magic (pmem s1 process) = 1234
        then Inr (p, upd_process process
               (\<lambda>r. r\<lparr>p_allocated_memory := p_allocated_memory r + word_of_int lsize\<rparr>) s1)
        else Inr (p, s1)))"

definition kfree :: "u64 \<Rightarrow> kstate \<Rightarrow> kstate" where
  "kfree p s = (if p = 0 then s else s\<lparr>heap := heapFreeMemory p (heap s)\<rparr>)"

definition kcalloc :: "int \<Rightarrow> int \<Rightarrow> kstate \<Rightarrow> u64 kresult" where
  "kcalloc count sz s =
    (let new_size = signed_take_bit 31 (count * sz);
         new_size = (if count \<le> 0 then 1 * sz else new_size)
     in kbind (kmalloc_impl new_size TRUE (heap s)) (\<lambda>(p, h1). Inr (p, s\<lparr>heap := h1\<rparr>)))"

section \<open>What an allocator promises\<close>

text \<open>
  The contract between an allocator and its clients. \<open>areas\<close> are the intervals handed out so far, in
  the order of the calls; a request that fits the budget succeeds, appends its own area, and areas
  never overlap.
\<close>

fun alloc_all :: "(u64 \<Rightarrow> 's \<Rightarrow> 'e + (u64 \<times> 's)) \<Rightarrow> u64 list \<Rightarrow> 's \<Rightarrow> 'e + (u64 list \<times> 's)" where
  "alloc_all f [] s = Inr ([], s)"
| "alloc_all f (n # ns) s =
    kbind (f n s) (\<lambda>(a, s1). kbind (alloc_all f ns s1) (\<lambda>(as, s2). Inr (a # as, s2)))"

definition area :: "u64 \<Rightarrow> u64 \<Rightarrow> nat \<times> nat" where
  "area a n = (unat a, unat a + unat n)"

locale allocator =
  fixes alloc :: "u64 \<Rightarrow> 's \<Rightarrow> 'e + (u64 \<times> 's)"
    and valid :: "'s \<Rightarrow> bool" and areas :: "'s \<Rightarrow> (nat \<times> nat) list"
    and budget :: "'s \<Rightarrow> nat" and cost :: "u64 \<Rightarrow> nat" and left :: "'s \<Rightarrow> nat"
    and lo :: nat and hi :: nat
  assumes progress: "\<lbrakk>valid s; n \<noteq> 0; cost n \<le> budget s; 0 < left s\<rbrakk> \<Longrightarrow>
      \<exists>a s'. alloc n s = Inr (a, s') \<and> valid s' \<and> areas s' = areas s @ [area a n]
        \<and> budget s' + cost n = budget s \<and> left s' + 1 = left s"
    and ordered: "\<lbrakk>valid s; i < j; j < length (areas s)\<rbrakk> \<Longrightarrow> snd (areas s ! i) \<le> fst (areas s ! j)"
    and inside: "\<lbrakk>valid s; x \<in> set (areas s)\<rbrakk> \<Longrightarrow> lo \<le> fst x \<and> fst x \<le> snd x \<and> snd x \<le> hi"
begin

lemma alloc_all_succeeds:
  assumes "valid s" "\<forall>n\<in>set ns. n \<noteq> 0" "sum_list (map cost ns) \<le> budget s" "length ns \<le> left s"
  shows "\<exists>as s'. alloc_all alloc ns s = Inr (as, s') \<and> valid s' \<and> length as = length ns
     \<and> areas s' = areas s @ map2 area as ns \<and> budget s' + sum_list (map cost ns) = budget s"
  using assms
proof (induction ns arbitrary: s)
  case (Cons n ns)
  then obtain a s1 where s1: "alloc n s = Inr (a, s1)" "valid s1" "areas s1 = areas s @ [area a n]"
      "budget s1 + cost n = budget s" "left s1 + 1 = left s"
    using progress[of s n] by auto
  have "sum_list (map cost ns) \<le> budget s1" "length ns \<le> left s1" using Cons.prems s1 by simp_all
  then obtain as s2 where "alloc_all alloc ns s1 = Inr (as, s2)" "valid s2" "length as = length ns"
      "areas s2 = areas s1 @ map2 area as ns" "budget s2 + sum_list (map cost ns) = budget s1"
    using Cons.IH[OF s1(2)] Cons.prems(2) by auto
  then show ?case using s1 by (intro exI[of _ "a # as"] exI[of _ s2]) simp
qed simp

lemma areas_disjoint:
  assumes "valid s" "i < length (areas s)" "j < length (areas s)" "i \<noteq> j"
  shows "{fst (areas s ! i)..<snd (areas s ! i)} \<inter> {fst (areas s ! j)..<snd (areas s ! j)} = {}"
  using ordered[OF assms(1), of i j] ordered[OF assms(1), of j i] assms by (cases "i < j") auto

end

section \<open>The heap's blocks\<close>

definition block :: "heap_state \<Rightarrow> int \<Rightarrow> mmblock_d" where
  "block h i = blocks h (mmblockList h i)"

text \<open>
  The well-formed heap: the pointer is inside the heap, the counter of available bytes is what is
  left behind it, block \<open>i\<close> of the list describes itself, and each block ends where the next begins
  or before.
\<close>

definition block_wf :: "heap_state \<Rightarrow> int \<Rightarrow> bool" where
  "block_wf h i \<longleftrightarrow> b_Header (block h i) = mmblockList h i
     \<and> unat KERNEL_HEAP_START \<le> unat (mmblockList h i)
     \<and> unat (b_userArea (block h i)) = unat (mmblockList h i) + 72
     \<and> unat (b_Footer (block h i)) = unat (b_userArea (block h i)) + unat (b_userareaSize (block h i))
     \<and> unat (b_Footer (block h i)) \<le> unat (g_heap_pointer h)"

definition heap_wf :: "heap_state \<Rightarrow> bool" where
  "heap_wf h \<longleftrightarrow> 0 \<le> mmblockCount h \<and> mmblockCount h < MMBLOCK_COUNT_MAX
     \<and> unat KERNEL_HEAP_START \<le> unat (g_heap_pointer h)
     \<and> unat (g_available_heap h) + unat (g_heap_pointer h) = unat KERNEL_HEAP_END
     \<and> (\<forall>i. 1 \<le> i \<and> i \<le> mmblockCount h \<longrightarrow> block_wf h i)
     \<and> (\<forall>i j. 1 \<le> i \<and> i < j \<and> j \<le> mmblockCount h
           \<longrightarrow> unat (b_Footer (block h i)) \<le> unat (mmblockList h j))"

definition heap_areas :: "heap_state \<Rightarrow> (nat \<times> nat) list" where
  "heap_areas h = map (\<lambda>i. area (b_userArea (block h i)) (b_userareaSize (block h i)))
     (slots 1 (mmblockCount h + 1))"

definition heap_cost :: "u64 \<Rightarrow> nat" where
  "heap_cost n = unat n + 72"

lemma unat_plus_small: "unat (x :: u64) + unat y < 2 ^ 64 \<Longrightarrow> unat (x + y) = unat x + unat y"
  by (simp add: unat_add_lem[where 'a = 64, THEN iffD1])

lemma heap_bounds:
  assumes "heap_wf h"
  shows "unat (g_heap_pointer h) \<le> 0x301D0000" "0x30100000 \<le> unat (g_heap_pointer h)"
    "unat (g_available_heap h) \<le> 0xD0000"
  using assms by (simp_all add: heap_wf_def heap_consts)

lemma heapAllocateMemory_fits:
  assumes wf: "heap_wf h" and n: "n \<noteq> 0" "unat n + 72 \<le> unat (g_available_heap h)"
    and count: "mmblockCount h + 1 < MMBLOCK_COUNT_MAX"
  defines "p \<equiv> g_heap_pointer h" and "k \<equiv> mmblockCount h + 1"
  shows "heapAllocateMemory n h = Inr (p + 72, h\<lparr>mmblockCount := k,
      blocks := (blocks h)(p := block_header p n k (blocks h p)),
      g_available_heap := g_available_heap h - (72 + n), mm_prev_pointer := p,
      g_heap_pointer := p + 72 + n, mmblockList := (mmblockList h)(k := p)\<rparr>)"
    and "unat (p + 72) = unat p + 72" "unat (p + 72 + n) = unat p + 72 + unat n"
    and "unat (g_available_heap h - (72 + n)) = unat (g_available_heap h) - (72 + unat n)"
proof -
  note b = heap_bounds[OF wf] and w = wf[unfolded heap_wf_def]
  have small: "unat p + 72 + unat n \<le> 0x301D0000"
    using w n(2) unfolding p_def heap_consts by simp
  show u1: "unat (p + 72) = unat p + 72" using small by (subst unat_plus_small) simp_all
  show u2: "unat (p + 72 + n) = unat p + 72 + unat n"
    using small u1 by (subst unat_plus_small) simp_all
  have u3: "unat (72 + n) = 72 + unat n" using small by (subst unat_plus_small) simp_all
  have le: "72 + n \<le> g_available_heap h" unfolding word_le_nat_alt u3 using n(2) by simp
  show "unat (g_available_heap h - (72 + n)) = unat (g_available_heap h) - (72 + unat n)"
    using unat_sub[OF le] u3 by simp
  have "\<not> g_available_heap h \<le> n" unfolding word_le_nat_alt using n(2) by simp
  moreover have "g_available_heap h \<noteq> 0" using n(2) by auto
  moreover have "\<not> p < KERNEL_HEAP_START" "\<not> KERNEL_HEAP_END \<le> p" "p \<noteq> 0"
    using small b(2) by (auto simp: word_less_nat_alt word_le_nat_alt heap_consts p_def)
  ultimately show "heapAllocateMemory n h = Inr (p + 72, h\<lparr>mmblockCount := k,
      blocks := (blocks h)(p := block_header p n k (blocks h p)),
      g_available_heap := g_available_heap h - (72 + n), mm_prev_pointer := p,
      g_heap_pointer := p + 72 + n, mmblockList := (mmblockList h)(k := p)\<rparr>)"
    using n(1) count unfolding heapAllocateMemory_def Let_def p_def k_def
    by (simp add: block_header_def mmblock_size_def)
qed

text \<open>The lists before the new block are as they were, and the new block is the last.\<close>

lemma heap_step:
  assumes wf: "heap_wf h" and n: "n \<noteq> 0" "unat n + 72 \<le> unat (g_available_heap h)"
    and count: "mmblockCount h + 1 < MMBLOCK_COUNT_MAX"
  shows "\<exists>h'. heapAllocateMemory n h = Inr (g_heap_pointer h + 72, h') \<and> heap_wf h'
     \<and> heap_areas h' = heap_areas h @ [area (g_heap_pointer h + 72) n]
     \<and> unat (g_available_heap h') + (unat n + 72) = unat (g_available_heap h)
     \<and> mmblockCount h' = mmblockCount h + 1"
proof -
  let ?p = "g_heap_pointer h" and ?k = "mmblockCount h + 1"
  let ?h' = "h\<lparr>mmblockCount := ?k, blocks := (blocks h)(?p := block_header ?p n ?k (blocks h ?p)),
      g_available_heap := g_available_heap h - (72 + n), mm_prev_pointer := ?p,
      g_heap_pointer := ?p + 72 + n, mmblockList := (mmblockList h)(?k := ?p)\<rparr>"
  note f = heapAllocateMemory_fits[OF wf n count] and w = wf[unfolded heap_wf_def]
  have old: "block ?h' i = block h i" "mmblockList ?h' i = mmblockList h i"
    if i: "1 \<le> i" "i \<le> mmblockCount h" for i
  proof -
    have "block_wf h i" using w i by blast
    then have "unat (mmblockList h i) < unat ?p" unfolding block_wf_def by linarith
    then have "mmblockList h i \<noteq> ?p" by auto
    then show "block ?h' i = block h i" "mmblockList ?h' i = mmblockList h i"
      using i by (simp_all add: block_def)
  qed
  have new: "block ?h' ?k = block_header ?p n ?k (blocks h ?p)" "mmblockList ?h' ?k = ?p"
    by (simp_all add: block_def)
  have wf_new: "block_wf ?h' ?k"
    using f(2,3) w unfolding block_wf_def new
    by (simp add: block_header_def mmblock_size_def)
  have wf_old: "block_wf ?h' i" if i: "1 \<le> i" "i \<le> mmblockCount h" for i
  proof -
    have "block_wf h i" using w i by blast
    then show ?thesis using f(3) unfolding block_wf_def old[OF i] by simp
  qed
  have order: "unat (b_Footer (block ?h' i)) \<le> unat (mmblockList ?h' j)"
    if ij: "1 \<le> i" "i < j" "j \<le> ?k" for i j
  proof (cases "j = ?k")
    case True
    have i: "1 \<le> i" "i \<le> mmblockCount h" using ij True by simp_all
    have "block_wf h i" using w i by blast
    then show ?thesis unfolding True new(2) old(1)[OF i] by (simp add: block_wf_def)
  next
    case False
    then have "i \<le> mmblockCount h" "j \<le> mmblockCount h" "1 \<le> j" using ij by simp_all
    then show ?thesis using w ij(1,2) old(1)[of i] old(2)[of j] by simp
  qed
  have all: "block_wf ?h' i" if "1 \<le> i" "i \<le> ?k" for i
    using wf_new wf_old[of i] that by (cases "i = ?k") auto
  have "heap_wf ?h'"
    unfolding heap_wf_def
  proof (intro conjI allI impI)
    show "unat (g_available_heap ?h') + unat (g_heap_pointer ?h') = unat KERNEL_HEAP_END"
      using f(3,4) n(2) w by simp
    show "block_wf ?h' i" if "1 \<le> i \<and> i \<le> mmblockCount ?h'" for i using all that by simp
    show "unat (b_Footer (block ?h' i)) \<le> unat (mmblockList ?h' j)"
      if "1 \<le> i \<and> i < j \<and> j \<le> mmblockCount ?h'" for i j using order that by simp
  qed (use w f(3) count in simp_all)
  moreover have "heap_areas ?h' = heap_areas h @ [area (?p + 72) n]"
  proof -
    have sl: "slots 1 (?k + 1) = slots 1 ?k @ [?k]" using w by (intro slots_snoc) simp
    have mc: "mmblockCount ?h' = ?k" by simp
    have last: "b_userArea (block ?h' ?k) = ?p + 72" "b_userareaSize (block ?h' ?k) = n"
      unfolding new by (simp_all add: block_header_def mmblock_size_def)
    have same: "map (\<lambda>i. area (b_userArea (block ?h' i)) (b_userareaSize (block ?h' i))) (slots 1 ?k)
        = map (\<lambda>i. area (b_userArea (block h i)) (b_userareaSize (block h i))) (slots 1 ?k)"
      using old(1) by (intro map_cong) auto
    show ?thesis
      unfolding heap_areas_def mc sl map_append same list.map last by (rule refl)
  qed
  moreover have "unat (g_available_heap ?h') + (unat n + 72) = unat (g_available_heap h)"
    using f(4) n(2) by simp
  ultimately show ?thesis using f(1) by (intro exI[of _ ?h']) simp
qed

interpretation kheap: allocator heapAllocateMemory heap_wf heap_areas
    "\<lambda>h. unat (g_available_heap h)" heap_cost "\<lambda>h. nat (MMBLOCK_COUNT_MAX - 1 - mmblockCount h)"
    "unat KERNEL_HEAP_START" "unat KERNEL_HEAP_END"
proof unfold_locales
  fix h :: heap_state and n :: u64
  assume a: "heap_wf h" "n \<noteq> 0" "heap_cost n \<le> unat (g_available_heap h)"
    "0 < nat (MMBLOCK_COUNT_MAX - 1 - mmblockCount h)"
  have n: "unat n + 72 \<le> unat (g_available_heap h)" "mmblockCount h + 1 < MMBLOCK_COUNT_MAX"
    using a(3,4) by (simp_all add: heap_cost_def)
  show "\<exists>p h'. heapAllocateMemory n h = Inr (p, h') \<and> heap_wf h' \<and> heap_areas h' = heap_areas h @ [area p n]
      \<and> unat (g_available_heap h') + heap_cost n = unat (g_available_heap h)
      \<and> nat (MMBLOCK_COUNT_MAX - 1 - mmblockCount h') + 1 = nat (MMBLOCK_COUNT_MAX - 1 - mmblockCount h)"
    using heap_step[OF a(1,2) n] n(2) by (auto simp: heap_cost_def)
next
  fix h :: heap_state and i j :: nat
  assume a: "heap_wf h" "i < j" "j < length (heap_areas h)"
  have w: "0 \<le> mmblockCount h" using a(1) by (simp add: heap_wf_def)
  have len: "length (heap_areas h) = nat (mmblockCount h)" using w by (simp add: heap_areas_def slots_def)
  have at: "heap_areas h ! m = area (b_userArea (block h (1 + int m))) (b_userareaSize (block h (1 + int m)))"
    if "m < length (heap_areas h)" for m
    using that by (simp add: heap_areas_def slots_def)
  have j: "1 + int j \<le> mmblockCount h" using a(3) len by linarith
  have b: "block_wf h (1 + int i)" "block_wf h (1 + int j)"
    and o: "unat (b_Footer (block h (1 + int i))) \<le> unat (mmblockList h (1 + int j))"
    using a(1,2) j by (auto simp: heap_wf_def)
  show "snd (heap_areas h ! i) \<le> fst (heap_areas h ! j)"
    using a(2,3) b o by (simp add: at area_def block_wf_def)
next
  fix h :: heap_state and x
  assume a: "heap_wf h" "x \<in> set (heap_areas h)"
  then obtain i where "x = area (b_userArea (block h i)) (b_userareaSize (block h i))" "block_wf h i"
    by (auto simp: heap_areas_def heap_wf_def)
  moreover have "unat (g_heap_pointer h) \<le> unat KERNEL_HEAP_END" using a(1) by (simp add: heap_wf_def)
  ultimately show "unat KERNEL_HEAP_START \<le> fst x \<and> fst x \<le> snd x \<and> snd x \<le> unat KERNEL_HEAP_END"
    by (simp add: area_def block_wf_def)
qed

text \<open>Phase 0 of the memory manager establishes the well-formed heap, empty and with 0xD0000 bytes.\<close>

lemma fold_keeps: "(\<And>i h. f (g i h) = f h) \<Longrightarrow> f (fold g is h) = f h"
  by (induction "is" arbitrary: h) simp_all

lemma mm_phase0_result:
  "fst (mm_phase0 h) = TRUE \<and> heap_wf (snd (mm_phase0 h)) \<and> heap_areas (snd (mm_phase0 h)) = []
   \<and> unat (g_available_heap (snd (mm_phase0 h))) = 0xD0000 \<and> mmblockCount (snd (mm_phase0 h)) = 0"
proof -
  have 1: "g_heap_pointer (fold (\<lambda>i h. h\<lparr>heapList := (heapList h)(i := 0)\<rparr>) is h) = g_heap_pointer h"
    "g_available_heap (fold (\<lambda>i h. h\<lparr>heapList := (heapList h)(i := 0)\<rparr>) is h) = g_available_heap h" for "is" h
    by (rule fold_keeps, simp)+
  have 2: "g_heap_pointer (fold (\<lambda>i h. h\<lparr>mmblockList := (mmblockList h)(i := 0)\<rparr>) is h) = g_heap_pointer h"
    "g_available_heap (fold (\<lambda>i h. h\<lparr>mmblockList := (mmblockList h)(i := 0)\<rparr>) is h) = g_available_heap h" for "is" h
    by (rule fold_keeps, simp)+
  show ?thesis
    unfolding mm_phase0_def init_heap_def init_stack_def Let_def
    by (auto simp: 1 2 heap_wf_def heap_areas_def heap_consts KERNEL_STACK_START_def KERNEL_STACK_END_def slots_empty)
qed

section \<open>Properties\<close>


text \<open>
  The header is not counted: the size test compares the user area alone with what is available,
  so a request that leaves less than 72 bytes succeeds with an area that runs past the end of the
  heap; the available count wraps to more than the heap ever had, and from then on every request of
  up to 4 GB stops the kernel.
\<close>

lemma uncounted_header_overflows:
  assumes "heap_wf h" and "n \<noteq> 0" and "n < g_available_heap h"
    and "unat (g_available_heap h) < unat n + 72" and "mmblockCount h + 1 < MMBLOCK_COUNT_MAX"
  shows "\<exists>h'. heapAllocateMemory n h = Inr (g_heap_pointer h + 72, h')
     \<and> unat (g_heap_pointer h + 72) + unat n > unat KERNEL_HEAP_END
     \<and> unat (g_available_heap h') > 2 ^ 63
     \<and> (\<forall>m \<le> 0xFFFFFFFF. \<exists>why. heapAllocateMemory m h' = Inl (KPanic why))"
proof -
  let ?p = "g_heap_pointer h" and ?k = "mmblockCount h + 1"
  note b = heap_bounds[OF assms(1)] and w = assms(1)[unfolded heap_wf_def]
  have lt: "unat n < unat (g_available_heap h)" using assms(3) by (simp add: word_less_nat_alt)
  have e: "unat (g_available_heap h) + unat ?p = 0x301D0000" using w by (simp add: heap_consts)
  have u1: "unat (?p + 72) = unat ?p + 72" using b(1) by (subst unat_plus_small) simp_all
  have u2: "unat (?p + 72 + n) = unat ?p + 72 + unat n" using b(1,3) lt u1
    by (subst unat_plus_small) simp_all
  have u3: "unat (72 + n) = 72 + unat n" using b(3) lt by (subst unat_plus_small) simp_all
  let ?h' = "h\<lparr>mmblockCount := ?k, blocks := (blocks h)(?p := block_header ?p n ?k (blocks h ?p)),
      g_available_heap := g_available_heap h - (72 + n), mm_prev_pointer := ?p,
      g_heap_pointer := ?p + 72 + n, mmblockList := (mmblockList h)(?k := ?p)\<rparr>"
  have "g_available_heap h \<noteq> 0" "\<not> g_available_heap h \<le> n" using assms(3) by auto
  moreover have "\<not> ?p < KERNEL_HEAP_START" "\<not> KERNEL_HEAP_END \<le> ?p" "?p \<noteq> 0"
    using b(2) e lt by (auto simp: word_less_nat_alt word_le_nat_alt heap_consts)
  ultimately have run: "heapAllocateMemory n h = Inr (?p + 72, ?h')"
    using assms(2,5) unfolding heapAllocateMemory_def Let_def
    by (simp add: block_header_def mmblock_size_def)
  have big: "unat (g_available_heap h - (72 + n)) > 2 ^ 63"
  proof -
    have "unat (g_available_heap h - (72 + n)) = 2 ^ 64 + unat (g_available_heap h) - unat (72 + n)"
      using u3 assms(4) by (simp add: unat_sub_if')
    then show ?thesis using u3 lt by simp
  qed
  have stop: "\<exists>why. heapAllocateMemory m ?h' = Inl (KPanic why)" if m: "m \<le> 0xFFFFFFFF" for m
  proof -
    have "unat m < 2 ^ 32" using m by (simp add: word_le_nat_alt)
    then have "\<not> g_available_heap ?h' \<le> (if m = 0 then 8 else m)" "g_available_heap ?h' \<noteq> 0"
      using big by (auto simp: word_le_nat_alt)
    moreover have "KERNEL_HEAP_END \<le> g_heap_pointer ?h'"
      using u2 e assms(4) by (simp add: word_le_nat_alt heap_consts)
    ultimately show ?thesis by (simp add: heapAllocateMemory_def Let_def)
  qed
  show ?thesis using run u1 e assms(4) big stop
    by (intro exI[of _ ?h']) (simp add: heap_consts)
qed

text \<open>An allocation that is freed at once, \<open>k\<close> times over.\<close>

fun churn :: "nat \<Rightarrow> u64 \<Rightarrow> heap_state \<Rightarrow> kfault + heap_state" where
  "churn 0 n h = Inr h"
| "churn (Suc k) n h = kbind (heapAllocateMemory n h) (\<lambda>(p, h1). churn k n (heapFreeMemory p h1))"

lemma heapFreeMemory_frame:
  "g_heap_pointer (heapFreeMemory p h) = g_heap_pointer h"
  "g_available_heap (heapFreeMemory p h) = g_available_heap h"
  "mmblockCount (heapFreeMemory p h) = mmblockCount h"
  "mmblockList (heapFreeMemory p h) = mmblockList h"
  "b_Header (block (heapFreeMemory p h) i) = b_Header (block h i)"
  "b_userArea (block (heapFreeMemory p h) i) = b_userArea (block h i)"
  "b_userareaSize (block (heapFreeMemory p h) i) = b_userareaSize (block h i)"
  "b_Footer (block (heapFreeMemory p h) i) = b_Footer (block h i)"
  by (simp_all add: heapFreeMemory_def Let_def block_def)

lemma heap_wf_free [simp]: "heap_wf (heapFreeMemory p h) = heap_wf h"
  by (simp add: heap_wf_def block_wf_def heapFreeMemory_frame)

text \<open>
  C35. Freed memory is lost: freeing every block right after its allocation does not help; each round
  costs the block and its header, so after \<open>k\<close> rounds the heap is shorter by \<open>k (n + 72)\<close> bytes, and a
  heap that has less than the block left refuses the request although nothing is in use.
\<close>

theorem freed_memory_is_lost:
  assumes "heap_wf h" and "n \<noteq> 0" and "k * (unat n + 72) \<le> unat (g_available_heap h)"
    and "mmblockCount h + int k < MMBLOCK_COUNT_MAX"
  shows "\<exists>h'. churn k n h = Inr h' \<and> heap_wf h'
     \<and> unat (g_available_heap h') + k * (unat n + 72) = unat (g_available_heap h)
     \<and> (unat (g_available_heap h') \<le> unat n \<longrightarrow> heapAllocateMemory n h' = Inr (0, h'))"
  using assms
proof (induction k arbitrary: h)
  case 0
  have "g_available_heap h \<le> n" if "unat (g_available_heap h) \<le> unat n"
    using that by (simp add: word_le_nat_alt)
  then show ?case using 0 by (simp add: heapAllocateMemory_def Let_def)
next
  case (Suc k)
  have "unat n + 72 \<le> unat (g_available_heap h)" "mmblockCount h + 1 < MMBLOCK_COUNT_MAX"
    using Suc.prems by simp_all
  then obtain h1 where h1: "heapAllocateMemory n h = Inr (g_heap_pointer h + 72, h1)" "heap_wf h1"
      "unat (g_available_heap h1) + (unat n + 72) = unat (g_available_heap h)"
      "mmblockCount h1 = mmblockCount h + 1"
    using heap_step[OF Suc.prems(1,2)] by blast
  let ?h2 = "heapFreeMemory (g_heap_pointer h + 72) h1"
  obtain h' where "churn k n ?h2 = Inr h'" "heap_wf h'"
      "unat (g_available_heap h') + k * (unat n + 72) = unat (g_available_heap ?h2)"
      "unat (g_available_heap h') \<le> unat n \<longrightarrow> heapAllocateMemory n h' = Inr (0, h')"
    using Suc.IH[of ?h2] Suc.prems h1 by (auto simp: heapFreeMemory_frame)
  then show ?case using h1 by (intro exI[of _ h']) (simp add: heapFreeMemory_frame)
qed

text \<open>A current process that kmalloc() can charge.\<close>

definition process_current :: "kstate \<Rightarrow> ptr \<Rightarrow> bool" where
  "process_current s p \<longleftrightarrow> system_state s = SYSTEM_RUNNING \<and> pid_ok (current_pid s)
     \<and> p = processList s (current_pid s) \<and> p \<noteq> NULL \<and> p_used (pmem s p) = TRUE \<and> p_magic (pmem s p) = 1234"

lemma get_current_process_pointer_current:
  "process_current s p \<Longrightarrow> get_current_process_pointer s = Inr p"
  by (auto simp: process_current_def get_current_process_pointer_def get_current_process_def pid_ok_def Let_def)

lemma kmalloc_size:
  assumes "0 < n" "n < 2 ^ 31"
  shows "n AND 0xFFFFFFFF = n" "unat (word_of_int n :: u64) = nat n"
proof -
  have "(0xFFFFFFFF :: int) = mask 32" by (simp add: mask_eq_exp_minus_1)
  then show "n AND 0xFFFFFFFF = n" using assms
    by (simp only: take_bit_eq_mask[symmetric]) (simp add: take_bit_int_eq_self)
  show "unat (word_of_int n :: u64) = nat n" using assms
    by (simp add: unsigned_of_int take_bit_int_eq_self)
qed

lemma kmalloc_result:
  assumes "process_current s p" and "heap_wf (heap s)" and "0 \<le> n" and "n < 2 ^ 31"
    and "nat (max 1 n) + 72 \<le> unat (g_available_heap (heap s))"
    and "mmblockCount (heap s) + 1 < MMBLOCK_COUNT_MAX"
  shows "\<exists>h'. kmalloc n s = Inr (g_heap_pointer (heap s) + 72,
         upd_process p (\<lambda>r. r\<lparr>p_allocated_memory := p_allocated_memory r + word_of_int (max 1 n)\<rparr>)
           (s\<lparr>heap := h'\<rparr>))
     \<and> heap_wf h' \<and> mmblockCount h' = mmblockCount (heap s) + 1
     \<and> unat (g_available_heap h') + (nat (max 1 n) + 72) = unat (g_available_heap (heap s))
     \<and> heap_areas h' = heap_areas (heap s) @ [area (g_heap_pointer (heap s) + 72) (word_of_int (max 1 n))]
     \<and> g_heap_pointer (heap s) + 72 \<noteq> 0"
proof -
  let ?n = "max 1 n" and ?w = "word_of_int (max 1 n) :: u64"
  have u: "unat ?w = nat ?n" "?n AND 0xFFFFFFFF = ?n" using assms(3,4) kmalloc_size[of ?n] by auto
  have nz: "?w \<noteq> 0" using u(1) by (auto simp: max_def split: if_splits)
  obtain h' where h': "heapAllocateMemory ?w (heap s) = Inr (g_heap_pointer (heap s) + 72, h')" "heap_wf h'"
      "heap_areas h' = heap_areas (heap s) @ [area (g_heap_pointer (heap s) + 72) ?w]"
      "unat (g_available_heap h') + (nat ?n + 72) = unat (g_available_heap (heap s))"
      "mmblockCount h' = mmblockCount (heap s) + 1"
    using heap_step[OF assms(2) nz _ assms(6)] assms(5) u(1) by auto
  have p: "p \<noteq> NULL" "p_magic (pmem s p) = 1234" using assms(1) by (auto simp: process_current_def)
  have ptr: "g_heap_pointer (heap s) + 72 \<noteq> 0"
  proof -
    have "unat (g_heap_pointer (heap s) + 72) = unat (g_heap_pointer (heap s)) + 72"
      using heap_bounds(1)[OF assms(2)] by (subst unat_plus_small) simp_all
    then show ?thesis by auto
  qed
  have "(if n = 0 then 1 else n) = ?n" using assms(3) by auto
  then have "kmalloc n s = Inr (g_heap_pointer (heap s) + 72,
      upd_process p (\<lambda>r. r\<lparr>p_allocated_memory := p_allocated_memory r + word_of_int ?n\<rparr>) (s\<lparr>heap := h'\<rparr>))"
    using get_current_process_pointer_current[OF assms(1)] p ptr h'(1) u(2) assms(3)
    by (simp add: kmalloc_def kmalloc_impl_def Let_def)
  then show ?thesis using h'(2-) ptr by blast
qed

text \<open>
  kmalloc() hands out heap and charges the caller: a request of \<open>n\<close> bytes that fits returns the
  area behind the next header, and the current process, and no other, is charged with \<open>max 1 n\<close>
  bytes. While the
  system is not in the running state the function reads through NULL before it looks at the size.
\<close>

lemma kmalloc_charges_process:
  assumes "process_current s p" and "heap_wf (heap s)" and "0 \<le> n" and "n < 2 ^ 31"
    and "nat (max 1 n) + 72 \<le> unat (g_available_heap (heap s))"
    and "mmblockCount (heap s) + 1 < MMBLOCK_COUNT_MAX"
  shows "(\<exists>s'. kmalloc n s = Inr (g_heap_pointer (heap s) + 72, s') \<and> heap_wf (heap s')
     \<and> heap_areas (heap s') = heap_areas (heap s) @ [area (g_heap_pointer (heap s) + 72) (word_of_int (max 1 n))]
     \<and> p_allocated_memory (pmem s' p) = p_allocated_memory (pmem s p) + word_of_int (max 1 n)
     \<and> (\<forall>q. q \<noteq> p \<longrightarrow> pmem s' q = pmem s q) \<and> tmem s' = tmem s)
     \<and> (\<forall>st. st \<noteq> SYSTEM_RUNNING \<longrightarrow> kmalloc n (s\<lparr>system_state := st\<rparr>) = Inl (NullDeref ''process->magic''))"
proof -
  have "kmalloc n (s\<lparr>system_state := st\<rparr>) = Inl (NullDeref ''process->magic'')"
    if "st \<noteq> SYSTEM_RUNNING" for st
    using that by (simp add: kmalloc_def get_current_process_pointer_def)
  moreover obtain h' where "kmalloc n s = Inr (g_heap_pointer (heap s) + 72,
         upd_process p (\<lambda>r. r\<lparr>p_allocated_memory := p_allocated_memory r + word_of_int (max 1 n)\<rparr>)
           (s\<lparr>heap := h'\<rparr>))" "heap_wf h'"
      "heap_areas h' = heap_areas (heap s) @ [area (g_heap_pointer (heap s) + 72) (word_of_int (max 1 n))]"
    using kmalloc_result[OF assms] by blast
  ultimately show ?thesis by auto
qed

section \<open>Witnesses\<close>

definition demo_heap :: heap_state where
  "demo_heap = snd (mm_phase0 zero_heap)"

lemma demo_heap_facts [simp]:
  "heap_wf demo_heap" "heap_areas demo_heap = []" "unat (g_available_heap demo_heap) = 0xD0000"
  "mmblockCount demo_heap = 0"
  using mm_phase0_result[of zero_heap] by (simp_all add: demo_heap_def)


lemma uncounted_header_overflows_example:
  "\<exists>h'. heapAllocateMemory 0xCFFFF demo_heap = Inr (g_heap_pointer demo_heap + 72, h')
     \<and> (\<exists>why. heapAllocateMemory 1 h' = Inl (KPanic why))"
proof -
  have pre: "(0xCFFFF :: u64) \<noteq> 0" "(0xCFFFF :: u64) < g_available_heap demo_heap"
    "unat (g_available_heap demo_heap) < unat (0xCFFFF :: u64) + 72"
    "mmblockCount demo_heap + 1 < MMBLOCK_COUNT_MAX"
    by (simp_all add: word_less_nat_alt MMBLOCK_COUNT_MAX_def)
  obtain h' where h': "heapAllocateMemory 0xCFFFF demo_heap = Inr (g_heap_pointer demo_heap + 72, h')"
      "\<forall>m \<le> 0xFFFFFFFF. \<exists>why. heapAllocateMemory m h' = Inl (KPanic why)"
    using uncounted_header_overflows[OF demo_heap_facts(1) pre] by blast
  have "(1 :: u64) \<le> 0xFFFFFFFF" by simp
  then show ?thesis using h' by blast
qed

theorem freed_memory_is_lost_witness:
  "\<exists>h'. churn 8 106424 demo_heap = Inr h' \<and> heapAllocateMemory 106424 h' = Inr (0, h')"
proof -
  have pre: "(106424 :: u64) \<noteq> 0" "8 * (unat (106424 :: u64) + 72) \<le> unat (g_available_heap demo_heap)"
    "mmblockCount demo_heap + int 8 < MMBLOCK_COUNT_MAX"
    by (simp_all add: MMBLOCK_COUNT_MAX_def)
  show ?thesis using freed_memory_is_lost[OF demo_heap_facts(1) pre] by auto
qed

definition demo_mm :: kstate where
  "demo_mm = (demo_switch RUNNING READY)\<lparr>current_pid := 100, heap := demo_heap\<rparr>"

lemma demo_mm_current: "process_current demo_mm 7" "heap demo_mm = demo_heap"
  by (simp_all add: process_current_def demo_mm_def pid_ok_def PROCESS_COUNT_MAX_def demo_switch_def)

lemma kmalloc_charges_process_example:
  "\<exists>s'. kmalloc 100 demo_mm = Inr (g_heap_pointer demo_heap + 72, s')
     \<and> p_allocated_memory (pmem s' 7) = p_allocated_memory (pmem demo_mm 7) + 100"
proof -
  have pre: "heap_wf (heap demo_mm)" "(0 :: int) \<le> 100" "(100 :: int) < 2 ^ 31"
    "nat (max 1 100) + 72 \<le> unat (g_available_heap (heap demo_mm))"
    "mmblockCount (heap demo_mm) + 1 < MMBLOCK_COUNT_MAX"
    by (simp_all add: demo_mm_current(2) MMBLOCK_COUNT_MAX_def)
  show ?thesis using kmalloc_charges_process[OF demo_mm_current(1) pre] by (auto simp: demo_mm_current(2))
qed

end
