(* ===== verification/KPaging.thy ===== *)
theory KPaging
  imports KHeap
begin

text \<open>
  Page tables: the table pool, the clones of directories, the translation of addresses and the
  mapping of 2 MB regions of pages.c, the page pool of mmpool.c and the 1 MB buffers of slab.c.
  A table is 512 cells of \<open>umem\<close>; its address is the physical and the virtual one, as in the source,
  which keeps the low memory mapped one to one.
\<close>

section \<open>Tables (pages.c)\<close>

definition FAT_ADDRESS :: u64 where "FAT_ADDRESS = 0x30000"
definition KERNEL_PD_PA :: u64 where "KERNEL_PD_PA = 0x9A000"
definition DANGER_TABLE_POINTER_HEAP_BASE :: u64 where "DANGER_TABLE_POINTER_HEAP_BASE = 0x1000"

lemmas paging_consts = FAT_ADDRESS_def KERNEL_PD_PA_def DANGER_TABLE_POINTER_HEAP_BASE_def

definition table_init :: "kstate \<Rightarrow> kstate" where
  "table_init s = s\<lparr>paging := (paging s)\<lparr>table_pointer_heap_base := DANGER_TABLE_POINTER_HEAP_BASE\<rparr>\<rparr>"

definition get_table_pointer_va :: "kstate \<Rightarrow> u64 kresult" where
  "get_table_pointer_va s =
    (let s1 = s\<lparr>paging := (paging s)\<lparr>table_pointer_heap_base := table_pointer_heap_base (paging s) + 0x1000\<rparr>\<rparr>
     in if table_pointer_heap_base (paging s1) \<ge> FAT_ADDRESS
        then Inl (KPanic ''get_table_pointer_va: [FIXME] Limits'')
        else Inr (table_pointer_heap_base (paging s1), s1))"

definition cell :: "u64 \<Rightarrow> int \<Rightarrow> u64" where
  "cell table i = table + 8 * word_of_int i"

definition put_cell :: "u64 \<Rightarrow> int \<Rightarrow> u64 \<Rightarrow> kstate \<Rightarrow> kstate" where
  "put_cell table i v s = s\<lparr>umem := (umem s)(cell table i := v)\<rparr>"

definition copy_table :: "u64 \<Rightarrow> u64 \<Rightarrow> kstate \<Rightarrow> kstate" where
  "copy_table src dst s = fold (\<lambda>i s. put_cell dst i (umem s (cell src i)) s) (slots 0 512) s"

definition CloneKernelPDPT0 :: "kstate \<Rightarrow> u64 kresult" where
  "CloneKernelPDPT0 s =
    kbind (get_table_pointer_va s) (\<lambda>(dst, s1).
      if dst = 0 then Inl (KPanic ''CloneKernelPDPT0: destAddressVA'')
      else Inr (dst, copy_table (kernel_pdpt0_va (paging s1)) dst s1))"

definition CloneKernelPD0 :: "kstate \<Rightarrow> u64 kresult" where
  "CloneKernelPD0 s =
    kbind (get_table_pointer_va s) (\<lambda>(dst, s1).
      if dst = 0 then Inl (KPanic ''CloneKernelPD0: destAddressVA'')
      else Inr (dst, copy_table (kernel_pd0_va (paging s1)) dst s1))"

definition CloneKernelPML4 :: "kstate \<Rightarrow> u64 kresult" where
  "CloneKernelPML4 s =
    kbind (get_table_pointer_va s) (\<lambda>(dst, s1).
      if dst = 0 then Inl (KPanic ''CloneKernelPML4: destAddressVA'')
      else Inr (dst, copy_table (gKernelPML4Address (paging s1)) dst s1))"

definition clone_pml4 :: "u64 \<Rightarrow> kstate \<Rightarrow> u64 kresult" where
  "clone_pml4 pml4_va s =
    (if pml4_va = 0 then Inl (KPanic ''clone_pml4: pml4_va'')
     else kbind (get_table_pointer_va s) (\<lambda>(dst, s1).
       if dst = 0 then Inl (KPanic ''clone_pml4: destAddressVA'')
       else Inr (dst, copy_table pml4_va dst s1)))"

definition CreateAndIntallPageTable ::
    "u64 \<Rightarrow> u64 \<Rightarrow> u64 \<Rightarrow> u64 \<Rightarrow> u64 \<Rightarrow> int \<Rightarrow> u64 \<Rightarrow> kstate \<Rightarrow> u64 kresult" where
  "CreateAndIntallPageTable pml4_va pml4_index pdpt_va pdpt_index pd_va pd_index region_pa s =
    Inl (KPanic ''CreateAndIntallPageTable: suspended'')"

definition get_new_frame :: "kstate \<Rightarrow> u64 kresult" where
  "get_new_frame s = Inl (KPanic ''get_new_frame: [FIXME] This is a work in progress'')"

definition alloc_frame :: "kstate \<Rightarrow> u64 kresult" where
  "alloc_frame s = Inl (KPanic ''alloc_frame: [FIXME] This is a work in progress'')"

definition isValidPageStruct :: "ptr \<Rightarrow> int" where
  "isValidPageStruct p = (if p = NULL then TRUE else FALSE)"

definition upd_page :: "ptr \<Rightarrow> (page_d \<Rightarrow> page_d) \<Rightarrow> kstate \<Rightarrow> kstate" where
  "upd_page p f s = s\<lparr>paging := (paging s)\<lparr>pgmem := (pgmem (paging s))(p := f (pgmem (paging s) p))\<rparr>\<rparr>"

definition freePage :: "ptr \<Rightarrow> kstate \<Rightarrow> kstate" where
  "freePage p s =
    (if p = NULL then s
     else if g_used (pgmem (paging s) p) = TRUE \<and> g_magic (pgmem (paging s) p) = 1234
     then upd_page p (\<lambda>r. r\<lparr>g_free := TRUE\<rparr>) s else s)"

definition notfreePage :: "ptr \<Rightarrow> kstate \<Rightarrow> kstate" where
  "notfreePage p s =
    (if p = NULL then s
     else if g_used (pgmem (paging s) p) = TRUE \<and> g_magic (pgmem (paging s) p) = 1234
     then upd_page p (\<lambda>r. r\<lparr>g_free := FALSE\<rparr>) s else s)"

text \<open>Four table lookups; only the first gigabyte of the address space can be translated.\<close>

definition frame_mask :: u64 where "frame_mask = 0xFFFFFFFFF000"

definition virtual_to_physical :: "u64 \<Rightarrow> u64 \<Rightarrow> kstate \<Rightarrow> kfault + u64" where
  "virtual_to_physical va pml4_va s =
    (let a = ucast (drop_bit 39 va AND 0x1FF) :: u32; b = ucast (drop_bit 30 va AND 0x1FF) :: u32;
         d = ucast (drop_bit 21 va AND 0x1FF) :: u32; t = ucast (drop_bit 12 va AND 0x1FF) :: u32;
         o1 = ucast (va AND 0xFFF) :: u32 in
     if a \<ge> 512 \<or> b \<ge> 512 \<or> d \<ge> 512 \<or> t \<ge> 512 \<or> o1 \<ge> 4096
     then Inl (Hang ''__virtual_to_physical: entry limits'')
     else if a \<noteq> 0 then Inl (Hang ''__virtual_to_physical: [TODO] a != 0'')
     else if b \<noteq> 0 then Inl (Hang ''__virtual_to_physical: [TODO] b != 0'')
     else if pml4_va = 0 then Inl (KPanic ''__virtual_to_physical: [FAIL] Invalid pml4_va'')
     else let
       tmp = umem s (cell pml4_va (uint a)); ptpt = tmp AND frame_mask;
       tmp = umem s (cell ptpt (uint b)); dir = tmp AND frame_mask;
       tmp = umem s (cell dir (uint d)); pt = tmp AND frame_mask;
       tmp = umem s (cell pt (uint t)); address = tmp AND frame_mask
     in Inr (address + ucast o1))"

definition mm_is_page_aligned_va :: "u64 \<Rightarrow> int" where
  "mm_is_page_aligned_va va = (if va AND 0xFFF = 0 then TRUE else FALSE)"

definition mm_fill_page_table :: "u64 \<Rightarrow> int \<Rightarrow> u64 \<Rightarrow> u64 \<Rightarrow> u64 \<Rightarrow> kstate \<Rightarrow> int \<times> kstate" where
  "mm_fill_page_table directory_va directory_entry pt_va region_2mb_pa flags s =
    (if directory_entry < 0 \<or> directory_entry \<ge> 512 then (-1, s)
     else let
       (pa, s1) = fold (\<lambda>i (pa, s). (pa + 4096, put_cell pt_va i (pa OR flags) s)) (slots 0 512)
                    (region_2mb_pa, s);
       s2 = put_cell directory_va directory_entry pt_va s1
     in (0, put_cell directory_va directory_entry
              (umem s2 (cell directory_va directory_entry) OR flags) s2))"

definition X64_GET_PDE_INDEX :: "u64 \<Rightarrow> int" where
  "X64_GET_PDE_INDEX va = uint (drop_bit 21 (ucast va :: u32) AND 0x1FF)"

definition mm_map_2mb_region :: "u64 \<Rightarrow> u64 \<Rightarrow> kstate \<Rightarrow> int kresult" where
  "mm_map_2mb_region pa va s =
    kbind (get_table_pointer_va s) (\<lambda>(pt, s1).
      if pt = 0 then Inr (-1, s1)
      else let pdindex = X64_GET_PDE_INDEX va in
      if pdindex < 0 then Inr (-1, s1)
      else if pdindex \<ge> 512 then Inr (-1, s1)
      else Inr (0, snd (mm_fill_page_table KERNEL_PD_PA pdindex pt pa 0x1B s1)))"

section \<open>The page pool (mmpool.c)\<close>

definition PAGE_COUNT_MAX :: int where "PAGE_COUNT_MAX = 512"
definition PAGE_SIZE :: int where "PAGE_SIZE = 4096"

text \<open>sizeof(struct page_d): seven ints, four bytes of padding and a pointer.\<close>

definition page_d_size :: int where "page_d_size = 7 * 4 + 4 + 8"

definition page_empty :: "kstate \<Rightarrow> int \<Rightarrow> bool" where
  "page_empty s i \<longleftrightarrow> pageAllocList (paging s) i = NULL"

definition set_page_slot :: "int \<Rightarrow> ptr \<Rightarrow> kstate \<Rightarrow> kstate" where
  "set_page_slot i p s = s\<lparr>paging := (paging s)\<lparr>pageAllocList := (pageAllocList (paging s))(i := p)\<rparr>\<rparr>"

definition pageObject :: "kstate \<Rightarrow> ptr kresult" where
  "pageObject s =
    (case find (page_empty s) (slots 0 PAGE_COUNT_MAX) of
       None \<Rightarrow> Inr (NULL, s)
     | Some slot \<Rightarrow> kbind (kmalloc page_d_size s) (\<lambda>(a, s1). let New = unat a in
         if New = NULL then Inr (NULL, s1)
         else Inr (New, set_page_slot slot New
                (upd_page New (\<lambda>_. zero_page\<lparr>g_id := slot, g_used := TRUE, g_magic := 1234,
                                   g_free := FALSE, g_next := NULL\<rparr>) s1))))"

definition newPage :: "kstate \<Rightarrow> u64 kresult" where
  "newPage s =
    (let base = g_pagedpool_va (paging s) in
     if base = 0 then Inl (KPanic ''newPage: base'')
     else kbind (pageObject s) (\<lambda>(New, s1).
       if New = NULL then Inl (KPanic ''newPage: New'')
       else let r = pgmem (paging s1) New in
       if g_used r \<noteq> TRUE then Inl (KPanic ''newPage: New used'')
       else if g_magic r \<noteq> 1234 then Inl (KPanic ''newPage: New magic'')
       else if g_id r < 0 then Inl (KPanic ''newPage: id underflow'')
       else if g_id r \<ge> PAGE_COUNT_MAX then Inl (KPanic ''newPage: id overflow'')
       else let s2 = upd_page New (\<lambda>r. r\<lparr>g_locked := FALSE, g_ref_count := 1\<rparr>) s1;
         va = base + word_of_int (g_id r * PAGE_SIZE) in
       if va = 0 then Inl (KPanic ''newPage: va==0'')
       else kbind (virtual_to_physical va (gKernelPML4Address (paging s2)) s2) (\<lambda>pa.
         if pa = 0 then Inl (KPanic ''newPage: pa==0'')
         else let remainder = pa mod 4096; alignedPA = (if remainder \<noteq> 0 then pa - remainder else pa)
         in Inr (va, upd_page New (\<lambda>r. r\<lparr>g_absolute_frame_number := ucast (alignedPA div 4096)\<rparr>) s2))))"

definition mm_alloc_single_page :: "kstate \<Rightarrow> u64 kresult" where
  "mm_alloc_single_page s = newPage s"

definition mm_alloc_contig_pages :: "int \<Rightarrow> kstate \<Rightarrow> u64 kresult" where
  "mm_alloc_contig_pages n s = Inl (KPanic ''mm_alloc_contig_pages: [TODO] its a work in progress'')"

text \<open>
  The search for \<open>n\<close> consecutive empty slots. The index of the loop is always \<open>Base + Count\<close>; an
  occupied slot moves the base behind it.
\<close>

function firstSlotForAList :: "kstate \<Rightarrow> int \<Rightarrow> int \<Rightarrow> int \<Rightarrow> int" where
  "firstSlotForAList s n Base Count =
    (if Base + Count \<ge> PAGE_COUNT_MAX then -1
     else if \<not> page_empty s (Base + Count) then firstSlotForAList s n (Base + Count + 1) 0
     else if Count + 1 \<ge> n then Base
     else firstSlotForAList s n Base (Count + 1))"
  by pat_completeness auto
termination
  by (relation "measure (\<lambda>(s, n, Base, Count). nat (PAGE_COUNT_MAX - (Base + Count)))") auto

declare firstSlotForAList.simps [simp del]

definition charge :: "ptr \<Rightarrow> int \<Rightarrow> kstate \<Rightarrow> kstate" where
  "charge p n s = upd_process p (\<lambda>r. r\<lparr>p_allocated_memory := p_allocated_memory r + word_of_int n\<rparr>) s"

text \<open>
  allocPages() links each new page to the one before through a variable it never initialises: from
  two pages on, its first iteration writes through it.
\<close>

definition allocPages :: "int \<Rightarrow> kstate \<Rightarrow> u64 kresult" where
  "allocPages n s =
    (let base = g_pagedpool_va (paging s) in
     kbind (get_current_process_pointer s) (\<lambda>process.
     if process = NULL then Inl (NullDeref ''process->magic'')
     else let Increment = (if p_magic (pmem s process) \<noteq> 1234 then FALSE else TRUE) in
     if n \<le> 0 then Inl (KPanic ''allocPages: size 0'')
     else if n = 1 then kbind (newPage s) (\<lambda>(va, s1).
       if va \<noteq> 0
       then let s2 = fold (\<lambda>i. put_cell va i 0) (slots 0 512) s1 in
            Inr (va, if Increment = TRUE then charge process PAGE_SIZE s2 else s2)
       else Inr (va, s1))
     else if n \<ge> PAGE_COUNT_MAX then Inl (KPanic ''allocPages: size limits'')
     else let first = firstSlotForAList s n 0 0 in
     if first = -1 then Inl (KPanic ''allocPages: No more free slots'')
     else case find (page_empty s) (slots first (first + n + 1)) of
       None \<Rightarrow> Inl (KPanic ''allocPages: fail'')
     | Some slot \<Rightarrow> kbind (kmalloc page_d_size s) (\<lambda>(a, s1). let p = unat a in
         if p = NULL then Inl (KPanic ''allocPages: fail 2'')
         else let
           s2 = upd_page p (\<lambda>_. zero_page\<lparr>g_id := slot, g_used := TRUE, g_magic := 1234,
                  g_free := FALSE, g_locked := FALSE, g_ref_count := 1\<rparr>) s1;
           va = base + word_of_int (slot * PAGE_SIZE)
         in kbind (virtual_to_physical va (gKernelPML4Address (paging s2)) s2) (\<lambda>pa.
           Inl (Uninit ''pageConductor->next'')))))"

definition mmAllocPage :: "kstate \<Rightarrow> u64 kresult" where
  "mmAllocPage s = newPage s"

definition mmAllocPages :: "int \<Rightarrow> kstate \<Rightarrow> u64 kresult" where
  "mmAllocPages n s = allocPages n s"

definition initializeFramesAlloc :: "kstate \<Rightarrow> kfault + kstate" where
  "initializeFramesAlloc s =
    (let s1 = fold (\<lambda>i. set_page_slot i NULL) (slots 0 PAGE_COUNT_MAX) s in
     kbind (kmalloc page_d_size s1) (\<lambda>(a, s2). let p = unat a in
       if p = NULL then Inl (KPanic ''initializeFramesAlloc:'')
       else Inr (set_page_slot 0 p (upd_page p (\<lambda>_. zero_page\<lparr>g_used := TRUE, g_magic := 1234,
                   g_id := 0, g_free := TRUE, g_next := NULL\<rparr>) s2))))"

section \<open>The 1 MB buffers (slab.c)\<close>

definition slab_initialize :: "kstate \<Rightarrow> kfault + kstate" where
  "slab_initialize s =
    (let P = (paging s)\<lparr>pool_initialized := FALSE\<rparr>; e2 = g_extraheap2_va P; e3 = g_extraheap3_va P in
     if e2 = 0 \<or> e3 = 0 then Inl (KPanic ''slab_initialize: address'')
     else Inr (s\<lparr>paging := P\<lparr>
       pool_va := (pool_va P)(0 := e2, 1 := e2 + 1024 * 1024, 2 := e3, 3 := e3 + 1024 * 1024),
       pool_Free := (pool_Free P)(0 := TRUE, 1 := TRUE, 2 := TRUE, 3 := TRUE),
       pool_initialized := TRUE\<rparr>\<rparr>))"

definition slab_take :: "ptr \<Rightarrow> int \<Rightarrow> kstate \<Rightarrow> u64 \<times> kstate" where
  "slab_take process i s =
    (let s1 = s\<lparr>paging := (paging s)\<lparr>pool_Free := (pool_Free (paging s))(i := FALSE)\<rparr>\<rparr>;
         s2 = (if process \<noteq> NULL then charge process (1 * 1024 * 1024) s1 else s1)
     in (pool_va (paging s2) i, s2))"

definition slab_1MB_allocator :: "kstate \<Rightarrow> u64 kresult" where
  "slab_1MB_allocator s =
    (if pool_initialized (paging s) \<noteq> TRUE then Inr (0, s)
     else kbind (get_current_process_pointer s) (\<lambda>process.
     if process = NULL then Inl (KPanic ''slab_1MB_allocator: process'')
     else if p_magic (pmem s process) \<noteq> 1234 then Inl (KPanic ''slab_1MB_allocator: process validation'')
     else if pool_Free (paging s) 0 = TRUE then Inr (slab_take process 0 s)
     else if pool_Free (paging s) 1 = TRUE then Inr (slab_take process 1 s)
     else if pool_Free (paging s) 2 = TRUE then Inr (slab_take process 2 s)
     else if pool_Free (paging s) 3 = TRUE then Inr (slab_take process 3 s)
     else Inr (0, s)))"

section \<open>Cells of a table\<close>

text \<open>A table that does not wrap around the address space, and two tables that do not share a cell.\<close>

definition table_ok :: "u64 \<Rightarrow> bool" where
  "table_ok a \<longleftrightarrow> unat a + 4096 \<le> 2 ^ 64"

definition apart :: "u64 \<Rightarrow> u64 \<Rightarrow> bool" where
  "apart a b \<longleftrightarrow> unat a + 4096 \<le> unat b \<or> unat b + 4096 \<le> unat a"

lemma apart_sym: "apart a b \<longleftrightarrow> apart b a"
  by (auto simp: apart_def)

lemma cell_unat:
  assumes "table_ok a" "0 \<le> i" "i < 512"
  shows "unat (cell a i) = unat a + 8 * nat i"
proof -
  have "unat (8 * word_of_int i :: u64) = 8 * nat i"
    using assms(2,3) by (simp add: unat_mult_lem[where 'a = 64, THEN iffD1] unsigned_of_int take_bit_int_eq_self)
  then show ?thesis
    using assms unfolding cell_def table_ok_def by (subst unat_plus_small) auto
qed

lemma cell_inj:
  assumes "table_ok a" "0 \<le> i" "i < 512" "0 \<le> j" "j < 512" "cell a i = cell a j"
  shows "i = j"
  using cell_unat[OF assms(1-3)] cell_unat[OF assms(1,4,5)] assms by simp

lemma cell_apart:
  assumes "apart a b" "table_ok a" "table_ok b" "0 \<le> i" "i < 512" "0 \<le> j" "j < 512"
  shows "cell a i \<noteq> cell b j"
proof
  assume "cell a i = cell b j"
  then have "unat a + 8 * nat i = unat b + 8 * nat j"
    using cell_unat[OF assms(2,4,5)] cell_unat[OF assms(3,6,7)] by simp
  then show False using assms by (auto simp: apart_def)
qed

lemma umem_put_cell [simp]: "umem (put_cell a i v s) x = (if x = cell a i then v else umem s x)"
  by (simp add: put_cell_def)

lemma put_cell_frame [simp]:
  "paging (put_cell a i v s) = paging s" "tmem (put_cell a i v s) = tmem s"
  "pmem (put_cell a i v s) = pmem s" "heap (put_cell a i v s) = heap s"
  by (simp_all add: put_cell_def)

text \<open>What a loop over the cells of a table leaves: the prefix is written, nothing else changes.\<close>

lemma copy_table_cells:
  assumes "apart src dst" "table_ok src" "table_ok dst"
  shows "0 \<le> i \<Longrightarrow> i < 512 \<Longrightarrow> umem (copy_table src dst s) (cell dst i) = umem s (cell src i)"
    and "(\<And>i. 0 \<le> i \<Longrightarrow> i < 512 \<Longrightarrow> x \<noteq> cell dst i) \<Longrightarrow> umem (copy_table src dst s) x = umem s x"
proof -
  have *: "(\<forall>i. 0 \<le> i \<and> i < n \<longrightarrow> umem (F n) (cell dst i) = umem s (cell src i))
      \<and> (\<forall>x. (\<forall>i. 0 \<le> i \<and> i < n \<longrightarrow> x \<noteq> cell dst i) \<longrightarrow> umem (F n) x = umem s x)"
    if "0 \<le> n" "n \<le> 512" and F: "F = (\<lambda>n. fold (\<lambda>i s. put_cell dst i (umem s (cell src i)) s) (slots 0 n) s)"
    for n F
    using that(1,2)
  proof (induction n rule: int_ge_induct)
    case base
    then show ?case by (auto simp: F slots_empty)
  next
    case (step n)
    have next_state: "F (n + 1) = put_cell dst n (umem (F n) (cell src n)) (F n)"
      using step.hyps by (simp add: F slots_snoc)
    have src: "umem (F n) (cell src n) = umem s (cell src n)"
      using step cell_apart[OF assms step.hyps _ ] by auto
    have inj: "cell dst i \<noteq> cell dst n" if "0 \<le> i" "i < n" for i
      using cell_inj[OF assms(3), of i n] that step.prems step.hyps by auto
    have old: "umem (F (n + 1)) (cell dst i) = umem s (cell src i)" if "0 \<le> i" "i < n + 1" for i
      using that step.IH step.prems src inj[of i] by (cases "i = n") (auto simp: next_state)
    have other: "umem (F (n + 1)) x = umem s x" if "\<forall>i. 0 \<le> i \<and> i < n + 1 \<longrightarrow> x \<noteq> cell dst i" for x
      using that step by (simp add: next_state)
    show ?case using old other by blast
  qed
  note F = *[of 512, OF _ _ refl, folded copy_table_def]
  show "0 \<le> i \<Longrightarrow> i < 512 \<Longrightarrow> umem (copy_table src dst s) (cell dst i) = umem s (cell src i)"
    using F by simp
  show "(\<And>i. 0 \<le> i \<Longrightarrow> i < 512 \<Longrightarrow> x \<noteq> cell dst i) \<Longrightarrow> umem (copy_table src dst s) x = umem s x"
    using F by simp
qed

lemma copy_table_frame [simp]:
  "paging (copy_table src dst s) = paging s" "tmem (copy_table src dst s) = tmem s"
  "pmem (copy_table src dst s) = pmem s" "heap (copy_table src dst s) = heap s"
proof -
  have *: "f (fold (\<lambda>i s. put_cell dst i (umem s (cell src i)) s) is s) = f s"
    if "\<And>a i v t. f (put_cell a i v t) = f t" for f :: "kstate \<Rightarrow> 'z" and "is"
    using that by (intro fold_keeps)
  show "paging (copy_table src dst s) = paging s" "tmem (copy_table src dst s) = tmem s"
    "pmem (copy_table src dst s) = pmem s" "heap (copy_table src dst s) = heap s"
    unfolding copy_table_def by (rule *, simp)+
qed

text \<open>The page table that mm_fill_page_table() writes, and its directory entry.\<close>

lemma fill_cells:
  assumes "apart dir pt" "table_ok dir" "table_ok pt" "0 \<le> e" "e < 512"
    and r_def: "r = mm_fill_page_table dir e pt pa flags s"
  shows "fst r = 0"
    and "0 \<le> i \<Longrightarrow> i < 512 \<Longrightarrow> umem (snd r) (cell pt i) = (pa + 4096 * word_of_int i) OR flags"
    and "umem (snd r) (cell dir e) = pt OR flags"
    and "(\<And>i. 0 \<le> i \<Longrightarrow> i < 512 \<Longrightarrow> x \<noteq> cell pt i) \<Longrightarrow> x \<noteq> cell dir e \<Longrightarrow> umem (snd r) x = umem s x"
proof -
  let ?g = "\<lambda>i (pa, s). (pa + 4096, put_cell pt i (pa OR flags) s)"
  have *: "fst (F n) = pa + 4096 * word_of_int n
      \<and> (\<forall>i. 0 \<le> i \<and> i < n \<longrightarrow> umem (snd (F n)) (cell pt i) = (pa + 4096 * word_of_int i) OR flags)
      \<and> (\<forall>x. (\<forall>i. 0 \<le> i \<and> i < n \<longrightarrow> x \<noteq> cell pt i) \<longrightarrow> umem (snd (F n)) x = umem s x)"
    if "0 \<le> n" "n \<le> 512" and F: "F = (\<lambda>n. fold ?g (slots 0 n) (pa, s))" for n F
    using that(1,2)
  proof (induction n rule: int_ge_induct)
    case base
    then show ?case by (auto simp: F slots_empty)
  next
    case (step n)
    have next_state: "F (n + 1) = (fst (F n) + 4096, put_cell pt n (fst (F n) OR flags) (snd (F n)))"
      using step.hyps by (simp add: F slots_snoc case_prod_beta)
    have inj: "cell pt i \<noteq> cell pt n" if "0 \<le> i" "i < n" for i
      using cell_inj[OF assms(3), of i n] that step.prems step.hyps by auto
    have old: "umem (snd (F (n + 1))) (cell pt i) = (pa + 4096 * word_of_int i) OR flags"
      if "0 \<le> i" "i < n + 1" for i
      using that step.IH step.prems inj[of i] by (cases "i = n") (auto simp: next_state)
    have other: "umem (snd (F (n + 1))) x = umem s x" if "\<forall>i. 0 \<le> i \<and> i < n + 1 \<longrightarrow> x \<noteq> cell pt i" for x
      using that step by (simp add: next_state)
    have "fst (F (n + 1)) = pa + 4096 * word_of_int (n + 1)"
      using step by (simp add: next_state distrib_left)
    then show ?case using old other by blast
  qed
  note F = *[of 512, OF _ _ refl]
  have r: "r = (0, put_cell dir e (pt OR flags) (put_cell dir e pt (snd (fold ?g (slots 0 512) (pa, s)))))"
    unfolding r_def mm_fill_page_table_def Let_def using assms(4,5) by (simp add: case_prod_beta)
  have sep: "cell pt i \<noteq> cell dir e" if "0 \<le> i" "i < 512" for i
    using cell_apart[OF assms(1-3), of e i] that assms(4,5) by auto
  show "fst r = 0" by (simp add: r)
  show "0 \<le> i \<Longrightarrow> i < 512 \<Longrightarrow> umem (snd r) (cell pt i) = (pa + 4096 * word_of_int i) OR flags"
    using F sep by (simp add: r)
  show "umem (snd r) (cell dir e) = pt OR flags" by (simp add: r)
  show "(\<And>i. 0 \<le> i \<Longrightarrow> i < 512 \<Longrightarrow> x \<noteq> cell pt i) \<Longrightarrow> x \<noteq> cell dir e \<Longrightarrow> umem (snd r) x = umem s x"
    using F by (simp add: r)
qed

section \<open>Words of an address\<close>

lemma index_unat:
  "unat (ucast (drop_bit k va AND 0x1FF) :: u32) = (unat (va :: u64) div 2 ^ k) mod 512"
proof -
  have "(0x1FF :: u64) = mask 9" by (simp add: mask_eq_exp_minus_1)
  moreover have "take_bit LENGTH(64) (unat va) = unat va"
    by (rule take_bit_nat_eq_self) (rule unsigned_less)
  ultimately have "unat (drop_bit k va AND 0x1FF) = take_bit 9 (drop_bit k (unat va))"
    by (simp only: take_bit_eq_mask[symmetric] unsigned_take_bit_eq unsigned_drop_bit_eq)
  then have "unat (drop_bit k va AND 0x1FF) = (unat va div 2 ^ k) mod 512"
    by (simp add: take_bit_eq_mod drop_bit_eq_div)
  moreover have "(unat va div 2 ^ k) mod 512 < 512" by simp
  ultimately show ?thesis by (simp add: unsigned_ucast_eq take_bit_nat_eq_self)
qed

lemma offset_unat: "unat (ucast (va AND 0xFFF) :: u32) = unat (va :: u64) mod 4096"
proof -
  have "(0xFFF :: u64) = mask 12" by (simp add: mask_eq_exp_minus_1)
  then have "unat (va AND 0xFFF) = take_bit 12 (unat va)"
    by (simp only: take_bit_eq_mask[symmetric] unsigned_take_bit_eq)
  then have "unat (va AND 0xFFF) = unat va mod 4096" by (simp add: take_bit_eq_mod)
  moreover have "unat va mod 4096 < 4096" by simp
  ultimately show ?thesis by (simp add: unsigned_ucast_eq take_bit_nat_eq_self)
qed

text \<open>An entry gives back its frame when the frame is page aligned and below 2 to the 48.\<close>

definition frame_ok :: "u64 \<Rightarrow> bool" where
  "frame_ok x \<longleftrightarrow> unat x mod 4096 = 0 \<and> unat x < 2 ^ 48"

lemma frame_mask_entry:
  assumes "frame_ok x" "unat f < 4096"
  shows "(x OR f) AND frame_mask = x"
proof -
  have m: "frame_mask = push_bit 12 (mask 36)" by (simp add: frame_mask_def mask_eq_exp_minus_1 push_bit_eq_mult)
  have lo: "\<not> bit x n" if "n < 12" for n
  proof -
    have "unat (take_bit 12 x) = 0" using assms(1)
      by (simp only: frame_ok_def unsigned_take_bit_eq) (simp add: take_bit_eq_mod)
    then have "take_bit 12 x = 0" by (simp only: unat_eq_0)
    then have "\<not> bit (take_bit 12 x) n" by simp
    then show ?thesis using that by (simp add: bit_take_bit_iff)
  qed
  have hi: "\<not> bit x n" if "48 \<le> n" for n
  proof -
    have "unat (take_bit 48 x) = unat x" using assms(1)
      by (simp only: frame_ok_def unsigned_take_bit_eq) (simp add: take_bit_nat_eq_self)
    then have "take_bit 48 x = x" by (simp only: word_unat_eq_iff)
    then have "bit x n = bit (take_bit 48 x) n" by simp
    then show ?thesis using that by (simp add: bit_take_bit_iff)
  qed
  have f: "\<not> bit f n" if "12 \<le> n" for n
  proof -
    have "unat (take_bit 12 f) = unat f" using assms(2)
      by (simp only: unsigned_take_bit_eq) (simp add: take_bit_nat_eq_self)
    then have "take_bit 12 f = f" by (simp only: word_unat_eq_iff)
    then have "bit f n = bit (take_bit 12 f) n" by simp
    then show ?thesis using that by (simp add: bit_take_bit_iff)
  qed
  show ?thesis
    unfolding m
  proof (rule bit_word_eqI)
    fix n
    have "12 \<le> n \<and> n - 12 < 36" if "bit x n"
      using that lo[of n] hi[of n] by (cases "n < 12"; cases "48 \<le> n") auto
    then show "bit ((x OR f) AND push_bit 12 (mask 36)) n = bit x n" if "n < LENGTH(64)"
      using f[of n] that by (auto simp: bit_simps)
  qed
qed

section \<open>Translation\<close>

text \<open>The pieces of an address, as numbers.\<close>

definition pd_of :: "u64 \<Rightarrow> int" where "pd_of va = int (unat va div 2 ^ 21 mod 512)"
definition pt_of :: "u64 \<Rightarrow> int" where "pt_of va = int (unat va div 2 ^ 12 mod 512)"

lemma piece_range: "0 \<le> pd_of va \<and> pd_of va < 512" "0 \<le> pt_of va \<and> pt_of va < 512"
  by (simp_all add: pd_of_def pt_of_def)

lemma virtual_to_physical_low:
  assumes "unat va < 2 ^ 30" "pml4 \<noteq> 0"
  shows "virtual_to_physical va pml4 s = Inr
    ((umem s (cell (umem s (cell (umem s (cell (umem s (cell pml4 0) AND frame_mask) 0) AND frame_mask)
        (pd_of va)) AND frame_mask) (pt_of va)) AND frame_mask) + word_of_int (int (unat va mod 4096)))"
proof -
  have u: "uint (ucast (drop_bit k va AND 0x1FF) :: u32) = int (unat va div 2 ^ k mod 512)" for k
    using index_unat[of k va] by (metis int_nat_eq uint_nat unat_eq_nat_uint)
  have z: "(ucast (drop_bit k va AND 0x1FF) :: u32) = 0" if "30 \<le> k" for k
  proof -
    have "(2 :: nat) ^ 30 \<le> 2 ^ k" using that by (intro power_increasing) auto
    then have "unat va div 2 ^ k = 0" using assms(1) by (simp add: div_eq_0_iff)
    then show ?thesis using index_unat[of k va] by (simp add: unat_eq_0)
  qed
  have lim: "\<not> (512 \<le> (ucast (drop_bit k va AND 0x1FF) :: u32))" for k
    using index_unat[of k va] by (simp add: word_le_nat_alt)
  have lo: "\<not> (4096 \<le> (ucast (va AND 0xFFF) :: u32))"
    using offset_unat[of va] by (simp add: word_le_nat_alt)
  have off: "ucast (ucast (va AND 0xFFF) :: u32) = (word_of_int (int (unat va mod 4096)) :: u64)"
  proof -
    define w where "w = (ucast (va AND 0xFFF) :: u32)"
    have w: "unat w = unat va mod 4096" using offset_unat[of va] by (simp add: w_def)
    have m: "unat va mod 4096 < 4096" by simp
    have "unat (ucast w :: u64) = unat va mod 4096"
      unfolding unsigned_ucast_eq w using m by (intro take_bit_nat_eq_self) simp
    moreover have "unat (word_of_int (int (unat va mod 4096)) :: u64) = unat va mod 4096"
      unfolding unsigned_of_int using m by (simp add: take_bit_int_eq_self)
    ultimately show ?thesis unfolding w_def[symmetric] word_unat_eq_iff by simp
  qed
  show ?thesis
    unfolding virtual_to_physical_def Let_def
    using assms(2) lim lo z[of 39] z[of 30] by (simp add: u off pd_of_def pt_of_def)
qed

text \<open>The kernel's top tables: both first entries lead to the page directory at KERNEL_PD_PA.\<close>

definition kernel_tables :: "kstate \<Rightarrow> u64 \<Rightarrow> bool" where
  "kernel_tables s pml4 \<longleftrightarrow> pml4 \<noteq> 0 \<and> table_ok pml4
     \<and> (let pdpt = umem s (cell pml4 0) AND frame_mask in
         table_ok pdpt \<and> umem s (cell pdpt 0) AND frame_mask = KERNEL_PD_PA
         \<and> apart pml4 KERNEL_PD_PA \<and> apart pdpt KERNEL_PD_PA)"

lemma get_table_pointer_va_ok:
  assumes "table_pointer_heap_base (paging s) + 0x1000 < FAT_ADDRESS"
  shows "get_table_pointer_va s = Inr (table_pointer_heap_base (paging s) + 0x1000,
    s\<lparr>paging := (paging s)\<lparr>table_pointer_heap_base := table_pointer_heap_base (paging s) + 0x1000\<rparr>\<rparr>)"
  using assms by (simp add: get_table_pointer_va_def Let_def)

lemma pde_index: "X64_GET_PDE_INDEX va = pd_of va"
proof -
  have "drop_bit 21 (ucast va :: u32) AND 0x1FF = (ucast (drop_bit 21 va AND 0x1FF) :: u32)"
  proof -
    have m: "(0x1FF :: u32) = mask 9" "(0x1FF :: u64) = mask 9" by (simp_all add: mask_eq_exp_minus_1)
    show ?thesis unfolding m by (rule bit_word_eqI) (auto simp: bit_simps)
  qed
  then show ?thesis using index_unat[of 21 va]
    by (simp add: X64_GET_PDE_INDEX_def pd_of_def uint_nat del: of_nat_mod of_nat_div)
qed

definition next_table :: "kstate \<Rightarrow> u64" where
  "next_table s = table_pointer_heap_base (paging s) + 0x1000"

text \<open>The pool has a table left, and the top tables are not in the place it comes from.\<close>

definition table_room :: "kstate \<Rightarrow> u64 \<Rightarrow> bool" where
  "table_room s pml4 \<longleftrightarrow> next_table s < FAT_ADDRESS \<and> next_table s \<noteq> 0 \<and> frame_ok (next_table s)
     \<and> apart pml4 (next_table s) \<and> apart (umem s (cell pml4 0) AND frame_mask) (next_table s)"

lemma table_room_facts:
  assumes "table_room s pml4"
  shows "table_ok (next_table s)" "apart KERNEL_PD_PA (next_table s)" "table_ok KERNEL_PD_PA"
  using assms by (auto simp: table_room_def table_ok_def apart_def paging_consts word_less_nat_alt)

text \<open>The arithmetic of an offset inside a mapped region.\<close>

lemma region_pieces:
  assumes "unat va mod 2 ^ 21 = 0" "unat va + 2 ^ 21 \<le> 2 ^ 30" "unat off < 2 ^ 21"
  shows "unat (va + off) = unat va + unat off" "pd_of (va + off) = pd_of va"
    "pt_of (va + off) = int (unat off div 4096)" "unat (va + off) mod 4096 = unat off mod 4096"
    "unat off div 4096 < 512"
proof -
  show u: "unat (va + off) = unat va + unat off"
    using assms(2,3) by (intro unat_plus_small) simp
  obtain q where q: "unat va = 2 ^ 21 * q" using assms(1) by (metis mod_0_imp_dvd dvdE)
  show "pd_of (va + off) = pd_of va" unfolding pd_of_def u q using assms(3) by simp
  have "(2 ^ 21 * q + unat off) div 2 ^ 12 = 512 * q + unat off div 2 ^ 12"
    by (simp add: div_plus_div_distrib_dvd_left)
  moreover show "unat off div 4096 < 512" using assms(3) by (simp add: div_less_iff_less_mult)
  ultimately show "pt_of (va + off) = int (unat off div 4096)" unfolding pt_of_def u q by simp
  have m: "2 ^ 21 * q = 4096 * (512 * q)" by simp
  show "unat (va + off) mod 4096 = unat off mod 4096" unfolding u q m by (rule mod_mult_self4)
qed

lemma page_bytes:
  assumes "i < 512"
  shows "unat (4096 * word_of_int (int i) :: u64) = 4096 * i"
proof -
  have w: "unat (word_of_int (int i) :: u64) = i"
    using assms by (simp add: unsigned_of_nat take_bit_nat_eq_self)
  then have "unat (4096 :: u64) * unat (word_of_int (int i) :: u64) < 2 ^ LENGTH(64)" using assms by simp
  then have "unat (4096 * word_of_int (int i) :: u64) = unat (4096 :: u64) * unat (word_of_int (int i) :: u64)"
    by (rule unat_mult_lem[THEN iffD1])
  then show ?thesis unfolding w by simp
qed

lemma page_sum:
  "4096 * word_of_int (int i) + word_of_int (int m) = (word_of_int (int (4096 * i + m)) :: u64)"
  by simp

lemma page_frame:
  assumes "unat pa mod 4096 = 0" "unat pa + 2 ^ 21 \<le> 2 ^ 48" "unat off < 2 ^ 21"
  shows "frame_ok (pa + 4096 * word_of_int (int (unat off div 4096)))"
    "(pa + 4096 * word_of_int (int (unat off div 4096))) + word_of_int (int (unat off mod 4096)) = pa + off"
proof -
  let ?i = "unat off div 4096"
  have i: "?i < 512" using assms(3) by (simp add: div_less_iff_less_mult)
  have m: "unat (4096 * word_of_int (int ?i) :: u64) = 4096 * ?i"
    using i by (rule page_bytes)
  have at: "unat (pa + 4096 * word_of_int (int ?i)) = unat pa + 4096 * ?i"
    using assms(2) i m by (subst unat_plus_small) simp_all
  show "frame_ok (pa + 4096 * word_of_int (int ?i))"
    unfolding frame_ok_def at using assms(1,2) i by (simp add: mod_add_eq[symmetric])
  have "4096 * word_of_int (int ?i) + word_of_int (int (unat off mod 4096)) = off"
    unfolding page_sum mult_div_mod_eq by simp
  then show "(pa + 4096 * word_of_int (int ?i)) + word_of_int (int (unat off mod 4096)) = pa + off"
    by (metis add.assoc)
qed

text \<open>
  C36. Mapping and translating: after mm_map_2mb_region() has mapped the 2 MB at the physical address
  \<open>pa\<close> to \<open>va\<close>, both aligned, every byte of the region translates to the corresponding physical
  address through the kernel's own directories, one table of the pool is used up, and the top tables
  are as they were, so further regions can be mapped.
\<close>

theorem map_region_translates:
  assumes "kernel_tables s pml4" and "table_room s pml4"
    and "unat va mod 2 ^ 21 = 0" and "unat va + 2 ^ 21 \<le> 2 ^ 30"
    and "unat pa mod 4096 = 0" and "unat pa + 2 ^ 21 \<le> 2 ^ 48"
  shows "\<exists>s'. mm_map_2mb_region pa va s = Inr (0, s') \<and> kernel_tables s' pml4
     \<and> table_pointer_heap_base (paging s') = next_table s
     \<and> (\<forall>off. unat off < 2 ^ 21 \<longrightarrow> virtual_to_physical (va + off) pml4 s' = Inr (pa + off))"
proof -
  let ?pt = "next_table s" and ?pdpt = "umem s (cell pml4 0) AND frame_mask" and ?e = "pd_of va"
  note k = assms(1)[unfolded kernel_tables_def Let_def] and r = assms(2)[unfolded table_room_def]
    and f = table_room_facts[OF assms(2)] and e = piece_range(1)[of va]
  let ?s1 = "s\<lparr>paging := (paging s)\<lparr>table_pointer_heap_base := ?pt\<rparr>\<rparr>"
  let ?r = "mm_fill_page_table KERNEL_PD_PA ?e ?pt pa 0x1B ?s1"
  let ?s' = "snd ?r"
  note fill = fill_cells[OF f(2,3,1), of ?e ?r pa "0x1B" ?s1, OF _ _ refl]
  have pt_cells: "umem ?s' (cell ?pt i) = (pa + 4096 * word_of_int i) OR 0x1B" if "0 \<le> i" "i < 512" for i
    using fill(2)[of i] that e by simp
  have dir_cell: "umem ?s' (cell KERNEL_PD_PA ?e) = ?pt OR 0x1B" using fill(3) e by simp
  have top: "umem ?s' (cell a 0) = umem s (cell a 0)" if "table_ok a" "apart a ?pt" "apart a KERNEL_PD_PA" for a
  proof -
    have "cell a 0 \<noteq> cell ?pt i" if "0 \<le> i" "i < 512" for i
      using cell_apart[OF \<open>apart a ?pt\<close> \<open>table_ok a\<close> f(1), of 0 i] that by simp
    moreover have "cell a 0 \<noteq> cell KERNEL_PD_PA ?e"
      using cell_apart[OF \<open>apart a KERNEL_PD_PA\<close> \<open>table_ok a\<close> f(3), of 0 ?e] e by simp
    ultimately show ?thesis using fill(4)[of "cell a 0"] e by simp
  qed
  have t1: "umem ?s' (cell pml4 0) = umem s (cell pml4 0)" and t2: "umem ?s' (cell ?pdpt 0) = umem s (cell ?pdpt 0)"
    using k r top by simp_all
  have frame: "paging ?s' = paging ?s1"
  proof -
    have *: "paging (snd (fold (\<lambda>i (pa, s). (pa + 4096, put_cell ?pt i (pa OR 0x1B) s)) is (x, t))) = paging t"
      for "is" x t by (induction "is" arbitrary: x t) simp_all
    show ?thesis unfolding mm_fill_page_table_def Let_def by (simp add: case_prod_beta *)
  qed
  have run: "mm_map_2mb_region pa va s = Inr (0, ?s')"
    using get_table_pointer_va_ok[of s] r e unfolding next_table_def
    by (simp add: mm_map_2mb_region_def pde_index Let_def)
  have "virtual_to_physical (va + off) pml4 ?s' = Inr (pa + off)" if off: "unat off < 2 ^ 21" for off
  proof -
    let ?i = "unat off div 4096"
    note p = region_pieces[OF assms(3,4) off] and g = page_frame[OF assms(5,6) off]
    have "unat (va + off) < 2 ^ 30" using p(1) assms(4) off by simp
    moreover have "umem ?s' (cell ?pdpt 0) AND frame_mask = KERNEL_PD_PA" using t2 k by simp
    moreover have "(?pt OR 0x1B) AND frame_mask = ?pt" using r by (intro frame_mask_entry) simp_all
    moreover have "((pa + 4096 * word_of_int (int ?i)) OR 0x1B) AND frame_mask = pa + 4096 * word_of_int (int ?i)"
      using g(1) by (intro frame_mask_entry) simp_all
    ultimately have "virtual_to_physical (va + off) pml4 ?s' =
        Inr ((pa + 4096 * word_of_int (int ?i)) + word_of_int (int (unat off mod 4096)))"
      using virtual_to_physical_low[of "va + off" pml4 ?s'] k t1 dir_cell pt_cells[of "int ?i"] p by simp
    then show ?thesis using g(2) by simp
  qed
  moreover have "kernel_tables ?s' pml4" using k t1 t2 by (simp add: kernel_tables_def Let_def)
  ultimately show ?thesis using run frame by (intro exI[of _ ?s']) simp
qed

text \<open>
  Regions above the first gigabyte: the mapping uses only the directory index of the virtual
  address, so it reports success for any address, but maps the region at the same index below
  1 GB, replacing what was mapped there; translating the address that was asked for never returns.
\<close>

lemma high_region_replaces_low:
  assumes "unat va mod 2 ^ 30 = unat low" and "2 ^ 30 \<le> unat va" and "next_table s < FAT_ADDRESS"
    and "next_table s \<noteq> 0"
  shows "(\<exists>s'. mm_map_2mb_region pa va s = Inr (0, s') \<and> mm_map_2mb_region pa low s = Inr (0, s'))
     \<and> (unat va < 2 ^ 48 \<longrightarrow> (\<exists>why. virtual_to_physical va pml4 s = Inl (Hang why)))"
proof -
  have pd: "pd_of va = pd_of low"
  proof -
    have "unat va div 2 ^ 21 mod 512 = unat va mod 2 ^ 30 div 2 ^ 21"
      using mod_mult2_eq[of "unat va" "2 ^ 21" 512] by (simp add: mod_mult2_eq)
    moreover have "unat low < 2 ^ 30" using assms(1) by (metis mod_less_divisor zero_less_numeral zero_less_power)
    ultimately show ?thesis using assms(1) by (simp add: pd_of_def)
  qed
  have "mm_map_2mb_region pa va s = mm_map_2mb_region pa low s"
    unfolding mm_map_2mb_region_def pde_index pd by (rule refl)
  moreover have "\<exists>s'. mm_map_2mb_region pa low s = Inr (0, s')"
    using get_table_pointer_va_ok[of s] assms(3,4) piece_range(1)[of low] unfolding next_table_def
    by (auto simp: mm_map_2mb_region_def pde_index Let_def)
  moreover have "\<exists>why. virtual_to_physical va pml4 s = Inl (Hang why)" if "unat va < 2 ^ 48"
  proof -
    have "unat (ucast (drop_bit 39 va AND 0x1FF) :: u32) \<noteq> 0 \<or> unat (ucast (drop_bit 30 va AND 0x1FF) :: u32) \<noteq> 0"
    proof (rule ccontr)
      assume "\<not> ?thesis"
      then have "unat va div 2 ^ 39 mod 512 = 0" "unat va div 2 ^ 30 mod 512 = 0" by (simp_all only: index_unat) auto
      moreover have "unat va div 2 ^ 39 < 512" using that by (simp add: div_less_iff_less_mult)
      ultimately have "unat va div 2 ^ 39 = 0" "unat va div 2 ^ 30 mod 512 = 0" by simp_all
      moreover have "unat va div 2 ^ 30 div 512 = unat va div 2 ^ 39" by (simp add: div_mult2_eq[symmetric])
      ultimately have "unat va div 2 ^ 30 = 0" by (metis div_mult_mod_eq mult_0 add_0)
      then show False using assms(2) by (simp add: div_eq_0_iff)
    qed
    then show ?thesis unfolding virtual_to_physical_def Let_def by (auto simp: unat_eq_0)
  qed
  ultimately show ?thesis by auto
qed

text \<open>The tables a translation reads, and a place none of them shares.\<close>

definition pdpt_table :: "kstate \<Rightarrow> u64 \<Rightarrow> u64" where
  "pdpt_table s pml4 = umem s (cell pml4 0) AND frame_mask"
definition pd_table :: "kstate \<Rightarrow> u64 \<Rightarrow> u64" where
  "pd_table s pml4 = umem s (cell (pdpt_table s pml4) 0) AND frame_mask"
definition pt_table :: "kstate \<Rightarrow> u64 \<Rightarrow> u64 \<Rightarrow> u64" where
  "pt_table s pml4 va = umem s (cell (pd_table s pml4) (pd_of va)) AND frame_mask"

definition walk_apart :: "kstate \<Rightarrow> u64 \<Rightarrow> u64 \<Rightarrow> u64 \<Rightarrow> bool" where
  "walk_apart s pml4 va dst \<longleftrightarrow> table_ok (pdpt_table s pml4) \<and> apart (pdpt_table s pml4) dst
     \<and> table_ok (pd_table s pml4) \<and> apart (pd_table s pml4) dst
     \<and> table_ok (pt_table s pml4 va) \<and> apart (pt_table s pml4 va) dst"

lemma translate_cong:
  assumes "unat va < 2 ^ 30" "a \<noteq> 0" "b \<noteq> 0" "umem s' (cell b 0) = umem s (cell a 0)"
    "walk_apart s a va dst" "table_ok dst" "\<And>x. (\<And>i. 0 \<le> i \<Longrightarrow> i < 512 \<Longrightarrow> x \<noteq> cell dst i) \<Longrightarrow> umem s' x = umem s x"
  shows "virtual_to_physical va b s' = virtual_to_physical va a s"
proof -
  have same: "umem s' (cell t i) = umem s (cell t i)" if "table_ok t" "apart t dst" "0 \<le> i" "i < 512" for t i
    using cell_apart[OF that(2,1) assms(6) that(3,4)] by (intro assms(7)) auto
  have "umem s' (cell (pdpt_table s a) 0) = umem s (cell (pdpt_table s a) 0)"
    "umem s' (cell (pd_table s a) (pd_of va)) = umem s (cell (pd_table s a) (pd_of va))"
    "umem s' (cell (pt_table s a va) (pt_of va)) = umem s (cell (pt_table s a va) (pt_of va))"
    using same assms(5) piece_range by (simp_all add: walk_apart_def)
  then show ?thesis
    using assms(4) unfolding virtual_to_physical_low[OF assms(1,2)] virtual_to_physical_low[OF assms(1,3)]
    by (simp add: pdpt_table_def pd_table_def pt_table_def)
qed

text \<open>
  C37. A cloned directory: clone_pml4() copies all 512 entries into the next table of the pool; an
  address of the first gigabyte translates through the clone as it does through the original, and
  whatever is later written to the clone's own entries leaves the original's translations alone.
\<close>

theorem clone_shares_translation:
  assumes "pml4 \<noteq> 0" and "table_ok pml4" and "next_table s < FAT_ADDRESS" and "next_table s \<noteq> 0"
    and "apart pml4 (next_table s)"
  shows "\<exists>s'. clone_pml4 pml4 s = Inr (next_table s, s')
     \<and> (\<forall>i. 0 \<le> i \<and> i < 512 \<longrightarrow> umem s' (cell (next_table s) i) = umem s (cell pml4 i))
     \<and> (\<forall>va. unat va < 2 ^ 30 \<and> walk_apart s pml4 va (next_table s) \<longrightarrow>
          virtual_to_physical va (next_table s) s' = virtual_to_physical va pml4 s
        \<and> (\<forall>i v. 0 \<le> i \<and> i < 512 \<longrightarrow>
             virtual_to_physical va pml4 (put_cell (next_table s) i v s') = virtual_to_physical va pml4 s))"
proof -
  let ?dst = "next_table s"
  let ?s1 = "s\<lparr>paging := (paging s)\<lparr>table_pointer_heap_base := ?dst\<rparr>\<rparr>"
  let ?s' = "copy_table pml4 ?dst ?s1"
  have ok: "table_ok ?dst" using assms(3) by (simp add: table_ok_def paging_consts word_less_nat_alt)
  have run: "clone_pml4 pml4 s = Inr (?dst, ?s')"
    using assms(1,3,4) get_table_pointer_va_ok[of s] by (simp add: clone_pml4_def next_table_def)
  have copied: "umem ?s' (cell ?dst i) = umem s (cell pml4 i)" if "0 \<le> i" "i < 512" for i
    using copy_table_cells(1)[OF assms(5,2) ok that, of ?s1] by simp
  have rest: "umem ?s' x = umem s x" if "\<And>i. 0 \<le> i \<Longrightarrow> i < 512 \<Longrightarrow> x \<noteq> cell ?dst i" for x
    using copy_table_cells(2)[OF assms(5,2) ok that, of ?s1] by simp
  have "virtual_to_physical va ?dst ?s' = virtual_to_physical va pml4 s"
    if "unat va < 2 ^ 30" "walk_apart s pml4 va ?dst" for va
    using that copied[of 0] rest assms(1,4) ok by (intro translate_cong[where dst = ?dst]) simp_all
  moreover have "virtual_to_physical va pml4 (put_cell ?dst i v ?s') = virtual_to_physical va pml4 s"
    if va: "unat va < 2 ^ 30" "walk_apart s pml4 va ?dst" and i: "0 \<le> i" "i < 512" for va i v
  proof -
    have "cell pml4 0 \<noteq> cell ?dst j" if "0 \<le> j" "j < 512" for j
      using cell_apart[OF assms(5,2) ok, of 0 j] that by simp
    then show ?thesis
      using va i rest assms(1) ok by (intro translate_cong[where dst = ?dst]) auto
  qed
  ultimately show ?thesis using run copied by blast
qed

text \<open>\<open>k\<close> tables in a row.\<close>

fun take_tables :: "nat \<Rightarrow> kstate \<Rightarrow> u64 list kresult" where
  "take_tables 0 s = Inr ([], s)"
| "take_tables (Suc k) s =
    kbind (take_tables k s) (\<lambda>(ts, s1). kbind (get_table_pointer_va s1) (\<lambda>(t, s2). Inr (ts @ [t], s2)))"

text \<open>
  The table pool: from its start at 0x1000 the pool hands out the 46 tables 0x2000, 0x3000, up
  to 0x2F000, all different, and the 47th request stops the kernel, since nothing is ever given back.
\<close>

lemma table_pool_has_46:
  "take_tables k (table_init s) =
    (if k \<le> 46
     then Inr (map (\<lambda>i. 0x2000 + 0x1000 * word_of_int (int i)) [0..<k],
               s\<lparr>paging := (paging s)\<lparr>table_pointer_heap_base := 0x1000 + 0x1000 * word_of_int (int k)\<rparr>\<rparr>)
     else Inl (KPanic ''get_table_pointer_va: [FIXME] Limits''))"
proof (induction k)
  case 0
  then show ?case by (simp add: table_init_def DANGER_TABLE_POINTER_HEAP_BASE_def)
next
  case (Suc k)
  let ?b = "0x1000 + 0x1000 * word_of_int (int k) :: u64"
  have next_base: "?b + 0x1000 = 0x1000 + 0x1000 * word_of_int (int (Suc k))"
    "?b + 0x1000 = 0x2000 + 0x1000 * word_of_int (int k)" by (simp_all add: distrib_left)
  have "unat (?b + 0x1000) = 0x2000 + 0x1000 * k" if "k \<le> 46"
    unfolding next_base(2) using that page_bytes[of k] by (subst unat_plus_small) simp_all
  then have lim: "FAT_ADDRESS \<le> ?b + 0x1000 \<longleftrightarrow> k = 46" if "k \<le> 46"
    using that by (auto simp: word_le_nat_alt FAT_ADDRESS_def)
  show ?case
  proof (cases "k \<le> 46")
    case k: True
    let ?s = "s\<lparr>paging := (paging s)\<lparr>table_pointer_heap_base := ?b\<rparr>\<rparr>"
    have step: "take_tables (Suc k) (table_init s) = kbind (get_table_pointer_va ?s)
        (\<lambda>(t, s2). Inr (map (\<lambda>i. 0x2000 + 0x1000 * word_of_int (int i)) [0..<k] @ [t], s2))"
      using Suc k by simp
    have get: "get_table_pointer_va ?s = (if k = 46 then Inl (KPanic ''get_table_pointer_va: [FIXME] Limits'')
        else Inr (?b + 0x1000, s\<lparr>paging := (paging s)\<lparr>table_pointer_heap_base := ?b + 0x1000\<rparr>\<rparr>))"
      using lim[OF k] by (simp add: get_table_pointer_va_def Let_def)
    show ?thesis unfolding step get using k next_base by (cases "k = 46") simp_all
  next
    case False
    then show ?thesis using Suc by simp
  qed
qed

section \<open>The page pool\<close>

text \<open>The state in which a page can be taken: a process to charge, heap for its structure.\<close>

definition can_take_page :: "kstate \<Rightarrow> ptr \<Rightarrow> bool" where
  "can_take_page s p \<longleftrightarrow> process_current s p \<and> heap_wf (heap s) \<and> g_pagedpool_va (paging s) \<noteq> 0
     \<and> 112 \<le> unat (g_available_heap (heap s)) \<and> mmblockCount (heap s) + 1 < MMBLOCK_COUNT_MAX"

definition page_va :: "kstate \<Rightarrow> int \<Rightarrow> u64" where
  "page_va s k = g_pagedpool_va (paging s) + word_of_int (k * PAGE_SIZE)"

lemma upd_page_frame [simp]:
  "umem (upd_page q f s) = umem s" "heap (upd_page q f s) = heap s" "pmem (upd_page q f s) = pmem s"
  "gKernelPML4Address (paging (upd_page q f s)) = gKernelPML4Address (paging s)"
  "g_pagedpool_va (paging (upd_page q f s)) = g_pagedpool_va (paging s)"
  "pageAllocList (paging (upd_page q f s)) = pageAllocList (paging s)"
  "pgmem (paging (upd_page q f s)) r = (if r = q then f (pgmem (paging s) q) else pgmem (paging s) r)"
  by (simp_all add: upd_page_def)

lemma set_page_slot_frame [simp]:
  "umem (set_page_slot i q s) = umem s" "heap (set_page_slot i q s) = heap s"
  "pmem (set_page_slot i q s) = pmem s"
  "gKernelPML4Address (paging (set_page_slot i q s)) = gKernelPML4Address (paging s)"
  "g_pagedpool_va (paging (set_page_slot i q s)) = g_pagedpool_va (paging s)"
  "pageAllocList (paging (set_page_slot i q s)) = (pageAllocList (paging s))(i := q)"
  "pgmem (paging (set_page_slot i q s)) = pgmem (paging s)"
  by (simp_all add: set_page_slot_def)

lemma virtual_to_physical_umem:
  assumes "umem s' = umem s"
  shows "virtual_to_physical va pml4 s' = virtual_to_physical va pml4 s"
  unfolding virtual_to_physical_def assms by (rule refl)

text \<open>
  A new page: newPage() takes the first empty slot \<open>k\<close> of the list, returns the page \<open>k\<close> of the
  pool, and registers a structure with the index \<open>k\<close>, one reference and the frame number of the
  physical address the kernel's tables give the page; no other slot and no other structure changes,
  and the current process pays the 40 bytes of the structure.
\<close>

lemma new_page_in_first_empty_slot:
  assumes "can_take_page s p" and "find (page_empty s) (slots 0 PAGE_COUNT_MAX) = Some k"
    and "page_va s k \<noteq> 0"
    and "virtual_to_physical (page_va s k) (gKernelPML4Address (paging s)) s = Inr pa" and "pa \<noteq> 0"
  shows "\<exists>s' q. newPage s = Inr (page_va s k, s') \<and> q \<noteq> NULL
     \<and> pageAllocList (paging s') = (pageAllocList (paging s))(k := q)
     \<and> g_id (pgmem (paging s') q) = k \<and> g_ref_count (pgmem (paging s') q) = 1
     \<and> g_absolute_frame_number (pgmem (paging s') q) = ucast (pa div 4096)
     \<and> (\<forall>r. r \<noteq> q \<longrightarrow> pgmem (paging s') r = pgmem (paging s) r)
     \<and> p_allocated_memory (pmem s' p) = p_allocated_memory (pmem s p) + 40
     \<and> heap_wf (heap s') \<and> mmblockCount (heap s') = mmblockCount (heap s) + 1
     \<and> unat (g_available_heap (heap s')) + 112 = unat (g_available_heap (heap s))"
proof -
  note c = assms(1)[unfolded can_take_page_def]
  have sz: "page_d_size = 40" "max 1 (40 :: int) = 40" by (simp_all add: page_d_size_def)
  obtain h' where h': "kmalloc 40 s = Inr (g_heap_pointer (heap s) + 72,
         upd_process p (\<lambda>r. r\<lparr>p_allocated_memory := p_allocated_memory r + word_of_int 40\<rparr>) (s\<lparr>heap := h'\<rparr>))"
      "heap_wf h'" "mmblockCount h' = mmblockCount (heap s) + 1"
      "unat (g_available_heap h') + 112 = unat (g_available_heap (heap s))"
      "g_heap_pointer (heap s) + 72 \<noteq> 0"
    using kmalloc_result[of s p 40] c by auto
  let ?q = "unat (g_heap_pointer (heap s) + 72)"
  have q: "?q \<noteq> NULL" using h'(5) by (simp add: unat_eq_0)
  let ?s1 = "upd_process p (\<lambda>r. r\<lparr>p_allocated_memory := p_allocated_memory r + word_of_int 40\<rparr>) (s\<lparr>heap := h'\<rparr>)"
  let ?s2 = "set_page_slot k ?q (upd_page ?q (\<lambda>_. zero_page\<lparr>g_id := k, g_used := TRUE, g_magic := 1234,
                                   g_free := FALSE, g_next := NULL\<rparr>) ?s1)"
  let ?s3 = "upd_page ?q (\<lambda>r. r\<lparr>g_locked := FALSE, g_ref_count := 1\<rparr>) ?s2"
  have obj: "pageObject s = Inr (?q, ?s2)"
    using assms(2) h'(1) q sz by (simp add: pageObject_def Let_def)
  have k: "0 \<le> k" "k < PAGE_COUNT_MAX" using find_slots_first[OF assms(2)] by simp_all
  have pg: "gKernelPML4Address (paging ?s3) = gKernelPML4Address (paging s)" "umem ?s3 = umem s"
    "g_id (pgmem (paging ?s2) ?q) = k" "g_used (pgmem (paging ?s2) ?q) = 1"
    "g_magic (pgmem (paging ?s2) ?q) = 1234"
    by simp_all
  have tr: "virtual_to_physical (page_va s k) (gKernelPML4Address (paging ?s3)) ?s3 = Inr pa"
    unfolding pg(1) using virtual_to_physical_umem[OF pg(2)] assms(4) by simp
  let ?a = "if pa mod 4096 \<noteq> 0 then pa - pa mod 4096 else pa"
  have al: "?a div 4096 = pa div 4096"
  proof -
    have "pa - pa mod 4096 = 4096 * (pa div 4096)" by (simp add: minus_mod_eq_mult_div)
    moreover have "unat (4096 * (pa div 4096)) = 4096 * (unat pa div 4096)"
    proof -
      have "4096 * (unat pa div 4096) \<le> unat pa" by simp
      then have "unat (4096 :: u64) * unat (pa div 4096) < 2 ^ LENGTH(64)"
        using unsigned_less[of pa, where 'a = nat] by (simp add: unat_div_distrib)
      then show ?thesis by (simp add: unat_mult_lem[THEN iffD1] unat_div_distrib)
    qed
    ultimately have "(pa - pa mod 4096) div 4096 = pa div 4096"
      by (simp add: word_unat_eq_iff unat_div_distrib)
    then show ?thesis by simp
  qed
  let ?s4 = "upd_page ?q (\<lambda>r. r\<lparr>g_absolute_frame_number := ucast (?a div 4096)\<rparr>) ?s3"
  have "newPage s = Inr (page_va s k, ?s4)"
    unfolding newPage_def Let_def obj using c q k pg(3-5) assms(3,5) tr
    by (simp add: page_va_def)
  then show ?thesis
    using q h'(2-4) al by (intro exI[of _ ?s4] exI[of _ ?q]) simp
qed

text \<open>
  Pages never come back: freePage() marks a structure as free but its slot stays taken, so once
  the 512 slots are in use newPage() stops the kernel, whichever pages have been freed.
\<close>

lemma full_pool_panics:
  assumes "\<forall>i. 0 \<le> i \<and> i < PAGE_COUNT_MAX \<longrightarrow> pageAllocList (paging s) i \<noteq> NULL"
    and "g_pagedpool_va (paging s) \<noteq> 0"
  shows "newPage (fold freePage ps s) = Inl (KPanic ''newPage: New'')"
proof -
  have keep: "pageAllocList (paging (fold freePage ps s)) = pageAllocList (paging s)"
    "g_pagedpool_va (paging (fold freePage ps s)) = g_pagedpool_va (paging s)"
    by (rule fold_keeps, simp add: freePage_def)+
  have "find (page_empty (fold freePage ps s)) (slots 0 PAGE_COUNT_MAX) = None"
    using assms(1) by (simp add: find_slots_None page_empty_def keep)
  then show ?thesis using assms(2) by (simp add: newPage_def pageObject_def keep)
qed

text \<open>
  More than one page at a time: allocPages() with two pages or more never returns, whatever the
  state; where nothing else stops it, it writes through a pointer it never set.
\<close>

lemma alloc_pages_always_faults:
  assumes "2 \<le> n"
  shows "\<exists>why. allocPages n s = Inl why"
proof (cases "allocPages n s")
  case (Inr r)
  then have False using assms
    by (auto simp: allocPages_def Let_def kbind_Inr_iff split: if_splits option.splits)
  then show ?thesis ..
qed simp

text \<open>The process a slab request is charged to stays the current one.\<close>

lemma process_current_slab_take [simp]:
  "process_current (snd (slab_take p i s)) q = process_current s q"
  "pool_initialized (paging (snd (slab_take p i s))) = pool_initialized (paging s)"
  "pool_Free (paging (snd (slab_take p i s))) = (pool_Free (paging s))(i := FALSE)"
  "pool_va (paging (snd (slab_take p i s))) = pool_va (paging s)"
  "fst (slab_take p i s) = pool_va (paging s) i"
  by (auto simp: slab_take_def Let_def process_current_def charge_def)

lemma slab_take_charge:
  "p \<noteq> NULL \<Longrightarrow> pmem (snd (slab_take p i s)) = (pmem s)(p := (pmem s p)
     \<lparr>p_allocated_memory := p_allocated_memory (pmem s p) + 1048576\<rparr>)"
  by (simp add: slab_take_def Let_def charge_def fun_eq_iff)

lemma slab_1MB_allocator_current:
  assumes "process_current s p" "pool_initialized (paging s) = TRUE"
  shows "slab_1MB_allocator s =
    (case find (\<lambda>i. pool_Free (paging s) i = TRUE) (slots 0 4) of
       None \<Rightarrow> Inr (0, s) | Some i \<Rightarrow> Inr (slab_take p i s))"
proof -
  have four: "slots 0 4 = [0, 1, 2, 3]" by (simp add: slots_def upto_rec_numeral upto.simps)
  have "p \<noteq> NULL" "p_magic (pmem s p) = 1234" using assms(1) by (auto simp: process_current_def)
  then show ?thesis
    unfolding slab_1MB_allocator_def four using assms get_current_process_pointer_current[OF assms(1)] by simp
qed

text \<open>
  The 1 MB buffers: after slab_initialize() the allocator hands out exactly four buffers, the two
  halves of each extra heap, charges the current process one megabyte for each and nobody else, and
  answers every further request with 0, because a buffer is never given back.
\<close>

lemma slab_hands_out_four:
  assumes "process_current s p" and "slab_initialize s = Inr s0"
  shows "\<exists>s4. alloc_all (\<lambda>_. slab_1MB_allocator) [1, 2, 3, 4] s0
      = Inr ([g_extraheap2_va (paging s), g_extraheap2_va (paging s) + 0x100000,
              g_extraheap3_va (paging s), g_extraheap3_va (paging s) + 0x100000], s4)
     \<and> pmem s4 = (pmem s)(p := (pmem s p)\<lparr>p_allocated_memory := p_allocated_memory (pmem s p) + 4 * 0x100000\<rparr>)
     \<and> slab_1MB_allocator s4 = Inr (0, s4)"
proof -
  let ?P = "paging s0"
  have i: "pool_initialized ?P = TRUE" "pool_Free ?P = (pool_Free (paging s))(0 := TRUE, 1 := TRUE, 2 := TRUE, 3 := TRUE)"
    "pool_va ?P 0 = g_extraheap2_va (paging s)" "pool_va ?P 1 = g_extraheap2_va (paging s) + 0x100000"
    "pool_va ?P 2 = g_extraheap3_va (paging s)" "pool_va ?P 3 = g_extraheap3_va (paging s) + 0x100000"
    "process_current s0 p" "pmem s0 = pmem s"
    using assms by (auto simp: slab_initialize_def Let_def process_current_def split: if_splits)
  have p: "p \<noteq> NULL" using assms(1) by (simp add: process_current_def)
  have four: "slots 0 4 = [0, 1, 2, 3]" by (simp add: slots_def upto_rec_numeral upto.simps)
  let ?t0 = "snd (slab_take p 0 s0)"
  let ?t1 = "snd (slab_take p 1 ?t0)"
  let ?t2 = "snd (slab_take p 2 ?t1)"
  let ?t3 = "snd (slab_take p 3 ?t2)"
  have step: "slab_1MB_allocator s0 = Inr (pool_va ?P 0, ?t0)" "slab_1MB_allocator ?t0 = Inr (pool_va ?P 1, ?t1)"
    "slab_1MB_allocator ?t1 = Inr (pool_va ?P 2, ?t2)" "slab_1MB_allocator ?t2 = Inr (pool_va ?P 3, ?t3)"
    "slab_1MB_allocator ?t3 = Inr (0, ?t3)"
    using i by (simp_all add: slab_1MB_allocator_current[of _ p] four prod_eq_iff)
  have "pmem ?t3 = (pmem s)(p := (pmem s p)\<lparr>p_allocated_memory := p_allocated_memory (pmem s p) + 4 * 0x100000\<rparr>)"
    by (simp add: slab_take_charge[OF p] i(8) ac_simps)
  then show ?thesis using step i(3-6) by (intro exI[of _ ?t3]) simp
qed

section \<open>Witnesses\<close>

text \<open>Top tables at 0x50000 and 0x51000, and the first page of a pool mapped through a table at 0x52000.\<close>

definition demo_pages :: kstate where
  "demo_pages = demo_mm\<lparr>umem := (\<lambda>x. if x = 0x50000 then 0x51007 else if x = 0x51000 then 0x9A007
       else if x = 0x9AC28 then 0x52007 else if x = 0x52000 then 0x1000007 else 0),
     paging := zero_paging\<lparr>table_pointer_heap_base := 0x1000, gKernelPML4Address := 0x50000,
       g_pagedpool_va := 0x30A00000, g_extraheap2_va := 0x30E00000, g_extraheap3_va := 0x31000000\<rparr>\<rparr>"

lemma demo_pages_simps [simp]:
  "umem demo_pages x = (if x = 0x50000 then 0x51007 else if x = 0x51000 then 0x9A007
       else if x = 0x9AC28 then 0x52007 else if x = 0x52000 then 0x1000007 else 0)"
  "table_pointer_heap_base (paging demo_pages) = 0x1000" "gKernelPML4Address (paging demo_pages) = 0x50000"
  "g_pagedpool_va (paging demo_pages) = 0x30A00000" "g_extraheap2_va (paging demo_pages) = 0x30E00000"
  "g_extraheap3_va (paging demo_pages) = 0x31000000" "pageAllocList (paging demo_pages) i = NULL"
  "heap demo_pages = demo_heap"
  by (simp_all add: demo_pages_def zero_paging_def demo_mm_current)

lemma demo_pages_current: "process_current demo_pages 7"
  using demo_mm_current(1) by (simp add: process_current_def demo_pages_def)

lemma demo_pages_tables:
  "kernel_tables demo_pages 0x50000" "table_room demo_pages 0x50000" "next_table demo_pages = 0x2000"
  by (simp_all add: kernel_tables_def table_room_def next_table_def cell_def frame_mask_def paging_consts
    table_ok_def apart_def frame_ok_def Let_def)

theorem map_region_translates_witness:
  "\<exists>s'. mm_map_2mb_region 0x3000000 0x200000 demo_pages = Inr (0, s')
     \<and> virtual_to_physical 0x201234 0x50000 s' = Inr 0x3001234"
proof -
  have pre: "unat (0x200000 :: u64) mod 2 ^ 21 = 0" "unat (0x200000 :: u64) + 2 ^ 21 \<le> 2 ^ 30"
    "unat (0x3000000 :: u64) mod 4096 = 0" "unat (0x3000000 :: u64) + 2 ^ 21 \<le> 2 ^ 48" by simp_all
  obtain s' where "mm_map_2mb_region 0x3000000 0x200000 demo_pages = Inr (0, s')"
      "\<forall>off. unat off < 2 ^ 21 \<longrightarrow> virtual_to_physical (0x200000 + off) 0x50000 s' = Inr (0x3000000 + off)"
    using map_region_translates[OF demo_pages_tables(1,2) pre] by blast
  then show ?thesis by (auto dest: spec[of _ "0x1234"])
qed

lemma high_region_replaces_low_example:
  "(\<exists>s'. mm_map_2mb_region 0 0x40200000 demo_pages = Inr (0, s') \<and> mm_map_2mb_region 0 0x200000 demo_pages = Inr (0, s'))
   \<and> (\<exists>why. virtual_to_physical 0x40200000 0x50000 demo_pages = Inl (Hang why))"
proof -
  have pre: "unat (0x40200000 :: u64) mod 2 ^ 30 = unat (0x200000 :: u64)" "2 ^ 30 \<le> unat (0x40200000 :: u64)"
    "next_table demo_pages < FAT_ADDRESS" "next_table demo_pages \<noteq> 0" "unat (0x40200000 :: u64) < 2 ^ 48"
    by (simp_all add: demo_pages_tables(3) FAT_ADDRESS_def)
  show ?thesis using high_region_replaces_low[OF pre(1-4)] pre(5) by blast
qed

theorem clone_shares_translation_witness:
  "\<exists>s'. clone_pml4 0x50000 demo_pages = Inr (0x2000, s')
     \<and> virtual_to_physical 0x30A00010 0x2000 s' = virtual_to_physical 0x30A00010 0x50000 demo_pages"
proof -
  have pre: "(0x50000 :: u64) \<noteq> 0" "table_ok 0x50000" "next_table demo_pages < FAT_ADDRESS"
    "next_table demo_pages \<noteq> 0" "apart 0x50000 (next_table demo_pages)"
    by (simp_all add: demo_pages_tables(3) FAT_ADDRESS_def table_ok_def apart_def)
  have walk: "unat (0x30A00010 :: u64) < 2 ^ 30" "walk_apart demo_pages 0x50000 0x30A00010 (next_table demo_pages)"
    by (simp_all add: walk_apart_def pdpt_table_def pd_table_def pt_table_def pd_of_def cell_def frame_mask_def
      table_ok_def apart_def demo_pages_tables(3))
  obtain s' where "clone_pml4 0x50000 demo_pages = Inr (next_table demo_pages, s')"
      "\<forall>va. unat va < 2 ^ 30 \<and> walk_apart demo_pages 0x50000 va (next_table demo_pages) \<longrightarrow>
          virtual_to_physical va (next_table demo_pages) s' = virtual_to_physical va 0x50000 demo_pages"
    using clone_shares_translation[OF pre] by blast
  then show ?thesis using walk unfolding demo_pages_tables(3) by blast
qed

lemma new_page_in_first_empty_slot_example:
  "\<exists>s'. newPage demo_pages = Inr (0x30A00000, s')
     \<and> p_allocated_memory (pmem s' 7) = p_allocated_memory (pmem demo_pages 7) + 40"
proof -
  have "slots 0 PAGE_COUNT_MAX = 0 # slots 1 PAGE_COUNT_MAX"
    by (simp add: slots_Cons PAGE_COUNT_MAX_def)
  then have f: "find (page_empty demo_pages) (slots 0 PAGE_COUNT_MAX) = Some 0" by (simp add: page_empty_def)
  have c: "can_take_page demo_pages 7"
    using demo_pages_current by (simp add: can_take_page_def MMBLOCK_COUNT_MAX_def)
  have va: "page_va demo_pages 0 = 0x30A00000" by (simp add: page_va_def)
  have tr: "virtual_to_physical (page_va demo_pages 0) (gKernelPML4Address (paging demo_pages)) demo_pages
      = Inr 0x1000000"
    unfolding va demo_pages_simps
    by (subst virtual_to_physical_low) (simp_all add: cell_def frame_mask_def pd_of_def pt_of_def)
  have "page_va demo_pages 0 \<noteq> 0" "(0x1000000 :: u64) \<noteq> 0" by (simp_all add: va)
  then show ?thesis using new_page_in_first_empty_slot[OF c f _ tr] unfolding va by blast
qed

lemma full_pool_panics_example:
  "newPage (fold freePage [101, 102]
      (demo_pages\<lparr>paging := (paging demo_pages)\<lparr>pageAllocList := \<lambda>i. nat i + 101\<rparr>\<rparr>))
    = Inl (KPanic ''newPage: New'')"
  by (rule full_pool_panics) simp_all

lemma alloc_pages_always_faults_example: "\<exists>why. allocPages 2 demo_pages = Inl why"
  by (rule alloc_pages_always_faults) simp

lemma slab_hands_out_four_example:
  "\<exists>s0 s4. slab_initialize demo_pages = Inr s0
     \<and> alloc_all (\<lambda>_. slab_1MB_allocator) [1, 2, 3, 4] s0
        = Inr ([0x30E00000, 0x30F00000, 0x31000000, 0x31100000], s4)"
proof -
  obtain s0 where s0: "slab_initialize demo_pages = Inr s0"
    by (simp add: slab_initialize_def Let_def)
  then show ?thesis using slab_hands_out_four[OF demo_pages_current s0] by auto
qed

end
