(* ===== verification/KSystem.thy ===== *)
theory KSystem
  imports KPaging
begin

text \<open>
  The thread part of the kernel as one transition system: \<open>kstep s e s'\<close> is one operation that
  returns, labelled by what it does to the mail of a thread, and \<open>trace\<close> a sequence of them. The
  operations are those of the other theories, with the timer, the user program and the memory
  manager as the step \<open>environment\<close>, which changes anything but threads and messages. An
  operation that faults or never returns makes no step.

  \<open>kept\<close> is the frame of everything outside ipc.c: the thread table, the message structures, and
  the identity and ring of every thread that is still valid. Its rules follow the operations'
  text, so each operation's frame is one line. \<open>office\<close> is the abstract specification: the events
  acting on a list of waiting messages.
\<close>

section \<open>What every operation outside ipc.c keeps\<close>

definition same_mail :: "thread_d \<Rightarrow> thread_d \<Rightarrow> bool" where
  "same_mail r r' \<longleftrightarrow> (t_used r' = TRUE \<and> t_magic r' = 1234 \<longrightarrow> same_identity r' r)"

definition kept :: "kstate \<Rightarrow> kstate \<Rightarrow> bool" where
  "kept s s' \<longleftrightarrow> threadList s' = threadList s \<and> mmem s' = mmem s
     \<and> (\<forall>p. same_mail (tmem s p) (tmem s' p))"

definition keeps :: "kstate \<Rightarrow> 'e + kstate \<Rightarrow> bool" where
  "keeps s r \<longleftrightarrow> (\<forall>s'. r = Inr s' \<longrightarrow> kept s s')"

definition keeps_res :: "kstate \<Rightarrow> 'e + ('a \<times> kstate) \<Rightarrow> bool" where
  "keeps_res s r \<longleftrightarrow> (\<forall>x s'. r = Inr (x, s') \<longrightarrow> kept s s')"

lemma kept_refl: "kept s s"
  by (simp add: kept_def same_mail_def)

lemma kept_trans: "kept a b \<Longrightarrow> kept b c \<Longrightarrow> kept a c"
  unfolding kept_def same_mail_def same_identity_def by metis

lemma kept_upd:
  assumes "kept s s0" "\<And>r. same_mail r (f r)"
  shows "kept s (upd_thread p f s0)"
proof -
  have "kept s0 (upd_thread p f s0)" using assms(2) by (simp add: kept_def same_mail_def)
  then show ?thesis using kept_trans assms(1) by blast
qed

lemma kept_fields:
  assumes "kept s s0" "threadList s' = threadList s0" "tmem s' = tmem s0" "mmem s' = mmem s0"
  shows "kept s s'"
  using assms by (simp add: kept_def)

lemma kept_if: "kept s a \<Longrightarrow> kept s b \<Longrightarrow> kept s (if c then a else b)"
  by simp

lemma kept_let_state: "kept s e \<Longrightarrow> (\<And>x :: kstate. kept s x \<Longrightarrow> kept s (f x)) \<Longrightarrow> kept s (Let e f)"
  by simp

lemma kept_let: "(\<And>x. kept s (f x)) \<Longrightarrow> kept s (Let e f)"
  by simp

lemma keeps_intros:
  "keeps s (Inl e)" "kept s s' \<Longrightarrow> keeps s (Inr s')"
  "keeps s a \<Longrightarrow> keeps s b \<Longrightarrow> keeps s (if c then a else b)"
  by (simp_all add: keeps_def)

lemma keeps_let_state: "kept s e \<Longrightarrow> (\<And>x :: kstate. kept s x \<Longrightarrow> keeps s (f x)) \<Longrightarrow> keeps s (Let e f)"
  by simp

lemma keeps_let: "(\<And>x. keeps s (f x)) \<Longrightarrow> keeps s (Let e f)"
  by simp

lemma keeps_res_intros:
  "keeps_res s (Inl e)" "kept s s' \<Longrightarrow> keeps_res s (Inr (x, s'))"
  "keeps_res s a \<Longrightarrow> keeps_res s b \<Longrightarrow> keeps_res s (if c then a else b)"
  by (simp_all add: keeps_res_def)

lemma keeps_res_let_state:
  "kept s e \<Longrightarrow> (\<And>x :: kstate. kept s x \<Longrightarrow> keeps_res s (f x)) \<Longrightarrow> keeps_res s (Let e f)"
  by simp

lemma keeps_res_let: "(\<And>x. keeps_res s (f x)) \<Longrightarrow> keeps_res s (Let e f)"
  by simp

lemma keeps_binds:
  "keeps s m \<Longrightarrow> (\<And>x. kept s x \<Longrightarrow> keeps s (f x)) \<Longrightarrow> keeps s (kbind m f)"
  "keeps s m \<Longrightarrow> (\<And>x. kept s x \<Longrightarrow> keeps_res s (g x)) \<Longrightarrow> keeps_res s (kbind m g)"
  "keeps_res s n \<Longrightarrow> (\<And>y x. kept s x \<Longrightarrow> keeps s (h (y, x))) \<Longrightarrow> keeps s (kbind n h)"
  "keeps_res s n \<Longrightarrow> (\<And>y x. kept s x \<Longrightarrow> keeps_res s (k (y, x))) \<Longrightarrow> keeps_res s (kbind n k)"
  by (auto simp: keeps_def keeps_res_def kbind_Inr_iff)

lemma keeps_kfold:
  assumes "kept s s0" "\<And>i x. kept s x \<Longrightarrow> keeps s (f i x)"
  shows "keeps s (kfold f xs s0)"
  using kfold_invariant[of f xs s0 _ "kept s"] assms unfolding keeps_def by blast

text \<open>The rules in the order they are tried; the side conditions are left to the simplifier.\<close>

lemmas kept_rules = kept_let_state kept_let kept_if kept_upd keeps_intros keeps_let_state keeps_let
  keeps_res_intros keeps_res_let_state keeps_res_let keeps_binds

lemma guarded_kept:
  assumes "guarded_thread_op operation update" "kept s s0"
  shows "kept s (operation tid s0)"
proof -
  have "kept s0 (operation tid s0)"
    using guarded_thread_op.keeps_identity[OF assms(1), where tid = tid and s = s0]
      guarded_thread_op.table_frame[OF assms(1), where tid = tid and s = s0]
    by (simp add: kept_def same_mail_def)
  then show ?thesis using kept_trans assms(2) by blast
qed

lemmas kept_guarded =
  guarded_kept[OF ready_op.guarded_thread_op_axioms] guarded_kept[OF blocked_op.guarded_thread_op_axioms]
  guarded_kept[OF sleep_until_op.guarded_thread_op_axioms]

text \<open>Updates that keep the mail of a thread, and changes of a global.\<close>

lemma same_mail_id: "same_identity r' r \<Longrightarrow> same_mail r r'"
  by (simp add: same_mail_def)

lemmas kept_sides = same_mail_def same_identity_def

section \<open>The scheduler\<close>

lemma kept_rr_waiting: "kept s s0 \<Longrightarrow> kept s (rr_waiting p s0)"
  unfolding rr_waiting_def
  by (rule kept_rules kept_guarded | assumption | simp add: kept_sides)+

lemma kept_rr_quantum: "kept s s0 \<Longrightarrow> kept s (rr_quantum i p s0)"
  unfolding rr_quantum_def
  by (rule kept_rules | assumption | simp add: kept_sides)+

lemma kept_rr_balance: "kept s s0 \<Longrightarrow> kept s (rr_balance p s0)"
  unfolding rr_balance_def
  by (rule kept_rules | assumption | simp add: kept_sides)+

lemma kept_rr_link: "kept s s0 \<Longrightarrow> kept s (rr_link p s0)"
  unfolding rr_link_def
  by (rule kept_rules | assumption | simp add: kept_sides | erule kept_fields)+

lemma keeps_rr_ready: "kept s s0 \<Longrightarrow> keeps s (rr_ready i p s0)"
  unfolding rr_ready_def
  by (rule kept_rules kept_rr_quantum kept_rr_balance kept_rr_link | assumption | simp add: kept_sides | erule kept_fields)+

lemma kept_rr_exit: "kept s s0 \<Longrightarrow> kept s (rr_exit i p s0)"
  unfolding rr_exit_def
  by (rule kept_rules | assumption | simp add: kept_sides | erule kept_fields)+

lemma kept_rr_credits: "kept s s0 \<Longrightarrow> kept s (rr_credits p s0)"
  unfolding rr_credits_def
  by (rule kept_rules | assumption | simp add: kept_sides | erule kept_fields)+

text \<open>A zombie leaves the table's valid threads, and the step that does it ends in the null dereference.\<close>

lemma keeps_rr_zombie: "kept s s0 \<Longrightarrow> keeps_res s (rr_zombie p s0)"
  unfolding rr_zombie_def
  by (rule kept_rules | assumption | simp add: kept_sides | erule kept_fields)+

lemma keeps_rr_step: "kept s s0 \<Longrightarrow> keeps s (rr_step i n s0)"
  unfolding rr_step_def
  by (rule kept_rules kept_rr_credits kept_rr_exit keeps_rr_ready keeps_rr_zombie kept_rr_waiting | assumption | simp add: kept_sides | erule kept_fields)+

lemma kept_rr_clear: "kept s s0 \<Longrightarrow> kept s (rr_clear s0)"
  unfolding rr_clear_def
  by (rule kept_rules | assumption | simp add: kept_sides | erule kept_fields)+

lemma kept_rr_idle: "kept s s0 \<Longrightarrow> kept s (rr_idle i s0)"
  unfolding rr_idle_def
  by (rule kept_rules | assumption | simp add: kept_sides | erule kept_fields)+

lemma kept_qlist: "kept s s0 \<Longrightarrow> kept s (snd (qlist_set_element i p s0))"
  by (simp add: qlist_set_element_def kept_def)

lemma kept_rr_heads: "kept s s0 \<Longrightarrow> kept s (rr_heads i s0)"
  unfolding rr_heads_def
  by (rule kept_rules kept_qlist | assumption | simp add: kept_sides | erule kept_fields)+

lemma keeps_rr_prologue: "kept s s0 \<Longrightarrow> keeps s (rr_prologue s0)"
  unfolding rr_prologue_def
  by (rule kept_rules kept_rr_clear kept_rr_idle kept_rr_heads kept_guarded | assumption | simp add: kept_sides | erule kept_fields)+

lemma keeps_scheduler_rr: "kept s s0 \<Longrightarrow> keeps_res s (scheduler_rr s0)"
  unfolding scheduler_rr_def
  by (rule kept_rules keeps_rr_prologue keeps_kfold keeps_rr_step | assumption | simp add: kept_sides | erule kept_fields)+

lemma keeps_scheduler: "kept s s0 \<Longrightarrow> keeps_res s (scheduler s0)"
  unfolding scheduler_def split_def
  by (rule kept_rules keeps_scheduler_rr | assumption | simp add: kept_sides | erule kept_fields)+

lemma keeps_psScheduler: "kept s s0 \<Longrightarrow> keeps_res s (psScheduler s0)"
  unfolding psScheduler_def
  by (rule kept_rules keeps_scheduler | assumption | simp add: kept_sides | erule kept_fields)+

section \<open>The task switch\<close>

text \<open>The small setters of globals.\<close>

lemma kept_setters:
  "kept s s0 \<Longrightarrow> kept s (set_current_process pid s0)"
  "kept s s0 \<Longrightarrow> kept s (set_current_thread tid s0)"
  "kept s s0 \<Longrightarrow> kept s (set_taskswitch_status st s0)"
  "kept s s0 \<Longrightarrow> kept s (scheduler_unlock s0)"
  "kept s s0 \<Longrightarrow> kept s (check_for_dead_thread_collector s0)"
  by (auto simp: set_current_process_def set_current_thread_def set_taskswitch_status_def
    scheduler_unlock_def check_for_dead_thread_collector_def Let_def kept_def)

lemma keeps_save: "kept s s0 \<Longrightarrow> keeps s (save_current_context s0)"
  unfolding save_current_context_def
  by (rule kept_rules | assumption | simp add: kept_sides | erule kept_fields)+

lemma keeps_restore: "kept s s0 \<Longrightarrow> keeps s (restore_current_context s0)"
  unfolding restore_current_context_def
  by (rule kept_rules | assumption | simp add: kept_sides | erule kept_fields)+

lemma keeps_count: "kept s s0 \<Longrightarrow> keeps s (IncrementDispatcherCount n s0)"
  by (auto simp: IncrementDispatcherCount_def keeps_def kept_def split: option.splits)

lemma keeps_dispatcher: "kept s s0 \<Longrightarrow> keeps s (dispatcher n s0)"
  unfolding dispatcher_def
  by (rule kept_rules keeps_restore | assumption | simp add: kept_sides | erule kept_fields)+

lemma kept_spawn_prepare: "kept s s0 \<Longrightarrow> kept s (spawn_prepare t s0)"
  unfolding spawn_prepare_def
  by (rule kept_rules | assumption | simp add: kept_sides | erule kept_fields)+

lemma keeps_spawn: "kept s s0 \<Longrightarrow> keeps_res s (spawn_thread_by_tid_imp tid s0)"
  unfolding spawn_thread_by_tid_imp_def
  by (rule kept_rules kept_setters kept_spawn_prepare keeps_count | assumption | simp add: kept_sides | erule kept_fields)+

lemma keeps_psSpawn: "kept s s0 \<Longrightarrow> keeps_res s (psSpawnThreadByTID tid s0)"
  unfolding psSpawnThreadByTID_def split_def
  by (rule kept_rules keeps_spawn | assumption | simp add: kept_sides | erule kept_fields)+

lemma keeps_standby: "kept s s0 \<Longrightarrow> keeps_res s (schedi_check_for_standby s0)"
  unfolding schedi_check_for_standby_def split_def
  by (cases "find (standby_at s0) (slots 0 THREAD_COUNT_MAX)", simp_all only: option.case)
    (rule kept_rules kept_setters keeps_psSpawn | assumption | simp)+

lemma keeps_finished: "kept s s0 \<Longrightarrow> keeps_res s (tsOnFinishedExecuting t s0)"
  unfolding tsOnFinishedExecuting_def split_def
  by (rule kept_rules keeps_standby kept_setters | assumption | simp add: kept_sides | erule kept_fields)+

lemma keeps_ts_pick: "kept s s0 \<Longrightarrow> keeps s (ts_pick s0)"
  unfolding ts_pick_def split_def
  by (rule kept_rules keeps_psScheduler | assumption | simp add: kept_sides | erule kept_fields)+

lemma kept_ts_limits: "kept s s0 \<Longrightarrow> kept s (ts_limits t s0)"
  unfolding ts_limits_def
  by (rule kept_rules | assumption | simp add: kept_sides | erule kept_fields)+

lemma keeps_ts_dispatch: "kept s s0 \<Longrightarrow> keeps s (ts_dispatch_current s0)"
  unfolding ts_dispatch_current_def
  by (rule kept_rules keeps_count kept_ts_limits keeps_dispatcher kept_setters | assumption | simp add: kept_sides | erule kept_fields)+

lemma keeps_ts_account: "kept s s0 \<Longrightarrow> keeps s (ts_account t s0)"
  unfolding ts_account_def
  by (rule kept_rules kept_setters | assumption | simp add: kept_sides | erule kept_fields)+

lemma keeps_in_quantum: "kept s s0 \<Longrightarrow> keeps s (ts_in_quantum t s0)"
  unfolding ts_in_quantum_def
  by (rule kept_rules kept_guarded keeps_count | assumption | simp add: kept_sides | erule kept_fields)+

lemma keepsD: "keeps s r \<Longrightarrow> r = Inr s' \<Longrightarrow> kept s s'"
  "keeps_res s q \<Longrightarrow> q = Inr (x, s') \<Longrightarrow> kept s s'"
  by (simp_all add: keeps_def keeps_res_def)

lemma keeps_zero_gravity: "kept s s0 \<Longrightarrow> zero_gravity n s0 = Some (Inr s') \<Longrightarrow> kept s s'"
proof (induction n s0 rule: zero_gravity.induct)
  case (1 s0)
  then show ?case by simp
next
  case (2 n s0)
  obtain s1 where s1: "ts_pick s0 = Inr s1"
    using "2.prems"(2) by (cases "ts_pick s0") auto
  have k1: "kept s s1" using keepsD(1)[OF keeps_ts_pick[OF "2.prems"(1)] s1] .
  let ?t = "currentq s1"
  let ?retry = "?t = NULL \<or> t_used (tmem s1 ?t) \<noteq> TRUE \<or> t_magic (tmem s1 ?t) \<noteq> 1234
    \<or> t_state (tmem s1 ?t) \<noteq> READY"
  show ?case
  proof (cases ?retry)
    case True
    then obtain tid s2 where s2: "psScheduler s1 = Inr (tid, s2)"
        "zero_gravity n (s2\<lparr>current_thread := tid\<rparr>) = Some (Inr s')"
      using "2.prems"(2) s1 by (cases "psScheduler s1") auto
    have "kept s (s2\<lparr>current_thread := tid\<rparr>)"
      by (rule kept_fields[OF keepsD(2)[OF keeps_psScheduler[OF k1] s2(1)]]) simp_all
    from "2.IH"[OF s1 refl True s2(1) refl this s2(2)] show ?thesis .
  next
    case False
    then have "s' = s1\<lparr>current_thread := t_tid (tmem s1 ?t)\<rparr>" using "2.prems"(2) s1 by simp
    then show ?thesis by (auto intro: kept_fields[OF k1])
  qed
qed

text \<open>The same calculus for results with fuel.\<close>

definition keeps_opt :: "kstate \<Rightarrow> ('e + ('a \<times> kstate)) option \<Rightarrow> bool" where
  "keeps_opt s r \<longleftrightarrow> (\<forall>x s'. r = Some (Inr (x, s')) \<longrightarrow> kept s s')"

lemma keeps_opt_intros:
  "keeps_res s q \<Longrightarrow> keeps_opt s (Some q)"
  "keeps_opt s a \<Longrightarrow> keeps_opt s b \<Longrightarrow> keeps_opt s (if c then a else b)"
  by (simp_all add: keeps_opt_def keeps_res_def)

lemma keeps_opt_let_state:
  "kept s e \<Longrightarrow> (\<And>x :: kstate. kept s x \<Longrightarrow> keeps_opt s (f x)) \<Longrightarrow> keeps_opt s (Let e f)"
  by simp

lemma keeps_opt_let: "(\<And>x. keeps_opt s (f x)) \<Longrightarrow> keeps_opt s (Let e f)"
  by simp

lemma keeps_opt_cases:
  "keeps s m \<Longrightarrow> (\<And>x. kept s x \<Longrightarrow> keeps_opt s (f x))
    \<Longrightarrow> keeps_opt s (case m of Inl e \<Rightarrow> Some (Inl e) | Inr x \<Rightarrow> f x)"
  "keeps_res s n \<Longrightarrow> (\<And>y x. kept s x \<Longrightarrow> keeps_opt s (g y x))
    \<Longrightarrow> keeps_opt s (case n of Inl e \<Rightarrow> Some (Inl e) | Inr (y, x) \<Rightarrow> g y x)"
  by (auto simp: keeps_opt_def keeps_def keeps_res_def split: sum.splits)

lemma keeps_opt_zero_gravity:
  assumes "kept s s0" "\<And>x. kept s x \<Longrightarrow> keeps_res s (h x)"
  shows "keeps_opt s (case zero_gravity n s0 of None \<Rightarrow> None | Some (Inl e) \<Rightarrow> Some (Inl e)
    | Some (Inr x) \<Rightarrow> Some (h x))"
  using keeps_zero_gravity[OF assms(1)] assms(2)
  by (auto simp: keeps_opt_def keeps_res_def split: option.splits sum.splits) blast

lemma keeps_task_switch: "keeps_opt s (task_switch n s)"
  unfolding task_switch_def
  by (rule keeps_opt_let_state keeps_opt_let keeps_opt_cases keeps_opt_intros
      keeps_opt_zero_gravity kept_rules kept_refl keeps_ts_account keeps_count keeps_save
      keeps_in_quantum keeps_finished keeps_ts_dispatch | assumption | simp add: kept_sides)+

lemma kept_task_switch: "task_switch n s = Some (Inr (r, s')) \<Longrightarrow> kept s s'"
  using keeps_task_switch[of s n] by (simp add: keeps_opt_def)

lemma keeps_callback: "kept s s0 \<Longrightarrow> keeps s (prepare_next_ws_callback s0)"
  unfolding prepare_next_ws_callback_def
  by (rule kept_rules | assumption | simp add: kept_sides | erule kept_fields)+

lemma kept_tsTaskSwitch: "tsTaskSwitch n s = Some (Inr (r, s')) \<Longrightarrow> kept s s'"
proof -
  have "keeps_opt s (tsTaskSwitch n s)"
    unfolding tsTaskSwitch_def
    by (rule keeps_opt_let keeps_opt_intros keeps_task_switch kept_rules keeps_callback kept_refl
        | assumption)+
  then show "tsTaskSwitch n s = Some (Inr (r, s')) \<Longrightarrow> kept s s'" by (simp add: keeps_opt_def)
qed

section \<open>The kernel as a transition system\<close>

datatype event =
    Internal
  | Posted int letter
  | Taken int mail
  | Polled int
  | Jumped int

text \<open>
  A post is labelled with the tid it reaches, the low 16 bits of its argument, and with the words
  the message gets; ipc_post_message_to_tid() overwrites the last two with the tick count.
\<close>

inductive kstep :: "kstate \<Rightarrow> event \<Rightarrow> kstate \<Rightarrow> bool" where
  environment: "kstep s Internal (s\<lparr>cpu_context := g, jiffies := j, umem := u, heap := h, paging := p\<rparr>)"
| switch: "tsTaskSwitch n s = Some (Inr (r, s')) \<Longrightarrow> kstep s Internal s'"
| schedule: "psScheduler s = Inr (tid, s') \<Longrightarrow> kstep s Internal s'"
| sleeping: "kstep s Internal (sys_sleep tid ms s)"
| yielding: "kstep s Internal (sys_yield tid s)"
| waking: "kstep s Internal (wakeup_thread tid s)"
| blocking: "kstep s Internal (do_thread_blocked tid s)"
| readying: "kstep s Internal (do_thread_ready tid s)"
| dying: "kstep s Internal (do_thread_zombie tid s)"
| crediting: "kstep s Internal (do_credits_by_tid tid s)"
| waiting_pid: "do_waitpid pid s = Inr (r, s') \<Longrightarrow> kstep s Internal s'"
| priority: "kstep s Internal (set_thread_priority t pr s)"
| selecting: "kstep s Internal (set_current_thread tid s)"
| foreground: "kstep s Internal (set_foreground_thread tid s)"
| post2: "ipc_post_message_to_tid2 src dst msg l1 l2 l3 l4 s = Inr (0, s')
    \<Longrightarrow> kstep s (Posted (dst AND 0xFFFF) (src, msg, l1, l2, l3, l4)) s'"
| post: "ipc_post_message_to_tid src dst msg l1 l2 s = Inr (0, s')
    \<Longrightarrow> kstep s (Posted (dst AND 0xFFFF) (src, msg, l1, l2, jiffies s, jiffies s)) s'"
| take: "sys_get_message ubuf s = Inr (1, s') \<Longrightarrow> kstep s (Taken (current_thread s) (delivered ubuf s')) s'"
| poll: "sys_get_message ubuf s = Inr (0, s') \<Longrightarrow> kstep s (Polled (current_thread s)) s'"
| jump: "sys_get_message2 ubuf index restart s = Inr (r, s') \<Longrightarrow> kstep s (Jumped (current_thread s)) s'"

inductive_cases internal_stepE: "kstep s Internal s'"
inductive_cases posted_stepE: "kstep s (Posted tid x) s'"
inductive_cases taken_stepE: "kstep s (Taken tid y) s'"
inductive_cases polled_stepE: "kstep s (Polled tid) s'"
inductive_cases jumped_stepE: "kstep s (Jumped tid) s'"

inductive trace :: "kstate \<Rightarrow> event list \<Rightarrow> kstate \<Rightarrow> bool" where
  stop: "trace s [] s"
| step: "kstep s e s1 \<Longrightarrow> trace s1 es s' \<Longrightarrow> trace s (e # es) s'"

inductive_simps trace_simps: "trace s [] s'" "trace s (e # es) s'"

lemma kept_operations:
  "kept s s0 \<Longrightarrow> kept s (sys_sleep tid ms s0)" "kept s s0 \<Longrightarrow> kept s (sys_yield tid s0)"
  "kept s s0 \<Longrightarrow> kept s (set_foreground_thread tid s0)"
  using guarded_kept[OF sleep_op.guarded_thread_op_axioms] guarded_kept[OF yield_op.guarded_thread_op_axioms]
  by (auto simp: sys_sleep_def sys_yield_def set_foreground_thread_def Let_def kept_def)

lemma kept_set_thread_priority: "kept s s0 \<Longrightarrow> kept s (set_thread_priority t pr s0)"
  unfolding set_thread_priority_def
  by (rule kept_rules | assumption | simp add: kept_sides)+

lemma keeps_do_waitpid: "kept s s0 \<Longrightarrow> keeps_res s (do_waitpid pid s0)"
  by (auto simp: do_waitpid_def Let_def keeps_res_def kept_def same_mail_def same_identity_def
    split: if_splits)

lemma internal_kept: "kstep s Internal s' \<Longrightarrow> kept s s'"
proof (erule internal_stepE)
  show "kept s s'" if "tsTaskSwitch n s = Some (Inr (r, s'))" for n r
    using kept_tsTaskSwitch that by blast
  show "kept s s'" if "psScheduler s = Inr (tid, s')" for tid
    using keepsD(2)[OF keeps_psScheduler[OF kept_refl] that] .
  show "kept s s'" if "do_waitpid pid s = Inr (r, s')" for pid r
    using keepsD(2)[OF keeps_do_waitpid[OF kept_refl] that] .
qed (auto intro: kept_refl kept_operations kept_set_thread_priority kept_setters
    guarded_kept[OF wakeup_op.guarded_thread_op_axioms] guarded_kept[OF blocked_op.guarded_thread_op_axioms]
    guarded_kept[OF ready_op.guarded_thread_op_axioms] guarded_kept[OF zombie_op.guarded_thread_op_axioms]
    guarded_kept[OF credits_op.guarded_thread_op_axioms] kept_fields[OF kept_refl])

text \<open>What the frame means for the rings: no thread becomes valid, and the valid ones keep theirs.\<close>

lemma kept_slot_valid: "kept s s' \<Longrightarrow> slot_valid s' tid \<Longrightarrow> slot_valid s tid"
  by (simp add: kept_def same_mail_def same_identity_def slot_defs)

lemma kept_identity:
  assumes "kept s s'" "slot_valid s' tid"
  shows "same_identity (tmem s' (threadList s tid)) (tmem s (threadList s tid))"
  using assms by (simp add: kept_def same_mail_def slot_defs)

lemma kept_ipc_wf:
  assumes k: "kept s s'" and wf: "ipc_wf s"
  shows "ipc_wf s'"
proof -
  have same: "threadList s' = threadList s" "mmem s' = mmem s" using k by (simp_all add: kept_def)
  note v = kept_slot_valid[OF k]
  have id: "t_tid (tmem s' (threadList s tid)) = t_tid (tmem s (threadList s tid))"
    "ring s' tid = ring s tid" "qhead s' tid = qhead s tid" "qtail s' tid = qtail s tid"
    if "slot_valid s' tid" for tid
    using kept_identity[OF k that] by (simp_all add: same_identity_def same)
  have "threads_wf s'" using wf v id(1) by (simp add: ipc_wf_def threads_wf_def same)
  moreover have "queue_wf s' tid" if "slot_valid s' tid" for tid
    using wf v[OF that] id[OF that] by (simp add: ipc_wf_def queue_wf_def same)
  moreover have "rings_disjoint s'"
    unfolding rings_disjoint_def
  proof (intro allI impI)
    fix a b i j
    assume h: "slot_valid s' a \<and> slot_valid s' b \<and> in_ring i \<and> in_ring j \<and> ring s' a i = ring s' b j"
    then have "ring s a i = ring s b j" using id(2)[of a] id(2)[of b] by simp
    then show "a = b \<and> i = j" using ring_inj[OF wf v v] h by blast
  qed
  ultimately show ?thesis by (simp add: ipc_wf_def)
qed

text \<open>A mailbox depends on its thread's ring and on the message structures in it.\<close>

lemma mailbox_cong:
  assumes "t_MsgQueue (tmem s' (threadList s' tid)) = t_MsgQueue (tmem s (threadList s tid))"
    "qhead s' tid = qhead s tid" "qtail s' tid = qtail s tid"
    "\<And>k. k < 64 \<Longrightarrow> mmem s' (slot_at s tid k) = mmem s (slot_at s tid k)"
  shows "mailbox s' tid = mailbox s tid" "mailbox_tidy s' tid = mailbox_tidy s tid"
proof -
  have at: "slot_at s' tid = slot_at s tid" "pending s' tid = pending s tid"
    using assms(1-3) by (auto simp: slot_at_def pending_def fun_eq_iff)
  show "mailbox s' tid = mailbox s tid"
    using assms(4) pending_less[of s tid] by (simp add: mailbox_def at)
  show "mailbox_tidy s' tid = mailbox_tidy s tid"
    using assms(4) by (simp add: mailbox_tidy_def at)
qed

lemma kept_mailbox:
  assumes "kept s s'" "slot_valid s' tid"
  shows "mailbox s' tid = mailbox s tid" "mailbox_tidy s' tid = mailbox_tidy s tid"
  using mailbox_cong[of s' tid s] kept_identity[OF assms] assms(1)
  by (simp_all add: kept_def same_identity_def)

section \<open>The message operations as events\<close>

lemma post2_masked:
  "ipc_post_message_to_tid2 src (dst AND 0xFFFF) msg l1 l2 l3 l4 s
    = ipc_post_message_to_tid2 src dst msg l1 l2 l3 l4 s"
  unfolding ipc_post_message_to_tid2_def and.right_idem ..

lemma post_masked:
  "ipc_post_message_to_tid src (dst AND 0xFFFF) msg l1 l2 s = ipc_post_message_to_tid src dst msg l1 l2 s"
  unfolding ipc_post_message_to_tid_def and.right_idem ..

lemma post2_success:
  assumes "ipc_post_message_to_tid2 src dst msg l1 l2 l3 l4 s = Inr (0, s')"
  shows "slot_valid s (dst AND 0xFFFF)" "0 \<le> msg"
  using assms by (simp_all add: ipc_post_message_to_tid2_def Let_def slot_defs split: if_splits)

lemma post_success:
  assumes "ipc_post_message_to_tid src dst msg l1 l2 s = Inr (0, s')"
  shows "slot_valid s (dst AND 0xFFFF)" "0 < msg"
  using assms by (simp_all add: ipc_post_message_to_tid_def Let_def slot_defs split: if_splits)

lemma posted_effect:
  assumes "kstep s (Posted tid (src, msg, l1, l2, l3, l4)) s'" "ipc_wf s"
  shows "slot_valid s tid \<and> s' = post_effect src tid msg l1 l2 l3 l4 s"
proof -
  obtain dst where tid: "tid = dst AND 0xFFFF" and p: "ipc_post_message_to_tid2 src dst msg l1 l2 l3 l4 s = Inr (0, s')
      \<or> ipc_post_message_to_tid src dst msg l1 l2 s = Inr (0, s') \<and> l3 = jiffies s \<and> l4 = jiffies s"
    using assms(1) by (auto elim: posted_stepE)
  from p show ?thesis
  proof (elim disjE conjE)
    assume h: "ipc_post_message_to_tid2 src dst msg l1 l2 l3 l4 s = Inr (0, s')"
    then show ?thesis
      using post2_effect[OF assms(2) post2_success[OF h], of src l1 l2 l3 l4] post2_success(1)[OF h]
      by (simp add: post2_masked tid)
  next
    assume h: "ipc_post_message_to_tid src dst msg l1 l2 s = Inr (0, s')" "l3 = jiffies s" "l4 = jiffies s"
    then show ?thesis
      using post_effect_eq[OF assms(2) post_success[OF h(1)], of src l1 l2] post_success(1)[OF h(1)]
      by (simp add: post_masked tid)
  qed
qed

lemma get_success:
  assumes "sys_get_message ubuf s = Inr (r, s')"
  shows "ubuf \<noteq> 0" "s' = s \<and> r = 0 \<or> slot_valid s (current_thread s)"
  using assms by (auto simp: sys_get_message_def Let_def slot_defs split: if_splits)

lemma taken_effect:
  assumes "kstep s (Taken tid y) s'" "ipc_wf s"
  shows "tid = current_thread s \<and> slot_valid s tid
    \<and> (\<exists>ubuf. s' = get_effect ubuf tid s \<and> receive ubuf s = Some (y, s') \<and> ubuf \<noteq> 0)"
proof -
  obtain ubuf where 1: "tid = current_thread s" "y = delivered ubuf s'" "sys_get_message ubuf s = Inr (1, s')"
    using assms(1) by (auto elim: taken_stepE)
  then have "slot_valid s (current_thread s)" "ubuf \<noteq> 0" using get_success[of ubuf s 1 s'] by auto
  then show ?thesis using 1 sys_get_message_effect[OF assms(2)] by (auto simp: receive_def)
qed

lemma polled_effect:
  assumes "kstep s (Polled tid) s'" "ipc_wf s"
  shows "tid = current_thread s \<and> (s' = s \<or> slot_valid s tid \<and> (\<exists>ubuf. s' = get_effect ubuf tid s))"
proof -
  obtain ubuf where "tid = current_thread s" "sys_get_message ubuf s = Inr (0, s')"
    using assms(1) by (auto elim: polled_stepE)
  then show ?thesis
    using get_success[of ubuf s 0 s'] sys_get_message_effect[OF assms(2), of ubuf] by auto
qed

text \<open>A read at an index of the caller's choice changes the caller's ring only.\<close>

definition only_ring :: "int \<Rightarrow> kstate \<Rightarrow> kstate \<Rightarrow> bool" where
  "only_ring tid s s' \<longleftrightarrow> (\<forall>p. p \<noteq> threadList s tid \<longrightarrow> tmem s' p = tmem s p)
     \<and> (\<forall>m. (\<forall>i. in_ring i \<longrightarrow> m \<noteq> ring s tid i) \<longrightarrow> mmem s' m = mmem s m)"

lemma jumped_effect:
  assumes "kstep s (Jumped tid) s'"
  shows "tid = current_thread s \<and> ring_frame s s' \<and> (s' = s \<or> slot_valid s tid \<and> only_ring tid s s')"
proof -
  obtain ubuf index restart r where 1: "tid = current_thread s"
      "sys_get_message2 ubuf index restart s = Inr (r, s')"
    using assms by (auto elim: jumped_stepE)
  let ?t = "threadList s (current_thread s)"
  have "s' = s \<or> slot_valid s (current_thread s)"
    using 1(2) by (auto simp: sys_get_message2_def Let_def slot_defs split: if_splits)
  moreover have "ring_frame s s'"
    using 1(2) by (auto simp: sys_get_message2_def Let_def ring_frame_def reset_queue_def
        advance_head_def advance_in_ring MSG_QUEUE_MAX_def split: if_splits)
  moreover have "only_ring (current_thread s) s s'"
    using 1(2) by (auto simp: sys_get_message2_def Let_def only_ring_def reset_queue_def
        advance_head_def MSG_QUEUE_MAX_def split: if_splits)
  ultimately show ?thesis using 1(1) by blast
qed

lemma post_only_ring:
  assumes "ipc_wf s" "slot_valid s tid"
  shows "only_ring tid s (post_effect src tid msg l1 l2 l3 l4 s)"
  using ipc_wf_indices(2)[OF assms] by (auto simp: only_ring_def post_effect_def Let_def)

lemma get_only_ring:
  assumes "ipc_wf s" "slot_valid s tid"
  shows "only_ring tid s (get_effect ubuf tid s)"
  using ipc_wf_indices(1)[OF assms] by (auto simp: only_ring_def get_effect_def Let_def advance_head_def)

lemma only_ring_mailbox:
  assumes wf: "ipc_wf s" and v: "slot_valid s a" "slot_valid s b" "a \<noteq> b"
    and o: "only_ring a s s'" "ring_frame s s'"
  shows "mailbox s' b = mailbox s b" "mailbox_tidy s' b = mailbox_tidy s b"
proof -
  have "threadList s' = threadList s" using o(2) by (simp add: ring_frame_def)
  moreover have "tmem s' (threadList s b) = tmem s (threadList s b)"
    using o(1) threadList_inj[OF wf v(1,2)] v(3) by (simp add: only_ring_def)
  moreover have "mmem s' (slot_at s b k) = mmem s (slot_at s b k)" for k
    using o(1) ring_inj[OF wf v(2,1)] v(3) by (auto simp: only_ring_def slot_at_def)
  ultimately show "mailbox s' b = mailbox s b" "mailbox_tidy s' b = mailbox_tidy s b"
    using mailbox_cong[of s' b s] by simp_all
qed

section \<open>Every step keeps the rings\<close>

lemma step_ipc_wf:
  assumes "kstep s e s'" "ipc_wf s"
  shows "ipc_wf s'" "slot_valid s' tid \<Longrightarrow> slot_valid s tid"
proof -
  have "ipc_wf s' \<and> (slot_valid s' tid \<longrightarrow> slot_valid s tid)"
  proof (cases e)
    case Internal
    then show ?thesis
      using internal_kept[of s s'] kept_ipc_wf[of s s'] kept_slot_valid[of s s' tid] assms by auto
  next
    case (Posted t x)
    obtain src msg l1 l2 l3 l4 where "x = (src, msg, l1, l2, l3, l4)" by (cases x) auto
    with assms Posted have "ring_frame s s'" using posted_effect post_effect_frame by blast
    then show ?thesis using ring_frame_ipc_wf ring_frame_slot_valid assms(2) by auto
  next
    case (Taken t y)
    with assms have "ring_frame s s'" using taken_effect get_effect_frame by blast
    then show ?thesis using ring_frame_ipc_wf ring_frame_slot_valid assms(2) by auto
  next
    case (Polled t)
    with assms have "ring_frame s s'" using polled_effect get_effect_frame ring_frame_refl by blast
    then show ?thesis using ring_frame_ipc_wf ring_frame_slot_valid assms(2) by auto
  next
    case (Jumped t)
    with assms have "ring_frame s s'" using jumped_effect by blast
    then show ?thesis using ring_frame_ipc_wf ring_frame_slot_valid assms(2) by auto
  qed
  then show "ipc_wf s'" "slot_valid s' tid \<Longrightarrow> slot_valid s tid" by blast+
qed

lemma trace_ipc_wf: "trace s es s' \<Longrightarrow> ipc_wf s \<Longrightarrow> ipc_wf s' \<and> (\<forall>tid. slot_valid s' tid \<longrightarrow> slot_valid s tid)"
  by (induction rule: trace.induct) (use step_ipc_wf in blast)+

section \<open>The post office\<close>

text \<open>What the events of a trace do to the mail of one thread, on a list of its waiting messages.\<close>

fun office :: "int \<Rightarrow> event list \<Rightarrow> mail list \<Rightarrow> (mail list \<times> mail list) option" where
  "office tid [] q = Some ([], q)"
| "office tid (Internal # es) q = office tid es q"
| "office tid (Posted t x # es) q =
    (if t \<noteq> tid then office tid es q
     else if sendable x \<and> length q < 63 then office tid es (q @ [wire x]) else None)"
| "office tid (Taken t y # es) q =
    (if t \<noteq> tid then office tid es q
     else case q of [] \<Rightarrow> None | m # q' \<Rightarrow> map_option (\<lambda>(ms, r). (m # ms, r)) (office tid es q'))"
| "office tid (Polled t # es) q = (if t \<noteq> tid then office tid es q else None)"
| "office tid (Jumped t # es) q = (if t \<noteq> tid then office tid es q else None)"

fun taken_by :: "int \<Rightarrow> event list \<Rightarrow> mail list" where
  "taken_by tid [] = []"
| "taken_by tid (Taken t y # es) = (if t = tid then y # taken_by tid es else taken_by tid es)"
| "taken_by tid (e # es) = taken_by tid es"

lemma step_elsewhere:
  assumes st: "kstep s e s'" and wf: "ipc_wf s" and v: "slot_valid s' tid"
    and e: "\<forall>x. e \<noteq> Posted tid x" "\<forall>y. e \<noteq> Taken tid y" "e \<noteq> Polled tid" "e \<noteq> Jumped tid"
  shows "mailbox s' tid = mailbox s tid \<and> mailbox_tidy s' tid = mailbox_tidy s tid"
proof -
  have vs: "slot_valid s tid" using step_ipc_wf(2)[OF st wf v] .
  have other: ?thesis if "slot_valid s t" "t \<noteq> tid" "only_ring t s s'" "ring_frame s s'" for t
    using only_ring_mailbox[OF wf that(1) vs that(2-4)] by simp
  show ?thesis
  proof (cases e)
    case Internal
    then show ?thesis using kept_mailbox[OF internal_kept v] st by simp
  next
    case (Posted t x)
    obtain src msg l1 l2 l3 l4 where "x = (src, msg, l1, l2, l3, l4)" by (cases x) auto
    with posted_effect[of s t src msg l1 l2 l3 l4 s'] st wf Posted
    have "slot_valid s t" "s' = post_effect src t msg l1 l2 l3 l4 s" by auto
    then show ?thesis using other[of t] e(1) Posted post_only_ring[OF wf] post_effect_frame by blast
  next
    case (Taken t y)
    then obtain u where "slot_valid s t" "s' = get_effect u t s" using taken_effect[OF _ wf] st by blast
    then show ?thesis using other[of t] e(2) Taken get_only_ring[OF wf] get_effect_frame by blast
  next
    case (Polled t)
    then show ?thesis
      using polled_effect[of s t s'] st wf other[of t] e(3) get_only_ring[OF wf] get_effect_frame by blast
  next
    case (Jumped t)
    then show ?thesis using jumped_effect[of s t s'] st other[of t] e(4) by blast
  qed
qed

lemma step_posted:
  assumes "kstep s (Posted tid x) s'" "ipc_wf s" "mailbox_tidy s tid" "sendable x" "length (mailbox s tid) < 63"
  shows "mailbox s' tid = mailbox s tid @ [wire x]" "mailbox_tidy s' tid"
proof -
  obtain src msg l1 l2 l3 l4 where x: "x = (src, msg, l1, l2, l3, l4)" by (cases x) auto
  have "slot_valid s tid" "s' = post_effect src tid msg l1 l2 l3 l4 s"
    using posted_effect[OF assms(1)[unfolded x] assms(2)] by auto
  then show "mailbox s' tid = mailbox s tid @ [wire x]" "mailbox_tidy s' tid"
    using mailbox_post[OF assms(2) _ assms(3), of msg src l1 l2 l3 l4] assms(4,5)
    by (simp_all add: x sendable_def)
qed

lemma step_taken:
  assumes "kstep s (Taken tid y) s'" "ipc_wf s" "mailbox_tidy s tid" "mailbox s tid = m # q"
  shows "y = m" "mailbox s' tid = q" "mailbox_tidy s' tid"
proof -
  obtain u where u: "tid = current_thread s" "slot_valid s tid" "receive u s = Some (y, s')" "u \<noteq> 0"
    using taken_effect[OF assms(1,2)] by blast
  then have "reader_ok u tid s" using assms(2,3) by (simp add: reader_ok_def)
  from receive_law[OF this assms(4)] u(3)
  show "y = m" "mailbox s' tid = q" "mailbox_tidy s' tid" by (auto simp: reader_ok_def)
qed

lemma office_sound:
  assumes "trace s es s'" "ipc_wf s" "slot_valid s' tid" "mailbox_tidy s tid"
    and "office tid es (mailbox s tid) = Some (ms, r)"
  shows "taken_by tid es = ms \<and> mailbox s' tid = r \<and> mailbox_tidy s' tid"
  using assms
proof (induction arbitrary: ms r rule: trace.induct)
  case (stop s)
  then show ?case by simp
next
  case (step s e s1 es s')
  note wf1 = step_ipc_wf(1)[OF step.hyps(1) step.prems(1)]
  have v1: "slot_valid s1 tid" using trace_ipc_wf[OF step.hyps(2) wf1] step.prems(2) by blast
  note go = step.IH[OF wf1 step.prems(2)]
  note out = step_elsewhere[OF step.hyps(1) step.prems(1) v1]
  show ?case
  proof (cases e)
    case Internal
    then show ?thesis using out go step.prems(3,4) by auto
  next
    case (Posted t x)
    then show ?thesis
      using out go step.prems(3,4) step_posted[of s tid x s1] step.hyps(1) step.prems(1)
      by (cases "t = tid") (auto split: if_splits)
  next
    case (Taken t y)
    then show ?thesis
      using out go step.prems(3,4) step_taken[of s tid y s1] step.hyps(1) step.prems(1)
      by (cases "t = tid") (auto split: list.splits)
  next
    case (Polled t)
    then show ?thesis using out go step.prems(3,4) by (cases "t = tid") auto
  next
    case (Jumped t)
    then show ?thesis using out go step.prems(3,4) by (cases "t = tid") auto
  qed
qed



section \<open>Witnesses\<close>

lemma demo_trace:
  "\<exists>s1 s2. trace demo [Internal, Posted 100 (0, 20, 65, 30, 0, 0), Taken 100 (wire (0, 20, 65, 30, 0, 0))] s2
     \<and> trace demo [Internal] s1 \<and> slot_valid s2 100 \<and> slot_valid s1 100 \<and> current_thread s1 = 100"
proof -
  let ?x = "(0, 20, 65, 30, 0, 0) :: letter" and ?s1 = "sys_yield 100 demo"
  have y: "?s1 = yield 100 demo" by (simp add: sys_yield_def THREAD_COUNT_MAX_def)
  have k1: "kstep demo Internal ?s1" by (rule kstep.yielding)
  have wf1: "ipc_wf ?s1" using step_ipc_wf(1)[OF k1] by simp
  have v1: "slot_valid ?s1 100" "current_thread ?s1 = 100"
    using yield_op.keeps_validity[of 100 demo 100] yield_op.table_frame(2)[of 100 demo] by (simp_all add: y)
  have m1: "mailbox ?s1 100 = []" "mailbox_tidy ?s1 100"
    using step_elsewhere[OF k1 demo_ipc_wf v1(1)] demo_reader_ok by (simp_all add: reader_ok_def)
  let ?s2 = "post_effect 0 100 20 65 30 0 0 ?s1"
  have k2: "kstep ?s1 (Posted 100 ?x) ?s2"
    using kstep.post2[OF post2_effect[OF wf1 v1(1), of 20 0 65 30 0 0]] by simp
  have "mailbox ?s2 100 = [wire ?x]" "mailbox_tidy ?s2 100"
    using step_posted[OF k2 wf1 m1(2)] m1(1) by (simp_all add: sendable_def)
  then have "reader_ok 4096 100 ?s2" and "mailbox ?s2 100 = wire ?x # []"
    using post_effect_keeps[OF wf1 v1(1)] v1(2) by (simp_all add: reader_ok_def)
  from receive_law[OF this] obtain s3 where s3: "receive 4096 ?s2 = Some (wire ?x, s3)" "slot_valid s3 100"
    by (auto simp: reader_ok_def)
  have "kstep ?s2 (Taken 100 (wire ?x)) s3"
    using s3(1) kstep.take[of 4096 ?s2 s3] v1(2) by (auto simp: receive_def split: sum.splits if_splits)
  then show ?thesis using k1 k2 s3(2) v1 by (auto simp: trace_simps)
qed



end
