(* ===== verification/KString.thy ===== *)
theory KString
  imports KBase
begin

text \<open>
  The kernel's C library: core/clibs/kstring.c, k_atoi() of kstdlib.c and the formatted output of
  kstdio.c. A string argument is the list of the bytes from the pointer to the end of its object;
  reading or writing past the end of the list is the fault \<open>OutOfBounds\<close>. A loop over a string is
  recursion over the list. Writing functions return the new contents of the destination.
\<close>

definition bytes :: "string \<Rightarrow> u8 list" where
  "bytes s = map of_char s"

text \<open>The C string at the head of an object.\<close>

definition cstr :: "u8 list \<Rightarrow> u8 list" where
  "cstr s = takeWhile (\<lambda>c. c \<noteq> 0) s"

section \<open>kstring.c\<close>

fun string_compute_checksum :: "u8 list \<Rightarrow> nat \<Rightarrow> u64 \<Rightarrow> kfault + u64" where
  "string_compute_checksum buf 0 acc = Inr acc"
| "string_compute_checksum [] (Suc l) acc = Inl (OutOfBounds ''string_compute_checksum'')"
| "string_compute_checksum (c # cs) (Suc l) acc =
    string_compute_checksum cs l (acc + (ucast c AND 0xFF))"

text \<open>The difference is taken in \<open>char\<close>, which is signed.\<close>

fun strcmp :: "u8 list \<Rightarrow> u8 list \<Rightarrow> kfault + int" where
  "strcmp (a # s1) (b # s2) =
    (if a = b then (if a = 0 then Inr 0 else strcmp s1 s2) else Inr (sint a - sint b))"
| "strcmp _ _ = Inl (OutOfBounds ''strcmp'')"

fun kstrncmp :: "u8 list \<Rightarrow> u8 list \<Rightarrow> nat \<Rightarrow> kfault + int" where
  "kstrncmp (a # s1) (b # s2) (Suc n) = (if a \<noteq> b then Inr 1 else kstrncmp s1 s2 n)"
| "kstrncmp (a # s1) (b # s2) 0 = (if a \<noteq> 0 \<or> b \<noteq> 0 then Inr 2 else Inr 0)"
| "kstrncmp _ _ _ = Inl (OutOfBounds ''kstrncmp'')"

fun str_cmp :: "u8 list \<Rightarrow> u8 list \<Rightarrow> kfault + int" where
  "str_cmp (a # s1) (b # s2) =
    (if a = b \<and> a \<noteq> 0 \<and> b \<noteq> 0 then str_cmp s1 s2
     else if a = b then Inr 0 else if a > b then Inr 1 else Inr (-1))"
| "str_cmp _ _ = Inl (OutOfBounds ''str_cmp'')"

fun memcpy :: "u8 list \<Rightarrow> u8 list \<Rightarrow> nat \<Rightarrow> kfault + u8 list" where
  "memcpy dst src 0 = Inr dst"
| "memcpy (d # dst) (c # src) (Suc n) = kbind (memcpy dst src n) (\<lambda>r. Inr (c # r))"
| "memcpy _ _ (Suc n) = Inl (OutOfBounds ''memcpy'')"

fun strcpy :: "u8 list \<Rightarrow> u8 list \<Rightarrow> kfault + u8 list" where
  "strcpy (t # to) (c # from) =
    (if c = 0 then Inr (0 # to) else kbind (strcpy to from) (\<lambda>r. Inr (c # r)))"
| "strcpy _ _ = Inl (OutOfBounds ''strcpy'')"

text \<open>The two loops of strncpy(): copy up to the end of the source, then fill with zeros.\<close>

fun strncpy :: "u8 list \<Rightarrow> u8 list \<Rightarrow> nat \<Rightarrow> kfault + u8 list" where
  "strncpy s1 s2 0 = Inr s1"
| "strncpy (d # s1) (c # s2) (Suc n) =
    (if c \<noteq> 0 then kbind (strncpy s1 s2 n) (\<lambda>r. Inr (c # r))
     else kbind (strncpy s1 (c # s2) n) (\<lambda>r. Inr (0 # r)))"
| "strncpy _ _ (Suc n) = Inl (OutOfBounds ''strncpy'')"

fun strcat :: "u8 list \<Rightarrow> u8 list \<Rightarrow> kfault + u8 list" where
  "strcat (t # to) from = (if t \<noteq> 0 then kbind (strcat to from) (\<lambda>r. Inr (t # r))
                           else strcpy (t # to) from)"
| "strcat [] from = Inl (OutOfBounds ''strcat'')"

text \<open>\<open>while (len--)\<close>: a negative length would run through the whole of memory.\<close>

definition bcopy :: "u8 list \<Rightarrow> u8 list \<Rightarrow> int \<Rightarrow> kfault + u8 list" where
  "bcopy from to len = (if len < 0 then Inl (OutOfBounds ''bcopy'') else memcpy to from (nat len))"

definition bzero :: "u8 list \<Rightarrow> int \<Rightarrow> kfault + u8 list" where
  "bzero cp len = (if len < 0 then Inl (OutOfBounds ''bzero'')
                   else memcpy cp (replicate (nat len) 0) (nat len))"

fun strlen :: "u8 list \<Rightarrow> kfault + nat" where
  "strlen [] = Inl (OutOfBounds ''strlen'')"
| "strlen (c # s) = (if c = 0 then Inr 0 else kbind (strlen s) (\<lambda>n. Inr (Suc n)))"

definition memset_bytes :: "u8 list \<Rightarrow> int \<Rightarrow> int \<Rightarrow> kfault + u8 list" where
  "memset_bytes p val sz =
    (if sz > 0 then memcpy p (replicate (nat sz) (word_of_int val)) (nat sz) else Inr p)"

text \<open>
  The loop \<open>for (result=0; result = 1; result++)\<close> of strcspn() and strspn(): the condition is an
  assignment, so every round looks at the byte 1 of the string and nothing ever ends the loop.
\<close>

partial_function (option) strcspn_loop :: "u8 list \<Rightarrow> u8 list \<Rightarrow> (kfault + nat) option" where
  "strcspn_loop str reject =
    (if length str \<le> 1 then Some (Inl (OutOfBounds ''strcspn''))
     else if str ! 1 = 0 then Some (Inr 1)
     else if str ! 1 \<in> set reject then Some (Inr 1)
     else strcspn_loop str reject)"

definition strcspn :: "u8 list \<Rightarrow> u8 list \<Rightarrow> (kfault + nat) option" where
  "strcspn str reject =
    (case strlen reject of Inl e \<Rightarrow> Some (Inl e) | Inr n \<Rightarrow> strcspn_loop str (take n reject))"

partial_function (option) strspn_loop :: "u8 list \<Rightarrow> u8 list \<Rightarrow> bool \<Rightarrow> (kfault + nat) option" where
  "strspn_loop str accept matches =
    (if length str \<le> 1 then Some (Inl (OutOfBounds ''strspn''))
     else if str ! 1 = 0 then Some (Inr 1)
     else if str ! 1 \<in> set accept then strspn_loop str accept True
     else if \<not> matches then Some (Inr 1)
     else strspn_loop str accept matches)"

definition strspn :: "u8 list \<Rightarrow> u8 list \<Rightarrow> (kfault + nat) option" where
  "strspn str accept =
    (case strlen accept of Inl e \<Rightarrow> Some (Inl e) | Inr n \<Rightarrow> strspn_loop str (take n accept) False)"

text \<open>
  k_strtok_r(): the string is the object \<open>buf\<close> and an index; \<open>last\<close> is an index or None for NULL.
  The skip loop and the scan loop look each byte up in the delimiters.
\<close>

fun in_delims :: "u8 \<Rightarrow> u8 list \<Rightarrow> kfault + bool" where
  "in_delims c [] = Inl (OutOfBounds ''strtok: delim'')"
| "in_delims c (sc # delim) =
    (if sc = 0 then Inr False else if c = sc then Inr True else in_delims c delim)"

fun strtok_skip :: "u8 list \<Rightarrow> u8 list \<Rightarrow> nat \<Rightarrow> kfault + nat" where
  "strtok_skip delim [] i = Inl (OutOfBounds ''strtok'')"
| "strtok_skip delim (c # s) i =
    kbind (in_delims c delim) (\<lambda>b. if b then strtok_skip delim s (i + 1) else Inr i)"

fun strtok_scan :: "u8 list \<Rightarrow> u8 list \<Rightarrow> nat \<Rightarrow> kfault + nat" where
  "strtok_scan delim [] i = Inl (OutOfBounds ''strtok'')"
| "strtok_scan delim (c # s) i =
    kbind (in_delims c delim) (\<lambda>b. if b \<or> c = 0 then Inr i else strtok_scan delim s (i + 1))"

definition k_strtok_r ::
    "u8 list \<Rightarrow> nat option \<Rightarrow> u8 list \<Rightarrow> nat option \<Rightarrow> kfault + nat option \<times> nat option \<times> u8 list" where
  "k_strtok_r buf s delim lst =
    (case (case s of None \<Rightarrow> lst | Some i \<Rightarrow> Some i) of
       None \<Rightarrow> Inr (None, lst, buf)
     | Some i \<Rightarrow>
       kbind (strtok_skip delim (drop i buf) i) (\<lambda>tok.
       if buf ! tok = 0 then Inr (None, None, buf)
       else kbind (strtok_scan delim (drop (tok + 1) buf) (tok + 1)) (\<lambda>e.
         if buf ! e = 0 then Inr (Some tok, None, buf)
         else Inr (Some tok, Some (e + 1), buf[e := 0]))))"

section \<open>k_atoi()\<close>

definition is_digit :: "u8 \<Rightarrow> bool" where
  "is_digit c \<longleftrightarrow> 48 \<le> sint c \<and> sint c \<le> 57"

text \<open>The accumulator is an \<open>int\<close>; the kernel relies on its wrap-around for INT_MIN.\<close>

fun atoi_digits :: "u8 list \<Rightarrow> 32 word \<Rightarrow> kfault + 32 word" where
  "atoi_digits [] rv = Inl (OutOfBounds ''k_atoi'')"
| "atoi_digits (c # s) rv =
    (if c \<noteq> 0 \<and> is_digit c then atoi_digits s (rv * 10 + (ucast c - 48)) else Inr rv)"

fun atoi_skip :: "u8 list \<Rightarrow> kfault + u8 list" where
  "atoi_skip [] = Inl (OutOfBounds ''k_atoi'')"
| "atoi_skip (c # s) =
    (if c = 0 \<or> is_digit c \<or> c = 45 \<or> c = 43 then Inr (c # s) else atoi_skip s)"

definition k_atoi :: "u8 list \<Rightarrow> kfault + int" where
  "k_atoi str =
    kbind (atoi_skip str) (\<lambda>p.
    kbind (atoi_digits (if hd p = 45 \<or> hd p = 43 then tl p else p) 0) (\<lambda>rv.
    Inr (sint (if hd p = 45 then - rv else rv))))"

section \<open>Formatted output of kstdio.c\<close>

definition INT_MAX :: int where "INT_MAX = 2147483647"

text \<open>The digits of a value that is not negative, lowest first: \<open>do ... while (value)\<close>.\<close>

function itoa_digits :: "int \<Rightarrow> u8 list" where
  "itoa_digits v = (let c = word_of_int (v mod 10) + 48; r = v div 10 in
     if r \<le> 0 then [c] else c # itoa_digits r)"
  by auto
termination by (relation "measure nat") auto

text \<open>The loop that swaps the ends of the digits until the two pointers meet.\<close>

function swap_loop :: "nat \<Rightarrow> nat \<Rightarrow> u8 list \<Rightarrow> u8 list" where
  "swap_loop p q xs =
    (if q > p then swap_loop (p + 1) (q - 1) (xs[p := xs ! q, q := xs ! p]) else xs)"
  by auto
termination by (relation "measure (\<lambda>(p, q, xs). q - p)") auto

text \<open>The result is the string with its NUL.\<close>

definition kinguio_itoa :: "int \<Rightarrow> u8 list" where
  "kinguio_itoa val =
    (let min_flag = (if 0 > val \<and> - INT_MAX > val then INT_MAX else 0);
         value = (if 0 > val then (if - INT_MAX > val then INT_MAX else - val) else val);
         ds = itoa_digits value;
         ds = (if min_flag \<noteq> 0 then (hd ds + 1) # tl ds else ds)
     in (if 0 > val then [45] else []) @ swap_loop 0 (length ds - 1) ds @ [0])"

definition HEX_LEN :: int where "HEX_LEN = 8"

text \<open>
  kinguio_i2hex() with the length 8 of its callers: eight digits, highest first, then the leading
  zeros are dropped by copying the string down onto itself. The copy runs upwards, so it reads
  each byte before the byte is overwritten.
\<close>

definition hex_digit :: "u32 \<Rightarrow> u8" where
  "hex_digit x = ucast x + (if uint x > HEX_LEN + 1 then 55 else 48)"

fun hex_fill :: "nat \<Rightarrow> u32 \<Rightarrow> u8 list \<Rightarrow> u8 list" where
  "hex_fill 0 n acc = acc"
| "hex_fill (Suc k) n acc = hex_fill k (drop_bit 4 n) (hex_digit (n AND 0xF) # acc)"

definition kinguio_i2hex :: "u32 \<Rightarrow> nat \<Rightarrow> u8 list" where
  "kinguio_i2hex val len =
    (if val = 0 then [48, 0]
     else dropWhile (\<lambda>c. c = 48) (hex_fill len val []) @ [0])"

text \<open>The arguments of a variadic call.\<close>

datatype va = VInt int | VStr "u8 list" | VNull

definition vsputs_r :: "u8 list \<Rightarrow> u8 list \<Rightarrow> u8 list" where
  "vsputs_r out src = out @ cstr src"

text \<open>
  kinguio_vsprintf(): the bytes it appends to the destination. \<open>u\<close> is an \<open>unsigned char\<close>, and a
  percent sign before the end of the format makes the index run past the NUL.
\<close>

fun kinguio_vsprintf :: "u8 list \<Rightarrow> va list \<Rightarrow> u8 list \<Rightarrow> kfault + u8 list" where
  "kinguio_vsprintf [] ap out = Inl (OutOfBounds ''kinguio_vsprintf: fmt'')"
| "kinguio_vsprintf [f] ap out =
    (if f = 0 then Inr out else Inl (OutOfBounds ''kinguio_vsprintf: fmt''))"
| "kinguio_vsprintf (f # g # fmt) ap out =
    (if f = 0 then Inr out
     else if f = of_char (CHR ''%'') then
       (if g = of_char (CHR ''c'') then
          (case ap of VInt i # ap \<Rightarrow> kinguio_vsprintf fmt ap (vsputs_r out [word_of_int i, 0])
           | _ \<Rightarrow> Inl (Uninit ''va_arg''))
        else if g = of_char (CHR ''s'') then
          (case ap of VStr s # ap \<Rightarrow> kinguio_vsprintf fmt ap (vsputs_r out s)
           | VNull # ap \<Rightarrow> kinguio_vsprintf fmt ap (vsputs_r out (bytes ''<NULL>''))
           | _ \<Rightarrow> Inl (Uninit ''va_arg''))
        else if g = of_char (CHR ''d'') \<or> g = of_char (CHR ''i'') then
          (case ap of VInt i # ap \<Rightarrow> kinguio_vsprintf fmt ap (vsputs_r out (kinguio_itoa i))
           | _ \<Rightarrow> Inl (Uninit ''va_arg''))
        else if g = of_char (CHR ''u'') then
          (case ap of VInt i # ap \<Rightarrow>
             kinguio_vsprintf fmt ap (vsputs_r out (kinguio_itoa (uint (word_of_int i :: u8))))
           | _ \<Rightarrow> Inl (Uninit ''va_arg''))
        else if g = of_char (CHR ''X'') \<or> g = of_char (CHR ''x'') then
          (case ap of VInt i # ap \<Rightarrow>
             kinguio_vsprintf fmt ap (vsputs_r out (kinguio_i2hex (word_of_int i) 8))
           | _ \<Rightarrow> Inl (Uninit ''va_arg''))
        else kinguio_vsprintf fmt ap (vsputs_r out (bytes ''%%'')))
     else kinguio_vsprintf (g # fmt) ap (vsputs_r out [f, 0]))"

text \<open>mysprintf(), the kernel's ksprintf(): it does not write a NUL behind the text.\<close>

definition mysprintf :: "u8 list \<Rightarrow> u8 list \<Rightarrow> va list \<Rightarrow> kfault + nat \<times> u8 list" where
  "mysprintf buf fmt ap = kbind (kinguio_vsprintf fmt ap []) (\<lambda>out.
     if length out > length buf then Inl (OutOfBounds ''ksprintf'')
     else Inr (length out, out @ drop (length out) buf))"

text \<open>The characters kinguio_puts() draws, and kinguio_printf() on a cleared 1024 byte buffer.\<close>

definition kinguio_puts :: "u8 list \<Rightarrow> kfault + u8 list" where
  "kinguio_puts str = kbind (strlen str) (\<lambda>n. Inr (take n str))"

definition kinguio_printf :: "int \<Rightarrow> u8 list \<Rightarrow> va list \<Rightarrow> kfault + int \<times> u8 list" where
  "kinguio_printf console_ready fmt ap =
    (if console_ready \<noteq> TRUE then Inr (-1, [])
     else kbind (mysprintf (replicate 1024 0) fmt ap) (\<lambda>(ret, data_buffer).
       kbind (kinguio_puts data_buffer) (\<lambda>drawn. Inr (int ret, drawn))))"

section \<open>Strings\<close>

lemma cstr_simps [simp]:
  "cstr [] = []" "cstr (0 # s) = []" "c \<noteq> 0 \<Longrightarrow> cstr (c # s) = c # cstr s"
  by (simp_all add: cstr_def)

lemma cstr_append_nul [simp]: "0 \<notin> set s \<Longrightarrow> cstr (s @ 0 # t) = s"
  by (induction s) auto

lemma cstr_no_nul [simp]: "0 \<notin> set (cstr s)"
  unfolding cstr_def by (auto dest: set_takeWhileD)

lemma cstr_split: "0 \<in> set s \<Longrightarrow> \<exists>t. s = cstr s @ 0 # t"
proof (induction s)
  case (Cons a s)
  then show ?case by (cases "a = 0") auto
qed simp

lemma strlen_cstr: "0 \<in> set s \<Longrightarrow> strlen s = Inr (length (cstr s))"
proof (induction s)
  case (Cons a s)
  then show ?case by (cases "a = 0") auto
qed simp

lemma strlen_fault: "0 \<notin> set s \<Longrightarrow> strlen s = Inl (OutOfBounds ''strlen'')"
  by (induction s) auto

lemma strcmp_zero_iff:
  "0 \<in> set s \<Longrightarrow> 0 \<in> set t \<Longrightarrow> (strcmp s t = Inr 0 \<longleftrightarrow> cstr s = cstr t)"
proof (induction s t rule: strcmp.induct)
  case (1 a s1 b s2)
  have "sint a - sint b \<noteq> 0" if "a \<noteq> b" using that by (metis eq_iff_diff_eq_0 signed_word_eqI)
  then show ?case using 1 by (cases "a = 0"; cases "b = 0") auto
qed auto

lemma memcpy_eq: "n \<le> length dst \<Longrightarrow> n \<le> length src \<Longrightarrow>
    memcpy dst src n = Inr (take n src @ drop n dst)"
  by (induction dst src n rule: memcpy.induct) auto

lemma strcpy_eq: "0 \<in> set from \<Longrightarrow> length (cstr from) < length to \<Longrightarrow>
    strcpy to from = Inr (cstr from @ 0 # drop (length (cstr from) + 1) to)"
proof (induction to "from" rule: strcpy.induct)
  case (1 t to c "from")
  then show ?case by (cases "c = 0") auto
qed auto

lemma strncpy_zeros: "n \<le> length s1 \<Longrightarrow> strncpy s1 (0 # s) n = Inr (replicate n 0 @ drop n s1)"
proof (induction n arbitrary: s1)
  case (Suc n)
  then show ?case by (cases s1) auto
qed simp

lemma strncpy_eq: "n \<le> length s1 \<Longrightarrow> n \<le> length (cstr s2) \<Longrightarrow>
    strncpy s1 s2 n = Inr (take n (cstr s2) @ drop n s1)"
proof (induction s1 s2 n rule: strncpy.induct)
  case (2 d s1 c s2 n)
  then show ?case by (cases "c = 0") auto
qed (auto simp: cstr_def)

text \<open>strcspn() returns only when the byte 1 of the string ends the search, and then it returns 1.\<close>

lemma strcspn_loop_result:
  "strcspn_loop str reject = Some r \<Longrightarrow>
    r = (if length str \<le> 1 then Inl (OutOfBounds ''strcspn'') else Inr 1)
    \<and> (length str \<le> 1 \<or> str ! 1 = 0 \<or> str ! 1 \<in> set reject)"
  by (erule strcspn_loop.raw_induct[rotated]) (auto split: if_splits)

lemma strcspn_loop_returns_iff:
  assumes "1 < length str"
  shows "strcspn_loop str reject = (if str ! 1 = 0 \<or> str ! 1 \<in> set reject then Some (Inr 1) else None)"
proof (cases "str ! 1 = 0 \<or> str ! 1 \<in> set reject")
  case True
  then show ?thesis using assms by (subst strcspn_loop.simps) auto
next
  case False
  then show ?thesis using strcspn_loop_result[of str reject] assms
    by (cases "strcspn_loop str reject") auto
qed

lemma strspn_loop_result:
  "strspn_loop str accept m = Some r \<Longrightarrow> length str \<le> 1 \<or> str ! 1 = 0 \<or> str ! 1 \<notin> set accept"
  by (erule strspn_loop.raw_induct[rotated]) (auto split: if_splits)

lemma strspn_loop_member_hangs:
  "1 < length str \<Longrightarrow> str ! 1 \<noteq> 0 \<Longrightarrow> str ! 1 \<in> set accept \<Longrightarrow> strspn_loop str accept m = None"
  using strspn_loop_result[of str accept m] by (cases "strspn_loop str accept m") auto

text \<open>k_strtok_r() returns the first run of bytes that are no delimiters.\<close>

lemma in_delims_eq: "0 \<in> set d \<Longrightarrow> in_delims c d = Inr (c \<in> set (cstr d))"
proof (induction d)
  case (Cons a d)
  then show ?case by (cases "a = 0") auto
qed simp

lemma strtok_skip_eq:
  assumes "0 \<in> set d" "0 \<in> set s"
  shows "strtok_skip d s i = Inr (i + length (takeWhile (\<lambda>c. c \<in> set (cstr d)) s))"
  using assms(2)
proof (induction s arbitrary: i)
  case (Cons a s)
  have "a \<noteq> 0" if "a \<in> set (cstr d)" using that cstr_no_nul[of d] by metis
  then show ?case using Cons by (auto simp: in_delims_eq assms(1))
qed simp

lemma strtok_scan_eq:
  assumes "0 \<in> set d" "0 \<in> set s"
  shows "strtok_scan d s i = Inr (i + length (takeWhile (\<lambda>c. c \<notin> set (cstr d) \<and> c \<noteq> 0) s))"
  using assms(2)
proof (induction s arbitrary: i)
  case (Cons a s)
  then show ?case by (auto simp: in_delims_eq assms(1))
qed simp

section \<open>Numbers\<close>

declare swap_loop.simps [simp del] itoa_digits.simps [simp del]

lemma swap_loop_nth:
  "q < length xs \<Longrightarrow> length (swap_loop p q xs) = length xs
    \<and> (\<forall>i<length xs. swap_loop p q xs ! i = (if p \<le> i \<and> i \<le> q then xs ! (p + q - i) else xs ! i))"
proof (induction p q xs rule: swap_loop.induct)
  case (1 p q xs)
  show ?case
  proof (cases "p < q")
    case True
    let ?ys = "xs[p := xs ! q, q := xs ! p]"
    have "length (swap_loop (p + 1) (q - 1) ?ys) = length xs
      \<and> (\<forall>i<length xs. swap_loop (p + 1) (q - 1) ?ys ! i
          = (if p + 1 \<le> i \<and> i \<le> q - 1 then ?ys ! (p + 1 + (q - 1) - i) else ?ys ! i))"
      using 1(1)[OF True] 1(2) True by simp
    moreover have "swap_loop p q xs = swap_loop (p + 1) (q - 1) ?ys"
      using True by (subst swap_loop.simps) simp
    ultimately show ?thesis using True 1(2) by (auto simp: nth_list_update)
  next
    case False
    then have "swap_loop p q xs = xs" by (subst swap_loop.simps) simp
    moreover have "p + q - i = i" if "p \<le> i" "i \<le> q" for i using that False by linarith
    ultimately show ?thesis by simp
  qed
qed

lemma swap_loop_rev: "xs \<noteq> [] \<Longrightarrow> swap_loop 0 (length xs - 1) xs = rev xs"
  using swap_loop_nth[of "length xs - 1" xs 0]
  by (intro nth_equalityI) (auto simp: rev_nth)

text \<open>The value a list of digits stands for, as atoi_digits() accumulates it.\<close>

definition digit_value :: "32 word \<Rightarrow> u8 list \<Rightarrow> 32 word" where
  "digit_value rv ds = foldl (\<lambda>r c. r * 10 + (ucast c - 48)) rv ds"

lemma is_digit_not_nul: "is_digit c \<Longrightarrow> c \<noteq> 0"
  by (auto simp: is_digit_def)

lemma atoi_digits_eq:
  "\<forall>c\<in>set ds. is_digit c \<Longrightarrow> atoi_digits (ds @ [0]) rv = Inr (digit_value rv ds)"
  by (induction ds arbitrary: rv) (auto simp: digit_value_def is_digit_not_nul)

lemma digit_of:
  assumes "0 \<le> (d :: int)" "d < 10"
  shows "is_digit (word_of_int d + 48)" "ucast (word_of_int d + 48 :: u8) - 48 = (word_of_int d :: 32 word)"
proof -
  have "d = 0 \<or> d = 1 \<or> d = 2 \<or> d = 3 \<or> d = 4 \<or> d = 5 \<or> d = 6 \<or> d = 7 \<or> d = 8 \<or> d = 9"
    using assms by presburger
  then show "is_digit (word_of_int d + 48)" "ucast (word_of_int d + 48 :: u8) - 48 = (word_of_int d :: 32 word)"
    by (elim disjE; simp add: is_digit_def)+
qed

lemma itoa_digits_value:
  "0 \<le> v \<Longrightarrow> (\<forall>c\<in>set (itoa_digits v). is_digit c)
    \<and> digit_value 0 (rev (itoa_digits v)) = word_of_int v"
proof (induction v rule: itoa_digits.induct)
  case (1 v)
  have d: "0 \<le> v mod 10" "v mod 10 < 10" by simp_all
  have v: "(word_of_int (v div 10) :: 32 word) * 10 + word_of_int (v mod 10) = word_of_int v"
    by (metis mult_div_mod_eq mult.commute of_int_add of_int_mult of_int_numeral)
  show ?case
  proof (cases "v div 10 \<le> 0")
    case True
    then have "v div 10 = 0" using 1(2) by simp
    then show ?thesis using digit_of[OF d] v
      by (subst (1 2) itoa_digits.simps) (simp add: digit_value_def Let_def)
  next
    case False
    then have ih: "\<forall>c\<in>set (itoa_digits (v div 10)). is_digit c"
      "digit_value 0 (rev (itoa_digits (v div 10))) = word_of_int (v div 10)"
      using 1 by auto
    show ?thesis using False digit_of[OF d] v ih
      by (subst (1 2) itoa_digits.simps) (simp add: digit_value_def Let_def)
  qed
qed

lemma itoa_digits_ne: "itoa_digits v \<noteq> []"
  by (subst itoa_digits.simps) (simp add: Let_def)

lemma is_digit_no_sign: "is_digit c \<Longrightarrow> c \<noteq> 45 \<and> c \<noteq> 43"
  by (auto simp: is_digit_def)

lemma kinguio_itoa_shape:
  assumes "- INT_MAX \<le> val"
  shows "kinguio_itoa val = (if val < 0 then [45] else []) @ rev (itoa_digits \<bar>val\<bar>) @ [0]"
proof -
  have "swap_loop 0 (length (itoa_digits \<bar>val\<bar>) - 1) (itoa_digits \<bar>val\<bar>) = rev (itoa_digits \<bar>val\<bar>)"
    by (rule swap_loop_rev[OF itoa_digits_ne])
  then show ?thesis using assms
    by (cases "val < 0") (simp_all add: kinguio_itoa_def Let_def INT_MAX_def)
qed

lemma k_atoi_digits:
  assumes "ds \<noteq> []" "\<forall>c\<in>set ds. is_digit c"
  shows "k_atoi (ds @ [0]) = Inr (sint (digit_value 0 ds))"
    and "k_atoi (45 # ds @ [0]) = Inr (sint (- digit_value 0 ds))"
proof -
  obtain c cs where c: "ds = c # cs" using assms(1) by (cases ds) auto
  have d: "is_digit c" "c \<noteq> 45" "c \<noteq> 43" using assms(2) c is_digit_no_sign by auto
  then have skip: "atoi_skip (ds @ [0]) = Inr (ds @ [0])" using c by simp
  show "k_atoi (ds @ [0]) = Inr (sint (digit_value 0 ds))"
    using atoi_digits_eq[OF assms(2)] d skip c by (simp add: k_atoi_def)
  show "k_atoi (45 # ds @ [0]) = Inr (sint (- digit_value 0 ds))"
    using atoi_digits_eq[OF assms(2)] by (simp add: k_atoi_def)
qed

lemma sint_word_of_int_32:
  assumes "- (2 ^ 31) \<le> v" "v < 2 ^ 31"
  shows "sint (word_of_int v :: 32 word) = v"
  using assms by (simp add: sint_sbintrunc' signed_take_bit_int_eq_self)

lemma itoa_min: "kinguio_itoa (- 2147483648) = [45, 50, 49, 52, 55, 52, 56, 51, 54, 52, 56, 0]"
  by code_simp

lemma atoi_itoa:
  assumes "- (2 ^ 31) \<le> v" "v < 2 ^ 31"
  shows "k_atoi (kinguio_itoa v) = Inr v"
proof (cases "- INT_MAX \<le> v")
  case True
  let ?ds = "rev (itoa_digits \<bar>v\<bar>)"
  have ds: "?ds \<noteq> []" "\<forall>c\<in>set ?ds. is_digit c" "digit_value 0 ?ds = word_of_int \<bar>v\<bar>"
    using itoa_digits_value[of "\<bar>v\<bar>"] itoa_digits_ne by auto
  show ?thesis
  proof (cases "v < 0")
    case neg: True
    then have "- (word_of_int \<bar>v\<bar> :: 32 word) = word_of_int v" by simp
    then show ?thesis using k_atoi_digits(2)[OF ds(1,2)] ds(3) neg True sint_word_of_int_32[OF assms]
      by (simp add: kinguio_itoa_shape)
  next
    case False
    then show ?thesis using k_atoi_digits(1)[OF ds(1,2)] ds(3) True sint_word_of_int_32[OF assms]
      by (simp add: kinguio_itoa_shape)
  qed
next
  case False
  then have "v = - 2147483648" using assms by (simp add: INT_MAX_def)
  then show ?thesis by (simp add: itoa_min k_atoi_def is_digit_def)
qed

lemma cstr_itoa: 
  assumes "- (2 ^ 31) \<le> v" "v < 2 ^ 31"
  shows "cstr (kinguio_itoa v) @ [0] = kinguio_itoa v"
proof (cases "- INT_MAX \<le> v")
  case True
  have "0 \<notin> set (itoa_digits \<bar>v\<bar>)"
    using itoa_digits_value[of "\<bar>v\<bar>"] is_digit_not_nul by auto
  then have "cstr (rev (itoa_digits \<bar>v\<bar>) @ [0]) = rev (itoa_digits \<bar>v\<bar>)"
    using cstr_append_nul[of "rev (itoa_digits \<bar>v\<bar>)" "[]"] by simp
  then show ?thesis using True by (cases "v < 0") (simp_all add: kinguio_itoa_shape)
next
  case False
  then have "v = - 2147483648" using assms by (simp add: INT_MAX_def)
  then show ?thesis by (simp add: itoa_min)
qed

text \<open>A format without directives is copied as it is.\<close>

lemma vsprintf_plain:
  "0 \<notin> set t \<Longrightarrow> of_char (CHR ''%'') \<notin> set t \<Longrightarrow> kinguio_vsprintf (t @ [0]) ap out = Inr (out @ t)"
proof (induction t arbitrary: out)
  case (Cons c t)
  obtain g r where g: "t @ [0] = g # r" by (cases t) auto
  have "kinguio_vsprintf ((c # t) @ [0]) ap out = kinguio_vsprintf (t @ [0]) ap (out @ [c])"
    using Cons.prems by (simp add: g vsputs_r_def)
  then show ?case using Cons by simp
qed simp

lemma mysprintf_plain:
  "0 \<notin> set t \<Longrightarrow> of_char (CHR ''%'') \<notin> set t \<Longrightarrow> length t \<le> length buf
   \<Longrightarrow> mysprintf buf (t @ [0]) ap = Inr (length t, t @ drop (length t) buf)"
  by (simp add: mysprintf_def vsprintf_plain)

text \<open>
  C40. Printing an \<open>int\<close> and reading it back: the text ksprintf("%d") produces for any 32 bit value,
  the smallest one included, is read by k_atoi() as that value. With "%u" only the low byte of the
  argument survives, because the value is kept in an \<open>unsigned char\<close>.
\<close>

theorem formatted_int_reads_back:
  assumes "- (2 ^ 31) \<le> v" "v < 2 ^ 31"
  shows "(\<exists>out. kinguio_vsprintf (bytes ''%d'' @ [0]) [VInt v] [] = Inr out
            \<and> k_atoi (out @ [0]) = Inr v)
       \<and> (\<exists>out. kinguio_vsprintf (bytes ''%u'' @ [0]) [VInt v] [] = Inr out
            \<and> k_atoi (out @ [0]) = Inr (v mod 256))"
proof -
  have "k_atoi (cstr (kinguio_itoa w) @ [0]) = Inr w" if "- (2 ^ 31) \<le> w" "w < 2 ^ 31" for w
    using atoi_itoa[OF that] cstr_itoa[OF that] by simp
  moreover have "- (2 ^ 31) \<le> v mod 256"
    by (rule order_trans[of _ 0]) simp_all
  moreover have "v mod 256 < 2 ^ 31"
    by (rule less_trans[of _ 256]) simp_all
  moreover have "uint (word_of_int v :: u8) = v mod 256"
    by (simp add: unsigned_of_int take_bit_eq_mod)
  ultimately show ?thesis using assms by (simp add: bytes_def vsputs_r_def)
qed

lemma formatted_int_reads_back_witness:
  "(\<exists>out. kinguio_vsprintf (bytes ''%d'' @ [0]) [VInt (-2147483648)] [] = Inr out
      \<and> k_atoi (out @ [0]) = Inr (-2147483648))
   \<and> (\<exists>out. kinguio_vsprintf (bytes ''%u'' @ [0]) [VInt 300] [] = Inr out
      \<and> k_atoi (out @ [0]) = Inr 44)"
  using formatted_int_reads_back[of "-2147483648"] formatted_int_reads_back[of 300] by simp

end
