(* ===== verification/KNet.thy ===== *)
theory KNet
  imports KString KFifo
begin

text \<open>
  The network layer, part one: the byte order functions of kres/net/inet.c and inet.h, the packed
  headers of ethernet.h, arp.h, ip.h, udp.h, tcp.h and dhcp.h with their bytes in memory, the
  checksum, the state of the network module and the circular packet buffer of kres/net/network.c.
\<close>

section \<open>Byte order\<close>

text \<open>The macros work on the promoted argument, so the bits shifted out of 16 stay until the cast.\<close>

definition ToNetByteOrder16 :: "u32 \<Rightarrow> u32" where
  "ToNetByteOrder16 v = drop_bit 8 v OR push_bit 8 v"

definition ToNetByteOrder32 :: "u32 \<Rightarrow> u32" where
  "ToNetByteOrder32 v = (drop_bit 24 v AND 0xFF) OR (push_bit 8 v AND 0xFF0000)
     OR (drop_bit 8 v AND 0xFF00) OR (push_bit 24 v AND 0xFF000000)"

definition FromNetByteOrder16 :: "u32 \<Rightarrow> u32" where
  "FromNetByteOrder16 v = drop_bit 8 v OR push_bit 8 v"

definition FromNetByteOrder32 :: "u32 \<Rightarrow> u32" where
  "FromNetByteOrder32 v = (drop_bit 24 v AND 0xFF) OR (push_bit 8 v AND 0xFF0000)
     OR (drop_bit 8 v AND 0xFF00) OR (push_bit 24 v AND 0xFF000000)"

definition htonl :: "u32 \<Rightarrow> u32" where
  "htonl hostlong = (drop_bit 24 hostlong AND 0xFF) OR (push_bit 8 hostlong AND 0xFF0000)
     OR (drop_bit 8 hostlong AND 0xFF00) OR (push_bit 24 hostlong AND 0xFF000000)"

definition htons :: "u16 \<Rightarrow> u16" where
  "htons hostshort = drop_bit 8 hostshort OR push_bit 8 hostshort"

definition ntohl :: "u32 \<Rightarrow> u32" where
  "ntohl netlong = (drop_bit 24 netlong AND 0xFF) OR (push_bit 8 netlong AND 0xFF0000)
     OR (drop_bit 8 netlong AND 0xFF00) OR (push_bit 24 netlong AND 0xFF000000)"

definition ntohs :: "u16 \<Rightarrow> u16" where
  "ntohs netshort = drop_bit 8 netshort OR push_bit 8 netshort"

text \<open>The two macros on a \<open>uint16_t\<close>, with the cast of every caller.\<close>

definition to_net16 :: "u16 \<Rightarrow> u16" where
  "to_net16 v = ucast (ToNetByteOrder16 (ucast v))"

definition from_net16 :: "u16 \<Rightarrow> u16" where
  "from_net16 v = ucast (FromNetByteOrder16 (ucast v))"

section \<open>Headers\<close>

text \<open>The machine is little endian: a number lies in memory low byte first.\<close>

definition le16 :: "u16 \<Rightarrow> u8 list" where
  "le16 v = [ucast v, ucast (drop_bit 8 v)]"

definition le32 :: "u32 \<Rightarrow> u8 list" where
  "le32 v = [ucast v, ucast (drop_bit 8 v), ucast (drop_bit 16 v), ucast (drop_bit 24 v)]"

definition get16 :: "u8 list \<Rightarrow> nat \<Rightarrow> u16" where
  "get16 b i = ucast (b ! i) OR push_bit 8 (ucast (b ! (i + 1)))"

definition get32 :: "u8 list \<Rightarrow> nat \<Rightarrow> u32" where
  "get32 b i = ucast (b ! i) OR push_bit 8 (ucast (b ! (i + 1)))
     OR push_bit 16 (ucast (b ! (i + 2))) OR push_bit 24 (ucast (b ! (i + 3)))"

definition ETH_ALEN :: nat where "ETH_ALEN = 6"
definition ETHERNET_HEADER_LENGHT :: nat where "ETHERNET_HEADER_LENGHT = 14"
definition ARP_HEADER_LENGHT :: nat where "ARP_HEADER_LENGHT = 28"
definition IP_HEADER_LENGHT :: nat where "IP_HEADER_LENGHT = 20"
definition UDP_HEADER_LENGHT :: nat where "UDP_HEADER_LENGHT = 8"
definition TCP_HEADER_LENGHT :: nat where "TCP_HEADER_LENGHT = 20"
definition OPTIONS_SIZE :: nat where "OPTIONS_SIZE = 312 - 4"

lemmas length_defs = ETH_ALEN_def ETHERNET_HEADER_LENGHT_def ARP_HEADER_LENGHT_def
  IP_HEADER_LENGHT_def UDP_HEADER_LENGHT_def TCP_HEADER_LENGHT_def OPTIONS_SIZE_def

definition ETHERTYPE_IPV4 :: u16 where "ETHERTYPE_IPV4 = 0x0800"
definition ETHERTYPE_ARP :: u16 where "ETHERTYPE_ARP = 0x0806"
definition ETHERTYPE_IPV6 :: u16 where "ETHERTYPE_IPV6 = 0x86DD"

record ether_header =
  eh_mac_dst :: "u8 list"
  eh_mac_src :: "u8 list"
  eh_type :: u16

definition ether_bytes :: "ether_header \<Rightarrow> u8 list" where
  "ether_bytes h = eh_mac_dst h @ eh_mac_src h @ le16 (eh_type h)"

definition get_ether :: "u8 list \<Rightarrow> kfault + ether_header" where
  "get_ether b = (if length b < ETHERNET_HEADER_LENGHT then Inl (OutOfBounds ''ether_header'')
     else Inr \<lparr>eh_mac_dst = take 6 b, eh_mac_src = take 6 (drop 6 b), eh_type = get16 b 12\<rparr>)"

record ether_arp =
  ar_type :: u16
  ar_proto :: u16
  ar_hlen :: u8
  ar_plen :: u8
  ar_op :: u16
  arp_sha :: "u8 list"
  arp_spa :: "u8 list"
  arp_tha :: "u8 list"
  arp_tpa :: "u8 list"

definition arp_bytes :: "ether_arp \<Rightarrow> u8 list" where
  "arp_bytes a = le16 (ar_type a) @ le16 (ar_proto a) @ [ar_hlen a, ar_plen a] @ le16 (ar_op a)
     @ arp_sha a @ arp_spa a @ arp_tha a @ arp_tpa a"

definition get_arp :: "u8 list \<Rightarrow> kfault + ether_arp" where
  "get_arp b = (if length b < ARP_HEADER_LENGHT then Inl (OutOfBounds ''ether_arp'')
     else Inr \<lparr>ar_type = get16 b 0, ar_proto = get16 b 2, ar_hlen = b ! 4, ar_plen = b ! 5,
       ar_op = get16 b 6, arp_sha = take 6 (drop 8 b), arp_spa = take 4 (drop 14 b),
       arp_tha = take 6 (drop 18 b), arp_tpa = take 4 (drop 24 b)\<rparr>)"

record ip_d =
  ip_v_hl :: u8
  ip_tos :: u8
  ip_len :: u16
  ip_id :: u16
  ip_off :: u16
  ip_ttl :: u8
  ip_p :: u8
  ip_sum :: u16
  ip_src :: "u8 list"
  ip_dst :: "u8 list"

definition ip_bytes :: "ip_d \<Rightarrow> u8 list" where
  "ip_bytes h = [ip_v_hl h, ip_tos h] @ le16 (ip_len h) @ le16 (ip_id h) @ le16 (ip_off h)
     @ [ip_ttl h, ip_p h] @ le16 (ip_sum h) @ ip_src h @ ip_dst h"

definition get_ip :: "u8 list \<Rightarrow> kfault + ip_d" where
  "get_ip b = (if length b < IP_HEADER_LENGHT then Inl (OutOfBounds ''ip_d'')
     else Inr \<lparr>ip_v_hl = b ! 0, ip_tos = b ! 1, ip_len = get16 b 2, ip_id = get16 b 4,
       ip_off = get16 b 6, ip_ttl = b ! 8, ip_p = b ! 9, ip_sum = get16 b 10,
       ip_src = take 4 (drop 12 b), ip_dst = take 4 (drop 16 b)\<rparr>)"

record udp_d =
  uh_sport :: u16
  uh_dport :: u16
  uh_ulen :: u16
  uh_sum :: u16

definition udp_bytes :: "udp_d \<Rightarrow> u8 list" where
  "udp_bytes h = le16 (uh_sport h) @ le16 (uh_dport h) @ le16 (uh_ulen h) @ le16 (uh_sum h)"

definition get_udp :: "u8 list \<Rightarrow> kfault + udp_d" where
  "get_udp b = (if length b < UDP_HEADER_LENGHT then Inl (OutOfBounds ''udp_d'')
     else Inr \<lparr>uh_sport = get16 b 0, uh_dport = get16 b 2, uh_ulen = get16 b 4, uh_sum = get16 b 6\<rparr>)"

record tcp_d =
  th_sport :: u16
  th_dport :: u16
  th_seq :: u32
  th_ack :: u32
  th_do_res_flags :: u16
  th_window_size :: u16
  th_checksum :: u16
  th_urgent_pointer :: u16

definition get_tcp :: "u8 list \<Rightarrow> kfault + tcp_d" where
  "get_tcp b = (if length b < TCP_HEADER_LENGHT then Inl (OutOfBounds ''tcp_d'')
     else Inr \<lparr>th_sport = get16 b 0, th_dport = get16 b 2, th_seq = get32 b 4, th_ack = get32 b 8,
       th_do_res_flags = get16 b 12, th_window_size = get16 b 14, th_checksum = get16 b 16,
       th_urgent_pointer = get16 b 18\<rparr>)"

record dhcp_d =
  dh_op :: u8
  dh_htype :: u8
  dh_hlen :: u8
  dh_hops :: u8
  dh_xid :: u32
  dh_secs :: u16
  dh_flags :: u16
  dh_ciaddr :: u32
  dh_yiaddr :: u32
  dh_siaddr :: u32
  dh_giaddr :: u32
  dh_chaddr :: "u8 list"
  dh_sname :: "u8 list"
  dh_file :: "u8 list"
  dh_magic_cookie :: u32
  dh_options :: "u8 list"

definition dhcp_size :: nat where "dhcp_size = 4 + 4 + 2 * 2 + 4 * 4 + 16 + 64 + 128 + 4 + OPTIONS_SIZE"

definition dhcp_bytes :: "dhcp_d \<Rightarrow> u8 list" where
  "dhcp_bytes d = [dh_op d, dh_htype d, dh_hlen d, dh_hops d] @ le32 (dh_xid d)
     @ le16 (dh_secs d) @ le16 (dh_flags d) @ le32 (dh_ciaddr d) @ le32 (dh_yiaddr d)
     @ le32 (dh_siaddr d) @ le32 (dh_giaddr d) @ dh_chaddr d @ dh_sname d @ dh_file d
     @ le32 (dh_magic_cookie d) @ dh_options d"

definition get_dhcp :: "u8 list \<Rightarrow> kfault + dhcp_d" where
  "get_dhcp b = (if length b < dhcp_size then Inl (OutOfBounds ''dhcp_d'')
     else Inr \<lparr>dh_op = b ! 0, dh_htype = b ! 1, dh_hlen = b ! 2, dh_hops = b ! 3,
       dh_xid = get32 b 4, dh_secs = get16 b 8, dh_flags = get16 b 10, dh_ciaddr = get32 b 12,
       dh_yiaddr = get32 b 16, dh_siaddr = get32 b 20, dh_giaddr = get32 b 24,
       dh_chaddr = take 16 (drop 28 b), dh_sname = take 64 (drop 44 b),
       dh_file = take 128 (drop 108 b), dh_magic_cookie = get32 b 236,
       dh_options = take OPTIONS_SIZE (drop 240 b)\<rparr>)"

section \<open>Checksum\<close>

text \<open>The loop over 16 bit words of net_checksum(); an odd byte at the end counts alone.\<close>

fun sum16 :: "u32 \<Rightarrow> u8 list \<Rightarrow> u32" where
  "sum16 c (a # b # bs) = sum16 (c + ucast (ucast a OR push_bit 8 (ucast b) :: u16)) bs"
| "sum16 c [a] = c + ucast a"
| "sum16 c [] = c"

fun sum16_pairs :: "u32 \<Rightarrow> u8 list \<Rightarrow> u32" where
  "sum16_pairs c (a # b # bs) = sum16_pairs (c + ucast (ucast a OR push_bit 8 (ucast b) :: u16)) bs"
| "sum16_pairs c _ = c"

definition checksum_fold :: "u32 \<Rightarrow> u16" where
  "checksum_fold checksum =
    (let c1 = (checksum AND 0xFFFF) + drop_bit 16 checksum; c2 = c1 + drop_bit 16 c1
     in ucast (NOT c2))"

definition net_checksum :: "u8 list option \<Rightarrow> u8 list \<Rightarrow> u16" where
  "net_checksum phdr data =
    (let checksum = (case phdr of None \<Rightarrow> 0 | Some h \<Rightarrow> sum16_pairs 0 h)
     in to_net16 (checksum_fold (sum16 checksum data)))"

section \<open>The state of the network module\<close>

text \<open>
  The Intel network card: what intel_nic_info_d, its descriptors and its buffers hold. A buffer
  pointer that is NULL is None. \<open>hw_done\<close> is the status byte the card writes to a transmit
  descriptor when it is done, 0 for a card that never answers.
\<close>

record nic_d =
  nic_magic :: int
  nic_initialized :: int
  nic_mac_address :: "u8 list"
  nic_ip_address :: "u8 list"
  rx_cur :: u16
  tx_cur :: u16
  rx_desc_length :: "nat \<Rightarrow> u16"
  rx_desc_status :: "nat \<Rightarrow> u8"
  tx_desc_length :: "nat \<Rightarrow> u16"
  tx_desc_cmd :: "nat \<Rightarrow> u8"
  tx_desc_status :: "nat \<Rightarrow> u8"
  rx_buffers_virt :: "nat \<Rightarrow> u8 list option"
  tx_buffers_virt :: "nat \<Rightarrow> u8 list option"
  REG_TDT :: u32
  REG_RDT :: u32
  hw_done :: u8

record network_info_d =
  ni_magic :: int
  ni_initialized :: int
  ni_gateway_mac :: "u8 list"
  ni_gateway_ipv4 :: "u8 list"
  ni_tx_counter :: u64
  ni_rx_counter :: u64

record arp_cache_item_d =
  ac_used :: int
  ac_magic :: int
  ac_id :: int
  ac_ipv4_address :: "u8 list"
  ac_mac_address :: "u8 list"

text \<open>\<open>sent_frames\<close> lists the frames the card has been told to transmit, oldest first.\<close>

record net_state =
  net_initialized :: int
  net_is_online :: int
  net_locked :: int
  NetworkInfo :: "network_info_d option"
  nb_initialized :: int
  receive_tail :: int
  receive_head :: int
  nb_buffers :: "int \<Rightarrow> u8 list option"
  nb_is_full :: "int \<Rightarrow> int"
  saved_caller_mac :: "u8 list"
  saved_caller_ipv4 :: "u8 list"
  on_sending_counter :: u64
  ARP_Table_initialized :: int
  arpTable :: "int \<Rightarrow> arp_cache_item_d"
  udp_payload :: "u8 list"
  udp_saved_mac :: "u8 list"
  tcp_payload :: "u8 list"
  dhcp_initialized :: int
  dhcp_your_ipv4 :: "u8 list"
  dhcp_server_ipv4 :: "u8 list"
  dhcp_saved_server_id :: "u8 list"
  ipv4_counter :: u32
  uts_nodename :: "u8 list"
  currentNIC :: "nic_d option"
  e1000_rx_counter :: u64
  e1000_tx_counter :: u64
  sent_frames :: "u8 list list"

section \<open>network.c\<close>

text \<open>The three fill functions copy a fixed number of bytes over the start of the destination.\<close>

definition fill_bytes :: "nat \<Rightarrow> u8 list option \<Rightarrow> u8 list option \<Rightarrow> kfault + u8 list option" where
  "fill_bytes n to from =
    (case to of None \<Rightarrow> Inr None
     | Some t \<Rightarrow> (case from of None \<Rightarrow> Inr (Some t)
       | Some f \<Rightarrow> kbind (memcpy t f n) (\<lambda>r. Inr (Some r))))"

definition network_fill_mac :: "u8 list option \<Rightarrow> u8 list option \<Rightarrow> kfault + u8 list option" where
  "network_fill_mac to from = fill_bytes 6 to from"

definition network_fill_ipv4 :: "u8 list option \<Rightarrow> u8 list option \<Rightarrow> kfault + u8 list option" where
  "network_fill_ipv4 to from = fill_bytes 4 to from"

definition network_fill_ipv6 :: "u8 list option \<Rightarrow> u8 list option \<Rightarrow> kfault + u8 list option" where
  "network_fill_ipv6 to from = fill_bytes 6 to from"

definition next_buffer :: "int \<Rightarrow> int" where
  "next_buffer i = (if i + 1 \<ge> 32 then 0 else i + 1)"

definition network_push_packet :: "u8 list option \<Rightarrow> int \<Rightarrow> net_state \<Rightarrow> kfault + int \<times> net_state" where
  "network_push_packet src_buffer len s =
    (case src_buffer of
       None \<Rightarrow> Inl (KPanic ''network_push_packet: src_buffer'')
     | Some src \<Rightarrow>
       let len = (if len > 1500 then 1500 else len) in
       if nb_initialized s \<noteq> TRUE then Inl (KPanic ''network_push_packet: Shared buffers not initialized'')
       else let tail = receive_tail s; s1 = s\<lparr>receive_tail := next_buffer (receive_tail s)\<rparr> in
       if tail < 0 \<or> tail \<ge> 32 then Inl (KPanic ''network_push_packet: tail'')
       else kbind (case nb_buffers s1 tail of
                None \<Rightarrow> Inr s1
              | Some dst \<Rightarrow> if len < 0 then Inl (OutOfBounds ''network_push_packet: memcpy'')
                 else kbind (memcpy dst src (nat len)) (\<lambda>d.
                   Inr (s1\<lparr>nb_buffers := (nb_buffers s1)(tail := Some d)\<rparr>)))
         (\<lambda>s2. Inr (len, s2\<lparr>nb_is_full := (nb_is_full s2)(tail := TRUE)\<rparr>)))"

text \<open>The user's buffer comes back with the bytes of the packet over its start.\<close>

definition network_pop_packet ::
    "u8 list option \<Rightarrow> int \<Rightarrow> net_state \<Rightarrow> kfault + int \<times> u8 list option \<times> net_state" where
  "network_pop_packet u_buffer len s =
    (case u_buffer of
       None \<Rightarrow> Inl (KPanic ''network_pop_packet: [FAIL] u_buffer'')
     | Some ub \<Rightarrow>
       let len = (if len > 1500 then 1500 else len) in
       if nb_initialized s \<noteq> TRUE then Inl (KPanic ''network_pop_packet: Shared buffers not initialized'')
       else let head = receive_head s; s1 = s\<lparr>receive_head := next_buffer (receive_head s)\<rparr> in
       if head < 0 \<or> head \<ge> 32 then Inl (KPanic ''network_push_packet: head'')
       else if nb_is_full s1 head \<noteq> TRUE then Inr (0, u_buffer, s1)
       else (case nb_buffers s1 head of
           None \<Rightarrow> Inr (len, u_buffer, s1)
         | Some src \<Rightarrow> if len < 0 then Inl (OutOfBounds ''network_pop_packet: memcpy'')
            else kbind (memcpy ub src (nat len)) (\<lambda>u.
              Inr (len, Some u, s1\<lparr>nb_is_full := (nb_is_full s1)(head := FALSE)\<rparr>))))"

definition networkSetStatus :: "int \<Rightarrow> net_state \<Rightarrow> net_state" where
  "networkSetStatus status s = (if status < 0 \<or> status > 1 then s else s\<lparr>net_initialized := status\<rparr>)"

definition networkGetStatus :: "net_state \<Rightarrow> int" where
  "networkGetStatus s = net_initialized s"

definition networkLock :: "net_state \<Rightarrow> net_state" where
  "networkLock s = s\<lparr>net_locked := TRUE\<rparr>"

definition networkUnlock :: "net_state \<Rightarrow> net_state" where
  "networkUnlock s = s\<lparr>net_locked := FALSE\<rparr>"

definition networkIsLocked :: "net_state \<Rightarrow> int" where
  "networkIsLocked s = net_locked s"

definition networkSetOnlineStatus :: "int \<Rightarrow> net_state \<Rightarrow> net_state" where
  "networkSetOnlineStatus status s =
    (if status \<noteq> TRUE \<and> status \<noteq> FALSE then s else s\<lparr>net_is_online := status\<rparr>)"

definition networkGetOnlineStatus :: "net_state \<Rightarrow> int" where
  "networkGetOnlineStatus s = net_is_online s"

definition networkUpdateCounter :: "int \<Rightarrow> net_state \<Rightarrow> net_state" where
  "networkUpdateCounter the_counter s =
    (case NetworkInfo s of
       None \<Rightarrow> s
     | Some ni \<Rightarrow>
       if ni_magic ni \<noteq> 1234 then s
       else if the_counter = 1 then s\<lparr>NetworkInfo := Some (ni\<lparr>ni_tx_counter := ni_tx_counter ni + 1\<rparr>)\<rparr>
       else if the_counter = 2 then s\<lparr>NetworkInfo := Some (ni\<lparr>ni_rx_counter := ni_rx_counter ni + 1\<rparr>)\<rparr>
       else s)"

definition network_on_sending :: "net_state \<Rightarrow> int \<times> net_state" where
  "network_on_sending s = (0, s\<lparr>on_sending_counter := on_sending_counter s + 1\<rparr>)"


section \<open>Lemmas: byte order and headers\<close>

lemma u16_eqI:
  fixes a b :: u16
  assumes "\<And>n. n < 8 \<Longrightarrow> bit a n \<longleftrightarrow> bit b n"
    and "\<And>n. 8 \<le> n \<Longrightarrow> n < 16 \<Longrightarrow> bit a n \<longleftrightarrow> bit b n"
  shows "a = b"
proof (rule bit_word_eqI)
  fix n assume "n < LENGTH(16)"
  then show "bit a n \<longleftrightarrow> bit b n" using assms[of n] by (cases "n < 8") simp_all
qed

lemma u32_eqI:
  fixes a b :: u32
  assumes "\<And>n. n < 8 \<Longrightarrow> bit a n \<longleftrightarrow> bit b n"
    and "\<And>n. 8 \<le> n \<Longrightarrow> n < 16 \<Longrightarrow> bit a n \<longleftrightarrow> bit b n"
    and "\<And>n. 16 \<le> n \<Longrightarrow> n < 24 \<Longrightarrow> bit a n \<longleftrightarrow> bit b n"
    and "\<And>n. 24 \<le> n \<Longrightarrow> n < 32 \<Longrightarrow> bit a n \<longleftrightarrow> bit b n"
  shows "a = b"
proof (rule bit_word_eqI)
  fix n assume "n < LENGTH(32)"
  then show "bit a n \<longleftrightarrow> bit b n" using assms[of n]
    by (cases "n < 8"; cases "n < 16"; cases "n < 24") simp_all
qed

lemma byte_masks:
  "(0xFF :: u32) = mask 8" "(0xFF00 :: u32) = push_bit 8 (mask 8)"
  "(0xFF0000 :: u32) = push_bit 16 (mask 8)" "(0xFF000000 :: u32) = push_bit 24 (mask 8)"
  by (simp_all add: mask_eq_exp_minus_1 push_bit_eq_mult)

lemma ntohs_htons [simp]: "ntohs (htons v) = v"
  unfolding ntohs_def htons_def
  by (rule u16_eqI) (auto simp: bit_simps)

lemma to_net16_htons: "to_net16 v = htons v" "from_net16 v = ntohs v"
  unfolding to_net16_def from_net16_def ToNetByteOrder16_def FromNetByteOrder16_def htons_def ntohs_def
  by (rule bit_word_eqI; auto simp: bit_simps)+

lemma from_to_net16 [simp]: "from_net16 (to_net16 v) = v"
  by (simp add: to_net16_htons)

lemma to_net16_twice [simp]: "to_net16 (to_net16 v) = v"
  using ntohs_htons[of v] by (simp add: to_net16_htons htons_def ntohs_def)

lemma ntohl_htonl [simp]: "ntohl (htonl v) = v"
  unfolding ntohl_def htonl_def byte_masks
  by (rule u32_eqI) (auto simp: bit_simps)

lemma le_lengths [simp]: "length (le16 v) = 2" "length (le32 w) = 4"
  by (simp_all add: le16_def le32_def)

lemma get16_le16: "get16 [ucast v, ucast (drop_bit 8 v)] 0 = (v :: u16)"
  unfolding get16_def by (rule u16_eqI) (auto simp: bit_simps)

lemma get16_append: "length a = i \<Longrightarrow> get16 (a @ le16 v @ c) i = v"
  using get16_le16[of v] by (simp add: get16_def nth_append le16_def)

lemma get32_le32: "get32 [ucast v, ucast (drop_bit 8 v), ucast (drop_bit 16 v), ucast (drop_bit 24 v)] 0 = (v :: u32)"
  unfolding get32_def by (rule u32_eqI) (auto simp: bit_simps)

lemma get32_append: "length a = i \<Longrightarrow> get32 (a @ le32 v @ c) i = v"
  using get32_le32[of v] by (simp add: get32_def nth_append le32_def)

lemma u16_join [simp]:
  "ucast (ucast v :: u8) OR push_bit 8 (ucast (ucast (drop_bit 8 v) :: u8)) = (v :: u16)"
  using get16_le16[of v] by (simp add: get16_def)

lemma u32_join [simp]:
  "ucast (ucast v :: u8) OR push_bit 8 (ucast (ucast (drop_bit 8 v) :: u8))
     OR push_bit 16 (ucast (ucast (drop_bit 16 v) :: u8))
     OR push_bit 24 (ucast (ucast (drop_bit 24 v) :: u8)) = (v :: u32)"
  using get32_le32[of v] by (simp add: get32_def)

text \<open>A header that lies in memory is read back as it was written, whatever follows it.\<close>

definition ether_ok :: "ether_header \<Rightarrow> bool" where
  "ether_ok h \<longleftrightarrow> length (eh_mac_dst h) = 6 \<and> length (eh_mac_src h) = 6"

definition arp_ok :: "ether_arp \<Rightarrow> bool" where
  "arp_ok a \<longleftrightarrow> length (arp_sha a) = 6 \<and> length (arp_spa a) = 4
     \<and> length (arp_tha a) = 6 \<and> length (arp_tpa a) = 4"

definition ip_ok :: "ip_d \<Rightarrow> bool" where
  "ip_ok h \<longleftrightarrow> length (ip_src h) = 4 \<and> length (ip_dst h) = 4"

definition dhcp_ok :: "dhcp_d \<Rightarrow> bool" where
  "dhcp_ok d \<longleftrightarrow> length (dh_chaddr d) = 16 \<and> length (dh_sname d) = 64 \<and> length (dh_file d) = 128
     \<and> length (dh_options d) = OPTIONS_SIZE"

lemma length_ether_bytes [simp]: "ether_ok h \<Longrightarrow> length (ether_bytes h) = 14"
  by (simp add: ether_ok_def ether_bytes_def)

lemma length_arp_bytes [simp]: "arp_ok a \<Longrightarrow> length (arp_bytes a) = 28"
  by (simp add: arp_ok_def arp_bytes_def)

lemma length_ip_bytes [simp]: "ip_ok h \<Longrightarrow> length (ip_bytes h) = 20"
  by (simp add: ip_ok_def ip_bytes_def)

lemma length_udp_bytes [simp]: "length (udp_bytes h) = 8"
  by (simp add: udp_bytes_def)

lemma length_dhcp_bytes [simp]: "dhcp_ok d \<Longrightarrow> length (dhcp_bytes d) = dhcp_size"
  by (simp add: dhcp_ok_def dhcp_bytes_def dhcp_size_def)

lemma get_ether_bytes: "ether_ok h \<Longrightarrow> get_ether (ether_bytes h @ r) = Inr h"
  using get16_append[of "eh_mac_dst h @ eh_mac_src h" 12 "eh_type h" r]
  by (simp add: get_ether_def ether_bytes_def ether_ok_def ETHERNET_HEADER_LENGHT_def)

lemma get_arp_bytes: "arp_ok a \<Longrightarrow> get_arp (arp_bytes a @ r) = Inr a"
  by (simp add: get_arp_def arp_bytes_def arp_ok_def ARP_HEADER_LENGHT_def le16_def get16_def)

lemma get_ip_bytes: "ip_ok h \<Longrightarrow> get_ip (ip_bytes h @ r) = Inr h"
  by (simp add: get_ip_def ip_bytes_def ip_ok_def IP_HEADER_LENGHT_def le16_def get16_def)

lemma get_udp_bytes: "get_udp (udp_bytes h @ r) = Inr h"
  by (simp add: get_udp_def udp_bytes_def UDP_HEADER_LENGHT_def le16_def get16_def)

lemma get_dhcp_bytes: "dhcp_ok d \<Longrightarrow> get_dhcp (dhcp_bytes d @ r) = Inr d"
proof -
  assume ok: "dhcp_ok d"
  let ?h = "[dh_op d, dh_htype d, dh_hlen d, dh_hops d] @ le32 (dh_xid d) @ le16 (dh_secs d)
     @ le16 (dh_flags d) @ le32 (dh_ciaddr d) @ le32 (dh_yiaddr d) @ le32 (dh_siaddr d)
     @ le32 (dh_giaddr d)"
  have h: "length ?h = 28" by simp
  have cookie: "get32 ((?h @ dh_chaddr d @ dh_sname d @ dh_file d) @ le32 (dh_magic_cookie d)
      @ dh_options d @ r) 236 = dh_magic_cookie d"
    using ok by (intro get32_append) (simp add: dhcp_ok_def)
  have fields: "get32 (?h @ x) 4 = dh_xid d" "get16 (?h @ x) 8 = dh_secs d" "get16 (?h @ x) 10 = dh_flags d"
    "get32 (?h @ x) 12 = dh_ciaddr d" "get32 (?h @ x) 16 = dh_yiaddr d" "get32 (?h @ x) 20 = dh_siaddr d"
    "get32 (?h @ x) 24 = dh_giaddr d" for x
    by (simp_all add: le16_def le32_def get16_def get32_def)
  have e: "dhcp_bytes d @ r = ?h @ dh_chaddr d @ dh_sname d @ dh_file d @ le32 (dh_magic_cookie d)
      @ dh_options d @ r"
    by (simp add: dhcp_bytes_def)
  have len: "\<not> length (dhcp_bytes d @ r) < dhcp_size" using ok by simp
  have sub: "drop 28 (?h @ x) = x" "drop 44 (?h @ x) = drop 16 x" "drop 108 (?h @ x) = drop 80 x"
    "drop 240 (?h @ x) = drop 212 x" for x
    using h by (simp_all del: append.simps append_assoc)
  show ?thesis
    unfolding get_dhcp_def if_not_P[OF len] unfolding e sub fields
    using cookie ok by (simp add: dhcp_ok_def)
qed

section \<open>Lemmas: the checksum\<close>

text \<open>
  The reference: the bytes as little endian 16 bit words, added without carries. A block is
  accepted under RFC 1071 when the sum is a multiple of 65535 and not zero.
\<close>

fun wsum :: "u8 list \<Rightarrow> nat" where
  "wsum (a # b # bs) = unat a + 256 * unat b + wsum bs"
| "wsum [a] = unat a"
| "wsum [] = 0"

lemma unat_byte_le: "unat (a :: u8) \<le> 255"
  using unsigned_less[of a, where ?'a = nat] by simp

lemma unat_u16_less: "unat (a :: u16) < 65536"
  using unsigned_less[of a, where ?'a = nat] by simp

lemma unat_u32_less: "unat (a :: u32) < 4294967296"
  using unsigned_less[of a, where ?'a = nat] by simp

lemma unat_ucast_up:
  "unat (ucast (a :: u8) :: u16) = unat a" "unat (ucast (a :: u8) :: u32) = unat a"
  "unat (ucast (b :: u16) :: u32) = unat b"
  using unat_byte_le[of a] unat_u16_less[of b]
  by (simp_all add: unsigned_ucast_eq take_bit_eq_mod)

lemma unat_byte_pair: "unat (ucast a OR push_bit 8 (ucast b) :: u16) = unat (a :: u8) + 256 * unat (b :: u8)"
proof -
  have "(ucast a OR push_bit 8 (ucast b) :: u16) = ucast a + push_bit 8 (ucast b)"
    by (rule disjunctive_add[symmetric]) (auto simp: bit_simps dest: bit_imp_le_length)
  also have "unat \<dots> = unat a + 256 * unat b"
    using unat_byte_le[of a] unat_byte_le[of b]
    by (simp add: unat_word_ariths push_bit_eq_mult unat_ucast_up)
  finally show ?thesis .
qed

lemma wsum_bound: "wsum bs \<le> 65535 * length bs"
proof (induction bs rule: wsum.induct)
  case (1 a b bs)
  then show ?case using unat_byte_le[of a] unat_byte_le[of b] by simp
next
  case (2 a)
  then show ?case using unat_byte_le[of a] by simp
qed simp

lemma unat_sum16: "unat c + wsum bs < 2 ^ 32 \<Longrightarrow> unat (sum16 c bs) = unat c + wsum bs"
proof (induction c bs rule: sum16.induct)
  case (1 c a b bs)
  then show ?case by (simp add: unat_word_ariths unat_byte_pair unat_ucast_up)
next
  case (2 c a)
  then show ?case by (simp add: unat_word_ariths unat_ucast_up)
qed simp

text \<open>The two steps that add the carries back, on natural numbers.\<close>

definition fold_carry :: "nat \<Rightarrow> nat" where
  "fold_carry n = n mod 65536 + n div 65536"

lemma fold_carry_mod: "fold_carry n mod 65535 = n mod 65535"
proof -
  have "n = n mod 65536 + 65536 * (n div 65536)" by simp
  then have "n = fold_carry n + 65535 * (n div 65536)" unfolding fold_carry_def by linarith
  then show ?thesis by (metis mod_mult_self2)
qed

lemma fold_carry_0: "fold_carry n = 0 \<longleftrightarrow> n = 0"
proof
  assume "fold_carry n = 0"
  then have "n mod 65536 = 0" "n div 65536 = 0" by (simp_all add: fold_carry_def)
  then show "n = 0" by (metis div_mult_mod_eq add.right_neutral mult_0)
qed (simp add: fold_carry_def)

lemma fold_carry_twice:
  assumes "n < 2 ^ 32"
  shows "fold_carry (fold_carry n) \<le> 65535"
    and "(fold_carry n + fold_carry n div 65536) mod 65536 = fold_carry (fold_carry n)"
proof -
  have "n div 65536 \<le> 65535" using assms by (simp add: less_mult_imp_div_less)
  moreover have "n mod 65536 \<le> 65535" using mod_less_divisor[of 65536 n] by linarith
  ultimately have c: "fold_carry n \<le> 131070" unfolding fold_carry_def by linarith
  show le: "fold_carry (fold_carry n) \<le> 65535"
  proof (cases "fold_carry n < 65536")
    case True
    then show ?thesis unfolding fold_carry_def[of "fold_carry n"] by simp
  next
    case False
    then have "fold_carry n div 65536 = 1" "fold_carry n mod 65536 = fold_carry n - 65536"
      using c by (simp_all add: div_nat_eqI mod_nat_eqI)
    then show ?thesis using c unfolding fold_carry_def[of "fold_carry n"] by linarith
  qed
  have "(fold_carry n + fold_carry n div 65536) mod 65536
      = (fold_carry n mod 65536 + fold_carry n div 65536) mod 65536"
    by (simp add: mod_simps)
  then show "(fold_carry n + fold_carry n div 65536) mod 65536 = fold_carry (fold_carry n)"
    using le by (simp add: fold_carry_def[of "fold_carry n"])
qed

lemma unat_not_u16: "unat (NOT (x :: u16)) = 65535 - unat x"
proof -
  have "NOT x = - 1 - x" by (simp add: not_eq_complement)
  moreover have "x \<le> - 1" by simp
  moreover have "unat (- 1 :: u16) = 65535"
    by (simp add: unsigned_minus_1_eq_mask mask_eq_exp_minus_1)
  ultimately show ?thesis by (simp add: unat_sub del: word_order.extremum)
qed

lemma checksum_fold_eq: "unat (checksum_fold c) = 65535 - fold_carry (fold_carry (unat c))"
proof -
  let ?c1 = "(c AND 0xFFFF) + drop_bit 16 c"
  have lt: "unat c < 2 ^ 32" using unat_u32_less[of c] by simp
  have and_eq: "unat (c AND 0xFFFF) = unat c mod 65536"
  proof -
    have "c AND 0xFFFF = take_bit 16 c"
      using take_bit_eq_mask[of 16 c] by (simp add: mask_eq_exp_minus_1)
    then show ?thesis by (simp only: unsigned_take_bit_eq take_bit_eq_mod[of 16 "unat c"]) simp
  qed
  have "unat ?c1 = fold_carry (unat c)"
  proof -
    have "unat c mod 65536 + unat c div 65536 < 4294967296"
      using lt mod_less_divisor[of 65536 "unat c"] less_mult_imp_div_less[of "unat c" 65536 65536] by simp
    then show ?thesis
      by (simp add: unat_word_ariths and_eq unsigned_drop_bit_eq drop_bit_eq_div fold_carry_def)
  qed
  then have c2: "unat (?c1 + drop_bit 16 ?c1) mod 65536 = fold_carry (fold_carry (unat c))"
    using fold_carry_twice(2)[OF lt]
    by (simp add: unat_word_ariths unsigned_drop_bit_eq drop_bit_eq_div mod_mod_cancel)
  have "(ucast (NOT (?c1 + drop_bit 16 ?c1)) :: u16) = NOT (ucast (?c1 + drop_bit 16 ?c1))"
    by (rule bit_word_eqI) (simp add: bit_simps)
  then show ?thesis
    using c2 by (simp add: checksum_fold_def Let_def unat_not_u16 unsigned_ucast_eq take_bit_eq_mod)
qed

lemma word_of_bytes: "unat (ucast v :: u8) + 256 * unat (ucast (drop_bit 8 v) :: u8) = unat (v :: u16)"
  using unat_byte_pair[of "ucast v" "ucast (drop_bit 8 v)"] by simp

lemma wsum_le16: "wsum (le16 v @ bs) = unat v + wsum bs"
  using word_of_bytes[of v] by (simp add: le16_def)

text \<open>The steps every sender takes: clear the field, sum the header, store the result.\<close>

definition fill_ip_sum :: "ip_d \<Rightarrow> ip_d" where
  "fill_ip_sum h =
    (let h0 = h\<lparr>ip_sum := 0\<rparr>; h1 = h0\<lparr>ip_sum := net_checksum None (ip_bytes h0)\<rparr>
     in h1\<lparr>ip_sum := to_net16 (ip_sum h1)\<rparr>)"

lemma wsum_ip_sum: "wsum (ip_bytes (h\<lparr>ip_sum := v\<rparr>)) = wsum (ip_bytes (h\<lparr>ip_sum := 0\<rparr>)) + unat v"
  by (simp add: ip_bytes_def wsum_le16 del: append_assoc)

lemma net_checksum_eq:
  assumes "length bs < 65535"
  shows "unat (to_net16 (net_checksum None bs)) = 65535 - fold_carry (fold_carry (wsum bs))"
proof -
  have "65535 * length bs < 2 ^ 32" using assms by simp
  then have "wsum bs < 2 ^ 32" using wsum_bound[of bs] by linarith
  then have "unat (sum16 0 bs) = wsum bs" using unat_sum16[of 0 bs] by simp
  then show ?thesis using checksum_fold_eq[of "sum16 0 bs"] by (simp add: net_checksum_def)
qed

lemma to_net16_0: "to_net16 0 = 0"
  by (simp add: to_net16_def ToNetByteOrder16_def)

lemma net_checksum_zero_iff:
  assumes "length bs < 65535"
  shows "net_checksum None bs = 0 \<longleftrightarrow> wsum bs \<noteq> 0 \<and> wsum bs mod 65535 = 0"
proof -
  let ?g = "fold_carry (fold_carry (wsum bs))"
  have "65535 * length bs < 2 ^ 32" using assms by simp
  then have "wsum bs < 2 ^ 32" using wsum_bound[of bs] by linarith
  then have le: "?g \<le> 65535" by (rule fold_carry_twice(1))
  have g: "?g mod 65535 = wsum bs mod 65535" by (simp add: fold_carry_mod)
  have "net_checksum None bs = 0 \<longleftrightarrow> to_net16 (net_checksum None bs) = 0"
    by (metis to_net16_twice to_net16_0)
  also have "\<dots> \<longleftrightarrow> ?g = 65535"
    using net_checksum_eq[OF assms] le by (simp add: unat_eq_zero flip: unat_eq_zero)
  also have "\<dots> \<longleftrightarrow> ?g \<noteq> 0 \<and> ?g mod 65535 = 0"
    using le by (auto simp: mod_eq_0_iff_dvd dest: dvd_imp_le)
  finally show ?thesis by (simp add: g fold_carry_0)
qed

lemma wsum_fill:
  assumes "ip_ok h"
  shows "wsum (ip_bytes (fill_ip_sum h)) mod 65535 = 0"
proof -
  let ?s = "wsum (ip_bytes (h\<lparr>ip_sum := 0\<rparr>))"
  let ?g = "fold_carry (fold_carry ?s)"
  have len: "length (ip_bytes (h\<lparr>ip_sum := 0\<rparr>)) = 20" using assms by (simp add: ip_ok_def ip_bytes_def)
  have "?s < 2 ^ 32" using wsum_bound[of "ip_bytes (h\<lparr>ip_sum := 0\<rparr>)"] len by simp
  then have le: "?g \<le> 65535" by (rule fold_carry_twice(1))
  have "wsum (ip_bytes (fill_ip_sum h)) = ?s + (65535 - ?g)"
    using net_checksum_eq[of "ip_bytes (h\<lparr>ip_sum := 0\<rparr>)"] len
      wsum_ip_sum[where h = h and v = "to_net16 (net_checksum None (ip_bytes (h\<lparr>ip_sum := 0\<rparr>)))"]
    by (simp add: fill_ip_sum_def Let_def)
  moreover have "(?s + (65535 - ?g)) mod 65535 = (?g + (65535 - ?g)) mod 65535"
    by (metis fold_carry_mod mod_add_left_eq)
  ultimately show ?thesis using le by simp
qed

text \<open>
  C8. The checksum routine is the one of RFC 1071, and what is sent passes it: over any block of less
  than 64 KB net_checksum() is 0 exactly when the block's 16 bit words sum up, without carries, to a
  multiple of 65535 that is not 0, and an IP header filled in by a sender is such a block.
\<close>

theorem checksum_is_rfc1071:
  assumes "length bs < 65535" "ip_ok h" "ip_v_hl h \<noteq> 0"
  shows "(net_checksum None bs = 0 \<longleftrightarrow> wsum bs \<noteq> 0 \<and> wsum bs mod 65535 = 0)
    \<and> net_checksum None (ip_bytes (fill_ip_sum h)) = 0"
proof -
  have "length (ip_bytes (fill_ip_sum h)) = 20"
    using assms(2) by (simp add: ip_bytes_def ip_ok_def fill_ip_sum_def Let_def)
  moreover have "wsum (ip_bytes (fill_ip_sum h)) \<noteq> 0"
    using assms(3) by (simp add: ip_bytes_def fill_ip_sum_def Let_def unat_eq_zero)
  ultimately show ?thesis
    using net_checksum_zero_iff[OF assms(1)] net_checksum_zero_iff[of "ip_bytes (fill_ip_sum h)"]
      wsum_fill[OF assms(2)] by simp
qed

definition demo_ip :: ip_d where
  "demo_ip = \<lparr>ip_v_hl = 0x45, ip_tos = 0, ip_len = 0x1C02, ip_id = 0, ip_off = 0x40, ip_ttl = 255,
     ip_p = 17, ip_sum = 0, ip_src = [192, 168, 1, 12], ip_dst = [192, 168, 1, 1]\<rparr>"

lemma checksum_is_rfc1071_witness:
  "(net_checksum None [0xFF, 0xFF] = 0 \<longleftrightarrow> wsum [0xFF, 0xFF] \<noteq> 0 \<and> wsum [0xFF, 0xFF] mod 65535 = 0)
    \<and> net_checksum None (ip_bytes (fill_ip_sum demo_ip)) = 0"
  by (rule checksum_is_rfc1071) (simp_all add: demo_ip_def ip_ok_def)

section \<open>The packet buffer is a queue\<close>

text \<open>
  The pending packets are the full buffers from the head on. A packet is pushed with the full
  length of 1500 bytes; its length is not stored, so a reader gets as many bytes as it asks for.
\<close>

definition packets_good :: "nat \<Rightarrow> net_state \<Rightarrow> bool" where
  "packets_good n s \<longleftrightarrow> nb_initialized s = TRUE \<and> n \<le> 32
     \<and> 0 \<le> receive_head s \<and> receive_head s < 32
     \<and> receive_tail s = (receive_head s + int n) mod 32
     \<and> (\<forall>i. 0 \<le> i \<and> i < 32 \<longrightarrow> (\<exists>b. nb_buffers s i = Some b \<and> length b = 4096))
     \<and> (\<forall>k<32. nb_is_full s ((receive_head s + int k) mod 32) = TRUE \<longleftrightarrow> k < n)"

definition packet_count :: "net_state \<Rightarrow> nat" where
  "packet_count s =
    length (takeWhile (\<lambda>k. nb_is_full s ((receive_head s + int k) mod 32) = TRUE) [0..<32])"

definition packets :: "net_state \<Rightarrow> u8 list list" where
  "packets s = map (\<lambda>k. take 1500 (the (nb_buffers s ((receive_head s + int k) mod 32)))) [0..<packet_count s]"

definition push1500 :: "u8 list \<Rightarrow> net_state \<Rightarrow> net_state option" where
  "push1500 x s = (case network_push_packet (Some x) 1500 s of Inl _ \<Rightarrow> None | Inr (_, s') \<Rightarrow> Some s')"

definition user_buffer :: "u8 list" where
  "user_buffer = replicate 1500 0"

lemma length_user_buffer [simp]: "length user_buffer = 1500"
  unfolding user_buffer_def by (rule length_replicate)

definition pop1500 :: "net_state \<Rightarrow> (u8 list \<times> net_state) option" where
  "pop1500 s = (case network_pop_packet (Some user_buffer) 1500 s of
     Inr (r, Some u, s') \<Rightarrow> if r = 1500 then Some (u, s') else None | _ \<Rightarrow> None)"

lemma takeWhile_upt: "n \<le> m \<Longrightarrow> (\<And>k. k < m \<Longrightarrow> P k \<longleftrightarrow> k < n) \<Longrightarrow> takeWhile P [0..<m] = [0..<n]"
proof -
  assume n: "n \<le> m" and P: "\<And>k. k < m \<Longrightarrow> P k \<longleftrightarrow> k < n"
  have "[0..<m] = [0..<n] @ [n..<m]" using n upt_add_eq_append[of 0 n "m - n"] by simp
  moreover have "takeWhile P ([0..<n] @ [n..<m]) = [0..<n] @ takeWhile P [n..<m]"
    using n P by (intro takeWhile_append2) auto
  moreover have "takeWhile P [n..<m] = []"
    using P[of n] by (cases "n < m") (simp_all add: upt_rec)
  ultimately show ?thesis by simp
qed

lemma packet_count_good: "packets_good n s \<Longrightarrow> packet_count s = n"
  unfolding packet_count_def
  by (subst takeWhile_upt[of n]) (auto simp: packets_good_def)

definition packets_ok :: "net_state \<Rightarrow> bool" where
  "packets_ok s \<longleftrightarrow> packets_good (packet_count s) s"

lemma next_buffer_mod: "0 \<le> i \<Longrightarrow> i < 32 \<Longrightarrow> next_buffer i = (i + 1) mod 32"
  by (cases "i = 31") (auto simp: next_buffer_def)

lemma packet_buffer: "packets_good n s \<Longrightarrow> 0 \<le> i \<Longrightarrow> i < 32 \<Longrightarrow> \<exists>b. nb_buffers s i = Some b \<and> length b = 4096"
  by (simp add: packets_good_def)

lemma packet_full: "packets_good n s \<Longrightarrow> k < 32
    \<Longrightarrow> nb_is_full s ((receive_head s + int k) mod 32) = TRUE \<longleftrightarrow> k < n"
  by (simp add: packets_good_def)

lemma packets_initialized: "packets_good n s \<Longrightarrow> nb_initialized s = TRUE"
  by (simp add: packets_good_def)

text \<open>Pushing writes the buffer behind the last pending packet.\<close>

lemma push1500_good:
  assumes g: "packets_good n s" and n: "n < 32" and x: "length x = 1500"
  obtains s' where "push1500 x s = Some s'" "packets_good (Suc n) s'"
    "receive_head s' = receive_head s"
    "\<And>i. nb_buffers s' i = (if i = receive_tail s
        then Some (x @ drop 1500 (the (nb_buffers s i))) else nb_buffers s i)"
proof -
  have t: "0 \<le> receive_tail s" "receive_tail s < 32" using g by (auto simp: packets_good_def)
  then obtain b where b: "nb_buffers s (receive_tail s) = Some b" "length b = 4096"
    using packet_buffer[OF g] by blast
  let ?s1 = "s\<lparr>receive_tail := next_buffer (receive_tail s),
      nb_buffers := (nb_buffers s)(receive_tail s := Some (x @ drop 1500 b)),
      nb_is_full := (nb_is_full s)(receive_tail s := TRUE)\<rparr>"
  have push: "push1500 x s = Some ?s1"
    using packets_initialized[OF g] t b x memcpy_eq[of 1500 b x]
    by (simp add: push1500_def network_push_packet_def Let_def)
  have tail: "receive_tail s = (receive_head s + int n) mod 32" using g by (simp add: packets_good_def)
  have slot: "(receive_head s + int k) mod 32 = receive_tail s \<longleftrightarrow> k = n" if "k < 32" for k
    using cyclic_inj[of k 32 n "receive_head s"] that n tail by simp
  have "next_buffer (receive_tail s) = (receive_head s + int (Suc n)) mod 32"
    using next_buffer_mod[OF t] by (simp add: tail mod_simps ac_simps)
  then have "packets_good (Suc n) ?s1"
    using g n slot x b by (auto simp: packets_good_def less_Suc_eq)
  then show ?thesis using that[OF push] b by (simp add: fun_eq_iff)
qed

text \<open>Popping reads the buffer at the head and empties it.\<close>

lemma pop1500_good:
  assumes g: "packets_good (Suc n) s"
  obtains s' where "pop1500 s = Some (take 1500 (the (nb_buffers s (receive_head s))), s')"
    "packets_good n s'" "receive_head s' = (receive_head s + 1) mod 32"
    "nb_buffers s' = nb_buffers s"
proof -
  have h: "0 \<le> receive_head s" "receive_head s < 32" using g by (auto simp: packets_good_def)
  then obtain b where b: "nb_buffers s (receive_head s) = Some b" "length b = 4096"
    using packet_buffer[OF g] by blast
  have full: "nb_is_full s (receive_head s) = TRUE"
  proof -
    show ?thesis using packet_full[OF g, of 0] h by simp
  qed
  let ?s1 = "s\<lparr>receive_head := next_buffer (receive_head s),
      nb_is_full := (nb_is_full s)(receive_head s := FALSE)\<rparr>"
  have pop: "pop1500 s = Some (take 1500 b, ?s1)"
    using packets_initialized[OF g] h b full memcpy_eq[of 1500 user_buffer b]
    by (simp add: pop1500_def network_pop_packet_def Let_def)
  have slot: "(receive_head s + 1 + int k) mod 32 = receive_head s \<longleftrightarrow> k = 31" if "k < 32" for k
    using cyclic_inj[of k 32 31 "receive_head s + 1"] that h by simp
  have nx: "next_buffer (receive_head s) = (receive_head s + 1) mod 32" by (rule next_buffer_mod[OF h])
  have "nb_is_full ?s1 ((receive_head ?s1 + int k) mod 32) = TRUE \<longleftrightarrow> k < n" if k: "k < 32" for k
  proof (cases "k = 31")
    case True
    then show ?thesis using g slot[OF k] by (simp add: nx mod_simps packets_good_def)
  next
    case False
    then have "Suc k < 32" using k by simp
    then have "nb_is_full s ((receive_head s + int (Suc k)) mod 32) = TRUE \<longleftrightarrow> Suc k < Suc n"
      by (rule packet_full[OF g])
    then show ?thesis using False slot[OF k] by (simp add: nx mod_simps ac_simps)
  qed
  then have "packets_good n ?s1"
    using g by (auto simp: packets_good_def nx mod_simps ac_simps)
  then show ?thesis using that[of ?s1] pop b nx by simp
qed

interpretation packetq: bounded_fifo push1500 pop1500 packets "\<lambda>x. x" "\<lambda>x. length x = 1500" packets_ok 32
proof
  fix q x assume q: "packets_ok q" and x: "length (x :: u8 list) = 1500" and r: "length (packets q) < 32"
  let ?n = "packet_count q"
  have n: "?n < 32" using r by (simp add: packets_def)
  from push1500_good[OF q[unfolded packets_ok_def] n x] obtain q' where q':
    "push1500 x q = Some q'" "packets_good (Suc ?n) q'" "receive_head q' = receive_head q"
    "\<And>i. nb_buffers q' i = (if i = receive_tail q
        then Some (x @ drop 1500 (the (nb_buffers q i))) else nb_buffers q i)" by blast
  have c: "packet_count q' = Suc ?n" by (rule packet_count_good[OF q'(2)])
  have tail: "receive_tail q = (receive_head q + int ?n) mod 32"
    using q by (simp add: packets_ok_def packets_good_def)
  have slot: "(receive_head q + int k) mod 32 = receive_tail q \<longleftrightarrow> k = ?n" if "k < 32" for k
    using cyclic_inj[of k 32 ?n "receive_head q"] that n tail by simp
  have "packets q' = packets q @ [x]"
    using n slot x by (simp add: packets_def c q'(3,4))
  then show "\<exists>q'. push1500 x q = Some q' \<and> packets_ok q' \<and> packets q' = packets q @ [x]"
    using q'(1,2) c by (auto simp: packets_ok_def)
next
  fix q y ys assume q: "packets_ok q" and p: "packets q = y # ys"
  then obtain n where n: "packet_count q = Suc n" by (cases "packet_count q") (auto simp: packets_def)
  from pop1500_good[of n q] q n obtain q' where q':
    "pop1500 q = Some (take 1500 (the (nb_buffers q (receive_head q))), q')"
    "packets_good n q'" "receive_head q' = (receive_head q + 1) mod 32" "nb_buffers q' = nb_buffers q"
    by (metis packets_ok_def)
  have h: "0 \<le> receive_head q" "receive_head q < 32"
    using q by (auto simp: packets_ok_def packets_good_def)
  have c: "packet_count q' = n" by (rule packet_count_good[OF q'(2)])
  have "packets q = take 1500 (the (nb_buffers q (receive_head q))) # packets q'"
    using h unfolding packets_def n c
    by (simp add: upt_conv_Cons q'(3,4) mod_simps ac_simps del: upt_Suc) 
       (simp add: map_Suc_upt[symmetric] ac_simps del: upt_Suc)
  then show "\<exists>q'. pop1500 q = Some (y, q') \<and> packets_ok q' \<and> packets q' = ys"
    using p q'(1,2) c by (auto simp: packets_ok_def)
qed

text \<open>
  The packet buffer is a queue of 32 packets: starting from an empty buffer, a burst of up to 32
  packets of 1500 bytes pushed with network_push_packet() is popped in the order of the pushes and
  complete, and leaves the buffer empty.
\<close>

lemma packets_in_order:
  assumes "packets_ok s" "packets s = []" "\<forall>x\<in>set xs. length x = 1500" "length xs \<le> 32"
  shows "\<exists>s1 s2. enq_all push1500 xs s = Some s1 \<and> deq_all pop1500 (length xs) s1 = Some (xs, s2)
     \<and> packets_ok s2 \<and> packets s2 = []"
  using packetq.burst_in_order[OF assms] by simp

definition zero_nic :: nic_d where
  "zero_nic = \<lparr>nic_magic = 1234, nic_initialized = TRUE, nic_mac_address = [2, 0, 0, 0, 0, 1],
     nic_ip_address = [0, 0, 0, 0], rx_cur = 0, tx_cur = 0, rx_desc_length = (\<lambda>_. 0),
     rx_desc_status = (\<lambda>_. 0), tx_desc_length = (\<lambda>_. 0), tx_desc_cmd = (\<lambda>_. 0),
     tx_desc_status = (\<lambda>_. 0), rx_buffers_virt = (\<lambda>_. Some (replicate 8192 0)),
     tx_buffers_virt = (\<lambda>_. Some (replicate 8192 0)), REG_TDT = 0, REG_RDT = 31, hw_done = 1\<rparr>"

definition demo_net :: net_state where
  "demo_net = \<lparr>net_initialized = TRUE, net_is_online = FALSE, net_locked = FALSE, NetworkInfo = None,
     nb_initialized = TRUE, receive_tail = 0, receive_head = 0,
     nb_buffers = (\<lambda>_. Some (replicate 4096 0)), nb_is_full = (\<lambda>_. FALSE),
     saved_caller_mac = [0, 0, 0, 0, 0, 0], saved_caller_ipv4 = [0, 0, 0, 0], on_sending_counter = 0,
     ARP_Table_initialized = FALSE,
     arpTable = (\<lambda>i. \<lparr>ac_used = 0, ac_magic = 0, ac_id = 0, ac_ipv4_address = [], ac_mac_address = []\<rparr>),
     udp_payload = replicate 1024 0, udp_saved_mac = [255, 255, 255, 255, 255, 255],
     tcp_payload = replicate 1024 0, dhcp_initialized = TRUE, dhcp_your_ipv4 = [192, 168, 1, 12],
     dhcp_server_ipv4 = [192, 168, 1, 1], dhcp_saved_server_id = [192, 168, 1, 1],
     ipv4_counter = 0, uts_nodename = bytes ''gramado'' @ [0], currentNIC = Some zero_nic,
     e1000_rx_counter = 0, e1000_tx_counter = 0, sent_frames = []\<rparr>"

lemma demo_net_fields [simp]:
  "net_initialized demo_net = TRUE" "net_locked demo_net = FALSE" "nb_initialized demo_net = TRUE"
  "receive_head demo_net = 0" "receive_tail demo_net = 0" "nb_is_full demo_net = (\<lambda>_. FALSE)"
  "dhcp_initialized demo_net = TRUE" "currentNIC demo_net = Some zero_nic"
  "dhcp_your_ipv4 demo_net = [192, 168, 1, 12]" "sent_frames demo_net = []"
  by (simp_all add: demo_net_def)

lemma demo_net_buffer: "\<exists>b. nb_buffers demo_net i = Some b \<and> length b = 4096"
  unfolding demo_net_def by simp

lemma packets_in_order_example:
  "\<exists>s1 s2. enq_all push1500 [user_buffer, user_buffer] demo_net = Some s1
     \<and> deq_all pop1500 2 s1 = Some ([user_buffer, user_buffer], s2) \<and> packets_ok s2 \<and> packets s2 = []"
proof -
  have "packets_good 0 demo_net" using demo_net_buffer by (simp add: packets_good_def)
  moreover from this have "packet_count demo_net = 0" by (rule packet_count_good)
  ultimately show ?thesis
    using packets_in_order[of demo_net "[user_buffer, user_buffer]"]
    by (simp add: packets_ok_def packets_def numeral_2_eq_2 del: enq_all.simps deq_all.simps)
qed

end
