(* ===== verification/KStack.thy ===== *)
theory KStack
  imports KNet
begin

text \<open>
  The network layer, part two: the card's send and receive rings (dev/netdev/e1000), and the
  senders and handlers of kres/net/prot: ethernet.c, arp.c, ipv4.c, udp.c, tcp.c and dhcp.c.

  A handler gets the bytes from its pointer to the end of the 8192 byte receive buffer; no handler
  compares a field of the packet with the size it is given, and neither does the model. Text that
  is only printed is left out.
\<close>

section \<open>The card: e1000hw.c, e1000.c, ethernet.c\<close>

definition E1000_DEFAULT_BUFFER_SIZE :: nat where "E1000_DEFAULT_BUFFER_SIZE = 8192"
definition SEND_BUFFER_MAX :: nat where "SEND_BUFFER_MAX = 8"
definition RECEIVE_BUFFER_MAX :: nat where "RECEIVE_BUFFER_MAX = 32"

lemmas e1000_defs = E1000_DEFAULT_BUFFER_SIZE_def SEND_BUFFER_MAX_def RECEIVE_BUFFER_MAX_def

text \<open>The device pointer of every caller is \<open>currentNIC\<close>. Writing the tail register makes the card
  send the buffer; the loop then waits for the status byte the card writes, and never ends if the
  card writes none.\<close>

definition e1000hw_send :: "nat \<Rightarrow> u8 list \<Rightarrow> net_state \<Rightarrow> kfault + int \<times> net_state" where
  "e1000hw_send len data s =
    (case currentNIC s of
       None \<Rightarrow> Inr (-1, s)
     | Some d \<Rightarrow>
       if nic_magic d \<noteq> 1234 then Inr (-1, s)
       else if len = 0 then Inl (KPanic ''e1000_send: len=0'')
       else if len > E1000_DEFAULT_BUFFER_SIZE then Inl (KPanic ''e1000_send: len'')
       else let old = unat (tx_cur d) in
       if old \<ge> SEND_BUFFER_MAX then Inl (KPanic ''e1000_send: old'')
       else (case tx_buffers_virt d old of
         None \<Rightarrow> Inl (NullDeref ''e1000_send: tx buffer'')
       | Some buf \<Rightarrow>
         kbind (memcpy buf data len) (\<lambda>buf'.
         let d1 = d\<lparr>tx_buffers_virt := (tx_buffers_virt d)(old := Some buf'),
                    tx_desc_length := (tx_desc_length d)(old := word_of_nat len),
                    tx_desc_cmd := (tx_desc_cmd d)(old := 0x1B),
                    tx_desc_status := (tx_desc_status d)(old := 0),
                    tx_cur := word_of_nat ((unat (tx_cur d) + 1) mod 8)\<rparr>;
             d2 = d1\<lparr>REG_TDT := ucast (tx_cur d1)\<rparr>;
             d3 = d2\<lparr>tx_desc_status := (tx_desc_status d2)(old := hw_done d2)\<rparr>;
             s1 = s\<lparr>currentNIC := Some d3, sent_frames := sent_frames s @ [take len buf']\<rparr>
         in if tx_desc_status d3 old AND 0xFF = 0 then Inl (Hang ''e1000_send'')
            else Inr (0, s1))))"

definition e1000_send :: "nat \<Rightarrow> u8 list \<Rightarrow> net_state \<Rightarrow> kfault + int \<times> net_state" where
  "e1000_send len data s =
    (case currentNIC s of
       None \<Rightarrow> Inr (-1, s)
     | Some d \<Rightarrow> kbind (e1000hw_send len data s) (\<lambda>(Status, s1).
         if Status = 0 then Inr (0, s1) else Inr (-1, s1)))"

definition ethernet_send :: "nat \<Rightarrow> u8 list \<Rightarrow> net_state \<Rightarrow> kfault + int \<times> net_state" where
  "ethernet_send len data s =
    (case currentNIC s of
       None \<Rightarrow> Inr (-1, s)
     | Some d \<Rightarrow> kbind (e1000_send len data (snd (network_on_sending s))) (\<lambda>(_, s1). Inr (0, s1)))"

definition network_send_raw_packet :: "nat \<Rightarrow> u8 list option \<Rightarrow> net_state \<Rightarrow> kfault + net_state" where
  "network_send_raw_packet frame_len frame_address s =
    (case currentNIC s of
       None \<Rightarrow> Inr s
     | Some d \<Rightarrow>
       if nic_magic d \<noteq> 1234 then Inr s
       else if frame_len > E1000_DEFAULT_BUFFER_SIZE then Inr s
       else (case frame_address of
           None \<Rightarrow> Inr s
         | Some f \<Rightarrow> kbind (ethernet_send frame_len f s) (\<lambda>(_, s1). Inr s1)))"

section \<open>Building frames\<close>

definition put_bytes :: "nat \<Rightarrow> u8 list \<Rightarrow> u8 list \<Rightarrow> kfault + u8 list" where
  "put_bytes off bs buf =
    (if off + length bs > length buf then Inl (OutOfBounds ''frame'')
     else Inr (take off buf @ bs @ drop (off + length bs) buf))"

text \<open>The transmit buffer of the current descriptor, in which a sender builds its frame.\<close>

definition current_frame :: "nic_d \<Rightarrow> kfault + u8 list option" where
  "current_frame d = (if unat (tx_cur d) \<ge> 8 then Inl (OutOfBounds ''tx_buffers_virt'')
     else Inr (tx_buffers_virt d (unat (tx_cur d))))"

definition store_frame :: "nic_d \<Rightarrow> u8 list \<Rightarrow> net_state \<Rightarrow> net_state" where
  "store_frame d frame s = s\<lparr>currentNIC := Some (d\<lparr>tx_buffers_virt :=
     (tx_buffers_virt d)(unat (tx_cur d) := Some frame)\<rparr>)\<rparr>"

definition make_ether :: "nic_d \<Rightarrow> u8 list \<Rightarrow> u16 \<Rightarrow> ether_header" where
  "make_ether d target_mac type = \<lparr>eh_mac_dst = take 6 target_mac,
     eh_mac_src = take 6 (nic_mac_address d), eh_type = to_net16 type\<rparr>"

section \<open>arp.c\<close>

definition ARP_OPC_REQUEST :: int where "ARP_OPC_REQUEST = 1"
definition ARP_OPC_REPLY :: int where "ARP_OPC_REPLY = 2"
definition ARP_TABLE_COUNT_MAX :: int where "ARP_TABLE_COUNT_MAX = 32"

definition arp_initialize_arp_table :: "net_state \<Rightarrow> net_state" where
  "arp_initialize_arp_table s =
    (fold (\<lambda>i s. s\<lparr>arpTable := (arpTable s)(i := \<lparr>ac_used = TRUE, ac_magic = 1234, ac_id = i,
        ac_ipv4_address = replicate 4 0, ac_mac_address = replicate 6 0\<rparr>)\<rparr>)
      (slots 0 ARP_TABLE_COUNT_MAX) s)\<lparr>ARP_Table_initialized := TRUE\<rparr>"

definition arp_table_set_entry :: "int \<Rightarrow> u8 list \<Rightarrow> u8 list \<Rightarrow> net_state \<Rightarrow> net_state" where
  "arp_table_set_entry index target_ip target_mac s =
    (if ARP_Table_initialized s \<noteq> TRUE then s
     else if index < 0 then s
     else if index \<ge> ARP_TABLE_COUNT_MAX then s
     else s\<lparr>arpTable := (arpTable s)(index := (arpTable s index)
       \<lparr>ac_ipv4_address := take 4 target_ip, ac_mac_address := take 6 target_mac\<rparr>)\<rparr>)"

definition make_arp :: "nic_d \<Rightarrow> u8 list \<Rightarrow> u8 list \<Rightarrow> u8 list \<Rightarrow> int \<Rightarrow> ether_arp" where
  "make_arp d target_mac source_ip target_ip op =
    \<lparr>ar_type = 0x0100, ar_proto = 0x0008, ar_hlen = 6, ar_plen = 4,
     ar_op = ucast (ToNetByteOrder16 (word_of_int op)),
     arp_sha = take 6 (nic_mac_address d), arp_spa = take 4 source_ip,
     arp_tha = take 6 target_mac, arp_tpa = take 4 target_ip\<rparr>"

definition network_send_arp ::
    "u8 list \<Rightarrow> u8 list \<Rightarrow> u8 list \<Rightarrow> int \<Rightarrow> net_state \<Rightarrow> kfault + net_state" where
  "network_send_arp target_mac source_ip target_ip op s =
    (case currentNIC s of
       None \<Rightarrow> Inr s
     | Some d0 \<Rightarrow>
       let d = d0\<lparr>nic_ip_address := take 4 source_ip\<rparr>; s1 = s\<lparr>currentNIC := Some d\<rparr>;
           Leh = make_ether d target_mac ETHERTYPE_ARP;
           Larp = make_arp d target_mac source_ip target_ip op in
       if op \<noteq> ARP_OPC_REQUEST \<and> op \<noteq> ARP_OPC_REPLY
       then Inl (KPanic ''network_send_arp: Invalid operation code'')
       else kbind (current_frame d) (\<lambda>frame. case frame of
           None \<Rightarrow> Inl (KPanic ''network_send_arp: frame'')
         | Some f \<Rightarrow>
           kbind (put_bytes 0 (ether_bytes Leh) f) (\<lambda>f.
           kbind (put_bytes ETHERNET_HEADER_LENGHT (arp_bytes Larp) f) (\<lambda>f.
           kbind (ethernet_send (ETHERNET_HEADER_LENGHT + ARP_HEADER_LENGHT) f (store_frame d f s1))
             (\<lambda>(_, s2). Inr s2)))))"

definition arp_broadcast_mac :: "u8 list" where "arp_broadcast_mac = [255, 255, 255, 255, 255, 255]"

definition network_arp_request_to :: "u8 list \<Rightarrow> u8 list \<Rightarrow> net_state \<Rightarrow> kfault + net_state" where
  "network_arp_request_to src_ipv4 dst_ipv4 s =
    (if networkGetStatus s \<noteq> TRUE then Inr s
     else network_send_arp arp_broadcast_mac src_ipv4 dst_ipv4 ARP_OPC_REQUEST s)"

definition network_send_arp_request :: "net_state \<Rightarrow> kfault + net_state" where
  "network_send_arp_request s = network_arp_request_to [0, 0, 0, 0] [192, 168, 1, 1] s"

definition network_send_arp_request2 :: "net_state \<Rightarrow> kfault + net_state" where
  "network_send_arp_request2 s = network_arp_request_to [0, 0, 0, 0] [192, 168, 1, 1] s"

definition network_send_arp_reply :: "u8 list \<Rightarrow> u8 list \<Rightarrow> net_state \<Rightarrow> kfault + net_state" where
  "network_send_arp_reply target_mac target_ip s =
    (if dhcp_initialized s \<noteq> TRUE then Inr s
     else network_send_arp target_mac (dhcp_your_ipv4 s) target_ip ARP_OPC_REPLY s)"

text \<open>A reply is used only when it comes from 192.168.1.1: it sets the gateway.\<close>

definition network_handle_arp :: "u8 list \<Rightarrow> net_state \<Rightarrow> kfault + net_state" where
  "network_handle_arp buffer s =
    kbind (get_arp buffer) (\<lambda>ar.
    let op = uint (from_net16 (ar_op ar)) in
    if op = ARP_OPC_REQUEST then network_send_arp_reply (arp_sha ar) (arp_spa ar) s
    else if op = ARP_OPC_REPLY then
      (if arp_spa ar = [192, 168, 1, 1] then
         (case NetworkInfo s of
            None \<Rightarrow> Inr s
          | Some ni \<Rightarrow>
            if ni_initialized ni \<noteq> TRUE then Inr s
            else kbind (network_fill_ipv4 (Some (ni_gateway_ipv4 ni)) (Some (arp_spa ar))) (\<lambda>ip.
                 kbind (network_fill_mac (Some (ni_gateway_mac ni)) (Some (arp_sha ar))) (\<lambda>mac.
                 Inr (s\<lparr>NetworkInfo := Some (ni\<lparr>ni_gateway_ipv4 := the ip, ni_gateway_mac := the mac\<rparr>)\<rparr>))))
       else Inr s)
    else Inr s)"

section \<open>udp.c: sending\<close>

text \<open>Lengths are 16 bit sums; the data length is cut to 16 bits first.\<close>

definition make_udp_ip :: "u8 list \<Rightarrow> u8 list \<Rightarrow> nat \<Rightarrow> ip_d" where
  "make_udp_ip source_ip target_ip data_lenght =
    (let xxxdata = word_of_nat data_lenght :: u16; ippayloadlen = 8 + xxxdata; iplen = 20 + ippayloadlen
     in fill_ip_sum \<lparr>ip_v_hl = 0x45, ip_tos = 0, ip_len = to_net16 iplen, ip_id = 0,
       ip_off = ucast (ToNetByteOrder16 0x4000), ip_ttl = 255, ip_p = 0x11, ip_sum = 0,
       ip_src = take 4 source_ip, ip_dst = take 4 target_ip\<rparr>)"

definition make_udp :: "u16 \<Rightarrow> u16 \<Rightarrow> nat \<Rightarrow> udp_d" where
  "make_udp source_port target_port data_lenght =
    \<lparr>uh_sport = to_net16 source_port, uh_dport = to_net16 target_port,
     uh_ulen = to_net16 (8 + word_of_nat data_lenght), uh_sum = 0\<rparr>"

definition network_send_udp ::
    "u8 list \<Rightarrow> u8 list \<Rightarrow> u8 list \<Rightarrow> u16 \<Rightarrow> u16 \<Rightarrow> u8 list option \<Rightarrow> nat \<Rightarrow> net_state
     \<Rightarrow> kfault + int \<times> net_state" where
  "network_send_udp source_ip target_ip target_mac source_port target_port data_buffer data_lenght s =
    (case currentNIC s of
       None \<Rightarrow> Inr (-1, s)
     | Some d0 \<Rightarrow>
       let d = d0\<lparr>nic_ip_address := take 4 source_ip\<rparr>; s1 = s\<lparr>currentNIC := Some d\<rparr> in
       (case data_buffer of
          None \<Rightarrow> Inr (-1, s1)
        | Some data \<Rightarrow>
          let Leh = make_ether d target_mac ETHERTYPE_IPV4;
              Lipv4 = make_udp_ip source_ip target_ip data_lenght;
              Ludp = make_udp source_port target_port data_lenght in
          kbind (current_frame d) (\<lambda>frame. case frame of
            None \<Rightarrow> Inl (KPanic ''network_send_udp: frame'')
          | Some f \<Rightarrow>
            kbind (put_bytes 0 (ether_bytes Leh) f) (\<lambda>f.
            kbind (put_bytes ETHERNET_HEADER_LENGHT (ip_bytes Lipv4) f) (\<lambda>f.
            kbind (put_bytes (ETHERNET_HEADER_LENGHT + IP_HEADER_LENGHT) (udp_bytes Ludp) f) (\<lambda>f.
            if data_lenght > length data then Inl (OutOfBounds ''network_send_udp: data'')
            else kbind (put_bytes (ETHERNET_HEADER_LENGHT + IP_HEADER_LENGHT + UDP_HEADER_LENGHT)
                  (take data_lenght data) f) (\<lambda>f.
            kbind (ethernet_send (ETHERNET_HEADER_LENGHT + IP_HEADER_LENGHT + UDP_HEADER_LENGHT + data_lenght)
                  f (store_frame d f s1)) (\<lambda>(_, s2). Inr (0, s2)))))))))"

definition udp_save_mac :: "u8 list \<Rightarrow> net_state \<Rightarrow> net_state" where
  "udp_save_mac mac s = s\<lparr>udp_saved_mac := take 6 mac\<rparr>"

definition network_test_udp0 :: "u8 list \<Rightarrow> u8 list \<Rightarrow> u16 \<Rightarrow> u16 \<Rightarrow> net_state \<Rightarrow> kfault + net_state" where
  "network_test_udp0 tmac tip sport dport s =
    kbind (mysprintf (replicate 512 0) (bytes ''Hello from Gramado to Linux'' @ [10, 0]) [])
      (\<lambda>(_, message).
    kbind (network_send_udp [192, 168, 1, 12] tip tmac sport dport (Some message) 512 s) (\<lambda>(_, s1). Inr s1))"

definition network_test_udp2 :: "net_state \<Rightarrow> kfault + net_state" where
  "network_test_udp2 s = network_test_udp0 (udp_saved_mac s) [192, 168, 1, 10] 34885 34884 s"

definition network_test_udp :: "net_state \<Rightarrow> kfault + net_state" where
  "network_test_udp s =
    kbind (mysprintf (replicate 512 0) (bytes ''Hello from Gramado to Linux'' @ [10, 0]) [])
      (\<lambda>(_, message).
    if networkGetStatus s \<noteq> TRUE then Inr s
    else kbind (network_send_udp (dhcp_your_ipv4 s) [192, 168, 1, 1] arp_broadcast_mac 11888 11999
           (Some message) 512 s) (\<lambda>(_, s1). Inr s1))"

section \<open>dhcp.c\<close>

definition DORA_D :: int where "DORA_D = 1"
definition DORA_O :: u8 where "DORA_O = 2"
definition DORA_R :: int where "DORA_R = 3"
definition DORA_A :: u8 where "DORA_A = 5"

text \<open>Bytes written over part of an array that is long enough.\<close>

definition over :: "nat \<Rightarrow> u8 list \<Rightarrow> u8 list \<Rightarrow> u8 list" where
  "over off bs xs = take off xs @ bs @ drop (off + length bs) xs"

definition discover_options :: "u8 list" where
  "discover_options = [55, 3, 1, 3, 6, 255]"

definition request_options :: "u8 list \<Rightarrow> u8 list \<Rightarrow> u8 list \<Rightarrow> u8 list" where
  "request_options source_ip target_ip nodename =
    [50, 4] @ take 4 source_ip @ [54, 4] @ take 4 target_ip @ [55, 3, 1, 3, 6]
      @ [12, 7] @ take 7 nodename @ [255]"

definition fill_dhcp :: "dhcp_d \<Rightarrow> nic_d \<Rightarrow> int \<Rightarrow> dhcp_d" where
  "fill_dhcp dhcp d message_type = dhcp
    \<lparr>dh_op := 1, dh_htype := 1, dh_hlen := 6, dh_hops := 0, dh_xid := ToNetByteOrder32 0x3903F326,
     dh_secs := ucast (ToNetByteOrder16 0), dh_flags := ucast (ToNetByteOrder16 0),
     dh_ciaddr := 0, dh_yiaddr := 0, dh_siaddr := 0, dh_giaddr := 0,
     dh_chaddr := take 6 (nic_mac_address d) @ replicate 10 0,
     dh_sname := replicate 64 0, dh_file := replicate 128 0,
     dh_magic_cookie := ToNetByteOrder32 0x63825363,
     dh_options := over 0 [53, 1, word_of_int message_type] (dh_options dhcp)\<rparr>"

definition network_dhcp_send ::
    "dhcp_d option \<Rightarrow> int \<Rightarrow> u8 list \<Rightarrow> u8 list \<Rightarrow> u16 \<Rightarrow> u16 \<Rightarrow> net_state \<Rightarrow> kfault + net_state" where
  "network_dhcp_send dhcp message_type source_ip target_ip sport dport s =
    (case dhcp of
       None \<Rightarrow> Inr s
     | Some dh \<Rightarrow>
       if message_type < 0 then Inr s
       else (case currentNIC s of
           None \<Rightarrow> Inr s
         | Some d \<Rightarrow>
           let dh1 = fill_dhcp dh d message_type in
           if message_type \<noteq> DORA_D \<and> message_type \<noteq> DORA_R then Inr s
           else let opts = (if message_type = DORA_D then discover_options
                            else request_options source_ip target_ip (uts_nodename s));
                    dh2 = dh1\<lparr>dh_options := over 3 opts (dh_options dh1)\<rparr>
           in kbind (network_send_udp [0, 0, 0, 0] [255, 255, 255, 255] [255, 255, 255, 255, 255, 255]
                sport dport (Some (dhcp_bytes dh2)) dhcp_size s) (\<lambda>(_, s1). Inr s1)))"

text \<open>\<open>Ldhcp\<close> is a local structure that is not initialised: \<open>stack\<close> is what it holds.\<close>

definition network_initialize_dhcp :: "dhcp_d \<Rightarrow> net_state \<Rightarrow> kfault + int \<times> net_state" where
  "network_initialize_dhcp stack s =
    (let s1 = s\<lparr>dhcp_initialized := FALSE\<rparr> in
     if networkGetStatus s1 \<noteq> TRUE then Inr (-1, s1)
     else (case currentNIC s1 of
         None \<Rightarrow> Inr (-1, s1)
       | Some d \<Rightarrow>
         if nic_magic d \<noteq> 1234 then Inr (-1, s1)
         else if nic_initialized d \<noteq> TRUE then Inr (-1, s1)
         else kbind (network_dhcp_send (Some stack) DORA_D [0, 0, 0, 0] [255, 255, 255, 255] 68 67 s1)
           (\<lambda>s2. Inr (0, s2))))"

definition network_save_dhcp_server_id :: "u8 list \<Rightarrow> net_state \<Rightarrow> net_state" where
  "network_save_dhcp_server_id ip s = s\<lparr>dhcp_saved_server_id := take 4 ip\<rparr>"

text \<open>
  The kind of a message is read from the third option byte, wherever the type option is; neither
  the operation, the transaction id nor the client address is compared with anything. The request
  is built in the receive buffer over the offer, which nobody reads again.
\<close>

definition network_handle_dhcp :: "u8 list \<Rightarrow> net_state \<Rightarrow> kfault + net_state" where
  "network_handle_dhcp buffer s =
    kbind (get_dhcp buffer) (\<lambda>dhcp.
    let your_ipv4 = le32 (dh_yiaddr dhcp); server_ipv4 = le32 (dh_siaddr dhcp) in
    if dh_options dhcp ! 2 = DORA_O
    then network_dhcp_send (Some dhcp) DORA_R your_ipv4 server_ipv4 68 67 s
    else if dh_options dhcp ! 2 = DORA_A then
      kbind (network_fill_ipv4 (Some (dhcp_your_ipv4 s)) (Some your_ipv4)) (\<lambda>your.
      kbind (network_fill_ipv4 (Some (dhcp_server_ipv4 s)) (Some server_ipv4)) (\<lambda>server.
      Inr (networkSetOnlineStatus TRUE (s\<lparr>dhcp_your_ipv4 := the your, dhcp_server_ipv4 := the server,
             dhcp_initialized := TRUE\<rparr>))))
    else Inr s)"

section \<open>udp.c: receiving\<close>

definition clear_payload :: "net_state \<Rightarrow> net_state" where
  "clear_payload s = s\<lparr>udp_payload := replicate 1024 0\<rparr>"

definition payload_code :: "net_state \<Rightarrow> u8 list" where
  "payload_code s = take 3 (udp_payload s)"

definition udp_reply :: "u16 \<Rightarrow> u16 \<Rightarrow> net_state \<Rightarrow> kfault + net_state" where
  "udp_reply sport dport s =
    kbind (network_send_udp (dhcp_your_ipv4 s) (saved_caller_ipv4 s) (saved_caller_mac s) dport sport
      (Some (udp_payload s)) 256 s) (\<lambda>(_, s1). Inr s1)"

definition put_payload :: "string \<Rightarrow> u8 list \<Rightarrow> net_state \<Rightarrow> kfault + net_state" where
  "put_payload code msg s =
    kbind (mysprintf (udp_payload (clear_payload s)) (bytes code @ [0]) []) (\<lambda>(_, p).
    kbind (mysprintf (drop 4 p) msg []) (\<lambda>(_, q). Inr (s\<lparr>udp_payload := take 4 p @ q\<rparr>)))"

definition handle_gprotocol :: "u16 \<Rightarrow> u16 \<Rightarrow> net_state \<Rightarrow> kfault + net_state" where
  "handle_gprotocol sport dport s =
    (if dhcp_initialized s \<noteq> TRUE then Inr s
     else if dport \<noteq> 11888 then Inr s
     else if payload_code s = bytes ''g:0'' then
       kbind (put_payload ''g:1 '' (bytes ''This is a response from Gramado OS'' @ [10, 0]) s) (udp_reply sport dport)
     else if payload_code s = bytes ''g:1'' then Inr s
     else if payload_code s = bytes ''g:2'' then Inr s
     else if payload_code s = bytes ''g:3'' then Inr s
     else if payload_code s = bytes ''g:4'' then
       kbind (put_payload ''g:0 '' (bytes ''exit'' @ [0]) s) (udp_reply sport dport)
     else Inr s)"

text \<open>The local copy of the payload: up to its first NUL, if there is one within 512 bytes.\<close>

definition copy_payload :: "u8 list \<Rightarrow> net_state \<Rightarrow> kfault + net_state" where
  "copy_payload p2 s =
    kbind (strlen p2) (\<lambda>p_size.
    kbind (if p_size \<le> 512
           then kbind (strncpy (udp_payload s) p2 p_size) (\<lambda>p.
             if p_size + 1 < length p then Inr (p[p_size := 0, p_size + 1 := 0])
             else Inl (OutOfBounds ''udp_payload''))
           else Inr (udp_payload s)) (\<lambda>p.
    Inr (s\<lparr>udp_payload := p[1021 := 0]\<rparr>)))"

definition network_handle_udp :: "u8 list \<Rightarrow> net_state \<Rightarrow> kfault + net_state" where
  "network_handle_udp buffer s =
    kbind (get_udp buffer) (\<lambda>udp.
    let sport = from_net16 (uh_sport udp); dport = from_net16 (uh_dport udp);
        p2 = drop UDP_HEADER_LENGHT buffer in
    kbind (copy_payload p2 (clear_payload s)) (\<lambda>s1.
    if dport = 68 \<or> dport = 67 then network_handle_dhcp p2 s1
    else if dport = 11888 \<or> dport = 22888 \<or> dport = 34884 then
      kbind (handle_gprotocol sport dport s1) (\<lambda>s2. Inr (clear_payload s2))
    else Inr s1))"

section \<open>tcp.c, ipv4.c, ethernet.c: receiving\<close>

text \<open>What network_handle_tcp() recognises; it only prints it.\<close>

datatype tcp_event = TcpDrop | TcpSyn u32 u32 | TcpSynAck u32 u32 | TcpAck u32 u32

definition TH_SYN :: u16 where "TH_SYN = 0x02"
definition TH_ACK :: u16 where "TH_ACK = 0x10"

definition network_handle_tcp :: "u8 list \<Rightarrow> net_state \<Rightarrow> kfault + tcp_event \<times> net_state" where
  "network_handle_tcp buffer s =
    kbind (get_tcp buffer) (\<lambda>tcp.
    let dport = from_net16 (th_dport tcp); seq = FromNetByteOrder32 (th_seq tcp);
        ack = FromNetByteOrder32 (th_ack tcp) in
    kbind (strncpy (replicate 1024 0) (drop TCP_HEADER_LENGHT buffer) 1020) (\<lambda>p.
    let s1 = s\<lparr>tcp_payload := p[1021 := 0]\<rparr>;
        flags = from_net16 (th_do_res_flags tcp);
        fSYN = (flags AND TH_SYN \<noteq> 0); fACK = (flags AND TH_ACK \<noteq> 0) in
    Inr (if dport = 11888 \<and> fSYN \<and> \<not> fACK then TcpSyn seq ack
         else if dport = 11888 \<and> fSYN \<and> fACK then TcpSynAck seq ack
         else if dport = 11888 \<and> \<not> fSYN \<and> fACK then TcpAck seq ack
         else TcpDrop, s1)))"

text \<open>The length of the header is taken to be 20 bytes whatever its own length field says.\<close>

definition network_handle_ipv4 :: "u8 list \<Rightarrow> net_state \<Rightarrow> kfault + net_state" where
  "network_handle_ipv4 buffer s =
    kbind (get_ip buffer) (\<lambda>ip.
    kbind (network_fill_ipv4 (Some (saved_caller_ipv4 s)) (Some (ip_src ip))) (\<lambda>caller.
    let s1 = s\<lparr>saved_caller_ipv4 := the caller\<rparr>;
        Version = drop_bit 4 (ip_v_hl ip) AND 0x0F;
        ip_lenght = from_net16 (ip_len ip);
        payload_pointer = drop IP_HEADER_LENGHT buffer in
    if Version \<noteq> 4 then Inr s1
    else if ip_lenght < 20 then Inl (KPanic ''IP: Bad total lenght #debug'')
    else if ip_p ip = 17 then network_handle_udp payload_pointer s1
    else if ip_p ip = 1 then Inr s1
    else if ip_p ip = 6 then kbind (network_handle_tcp payload_pointer s1) (\<lambda>(_, s2). Inr s2)
    else Inr s1))"

text \<open>ipv4_send() fills in both headers on the stack and then sends the caller's buffer without them.\<close>

definition ipv4_send :: "u8 \<Rightarrow> u8 list \<Rightarrow> u8 list \<Rightarrow> u8 list \<Rightarrow> u8 list \<Rightarrow> nat \<Rightarrow> net_state
    \<Rightarrow> kfault + int \<times> net_state" where
  "ipv4_send protocol source_ip target_ip target_mac data_buffer data_lenght s =
    (case currentNIC s of
       None \<Rightarrow> Inl (NullDeref ''ipv4_send: currentNIC'')
     | Some d \<Rightarrow>
       let s1 = s\<lparr>ipv4_counter := ipv4_counter s + 1\<rparr> in
       kbind (ethernet_send (ETHERNET_HEADER_LENGHT + IP_HEADER_LENGHT + data_lenght) data_buffer s1)
         (\<lambda>(Status, s2). if Status < 0 then Inr (-1, s2) else Inr (0, s2)))"

definition network_handle_ethernet :: "u8 list option \<Rightarrow> int \<Rightarrow> net_state \<Rightarrow> kfault + int \<times> net_state" where
  "network_handle_ethernet frame frame_size s =
    (if net_initialized s \<noteq> TRUE then Inr (-1, s)
     else if net_locked s = TRUE then Inr (-1, s)
     else (case frame of
         None \<Rightarrow> Inr (-1, s)
       | Some f \<Rightarrow>
         if frame_size \<le> 0 \<or> frame_size > int E1000_DEFAULT_BUFFER_SIZE then Inr (-1, s)
         else kbind (get_ether f) (\<lambda>eth.
         kbind (network_fill_mac (Some (saved_caller_mac s)) (Some (eh_mac_src eth))) (\<lambda>mac.
         let s1 = s\<lparr>saved_caller_mac := the mac\<rparr>; Type = from_net16 (eh_type eth);
             payload = drop ETHERNET_HEADER_LENGHT f in
         if Type = ETHERTYPE_IPV6 then Inr (-1, s1)
         else if Type = ETHERTYPE_IPV4 then kbind (network_handle_ipv4 payload s1) (\<lambda>s2. Inr (0, s2))
         else if Type = ETHERTYPE_ARP then kbind (network_handle_arp payload s1) (\<lambda>s2. Inr (0, s2))
         else Inr (-1, s1)))))"

definition network_on_receiving :: "u8 list option \<Rightarrow> int \<Rightarrow> net_state \<Rightarrow> kfault + int \<times> net_state" where
  "network_on_receiving frame frame_size s =
    (if frame = None then Inr (-1, s) else network_handle_ethernet frame frame_size s)"

text \<open>
  The receive loop of the card. One round takes the descriptor at \<open>rx_cur\<close>; the loop ends at a
  descriptor the card has not filled. The fuel bounds the rounds; None means that it was not enough.
\<close>

definition receive_one :: "nic_d \<Rightarrow> net_state \<Rightarrow> kfault + net_state" where
  "receive_one d s =
    (let old = unat (rx_cur d); d1 = d\<lparr>rx_cur := word_of_nat ((unat (rx_cur d) + 1) mod RECEIVE_BUFFER_MAX)\<rparr> in
     if old \<ge> RECEIVE_BUFFER_MAX then Inl (KPanic ''__e1000_on_receive: [receive] old'')
     else (case rx_buffers_virt d1 old of
         None \<Rightarrow> Inl (KPanic ''__e1000_on_receive: frame'')
       | Some frame \<Rightarrow>
         let frame_lenght = rx_desc_length d1 old in
         if unat frame_lenght > E1000_DEFAULT_BUFFER_SIZE
         then Inl (KPanic ''__e1000_on_receive: frame_lenght'')
         else let d2 = d1\<lparr>rx_desc_status := (rx_desc_status d1)(old := rx_desc_status d1 old AND NOT 1),
                          REG_RDT := word_of_nat old\<rparr>
         in kbind (network_on_receiving (Some frame) (uint frame_lenght) (s\<lparr>currentNIC := Some d2\<rparr>))
              (\<lambda>(_, s1). Inr (networkUpdateCounter 2 (s1\<lparr>e1000_rx_counter := e1000_rx_counter s1 + 1\<rparr>)))))"

fun rx_loop :: "nat \<Rightarrow> net_state \<Rightarrow> (kfault + net_state) option" where
  "rx_loop 0 s = None"
| "rx_loop (Suc fuel) s =
    (case currentNIC s of
       None \<Rightarrow> Some (Inl (NullDeref ''__e1000_on_receive: currentNIC''))
     | Some d \<Rightarrow>
       if rx_desc_status d (unat (rx_cur d)) AND 0x01 \<noteq> 0x01 then Some (Inr s)
       else (case receive_one d s of
           Inl e \<Rightarrow> Some (Inl e)
         | Inr s1 \<Rightarrow> rx_loop fuel s1))"

definition e1000_on_receive :: "nat \<Rightarrow> net_state \<Rightarrow> (kfault + net_state) option" where
  "e1000_on_receive fuel s =
    (case currentNIC s of
       None \<Rightarrow> Some (Inr s)
     | Some d \<Rightarrow> if nic_magic d \<noteq> 1234 then Some (Inr s) else rx_loop fuel s)"

definition e1000_on_transmit :: "net_state \<Rightarrow> net_state" where
  "e1000_on_transmit s = networkUpdateCounter 1 (s\<lparr>e1000_tx_counter := e1000_tx_counter s + 1\<rparr>)"


section \<open>Sending\<close>

text \<open>A card that can send: its buffers exist and it reports the end of a transmission.\<close>

definition nic_ready :: "nic_d \<Rightarrow> bool" where
  "nic_ready d \<longleftrightarrow> nic_magic d = 1234 \<and> tx_cur d < 8 \<and> hw_done d \<noteq> 0 \<and> length (nic_mac_address d) = 6
     \<and> (\<forall>i<8. \<exists>b. tx_buffers_virt d i = Some b \<and> length b = 8192)"

definition udp_frame ::
    "u8 list \<Rightarrow> u8 list \<Rightarrow> u8 list \<Rightarrow> u8 list \<Rightarrow> u16 \<Rightarrow> u16 \<Rightarrow> u8 list \<Rightarrow> u8 list" where
  "udp_frame our_mac target_mac source_ip target_ip sport dport data =
     ether_bytes \<lparr>eh_mac_dst = target_mac, eh_mac_src = our_mac, eh_type = to_net16 ETHERTYPE_IPV4\<rparr>
     @ ip_bytes (make_udp_ip source_ip target_ip (length data))
     @ udp_bytes (make_udp sport dport (length data)) @ data"

lemma put_bytes_append:
  "length a = off \<Longrightarrow> length bs \<le> length r \<Longrightarrow> put_bytes off bs (a @ r) = Inr (a @ bs @ drop (length bs) r)"
  by (simp add: put_bytes_def)

lemma ip_ok_make: "length src = 4 \<Longrightarrow> length dst = 4 \<Longrightarrow> ip_ok (make_udp_ip src dst n)"
  by (simp add: make_udp_ip_def Let_def ip_ok_def fill_ip_sum_def)

lemma nic_ready_tx: "nic_ready d \<Longrightarrow> \<exists>b. tx_buffers_virt d (unat (tx_cur d)) = Some b \<and> length b = 8192"
  by (simp add: nic_ready_def word_less_nat_alt)

text \<open>What a send does to the state: one frame more on the wire and a card that is still ready.\<close>

definition sent_one :: "u8 list \<Rightarrow> net_state \<Rightarrow> net_state \<Rightarrow> bool" where
  "sent_one frame s s' \<longleftrightarrow> (\<exists>d'. nic_ready d' \<and> nic_mac_address d' = nic_mac_address (the (currentNIC s))
     \<and> rx_cur d' = rx_cur (the (currentNIC s))
     \<and> rx_desc_status d' = rx_desc_status (the (currentNIC s))
     \<and> s' = s\<lparr>currentNIC := Some d', on_sending_counter := on_sending_counter s + 1,
              sent_frames := sent_frames s @ [frame]\<rparr>)"

lemma hw_done_byte: "(w :: u8) AND 0xFF = w"
proof -
  have "(0xFF :: u8) = - 1" by simp
  then show ?thesis by (simp only: and.right_neutral)
qed

lemma ethernet_send_ready:
  assumes "currentNIC s = Some d" "nic_ready d" "0 < len" "len \<le> 8192" "len \<le> length data"
  shows "\<exists>s'. ethernet_send len data s = Inr (0, s') \<and> sent_one (take len data) s s'"
proof -
  from nic_ready_tx[OF assms(2)] obtain b where b: "tx_buffers_virt d (unat (tx_cur d)) = Some b" "length b = 8192"
    by blast
  have old: "unat (tx_cur d) < 8" "nic_magic d = 1234" "hw_done d \<noteq> 0"
    using assms(2) by (auto simp: nic_ready_def word_less_nat_alt)
  have cpy: "memcpy b data len = Inr (take len data @ drop len b)"
    using assms(4,5) b(2) by (intro memcpy_eq) auto
  let ?o = "unat (tx_cur d)"
  let ?d = "d\<lparr>tx_buffers_virt := (tx_buffers_virt d)(?o := Some (take len data @ drop len b)),
      tx_desc_length := (tx_desc_length d)(?o := word_of_nat len),
      tx_desc_cmd := (tx_desc_cmd d)(?o := 0x1B),
      tx_desc_status := (tx_desc_status d)(?o := hw_done d),
      tx_cur := word_of_nat ((?o + 1) mod 8), REG_TDT := ucast (word_of_nat ((?o + 1) mod 8) :: u16)\<rparr>"
  have "(?o + 1) mod 8 < 8" by simp
  then have "(word_of_nat ((?o + 1) mod 8) :: u16) < 8"
    by (simp add: word_less_nat_alt unat_of_nat)
  then have ready: "nic_ready ?d"
    using assms(2,4,5) b by (auto simp: nic_ready_def)
  let ?s = "s\<lparr>currentNIC := Some ?d, on_sending_counter := on_sending_counter s + 1,
      sent_frames := sent_frames s @ [take len data]\<rparr>"
  have "ethernet_send len data s = Inr (0, ?s)"
    using assms(1,3,4,5) old b cpy
    by (simp add: ethernet_send_def network_on_sending_def e1000_send_def e1000hw_send_def e1000_defs
        Let_def hw_done_byte min_absorb2)
  moreover have "sent_one (take len data) s ?s"
    unfolding sent_one_def using ready assms(1) by (intro exI[of _ ?d]) simp
  ultimately show ?thesis by blast
qed

lemma sent_one_from:
  assumes "sent_one f (s\<lparr>currentNIC := Some d'\<rparr>) s'" "currentNIC s = Some d"
    "nic_mac_address d' = nic_mac_address d" "rx_cur d' = rx_cur d" "rx_desc_status d' = rx_desc_status d"
  shows "sent_one f s s'"
  using assms by (auto simp: sent_one_def)

lemma store_ready:
  "nic_ready d \<Longrightarrow> length f = 8192
   \<Longrightarrow> nic_ready (d\<lparr>nic_ip_address := ip, tx_buffers_virt := (tx_buffers_virt d)(unat (tx_cur d) := Some f)\<rparr>)"
  by (auto simp: nic_ready_def)

lemma send_udp_ready:
  assumes d: "currentNIC s = Some d" "nic_ready d"
    and len: "length src = 4" "length dst = 4" "length mac = 6" "len \<le> length data" "len \<le> 8150"
  shows "\<exists>s'. network_send_udp src dst mac sp dp (Some data) len s = Inr (0, s')
     \<and> sent_one (udp_frame (nic_mac_address d) mac src dst sp dp (take len data)) s s'"
proof -
  from nic_ready_tx[OF d(2)] obtain b where b: "tx_buffers_virt d (unat (tx_cur d)) = Some b" "length b = 8192"
    by blast
  have tx: "unat (tx_cur d) < 8" "length (nic_mac_address d) = 6"
    using d(2) by (auto simp: nic_ready_def word_less_nat_alt)
  let ?d = "d\<lparr>nic_ip_address := take 4 src\<rparr>"
  let ?E = "ether_bytes (make_ether ?d mac ETHERTYPE_IPV4)"
  let ?I = "ip_bytes (make_udp_ip src dst len)" and ?U = "udp_bytes (make_udp sp dp len)"
  let ?D = "take len data"
  have lens: "length ?E = 14" "length ?I = 20" "length ?D = len"
    using tx len ip_ok_make[OF len(1,2)] by (simp_all add: make_ether_def ether_bytes_def)
  let ?F = "(?E @ ?I @ ?U @ ?D) @ drop (42 + len) b"
  have 1: "put_bytes 0 ?E b = Inr (?E @ drop 14 b)"
    using put_bytes_append[of "[]" 0 ?E b] lens b(2) by simp
  have 2: "put_bytes 14 ?I (?E @ drop 14 b) = Inr (?E @ ?I @ drop 34 b)"
    using put_bytes_append[OF lens(1), of ?I "drop 14 b"] lens b(2) by simp
  have 3: "put_bytes 34 ?U (?E @ ?I @ drop 34 b) = Inr (?E @ ?I @ ?U @ drop 42 b)"
    using put_bytes_append[of "?E @ ?I" 34 ?U "drop 34 b"] lens b(2) by simp
  have 4: "put_bytes 42 ?D (?E @ ?I @ ?U @ drop 42 b) = Inr ?F"
    using put_bytes_append[of "?E @ ?I @ ?U" 42 ?D "drop 42 b"] lens b(2) len(5) by (simp add: ac_simps)
  have F: "length ?F = 8192" "take (42 + len) ?F = udp_frame (nic_mac_address d) mac src dst sp dp ?D"
    using lens b(2) len tx by (simp_all add: udp_frame_def make_ether_def)
  let ?d' = "?d\<lparr>tx_buffers_virt := (tx_buffers_virt d)(unat (tx_cur d) := Some ?F)\<rparr>"
  let ?s = "s\<lparr>currentNIC := Some ?d'\<rparr>"
  have ready: "nic_ready ?d'" by (rule store_ready[OF d(2) F(1)])
  obtain s' where s': "ethernet_send (42 + len) ?F ?s = Inr (0, s')" "sent_one (take (42 + len) ?F) ?s s'"
    using ethernet_send_ready[of ?s ?d' "42 + len" ?F] ready F(1) len(5) by auto
  have "network_send_udp src dst mac sp dp (Some data) len s = Inr (0, s')"
    unfolding network_send_udp_def
    using d(1) tx b 1 2 3 4 s'(1) len(4)
    by (simp add: Let_def current_frame_def length_defs store_frame_def not_less[symmetric] del: append_assoc)
  moreover have "sent_one (take (42 + len) ?F) s s'"
    by (rule sent_one_from[OF s'(2) d(1)]) simp_all
  ultimately show ?thesis unfolding F(2) by blast
qed

definition arp_frame :: "u8 list \<Rightarrow> u8 list \<Rightarrow> u8 list \<Rightarrow> u8 list \<Rightarrow> u16 \<Rightarrow> u8 list" where
  "arp_frame our_mac target_mac source_ip target_ip op =
     ether_bytes \<lparr>eh_mac_dst = target_mac, eh_mac_src = our_mac, eh_type = to_net16 ETHERTYPE_ARP\<rparr>
     @ arp_bytes \<lparr>ar_type = 0x0100, ar_proto = 0x0008, ar_hlen = 6, ar_plen = 4, ar_op = to_net16 op,
         arp_sha = our_mac, arp_spa = source_ip, arp_tha = target_mac, arp_tpa = target_ip\<rparr>"

lemma send_arp_ready:
  assumes d: "currentNIC s = Some d" "nic_ready d"
    and len: "length sip = 4" "length tip = 4" "length mac = 6" and op: "op = 1 \<or> op = 2"
  shows "\<exists>s'. network_send_arp mac sip tip op s = Inr s'
     \<and> sent_one (arp_frame (nic_mac_address d) mac sip tip (word_of_int op)) s s'"
proof -
  from nic_ready_tx[OF d(2)] obtain b where b: "tx_buffers_virt d (unat (tx_cur d)) = Some b" "length b = 8192"
    by blast
  have tx: "unat (tx_cur d) < 8" "length (nic_mac_address d) = 6"
    using d(2) by (auto simp: nic_ready_def word_less_nat_alt)
  let ?d = "d\<lparr>nic_ip_address := take 4 sip\<rparr>"
  let ?E = "ether_bytes (make_ether ?d mac ETHERTYPE_ARP)" and ?A = "arp_bytes (make_arp ?d mac sip tip op)"
  have lens: "length ?E = 14" "length ?A = 28"
    using tx len by (simp_all add: make_ether_def ether_bytes_def make_arp_def arp_bytes_def)
  let ?F = "(?E @ ?A) @ drop 42 b"
  have 1: "put_bytes 0 ?E b = Inr (?E @ drop 14 b)"
    using put_bytes_append[of "[]" 0 ?E b] lens b(2) by simp
  have 2: "put_bytes 14 ?A (?E @ drop 14 b) = Inr ?F"
    using put_bytes_append[OF lens(1), of ?A "drop 14 b"] lens b(2) by simp
  have opw: "ucast (ToNetByteOrder16 (word_of_int op)) = to_net16 (word_of_int op)"
    using op by (auto simp: to_net16_def)
  have F: "length ?F = 8192" "take 42 ?F = arp_frame (nic_mac_address d) mac sip tip (word_of_int op)"
    using lens b(2) len tx by (simp_all add: arp_frame_def make_ether_def make_arp_def opw)
  let ?d' = "?d\<lparr>tx_buffers_virt := (tx_buffers_virt d)(unat (tx_cur d) := Some ?F)\<rparr>"
  let ?s = "s\<lparr>currentNIC := Some ?d'\<rparr>"
  have ready: "nic_ready ?d'" by (rule store_ready[OF d(2) F(1)])
  obtain s' where s': "ethernet_send 42 ?F ?s = Inr (0, s')" "sent_one (take 42 ?F) ?s s'"
    using ethernet_send_ready[of ?s ?d' 42 ?F] ready F(1) by auto
  have "network_send_arp mac sip tip op s = Inr s'"
    unfolding network_send_arp_def
    using d(1) tx b 1 2 s'(1) op
    by (simp add: Let_def current_frame_def length_defs store_frame_def ARP_OPC_REQUEST_def
        ARP_OPC_REPLY_def not_less[symmetric] del: append_assoc)
  moreover have "sent_one (take 42 ?F) s s'"
    by (rule sent_one_from[OF s'(2) d(1)]) simp_all
  ultimately show ?thesis unfolding F(2) by blast
qed

section \<open>Receiving\<close>

text \<open>A network module that is switched on, with address fields of the right size.\<close>

definition net_up :: "net_state \<Rightarrow> bool" where
  "net_up s \<longleftrightarrow> net_initialized s = TRUE \<and> net_locked s \<noteq> TRUE
     \<and> length (saved_caller_mac s) = 6 \<and> length (saved_caller_ipv4 s) = 4
     \<and> length (dhcp_your_ipv4 s) = 4 \<and> length (dhcp_server_ipv4 s) = 4
     \<and> (\<exists>d. currentNIC s = Some d \<and> nic_ready d)"

lemma handle_ethernet_frame:
  assumes "net_up s" "0 < n" "n \<le> 8192" "length dst = 6" "length src = 6"
  shows "network_handle_ethernet
      (Some (ether_bytes \<lparr>eh_mac_dst = dst, eh_mac_src = src, eh_type = to_net16 type\<rparr> @ r)) n s
    = (let s1 = s\<lparr>saved_caller_mac := src\<rparr> in
       if type = ETHERTYPE_IPV4 then kbind (network_handle_ipv4 r s1) (\<lambda>s2. Inr (0, s2))
       else if type = ETHERTYPE_ARP then kbind (network_handle_arp r s1) (\<lambda>s2. Inr (0, s2))
       else Inr (-1, s1))"
proof -
  let ?h = "\<lparr>eh_mac_dst = dst, eh_mac_src = src, eh_type = to_net16 type\<rparr>"
  have h: "get_ether (ether_bytes ?h @ r) = Inr ?h"
    using assms(4,5) by (intro get_ether_bytes) (simp add: ether_ok_def)
  have l: "length (ether_bytes ?h) = 14" using assms(4,5) by (simp add: ether_ok_def)
  have mac: "network_fill_mac (Some (saved_caller_mac s)) (Some src) = Inr (Some src)"
    using assms(1,5) memcpy_eq[of 6 "saved_caller_mac s" src]
    by (simp add: network_fill_mac_def fill_bytes_def net_up_def)
  show ?thesis
    using assms h l mac
    by (simp add: network_handle_ethernet_def Let_def net_up_def e1000_defs ETHERNET_HEADER_LENGHT_def
        ETHERTYPE_IPV4_def ETHERTYPE_IPV6_def ETHERTYPE_ARP_def)
qed

lemma handle_ipv4_packet:
  assumes "length (saved_caller_ipv4 s) = 4" "length src = 4" "length dst = 4"
    and "28 + n mod 65536 < 65536"
  shows "network_handle_ipv4 (ip_bytes (make_udp_ip src dst n) @ r) s
    = network_handle_udp r (s\<lparr>saved_caller_ipv4 := src\<rparr>)"
proof -
  let ?h = "make_udp_ip src dst n"
  have ok: "ip_ok ?h" by (rule ip_ok_make[OF assms(2,3)])
  have fields: "ip_src ?h = src" "ip_v_hl ?h = 0x45" "ip_p ?h = 17"
    "from_net16 (ip_len ?h) = 20 + (8 + word_of_nat n)"
    using assms(2) by (simp_all add: make_udp_ip_def Let_def fill_ip_sum_def)
  have ip: "network_fill_ipv4 (Some (saved_caller_ipv4 s)) (Some src) = Inr (Some src)"
    using assms(1,2) memcpy_eq[of 4 "saved_caller_ipv4 s" src]
    by (simp add: network_fill_ipv4_def fill_bytes_def)
  have "(28 + n) mod 65536 = 28 + n mod 65536"
    using assms(4) by (metis mod_add_right_eq mod_less)
  then have "unat (20 + (8 + word_of_nat n) :: u16) = 28 + n mod 65536"
    by (simp add: unat_word_ariths unat_of_nat mod_simps)
  then have "\<not> (20 + (8 + word_of_nat n) :: u16) < 20" by (simp add: word_less_nat_alt)
  moreover have "drop_bit 4 (0x45 :: u8) AND 0x0F = 4" by simp
  ultimately show ?thesis
    using get_ip_bytes[OF ok, of r] ip length_ip_bytes[OF ok]
    by (simp add: network_handle_ipv4_def fields Let_def IP_HEADER_LENGHT_def)
qed

text \<open>A payload with a NUL in its first bytes, as it arrives in the local copy.\<close>

lemma copy_payload_eq:
  assumes "length (udp_payload s) = 1024" "0 \<in> set p2" "length (cstr p2) \<le> 512"
  shows "copy_payload p2 s = Inr (s\<lparr>udp_payload :=
      ((cstr p2 @ drop (length (cstr p2)) (udp_payload s))
        [length (cstr p2) := 0, length (cstr p2) + 1 := 0, 1021 := 0])\<rparr>)"
  using assms strlen_cstr[OF assms(2)] strncpy_eq[of "length (cstr p2)" "udp_payload s" p2]
  by (simp add: copy_payload_def)

lemma replicate_update: "(replicate n x)[i := x] = replicate n x"
  by (cases "i < n") (auto simp: list_eq_iff_nth_eq nth_list_update)

lemma copy_payload_clear:
  assumes "0 \<in> set p2" "length (cstr p2) \<le> 512"
  shows "copy_payload p2 (clear_payload s)
    = Inr (s\<lparr>udp_payload := cstr p2 @ replicate (1024 - length (cstr p2)) 0\<rparr>)"
proof -
  let ?n = "length (cstr p2)"
  have d: "drop ?n (replicate 1024 0) = replicate (1024 - ?n) (0 :: u8)" by (rule drop_replicate)
  have u: "(cstr p2 @ replicate (1024 - ?n) 0)[?n := 0, ?n + 1 := 0, 1021 := 0]
      = cstr p2 @ replicate (1024 - ?n) (0 :: u8)"
    using assms(2) by (simp add: list_update_append replicate_update)
  have l: "length (udp_payload (clear_payload s)) = 1024"
    unfolding clear_payload_def by simp
  show ?thesis
    using copy_payload_eq[OF l assms] u d by (simp add: clear_payload_def)
qed

lemma handle_udp_packet:
  assumes "0 \<in> set r" "length (cstr r) \<le> 512"
  shows "network_handle_udp (udp_bytes (make_udp sp dp n) @ r) s
    = (let s1 = s\<lparr>udp_payload := cstr r @ replicate (1024 - length (cstr r)) 0\<rparr> in
       if dp = 68 \<or> dp = 67 then network_handle_dhcp r s1
       else if dp = 11888 \<or> dp = 22888 \<or> dp = 34884
       then kbind (handle_gprotocol sp dp s1) (\<lambda>s2. Inr (clear_payload s2)) else Inr s1)"
  using get_udp_bytes[of "make_udp sp dp n" r] copy_payload_clear[OF assms, of s]
  by (simp add: network_handle_udp_def Let_def UDP_HEADER_LENGHT_def make_udp_def)

section \<open>Questions and answers\<close>

definition g_reply :: "u8 list" where
  "g_reply = bytes ''g:1 This is a response from Gramado OS'' @ [10]"

lemma length_g_reply: "length g_reply = 39"
  by (simp add: g_reply_def bytes_def)

lemma put_g_reply:
  "put_payload ''g:1 '' (bytes ''This is a response from Gramado OS'' @ [10, 0]) s
    = Inr (s\<lparr>udp_payload := g_reply @ replicate 985 0\<rparr>)"
proof -
  let ?z = "replicate 1024 (0 :: u8)"
  let ?t = "bytes ''This is a response from Gramado OS'' @ [10]"
  have 1: "mysprintf ?z (bytes ''g:1 '' @ [0]) [] = Inr (4, bytes ''g:1 '' @ drop 4 ?z)"
    using mysprintf_plain[of "bytes ''g:1 ''" ?z "[]"] by (simp add: bytes_def)
  have d: "drop 4 (bytes ''g:1 '' @ drop 4 ?z) = replicate 1020 0"
    by (simp add: bytes_def)
  have 2: "mysprintf (replicate 1020 0) (?t @ [0]) [] = Inr (35, ?t @ drop 35 (replicate 1020 0))"
    using mysprintf_plain[of ?t "replicate 1020 0" "[]"] by (simp add: bytes_def)
  have e: "drop 35 (replicate 1020 (0 :: u8)) = replicate 985 0" by (simp only: drop_replicate)  simp
  have t: "take 4 (bytes ''g:1 '' @ drop 4 ?z) = bytes ''g:1 ''" by (simp add: bytes_def)
  have c: "udp_payload (clear_payload s) = ?z" by (simp add: clear_payload_def)
  show ?thesis
    using 1 2 by (simp add: put_payload_def c d t e) (simp add: g_reply_def bytes_def)
qed

lemma take_prefix_eq: "take n xs = ys \<Longrightarrow> length ys = n \<Longrightarrow> take n (xs @ zs) = ys"
  by (cases "n \<le> length xs") auto

lemma length_g0: "length (bytes ''g:0'') = 3"
  by (simp add: bytes_def)

lemma cstr_append: "0 \<in> set s \<Longrightarrow> cstr (s @ t) = cstr s"
  by (induction s) (auto simp: cstr_def)

lemma cstr_length: "length (cstr s) \<le> length s"
  unfolding cstr_def by (rule length_takeWhile_le)

lemma net_up_nic: "net_up s \<Longrightarrow> nic_ready (the (currentNIC s)) \<and> currentNIC s = Some (the (currentNIC s))"
  by (auto simp: net_up_def)

text \<open>The answer to a request, on the state the packet handlers have left.\<close>

lemma answer_request:
  assumes nic: "currentNIC s = Some d" "nic_ready d"
    and b: "dhcp_initialized s = TRUE" "length (dhcp_your_ipv4 s) = 4"
      "length (saved_caller_ipv4 s) = 4" "length (saved_caller_mac s) = 6"
    and p: "take 3 (udp_payload s) = bytes ''g:0''"
  shows "\<exists>s'. handle_gprotocol sp 11888 s = Inr s'
     \<and> sent_one (udp_frame (nic_mac_address d) (saved_caller_mac s) (dhcp_your_ipv4 s) (saved_caller_ipv4 s)
          11888 sp (g_reply @ replicate 217 0)) (s\<lparr>udp_payload := g_reply @ replicate 985 0\<rparr>) s'"
proof -
  let ?s = "s\<lparr>udp_payload := g_reply @ replicate 985 0\<rparr>"
  have t: "take 256 (g_reply @ replicate 985 0) = g_reply @ replicate 217 0"
    by (simp add: length_g_reply)
  obtain s' where s': "network_send_udp (dhcp_your_ipv4 s) (saved_caller_ipv4 s) (saved_caller_mac s) 11888 sp
      (Some (g_reply @ replicate 985 0)) 256 ?s = Inr (0, s')"
    "sent_one (udp_frame (nic_mac_address d) (saved_caller_mac s) (dhcp_your_ipv4 s) (saved_caller_ipv4 s)
       11888 sp (take 256 (g_reply @ replicate 985 0))) ?s s'"
    using send_udp_ready[of ?s d "dhcp_your_ipv4 s" "saved_caller_ipv4 s" "saved_caller_mac s" 256
        "g_reply @ replicate 985 0" 11888 sp] nic b by (auto simp: length_g_reply)
  have "handle_gprotocol sp 11888 s = Inr s'"
    using b(1) p s'(1) by (simp add: handle_gprotocol_def payload_code_def put_g_reply udp_reply_def)
  then show ?thesis using s'(2) t by auto
qed

text \<open>
  C6. A question is answered: when host A sends a request "g:0..." of at most 512 bytes, with a NUL,
  to port 11888, and the frame on its wire reaches host B, whose network is on and has an address,
  then B sends exactly one frame: from its own address back to A's address and source port, with a
  valid header and the text of the reply. The addresses A wrote as destination play no role. No
  byte after the frame in B's receive buffer matters, nor the size B is told.
\<close>

theorem udp_request_answered:
  assumes a: "currentNIC a = Some da" "nic_ready da" "length ipa = 4" "length dst_ip = 4" "length dst_mac = 6"
    and data: "take 3 (cstr data) = bytes ''g:0''" "0 \<in> set data" "length data \<le> 512"
    and b: "net_up b" "dhcp_initialized b = TRUE"
  shows "\<exists>a' frame. network_send_udp ipa dst_ip dst_mac sp 11888 (Some data) (length data) a = Inr (0, a')
     \<and> sent_frames a' = sent_frames a @ [frame]
     \<and> (\<forall>after n. 0 < n \<and> n \<le> 8192 \<longrightarrow> (\<exists>b'. network_handle_ethernet (Some (frame @ after)) n b = Inr (0, b')
          \<and> sent_frames b' = sent_frames b @
              [udp_frame (nic_mac_address (the (currentNIC b))) (nic_mac_address da) (dhcp_your_ipv4 b) ipa
                 11888 sp (g_reply @ replicate 217 0)]))"
proof -
  let ?f = "udp_frame (nic_mac_address da) dst_mac ipa dst_ip sp 11888 data"
  let ?db = "the (currentNIC b)"
  obtain a' where a': "network_send_udp ipa dst_ip dst_mac sp 11888 (Some data) (length data) a = Inr (0, a')"
      "sent_one ?f a a'"
    using send_udp_ready[OF a, of "length data" data sp 11888] data(3) by auto
  have mac: "length (nic_mac_address da) = 6" using a(2) by (simp add: nic_ready_def)
  have "\<exists>b'. network_handle_ethernet (Some (?f @ after)) n b = Inr (0, b')
      \<and> sent_frames b' = sent_frames b @ [udp_frame (nic_mac_address ?db) (nic_mac_address da)
           (dhcp_your_ipv4 b) ipa 11888 sp (g_reply @ replicate 217 0)]"
    if n: "0 < n" "n \<le> 8192" for after n
  proof -
    let ?r = "data @ after"
    let ?s1 = "b\<lparr>saved_caller_mac := nic_mac_address da\<rparr>"
    let ?s2 = "?s1\<lparr>saved_caller_ipv4 := ipa\<rparr>"
    let ?s3 = "?s2\<lparr>udp_payload := cstr data @ replicate (1024 - length (cstr data)) 0\<rparr>"
    have cs: "cstr ?r = cstr data" "0 \<in> set ?r" "length (cstr ?r) \<le> 512"
      using data(2,3) cstr_append[OF data(2)] cstr_length[of data] by auto
    have p: "take 3 (udp_payload ?s3) = bytes ''g:0''"
      using take_prefix_eq[OF data(1) length_g0] by (simp del: take_append)
    obtain s' where s': "handle_gprotocol sp 11888 ?s3 = Inr s'"
      "sent_one (udp_frame (nic_mac_address ?db) (nic_mac_address da) (dhcp_your_ipv4 b) ipa
          11888 sp (g_reply @ replicate 217 0)) (?s3\<lparr>udp_payload := g_reply @ replicate 985 0\<rparr>) s'"
      using answer_request[of ?s3 ?db sp] net_up_nic[OF b(1)] b mac a(3) p by (auto simp: net_up_def)
    have "network_handle_udp (udp_bytes (make_udp sp 11888 (length data)) @ ?r) ?s2 = Inr (clear_payload s')"
      using handle_udp_packet[OF cs(2,3), of sp 11888 "length data" ?s2] cs(1) s'(1) by (simp add: Let_def)
    then have "network_handle_ethernet (Some (?f @ after)) n b = Inr (0, clear_payload s')"
      unfolding udp_frame_def
      using handle_ethernet_frame[OF b(1) n a(5) mac, of ETHERTYPE_IPV4]
        handle_ipv4_packet[of ?s1 ipa dst_ip "length data"] a(3,4) b(1) data(3)
      by (simp add: Let_def net_up_def)
    moreover have "sent_frames (clear_payload s') = sent_frames b @ [udp_frame (nic_mac_address ?db)
        (nic_mac_address da) (dhcp_your_ipv4 b) ipa 11888 sp (g_reply @ replicate 217 0)]"
      using s'(2) by (auto simp: sent_one_def clear_payload_def)
    ultimately show ?thesis by blast
  qed
  then show ?thesis using a' by (auto simp: sent_one_def)
qed

lemma demo_net_up: "net_up demo_net" "nic_ready zero_nic"
  "nic_mac_address zero_nic = [2, 0, 0, 0, 0, 1]"
proof -
  show n: "nic_ready zero_nic" by (simp add: nic_ready_def zero_nic_def)
  show "nic_mac_address zero_nic = [2, 0, 0, 0, 0, 1]" by (simp add: zero_nic_def)
  show "net_up demo_net" using n by (simp add: net_up_def demo_net_def)
qed

lemma udp_request_answered_witness:
  "\<exists>a' frame. network_send_udp [192, 168, 1, 10] [192, 168, 1, 12] arp_broadcast_mac 5000 11888
        (Some (bytes ''g:0 hello'' @ [0])) 10 demo_net = Inr (0, a')
     \<and> sent_frames a' = sent_frames demo_net @ [frame]
     \<and> (\<exists>b'. network_handle_ethernet (Some (frame @ [])) 60 demo_net = Inr (0, b')
          \<and> sent_frames b' = [udp_frame [2, 0, 0, 0, 0, 1] [2, 0, 0, 0, 0, 1] [192, 168, 1, 12]
               [192, 168, 1, 10] 11888 5000 (g_reply @ replicate 217 0)])"
proof -
  let ?data = "bytes ''g:0 hello'' @ [0]"
  have d: "take 3 (cstr ?data) = bytes ''g:0''" "0 \<in> set ?data" "length ?data = 10"
    by (simp_all add: bytes_def)
  have l: "length [192, 168, 1, 10 :: u8] = 4" "length [192, 168, 1, 12 :: u8] = 4"
    "length arp_broadcast_mac = 6" "length ?data \<le> 512"
    using d(3) by (simp_all add: arp_broadcast_mac_def)
  have up: "currentNIC demo_net = Some zero_nic" "dhcp_initialized demo_net = TRUE" by simp_all
  have n: "0 < (60 :: int) \<and> 60 \<le> (8192 :: int)" by simp
  from udp_request_answered[OF up(1) demo_net_up(2) l(1,2,3) d(1,2) l(4) demo_net_up(1) up(2), of 5000]
  obtain a' frame where f: "network_send_udp [192, 168, 1, 10] [192, 168, 1, 12] arp_broadcast_mac 5000 11888
        (Some ?data) (length ?data) demo_net = Inr (0, a')"
      "sent_frames a' = sent_frames demo_net @ [frame]"
      "\<exists>b'. network_handle_ethernet (Some (frame @ [])) 60 demo_net = Inr (0, b')
        \<and> sent_frames b' = sent_frames demo_net @
             [udp_frame (nic_mac_address (the (currentNIC demo_net))) (nic_mac_address zero_nic)
               (dhcp_your_ipv4 demo_net) [192, 168, 1, 10] 11888 5000 (g_reply @ replicate 217 0)]"
    using n by blast
  show ?thesis
    using f(1,2) f(3)[unfolded up(1) option.sel demo_net_up(3) demo_net_fields append_Nil]
    unfolding d(3) by blast
qed

text \<open>A packet from a DHCP server as it arrives, and the handler's two answers to it.\<close>

definition dhcp_packet :: "u8 list \<Rightarrow> u8 list \<Rightarrow> u8 list \<Rightarrow> u8 list \<Rightarrow> dhcp_d \<Rightarrow> u8 list" where
  "dhcp_packet server_mac dst_mac server_ip dst_ip d =
     udp_frame server_mac dst_mac server_ip dst_ip 67 68 (dhcp_bytes d)"

definition addresses_ok :: "u8 list \<Rightarrow> u8 list \<Rightarrow> u8 list \<Rightarrow> u8 list \<Rightarrow> bool" where
  "addresses_ok server_mac dst_mac server_ip dst_ip \<longleftrightarrow>
     length server_mac = 6 \<and> length dst_mac = 6 \<and> length server_ip = 4 \<and> length dst_ip = 4"

lemma dhcp_bytes_nul:
  assumes "dh_hops d = 0"
  shows "0 \<in> set (dhcp_bytes d @ r)" "length (cstr (dhcp_bytes d @ r)) \<le> 512"
proof -
  obtain t where t: "dhcp_bytes d = [dh_op d, dh_htype d, dh_hlen d, 0] @ t"
    using assms by (simp add: dhcp_bytes_def)
  then show "0 \<in> set (dhcp_bytes d @ r)" by simp
  have "cstr (dhcp_bytes d @ r) = cstr ([dh_op d, dh_htype d, dh_hlen d, 0] @ (t @ r))" by (simp add: t)
  also have "\<dots> = cstr [dh_op d, dh_htype d, dh_hlen d, 0]" by (rule cstr_append) simp
  finally show "length (cstr (dhcp_bytes d @ r)) \<le> 512"
    using cstr_length[of "[dh_op d, dh_htype d, dh_hlen d, 0]"] by simp
qed

lemma handle_dhcp_frame:
  assumes b: "net_up b" and d: "dhcp_ok d" "dh_hops d = 0"
    and addr: "addresses_ok smac dmac sip dip" and n: "0 < n" "n \<le> 8192"
  shows "\<exists>q. network_handle_ethernet (Some (dhcp_packet smac dmac sip dip d @ r)) n b
    = kbind (network_handle_dhcp (dhcp_bytes d @ r)
        (b\<lparr>saved_caller_mac := smac, saved_caller_ipv4 := sip, udp_payload := q\<rparr>)) (\<lambda>s. Inr (0, s))"
proof -
  let ?s1 = "b\<lparr>saved_caller_mac := smac\<rparr>"
  let ?s2 = "?s1\<lparr>saved_caller_ipv4 := sip\<rparr>"
  have len: "length (dhcp_bytes d) = 548" using d(1) by (simp add: dhcp_size_def OPTIONS_SIZE_def)
  have "network_handle_udp (udp_bytes (make_udp 67 68 (length (dhcp_bytes d))) @ dhcp_bytes d @ r) ?s2
      = network_handle_dhcp (dhcp_bytes d @ r) (?s2\<lparr>udp_payload := cstr (dhcp_bytes d @ r)
          @ replicate (1024 - length (cstr (dhcp_bytes d @ r))) 0\<rparr>)"
    using handle_udp_packet[OF dhcp_bytes_nul[OF d(2)], of 67 68 "length (dhcp_bytes d)" r ?s2]
    by (simp add: Let_def)
  then show ?thesis
    unfolding dhcp_packet_def udp_frame_def
    using handle_ethernet_frame[OF b n, of dmac smac ETHERTYPE_IPV4]
      handle_ipv4_packet[of ?s1 sip dip "length (dhcp_bytes d)"] addr b len
    by (intro exI[of _ "cstr (dhcp_bytes d @ r) @ replicate (1024 - length (cstr (dhcp_bytes d @ r))) 0"])
       (simp add: Let_def net_up_def addresses_ok_def)
qed

lemma handle_ack:
  assumes "net_up b" "dhcp_ok d" "dh_options d ! 2 = DORA_A"
  shows "network_handle_dhcp (dhcp_bytes d @ r) b = Inr (b\<lparr>dhcp_your_ipv4 := le32 (dh_yiaddr d),
      dhcp_server_ipv4 := le32 (dh_siaddr d), dhcp_initialized := TRUE, net_is_online := TRUE\<rparr>)"
proof -
  have "network_fill_ipv4 (Some (dhcp_your_ipv4 b)) (Some (le32 v)) = Inr (Some (le32 v))"
    "network_fill_ipv4 (Some (dhcp_server_ipv4 b)) (Some (le32 v)) = Inr (Some (le32 v))" for v
    using assms(1) memcpy_eq[of 4 "dhcp_your_ipv4 b" "le32 v"] memcpy_eq[of 4 "dhcp_server_ipv4 b" "le32 v"]
    by (simp_all add: network_fill_ipv4_def fill_bytes_def net_up_def)
  then show ?thesis
    using get_dhcp_bytes[OF assms(2), of r] assms(3)
    by (simp add: network_handle_dhcp_def Let_def DORA_A_def DORA_O_def networkSetOnlineStatus_def)
qed

lemma over_take: "length bs \<le> length xs \<Longrightarrow> take (length bs) (over 0 bs xs) = bs"
  by (simp add: over_def)

lemma length_over: "off + length bs \<le> length xs \<Longrightarrow> length (over off bs xs) = length xs"
  by (simp add: over_def)

lemma handle_offer:
  assumes b: "net_up b" and d: "dhcp_ok d" "dh_options d ! 2 = DORA_O" and u: "7 \<le> length (uts_nodename b)"
  shows "\<exists>b' req. network_handle_dhcp (dhcp_bytes d @ r) b = Inr b'
     \<and> sent_one (udp_frame (nic_mac_address (the (currentNIC b))) [255, 255, 255, 255, 255, 255]
          [0, 0, 0, 0] [255, 255, 255, 255] 68 67 (dhcp_bytes req)) b b'
     \<and> dh_op req = 1 \<and> take 6 (dh_chaddr req) = nic_mac_address (the (currentNIC b))
     \<and> take 15 (dh_options req) = [53, 1, 3, 50, 4] @ le32 (dh_yiaddr d) @ [54, 4] @ le32 (dh_siaddr d)"
proof -
  obtain n where n: "currentNIC b = Some n" "nic_ready n" using b by (auto simp: net_up_def)
  have e: "the (currentNIC b) = n" using n by simp
  let ?o = "request_options (le32 (dh_yiaddr d)) (le32 (dh_siaddr d)) (uts_nodename b)"
  let ?d1 = "fill_dhcp d n DORA_R"
  let ?req = "?d1\<lparr>dh_options := over 3 ?o (dh_options ?d1)\<rparr>"
  have mac: "length (nic_mac_address n) = 6" using n by (simp add: nic_ready_def)
  have lo: "length (dh_options d) = 308" using d(1) by (simp add: dhcp_ok_def OPTIONS_SIZE_def)
  have l: "length ?o = 27" using u by (simp add: request_options_def)
  have o1: "dh_options ?d1 = [53, 1, 3] @ drop 3 (dh_options d)"
    by (simp add: fill_dhcp_def over_def DORA_R_def numeral_3_eq_3)
  have o2: "dh_options ?req = [53, 1, 3] @ ?o @ drop 30 (dh_options d)"
    unfolding dhcp_d.simps o1 using l by (simp add: over_def)
  have ok: "dhcp_ok ?req"
    unfolding dhcp_ok_def o2 using l lo mac by (simp add: fill_dhcp_def OPTIONS_SIZE_def)
  have size: "length (dhcp_bytes ?req) = dhcp_size" "dhcp_size = 548"
    using length_dhcp_bytes[OF ok] by (simp_all add: dhcp_size_def OPTIONS_SIZE_def)
  obtain b' where b': "network_send_udp [0, 0, 0, 0] [255, 255, 255, 255] [255, 255, 255, 255, 255, 255]
        68 67 (Some (dhcp_bytes ?req)) dhcp_size b = Inr (0, b')"
      "sent_one (udp_frame (nic_mac_address n) [255, 255, 255, 255, 255, 255] [0, 0, 0, 0]
        [255, 255, 255, 255] 68 67 (take dhcp_size (dhcp_bytes ?req))) b b'"
    using send_udp_ready[of b n "[0, 0, 0, 0]" "[255, 255, 255, 255]" "[255, 255, 255, 255, 255, 255]"
        dhcp_size "dhcp_bytes ?req" 68 67] n size by auto
  have "network_handle_dhcp (dhcp_bytes d @ r) b = Inr b'"
    using get_dhcp_bytes[OF d(1), of r] d(2) b'(1) n(1)
    by (simp add: network_handle_dhcp_def Let_def network_dhcp_send_def DORA_R_def DORA_D_def)
  moreover have "take 15 (dh_options ?req) = [53, 1, 3, 50, 4] @ le32 (dh_yiaddr d) @ [54, 4] @ le32 (dh_siaddr d)"
    unfolding o2 by (simp add: request_options_def le32_def)
  moreover have "dh_op ?req = 1" "take 6 (dh_chaddr ?req) = nic_mac_address n"
    using mac by (simp_all add: fill_dhcp_def)
  moreover have "take dhcp_size (dhcp_bytes ?req) = dhcp_bytes ?req" using size by simp
  ultimately show ?thesis unfolding e using b'(2) by metis
qed

lemma sent_one_net_up: "net_up s \<Longrightarrow> sent_one f s s' \<Longrightarrow> net_up s'"
  by (auto simp: net_up_def sent_one_def)

lemma net_up_saved:
  "net_up b \<Longrightarrow> addresses_ok smac dmac sip dip
    \<Longrightarrow> net_up (b\<lparr>saved_caller_mac := smac, saved_caller_ipv4 := sip, udp_payload := q\<rparr>)"
  by (simp add: net_up_def addresses_ok_def)

lemma ack_accepted:
  assumes "net_up b" "dhcp_ok ack" "dh_hops ack = 0" "dh_options ack ! 2 = DORA_A"
    "addresses_ok smac dmac sip dip" "0 < n" "n \<le> 8192"
  shows "\<exists>b'. network_handle_ethernet (Some (dhcp_packet smac dmac sip dip ack @ r)) n b = Inr (0, b')
     \<and> dhcp_your_ipv4 b' = le32 (dh_yiaddr ack) \<and> dhcp_server_ipv4 b' = le32 (dh_siaddr ack)
     \<and> dhcp_initialized b' = TRUE \<and> net_is_online b' = TRUE \<and> sent_frames b' = sent_frames b"
  using handle_dhcp_frame[OF assms(1,2,3,5,6,7), of r]
    handle_ack[OF net_up_saved[OF assms(1,5)] assms(2,4)] by fastforce

text \<open>
  C7. The DHCP dialog: a host whose network is on answers an OFFER with one broadcast REQUEST that
  names the offered address, the server and its own hardware address; the ACK then gives it the
  address and puts it online. The same ACK has the same effect on a host that never asked: no
  transaction id, client address or earlier step is checked.
\<close>

theorem dhcp_dialog:
  assumes b: "net_up b" "7 \<le> length (uts_nodename b)"
    and offer: "dhcp_ok offer" "dh_hops offer = 0" "dh_options offer ! 2 = DORA_O"
    and ack: "dhcp_ok ack" "dh_hops ack = 0" "dh_options ack ! 2 = DORA_A"
    and addr: "addresses_ok smac dmac sip dip" and n: "0 < n" "n \<le> 8192"
  shows "\<exists>b1 b2 b3 req.
     network_handle_ethernet (Some (dhcp_packet smac dmac sip dip offer @ r)) n b = Inr (0, b1)
     \<and> sent_frames b1 = sent_frames b @ [udp_frame (nic_mac_address (the (currentNIC b)))
          [255, 255, 255, 255, 255, 255] [0, 0, 0, 0] [255, 255, 255, 255] 68 67 (dhcp_bytes req)]
     \<and> dh_op req = 1 \<and> take 6 (dh_chaddr req) = nic_mac_address (the (currentNIC b))
     \<and> take 15 (dh_options req) = [53, 1, 3, 50, 4] @ le32 (dh_yiaddr offer) @ [54, 4] @ le32 (dh_siaddr offer)
     \<and> network_handle_ethernet (Some (dhcp_packet smac dmac sip dip ack @ r)) n b1 = Inr (0, b2)
     \<and> dhcp_your_ipv4 b2 = le32 (dh_yiaddr ack) \<and> dhcp_initialized b2 = TRUE \<and> net_is_online b2 = TRUE
     \<and> network_handle_ethernet (Some (dhcp_packet smac dmac sip dip ack @ r)) n b = Inr (0, b3)
     \<and> dhcp_your_ipv4 b3 = le32 (dh_yiaddr ack) \<and> dhcp_initialized b3 = TRUE \<and> net_is_online b3 = TRUE"
proof -
  obtain q where q: "network_handle_ethernet (Some (dhcp_packet smac dmac sip dip offer @ r)) n b
      = kbind (network_handle_dhcp (dhcp_bytes offer @ r)
          (b\<lparr>saved_caller_mac := smac, saved_caller_ipv4 := sip, udp_payload := q\<rparr>)) (\<lambda>s. Inr (0, s))"
    using handle_dhcp_frame[OF b(1) offer(1,2) addr n] by blast
  let ?b = "b\<lparr>saved_caller_mac := smac, saved_caller_ipv4 := sip, udp_payload := q\<rparr>"
  have up: "net_up ?b" by (rule net_up_saved[OF b(1) addr])
  have u: "7 \<le> length (uts_nodename ?b)" using b(2) by simp
  from handle_offer[OF up offer(1,3) u, of r] obtain b1 req where o:
    "network_handle_dhcp (dhcp_bytes offer @ r) ?b = Inr b1"
    "sent_one (udp_frame (nic_mac_address (the (currentNIC ?b))) [255, 255, 255, 255, 255, 255]
        [0, 0, 0, 0] [255, 255, 255, 255] 68 67 (dhcp_bytes req)) ?b b1"
    "dh_op req = 1" "take 6 (dh_chaddr req) = nic_mac_address (the (currentNIC ?b))"
    "take 15 (dh_options req) = [53, 1, 3, 50, 4] @ le32 (dh_yiaddr offer) @ [54, 4] @ le32 (dh_siaddr offer)"
    by blast
  have up1: "net_up b1" by (rule sent_one_net_up[OF up o(2)])
  have sent: "sent_frames b1 = sent_frames b @ [udp_frame (nic_mac_address (the (currentNIC b)))
      [255, 255, 255, 255, 255, 255] [0, 0, 0, 0] [255, 255, 255, 255] 68 67 (dhcp_bytes req)]"
    using o(2) by (auto simp: sent_one_def)
  have h1: "network_handle_ethernet (Some (dhcp_packet smac dmac sip dip offer @ r)) n b = Inr (0, b1)"
    using q o(1) by simp
  have o4: "take 6 (dh_chaddr req) = nic_mac_address (the (currentNIC b))" using o(4) by simp
  obtain b2 where b2: "network_handle_ethernet (Some (dhcp_packet smac dmac sip dip ack @ r)) n b1 = Inr (0, b2)"
    "dhcp_your_ipv4 b2 = le32 (dh_yiaddr ack)" "dhcp_initialized b2 = TRUE" "net_is_online b2 = TRUE"
    using ack_accepted[OF up1 ack addr n, of r] by blast
  obtain b3 where b3: "network_handle_ethernet (Some (dhcp_packet smac dmac sip dip ack @ r)) n b = Inr (0, b3)"
    "dhcp_your_ipv4 b3 = le32 (dh_yiaddr ack)" "dhcp_initialized b3 = TRUE" "net_is_online b3 = TRUE"
    using ack_accepted[OF b(1) ack addr n, of r] by blast
  note all = conjI[OF h1 conjI[OF sent conjI[OF o(3) conjI[OF o4 conjI[OF o(5) conjI[OF b2(1)
    conjI[OF b2(2) conjI[OF b2(3) conjI[OF b2(4) conjI[OF b3(1) conjI[OF b3(2) conjI[OF b3(3) b3(4)]]]]]]]]]]]]
  from all show ?thesis by (intro exI)
qed

definition demo_dhcp :: "u8 \<Rightarrow> dhcp_d" where
  "demo_dhcp kind = \<lparr>dh_op = 2, dh_htype = 1, dh_hlen = 6, dh_hops = 0, dh_xid = 0, dh_secs = 0,
     dh_flags = 0, dh_ciaddr = 0, dh_yiaddr = 0x0701A8C0, dh_siaddr = 0x0101A8C0, dh_giaddr = 0,
     dh_chaddr = replicate 16 0, dh_sname = replicate 64 0, dh_file = replicate 128 0,
     dh_magic_cookie = 0, dh_options = [53, 1, kind] @ replicate 305 0\<rparr>"

lemma demo_dhcp_ok: "dhcp_ok (demo_dhcp k)" "dh_hops (demo_dhcp k) = 0" "dh_options (demo_dhcp k) ! 2 = k"
  "le32 (dh_yiaddr (demo_dhcp k)) = [192, 168, 1, 7]"
  by (simp_all add: demo_dhcp_def dhcp_ok_def OPTIONS_SIZE_def le32_def)

lemma dhcp_dialog_witness:
  "\<exists>b3. network_handle_ethernet (Some (dhcp_packet [2, 0, 0, 0, 0, 2] [2, 0, 0, 0, 0, 1]
        [192, 168, 1, 1] [255, 255, 255, 255] (demo_dhcp DORA_A) @ [])) 590 demo_net = Inr (0, b3)
     \<and> dhcp_your_ipv4 b3 = [192, 168, 1, 7]"
proof -
  have addr: "addresses_ok [2, 0, 0, 0, 0, 2] [2, 0, 0, 0, 0, 1] [192, 168, 1, 1] [255, 255, 255, 255]"
    by (simp add: addresses_ok_def)
  have u: "7 \<le> length (uts_nodename demo_net)" by (simp add: demo_net_def bytes_def)
  have n: "0 < (590 :: int)" "(590 :: int) \<le> 8192" by simp_all
  show ?thesis
    using dhcp_dialog[OF demo_net_up(1) u demo_dhcp_ok(1,2,3) demo_dhcp_ok(1,2,3) addr n, of "[]"]
    unfolding demo_dhcp_ok(4) by blast
qed

text \<open>
  One packet can stop the kernel: whenever the network is on, a frame of type IPv4 whose version
  is 4 and whose length field is below 20 makes the receive handler panic, whoever sent it and
  whatever else it says.
\<close>

lemma short_ip_length_panics:
  assumes "net_up s" "0 < n" "n \<le> 8192" "length dst = 6" "length src = 6" "ip_ok h"
    and "drop_bit 4 (ip_v_hl h) AND 0x0F = 4" "from_net16 (ip_len h) < 20"
  shows "network_handle_ethernet
      (Some (ether_bytes \<lparr>eh_mac_dst = dst, eh_mac_src = src, eh_type = to_net16 ETHERTYPE_IPV4\<rparr>
             @ ip_bytes h @ r)) n s
    = Inl (KPanic ''IP: Bad total lenght #debug'')"
proof -
  have "network_fill_ipv4 (Some (saved_caller_ipv4 s)) (Some (ip_src h)) = Inr (Some (ip_src h))"
    using assms(1,6) memcpy_eq[of 4 "saved_caller_ipv4 s" "ip_src h"]
    by (simp add: network_fill_ipv4_def fill_bytes_def net_up_def ip_ok_def)
  then show ?thesis
    using handle_ethernet_frame[OF assms(1-5), of ETHERTYPE_IPV4 "ip_bytes h @ r"]
      get_ip_bytes[OF assms(6), of r] assms(7,8)
    by (simp add: network_handle_ipv4_def Let_def)
qed

lemma short_ip_length_panics_example:
  "network_handle_ethernet
      (Some (ether_bytes \<lparr>eh_mac_dst = arp_broadcast_mac, eh_mac_src = arp_broadcast_mac,
          eh_type = to_net16 ETHERTYPE_IPV4\<rparr> @ ip_bytes (demo_ip\<lparr>ip_len := 0\<rparr>) @ [])) 60 demo_net
    = Inl (KPanic ''IP: Bad total lenght #debug'')"
  by (rule short_ip_length_panics)
     (simp_all add: demo_net_up arp_broadcast_mac_def demo_ip_def ip_ok_def from_net16_def
        FromNetByteOrder16_def)

section \<open>The receive loop ends\<close>

text \<open>What the loop looks at; no handler touches it.\<close>

definition rx_view :: "net_state \<Rightarrow> (u16 \<times> (nat \<Rightarrow> u8)) option" where
  "rx_view s = map_option (\<lambda>d. (rx_cur d, rx_desc_status d)) (currentNIC s)"

named_theorems rx \<open>operations that leave the receive ring alone\<close>

lemma e1000hw_send_rx [rx]: "e1000hw_send len data s = Inr (r, s') \<Longrightarrow> rx_view s' = rx_view s"
  by (auto simp: e1000hw_send_def rx_view_def Let_def kbind_Inr_iff split: option.splits if_splits)

lemma ethernet_send_rx [rx]: "ethernet_send len data s = Inr (r, s') \<Longrightarrow> rx_view s' = rx_view s"
  by (auto simp: ethernet_send_def e1000_send_def network_on_sending_def kbind_Inr_iff
      dest!: e1000hw_send_rx split: option.splits if_splits) (auto simp: rx_view_def)

lemma send_arp_rx [rx]: "network_send_arp mac sip tip op s = Inr s' \<Longrightarrow> rx_view s' = rx_view s"
  by (auto simp: network_send_arp_def Let_def kbind_Inr_iff store_frame_def
      dest!: ethernet_send_rx split: option.splits if_splits) (auto simp: rx_view_def)

lemma send_udp_rx [rx]: "network_send_udp src dst mac sp dp data len s = Inr (r, s') \<Longrightarrow> rx_view s' = rx_view s"
  by (auto simp: network_send_udp_def Let_def kbind_Inr_iff store_frame_def
      dest!: ethernet_send_rx split: option.splits if_splits) (auto simp: rx_view_def)

lemma handle_arp_rx [rx]: "network_handle_arp b s = Inr s' \<Longrightarrow> rx_view s' = rx_view s"
  by (auto simp: network_handle_arp_def network_send_arp_reply_def Let_def kbind_Inr_iff
      dest!: send_arp_rx split: option.splits if_splits) (auto simp: rx_view_def)

lemma dhcp_send_rx [rx]: "network_dhcp_send dh t sip tip sp dp s = Inr s' \<Longrightarrow> rx_view s' = rx_view s"
  by (auto simp: network_dhcp_send_def Let_def kbind_Inr_iff
      dest!: send_udp_rx split: option.splits if_splits)

lemma handle_dhcp_rx [rx]: "network_handle_dhcp b s = Inr s' \<Longrightarrow> rx_view s' = rx_view s"
  by (auto simp: network_handle_dhcp_def Let_def kbind_Inr_iff networkSetOnlineStatus_def
      dest!: dhcp_send_rx split: option.splits if_splits) (auto simp: rx_view_def)

lemma put_payload_rx [rx]: "put_payload c m s = Inr s' \<Longrightarrow> rx_view s' = rx_view s"
  unfolding put_payload_def by (auto simp: kbind_Inr_iff rx_view_def)

lemma udp_reply_rx [rx]: "udp_reply sp dp s = Inr s' \<Longrightarrow> rx_view s' = rx_view s"
  unfolding udp_reply_def by (auto simp: kbind_Inr_iff dest!: send_udp_rx)

lemma handle_gprotocol_rx [rx]: "handle_gprotocol sp dp s = Inr s' \<Longrightarrow> rx_view s' = rx_view s"
proof -
  have k: "kbind (put_payload c m s) (udp_reply a b) = Inr s' \<Longrightarrow> rx_view s' = rx_view s" for c m a b
    unfolding kbind_Inr_iff using put_payload_rx udp_reply_rx by metis
  assume h: "handle_gprotocol sp dp s = Inr s'"
  show ?thesis
    using h unfolding handle_gprotocol_def
    by (simp only: sum.inject split: if_split_asm) (erule k | simp only:)+
qed

lemma clear_payload_rx [simp]: "rx_view (clear_payload s) = rx_view s"
  by (simp add: clear_payload_def rx_view_def)

lemma copy_payload_rx [rx]: "copy_payload p s = Inr s' \<Longrightarrow> rx_view s' = rx_view s"
  unfolding copy_payload_def kbind_Inr_iff by (auto simp: rx_view_def)

lemma handle_udp_rx [rx]: "network_handle_udp b s = Inr s' \<Longrightarrow> rx_view s' = rx_view s"
proof -
  assume "network_handle_udp b s = Inr s'"
  then obtain udp s1 where s1: "copy_payload (drop UDP_HEADER_LENGHT b) (clear_payload s) = Inr s1"
    "s' = s1 \<or> network_handle_dhcp (drop UDP_HEADER_LENGHT b) s1 = Inr s'
      \<or> (\<exists>x y s2. handle_gprotocol x y s1 = Inr s2 \<and> s' = clear_payload s2)"
    unfolding network_handle_udp_def Let_def kbind_Inr_iff by (auto split: if_splits simp: kbind_Inr_iff)
  then show ?thesis
    using copy_payload_rx[OF s1(1)] handle_dhcp_rx handle_gprotocol_rx by auto
qed

lemma handle_tcp_rx [rx]: "network_handle_tcp b s = Inr (e, s') \<Longrightarrow> rx_view s' = rx_view s"
  by (auto simp: network_handle_tcp_def Let_def kbind_Inr_iff rx_view_def)

lemma handle_ipv4_rx [rx]: "network_handle_ipv4 b s = Inr s' \<Longrightarrow> rx_view s' = rx_view s"
  by (auto simp: network_handle_ipv4_def Let_def kbind_Inr_iff
      dest!: handle_udp_rx handle_tcp_rx split: option.splits if_splits) (auto simp: rx_view_def)

lemma handle_ethernet_rx [rx]: "network_handle_ethernet f n s = Inr (r, s') \<Longrightarrow> rx_view s' = rx_view s"
  by (auto simp: network_handle_ethernet_def Let_def kbind_Inr_iff
      dest!: handle_ipv4_rx handle_arp_rx split: option.splits if_splits) (auto simp: rx_view_def)

lemma update_counter_rx [simp]: "rx_view (networkUpdateCounter c s) = rx_view s"
  by (auto simp: networkUpdateCounter_def rx_view_def split: option.splits)

text \<open>The descriptors the card has filled and the loop has not taken.\<close>

definition filled :: "net_state \<Rightarrow> nat" where
  "filled s = (case rx_view s of None \<Rightarrow> 0 | Some (c, st) \<Rightarrow> card {i. i < 32 \<and> st i AND 1 = 1})"

lemma receive_one_clears:
  assumes "currentNIC s = Some d" "receive_one d s = Inr s'" "rx_desc_status d (unat (rx_cur d)) AND 1 = 1"
  shows "Suc (filled s') = filled s \<and> currentNIC s' \<noteq> None"
proof -
  let ?o = "unat (rx_cur d)"
  let ?st = "(rx_desc_status d)(?o := rx_desc_status d ?o AND NOT 1)"
  have v: "?o < 32" and r: "\<exists>c. rx_view s' = Some (c, ?st)"
    using assms(1,2)
    by (auto simp: receive_one_def Let_def kbind_Inr_iff e1000_defs network_on_receiving_def
        dest!: handle_ethernet_rx split: option.splits if_splits) (auto simp: rx_view_def)
  have b: "(w AND NOT 1) AND 1 \<noteq> 1" for w :: u8
    by (simp add: and.assoc)
  have "{i. i < 32 \<and> rx_desc_status d i AND 1 = 1} = insert ?o {i. i < 32 \<and> ?st i AND 1 = 1}"
    using v assms(3) b by auto
  moreover have "?o \<notin> {i. i < 32 \<and> ?st i AND 1 = 1}" using b by simp
  ultimately have "card {i. i < 32 \<and> rx_desc_status d i AND 1 = 1}
      = Suc (card {i. i < 32 \<and> ?st i AND 1 = 1})" by simp
  then show ?thesis using r assms(1) by (auto simp: filled_def rx_view_def)
qed

lemma rx_loop_ends: "filled s < fuel \<Longrightarrow> rx_loop fuel s \<noteq> None"
proof (induction fuel arbitrary: s)
  case (Suc fuel)
  show ?case
  proof (cases "currentNIC s")
    case (Some d)
    show ?thesis
    proof (cases "rx_desc_status d (unat (rx_cur d)) AND 1 = 1")
      case True
      then show ?thesis
        using Suc Some receive_one_clears[OF Some _ True] by (cases "receive_one d s") auto
    qed (simp add: Some)
  qed simp
qed simp

lemma filled_le: "filled s \<le> 32"
proof -
  have "card {i. i < 32 \<and> P i} \<le> 32" for P :: "nat \<Rightarrow> bool"
    using card_mono[of "{..<32::nat}" "{i. i < 32 \<and> P i}"] by auto
  then show ?thesis by (auto simp: filled_def split: option.splits)
qed



text \<open>
  An ARP request is answered with this host's address whatever address it asks for: the handler does
  not look at the target of the request.
\<close>

lemma arp_request_answered:
  assumes "net_up s" "dhcp_initialized s = TRUE" "0 < n" "n \<le> 8192"
    and "length mac = 6" "length dst = 6" "length sip = 4" "length tip = 4"
  shows "\<exists>s'. network_handle_ethernet (Some (arp_frame mac dst sip tip 1 @ r)) n s = Inr (0, s')
    \<and> sent_frames s' = sent_frames s
        @ [arp_frame (nic_mac_address (the (currentNIC s))) mac (dhcp_your_ipv4 s) sip 2]"
proof -
  obtain d where d: "currentNIC s = Some d" "nic_ready d" using assms(1) by (auto simp: net_up_def)
  let ?a = "\<lparr>ar_type = 0x0100, ar_proto = 0x0008, ar_hlen = 6, ar_plen = 4, ar_op = to_net16 1,
     arp_sha = mac, arp_spa = sip, arp_tha = dst, arp_tpa = tip\<rparr>"
  let ?s = "s\<lparr>saved_caller_mac := mac\<rparr>"
  have a: "get_arp (arp_bytes ?a @ r) = Inr ?a"
    using assms(5-8) by (intro get_arp_bytes) (simp add: arp_ok_def)
  obtain s' where s': "network_send_arp mac (dhcp_your_ipv4 s) sip 2 ?s = Inr s'"
    "sent_one (arp_frame (nic_mac_address d) mac (dhcp_your_ipv4 s) sip (word_of_int 2)) ?s s'"
    using send_arp_ready[of ?s d "dhcp_your_ipv4 s" sip mac 2] d assms by (auto simp: net_up_def)
  have "network_handle_arp (arp_bytes ?a @ r) ?s = Inr s'"
    using a s'(1) assms(2)
    by (simp add: network_handle_arp_def network_send_arp_reply_def ARP_OPC_REQUEST_def ARP_OPC_REPLY_def)
  then show ?thesis
    unfolding arp_frame_def
    using handle_ethernet_frame[OF assms(1,3,4,6,5), of ETHERTYPE_ARP "arp_bytes ?a @ r"] s'(2) d(1)
    by (auto simp: sent_one_def arp_frame_def ETHERTYPE_ARP_def ETHERTYPE_IPV4_def)
qed

end
