(* ===== verification/KLife.thy ===== *)
theory KLife
  imports KHeap KString
begin

text \<open>
  The life of a thread outside the scheduler, and the timer: creation, statistics, profiler and
  exit of core/ke/intake/thread.c, the timer interrupt and the timer objects of
  hal/x86_64/pit.c, and the timer event of gramk/user/input.c. The writes to the ports of the 8253
  chip are left out.
\<close>

section \<open>Creating a thread (thread.c)\<close>

definition RING0 :: int where "RING0 = 0"
definition RING3 :: int where "RING3 = 3"
definition THREAD_TYPE_SYSTEM :: int where "THREAD_TYPE_SYSTEM = 1"
definition FOREGROUND_THREAD :: int where "FOREGROUND_THREAD = 2"
definition IM_MESSAGE_INPUT :: int where "IM_MESSAGE_INPUT = 2"
definition PREEMPTABLE :: int where "PREEMPTABLE = TRUE"

text \<open>The sizes of the structures: msg_d, thread_d and rect_d, with a size_t of 32 bits.\<close>

definition msg_d_size :: int where "msg_d_size = 80"
definition thread_d_size :: int where "thread_d_size = 1960"
definition rect_d_size :: int where "rect_d_size = 128"

definition new_message :: "ptr \<Rightarrow> int \<Rightarrow> kstate \<Rightarrow> kfault + kstate" where
  "new_message t i s =
    kbind (kmalloc msg_d_size s) (\<lambda>(a, s1). let tmp = unat a in
      if tmp = NULL then Inl (KPanic ''__ps_initialize_thread_common_elements: tmp'')
      else Inr (upd_thread t (\<lambda>r. r\<lparr>t_MsgQueue := (t_MsgQueue r)(i := tmp)\<rparr>)
             (upd_msg tmp (\<lambda>_. zero_msg\<lparr>m_opaque_window := NULL, m_msg := 0, m_long1 := 0,
                m_long2 := 0, m_long3 := 0, m_long4 := 0, m_used := TRUE, m_magic := 1234\<rparr>) s1)))"

definition ps_initialize_thread_common_elements :: "ptr \<Rightarrow> kstate \<Rightarrow> kfault + kstate" where
  "ps_initialize_thread_common_elements t s =
    (let s1 = upd_thread t (\<lambda>r. r\<lparr>t_flags := 0,
           t_MsgQueue := (\<lambda>i. if 0 \<le> i \<and> i < MSG_QUEUE_MAX then 0 else t_MsgQueue r i),
           t_MsgQueueHead := 0, t_MsgQueueTail := 0\<rparr>) s
     in kbind (kfold (new_message t) (slots 0 MSG_QUEUE_MAX) s1) (\<lambda>s2.
        Inr (upd_thread t (\<lambda>r. r\<lparr>t_signal := 0, t_umask := 0, t_exit_code := 0\<rparr>) s2)))"

definition ps_setup_x64_context :: "ptr \<Rightarrow> int \<Rightarrow> u64 \<Rightarrow> u64 \<Rightarrow> kstate \<Rightarrow> kfault + kstate" where
  "ps_setup_x64_context t cpl istack irip s =
    (if cpl \<noteq> RING0 \<and> cpl \<noteq> RING3 then Inl (KPanic ''__ps_setup_x64_context: Invalid cpl'')
     else let
       s1 = upd_thread t (\<lambda>r. r\<lparr>t_cpl := cpl\<rparr>) s;
       s2 = (if t_cpl (tmem s1 t) = RING0
             then upd_thread t (\<lambda>r. r\<lparr>t_rflags_initial_iopl := 0, t_rflags_current_iopl := 0,
                t_context := (t_context r)\<lparr>c_ss := 0x10, c_rsp := istack, c_rflags := 0x0202,
                  c_cs := 0x8, c_rip := irip, c_ds := 0x10, c_es := 0x10, c_fs := 0x10,
                  c_gs := 0x10\<rparr>\<rparr>) s1
             else s1);
       s3 = (if t_cpl (tmem s2 t) = RING3
             then upd_thread t (\<lambda>r. r\<lparr>t_rflags_initial_iopl := 3, t_rflags_current_iopl := 3,
                t_context := (t_context r)\<lparr>c_ss := 0x23, c_rsp := istack, c_rflags := 0x3202,
                  c_cs := 0x1B, c_rip := irip, c_ds := 0x23, c_es := 0x23, c_fs := 0x23,
                  c_gs := 0x23\<rparr>\<rparr>) s2
             else s2)
     in Inr (upd_thread t (\<lambda>r. r\<lparr>t_initial_rip := irip,
            t_context := (t_context r)\<lparr>c_rax := 0, c_rbx := 0, c_rcx := 0, c_rdx := 0, c_rsi := 0,
              c_rdi := 0, c_rbp := 0, c_r8 := 0, c_r9 := 0, c_r10 := 0, c_r11 := 0, c_r12 := 0,
              c_r13 := 0, c_r14 := 0, c_r15 := 0\<rparr>, t_saved := FALSE\<rparr>) s3))"

text \<open>Lines 1345 to 1377: three passes over the slots of user threads for an empty one.\<close>

definition next_slot :: "kstate \<Rightarrow> int option" where
  "next_slot s = find (\<lambda>i. threadList s i = NULL)
     (slots USER_THRESHOLD_TID THREAD_COUNT_MAX @ slots USER_THRESHOLD_TID THREAD_COUNT_MAX
      @ slots USER_THRESHOLD_TID THREAD_COUNT_MAX)"

text \<open>Lines 1380 to 1420 and 1447 to 1513: the fields of the new structure.\<close>

definition thread_header :: "int \<Rightarrow> ptr \<Rightarrow> int \<Rightarrow> kstate \<Rightarrow> thread_d \<Rightarrow> thread_d" where
  "thread_header i Process pid s r = r\<lparr>t_tid := i, t_owner_process := Process, t_owner_pid := pid,
     t_type := THREAD_TYPE_SYSTEM, t_base_priority := PRIORITY_SYSTEM_THRESHOLD,
     t_priority := PRIORITY_SYSTEM_THRESHOLD, t_HeapStart := 0, t_HeapSize := 0, t_StackStart := 0,
     t_StackSize := 0, t_pml4_PA := p_pml4_PA (pmem s Process), t_plane := FOREGROUND_THREAD\<rparr>"

definition thread_times :: "kstate \<Rightarrow> thread_d \<Rightarrow> thread_d" where
  "thread_times s r = r\<lparr>t_input_mode := IM_MESSAGE_INPUT, t_protected := FALSE,
     t_is_preemptable := PREEMPTABLE, t_link := NULL, t_is_linked := FALSE, t_step := 0,
     t_credits := 0, t_quantum := QUANTUM_NORMAL_THRESHOLD, t_quantum_limit_min := QUANTUM_MIN,
     t_quantum_limit_max := QUANTUM_MAX, t_standbyCount := 0, t_runningCount := 0,
     t_runningCount_ms := 0, t_readyCount := 0, t_ready_limit := QUANTUM_MAX, t_waitingCount := 0,
     t_waiting_limit := QUANTUM_MAX, t_blockedCount := 0, t_blocked_limit := QUANTUM_MAX,
     t_yield_in_progress := FALSE, t_sleep_in_progress := FALSE, t_desired_sleep_ms := 0,
     t_waiting_for_timeout := FALSE, t_scheduledCount := 0, t_ticks_remaining := 1000,
     t_initial_time_ms := sys_time_ms s, t_total_time_ms := 0, t_to_supervisor := 0, t_to_user := 0\<rparr>"

definition create_thread ::
  "u64 \<Rightarrow> u64 \<Rightarrow> int \<Rightarrow> u8 list option \<Rightarrow> int \<Rightarrow> kstate \<Rightarrow> ptr kresult" where
  "create_thread irip istack pid name cpl s =
    (if pid < 0 then Inl (KPanic ''create_thread: [ERROR] pid'')
     else case name of
       None \<Rightarrow> Inl (KPanic ''create_thread: [ERROR] name'')
     | Some nm \<Rightarrow>
     if nm = [] then Inl (OutOfBounds ''name'')
     else if hd nm = 0 then Inl (KPanic ''create_thread: [ERROR] *name'')
     else if cpl \<noteq> RING0 \<and> cpl \<noteq> RING3 then Inl (KPanic ''create_thread: [ERROR] Invalid cpl'')
     else if current_thread s < 0 \<or> current_thread s \<ge> THREAD_COUNT_MAX then Inr (NULL, s)
     else if pid < 0 \<or> pid \<ge> PROCESS_COUNT_MAX then Inl (KPanic ''create_thread: ProcessID'')
     else let Process = processList s pid in
     if Process = NULL then Inl (KPanic ''create_thread: Process'')
     else if p_used (pmem s Process) \<noteq> TRUE then Inl (KPanic ''create_thread: Process->used'')
     else if p_magic (pmem s Process) \<noteq> 1234 then Inl (KPanic ''create_thread: Process->magic'')
     else kbind (kmalloc thread_d_size s) (\<lambda>(a, s1). let t = unat a in
     if t = NULL then Inl (KPanic ''create_thread: Thread'')
     else kbind (ps_initialize_thread_common_elements t (upd_thread t (\<lambda>_. zero_thread) s1)) (\<lambda>s2.
     case next_slot s2 of
       None \<Rightarrow> Inl (KPanic ''create_thread: [FAIL] No more slots'')
     | Some i \<Rightarrow>
     kbind (strcpy (t_threadname (tmem s2 t)) nm) (\<lambda>threadname.
     let s3 = upd_thread t (\<lambda>r. (thread_header i Process pid s2 r)\<lparr>t_threadname := threadname\<rparr>) s2 in
     kbind (kmalloc rect_d_size s3) (\<lambda>(r, s4).
     if r = 0 then Inl (KPanic ''create_thread: r'')
     else let
       s5 = upd_thread t (thread_times s4) s4;
       iopl = word_of_int cpl;
       s6 = upd_thread t (\<lambda>r. r\<lparr>t_rflags_initial_iopl := iopl, t_rflags_current_iopl := iopl\<rparr>) s5
     in kbind (ps_setup_x64_context t cpl istack irip s6) (\<lambda>s7.
     let
       s8 = upd_thread t (\<lambda>r. r\<lparr>t_next := NULL\<rparr>) s7;
       s9 = s8\<lparr>threadList := (threadList s8)(t_tid (tmem s8 t) := t)\<rparr>;
       s10 = upd_thread t (\<lambda>r. r\<lparr>t_state := INITIALIZED, t_used := TRUE, t_magic := THREAD_MAGIC\<rparr>) s9;
       s11 = s10\<lparr>UP_threads_counter := UP_threads_counter s10 + 1\<rparr>
     in if UP_threads_counter s11 \<ge> word_of_int THREAD_COUNT_MAX
        then Inl (KPanic ''create_thread: [FAIL] UPProcessorBlock.threads_counter'')
        else Inr (t, s11)))))))"

definition get_init_thread :: "kstate \<Rightarrow> ptr" where
  "get_init_thread s = InitThread s"

definition init_threads :: "kstate \<Rightarrow> int \<times> kstate" where
  "init_threads s =
    (0, fold (\<lambda>i s. s\<lparr>threadList := (threadList s)(i := 0)\<rparr>) (slots 0 THREAD_COUNT_MAX)
         (s\<lparr>current_thread := 0, UP_threads_counter := 0\<rparr>))"

section \<open>Leaving (thread.c)\<close>

definition exit_thread :: "int \<Rightarrow> kstate \<Rightarrow> kfault + kstate" where
  "exit_thread tid s =
    (if tid < 0 \<or> tid \<ge> THREAD_COUNT_MAX then Inr s
     else let Idle = UP_IdleThread s in
     if Idle = NULL then Inl (KPanic ''exit_thread: Idle'')
     else if t_magic (tmem s Idle) \<noteq> 1234 then Inl (KPanic ''exit_thread: Idle validation'')
     else if tid = t_tid (tmem s Idle) then Inl (KPanic ''exit_thread: We can't kill the Idle thread'')
     else let Thread = threadList s tid in
     if Thread = NULL then Inr s
     else if t_magic (tmem s Thread) \<noteq> 1234 then Inr s
     else Inr (upd_thread Thread (\<lambda>r. r\<lparr>t_exit_in_progress := TRUE\<rparr>) s))"

definition exit_current_thread :: "kstate \<Rightarrow> kfault + kstate" where
  "exit_current_thread s =
    (if current_thread s < 0 then Inr s
     else if current_thread s \<ge> THREAD_COUNT_MAX then Inr s
     else exit_thread (current_thread s) s)"

section \<open>Statistics and profiler (thread.c)\<close>

definition thread_stat :: "int \<Rightarrow> thread_d \<Rightarrow> kfault + u64" where
  "thread_stat index t =
    (let i = (\<lambda>x. Inr (word_of_int x)) in
     if index = 1 then i (t_tid t)
     else if index = 2 then i (t_owner_pid t)
     else if index = 3 then i (t_type t)
     else if index = 4 then i (thread_state_code (t_state t))
     else if index = 5 then i (t_plane t)
     else if index = 6 then Inr 0
     else if index = 7 then i (t_current_processor t)
     else if index = 8 then i (t_next_processor t)
     else if index = 9 then i (t_affinity_processor t)
     else if index = 10 then Inr 0
     else if index = 11 then Inr (ucast (t_rflags_initial_iopl t AND 3))
     else if index = 12 then Inr (t_base_priority t)
     else if index = 13 then Inr (t_priority t)
     else if index = 14 then Inr 0
     else if index = 15 then i (t_is_preemptable t)
     else if index = 16 then i (t_saved t)
     else if index = 17 then Inr (t_HeapStart t)
     else if index = 18 then Inr (t_StackStart t)
     else if index = 19 then Inr (t_HeapSize t)
     else if index = 20 then Inr (t_StackSize t)
     else if index = 21 then Inr (t_step t)
     else if index = 22 then Inr (t_initial_time_ms t)
     else if index = 23 then Inr (t_total_time_ms t)
     else if index = 24 then Inr (t_quantum t)
     else if index = 25 then Inr (t_quantum_limit_max t)
     else if index = 26 then Inr (t_standbyCount t)
     else if index = 27 then Inr (t_runningCount t)
     else if index = 28 then Inr (t_runningCount_ms t)
     else if index = 29 then Inr (t_readyCount t)
     else if index = 30 then Inr (t_ready_limit t)
     else if index = 31 then Inr (t_waitingCount t)
     else if index = 32 then Inr (t_waiting_limit t)
     else if index = 33 then Inr (t_blockedCount t)
     else if index = 34 then Inr (t_blocked_limit t)
     else if index = 35 then Inr (t_ticks_remaining t)
     else if index = 36 then Inr (t_profiler_percentage_running t)
     else if index = 37 then Inr (t_profiler_percentage_running_res t)
     else if index = 38 then Inr (t_profiler_percentage_running_mod t)
     else if index = 39 then Inr (t_profiler_ticks_running t)
     else if index = 40 then Inr (t_profiler_last_ticks t)
     else if index = 41 then Inl (KPanic ''GetThreadStats: 41'')
     else if index = 42 then Inr (t_signal t)
     else if index = 43 then Inr (t_umask t)
     else Inr 0)"

definition GetThreadStats :: "int \<Rightarrow> int \<Rightarrow> kstate \<Rightarrow> kfault + u64" where
  "GetThreadStats tid index s =
    (if tid < 0 \<or> tid \<ge> THREAD_COUNT_MAX then Inr 0
     else if index < 0 then Inr 0
     else let t = threadList s tid in
     if t = NULL then Inr 0
     else if t_magic (tmem s t) \<noteq> 1234 then Inr 0
     else thread_stat index (tmem s t))"

text \<open>The buffer of the caller is a list of bytes with its size; the length is never computed.\<close>

definition getthreadname :: "int \<Rightarrow> u8 list option \<Rightarrow> kstate \<Rightarrow> kfault + (int \<times> u8 list option)" where
  "getthreadname tid buffer s =
    (if tid < 0 \<or> tid \<ge> THREAD_COUNT_MAX then Inr (-1, buffer)
     else case buffer of
       None \<Rightarrow> Inr (-1, buffer)
     | Some name_buffer \<Rightarrow> let t = threadList s tid in
     if t = NULL then Inr (-1, buffer)
     else if t_used (tmem s t) \<noteq> TRUE \<or> t_magic (tmem s t) \<noteq> 1234 then Inr (-1, buffer)
     else kbind (strcpy name_buffer (t_threadname (tmem s t))) (\<lambda>b.
       Inr (t_threadName_len (tmem s t), Some b)))"

definition profile_thread :: "u64 \<Rightarrow> thread_d \<Rightarrow> thread_d" where
  "profile_thread limit r =
    (let r1 = r\<lparr>t_profiler_last_ticks := t_profiler_ticks_running r, t_profiler_ticks_running := 0\<rparr>;
         r2 = r1\<lparr>t_profiler_percentage_running_res := t_profiler_last_ticks r1 div limit,
                 t_profiler_percentage_running_mod := t_profiler_last_ticks r1 mod limit\<rparr>
     in r2\<lparr>t_profiler_percentage_running := t_profiler_percentage_running_mod r2 div (limit div 100)\<rparr>)"

definition profiler_step :: "int \<Rightarrow> kstate \<Rightarrow> kfault + kstate" where
  "profiler_step i s =
    (let t = threadList s i in
     if t \<noteq> NULL \<and> t_used (tmem s t) = TRUE \<and> t_magic (tmem s t) = 1234
     then if profiler_ticks_limit s = 0 \<or> profiler_ticks_limit s div 100 = 0
       then Inl (DivByZero ''profiler_ticks_limit'')
       else Inr (upd_thread t (profile_thread (profiler_ticks_limit s)) s)
     else Inr s)"

definition thread_profiler :: "int \<Rightarrow> kstate \<Rightarrow> int kresult" where
  "thread_profiler service s =
    (if service < 0 then Inr (-1, s)
     else let Idle = UP_IdleThread s in
     if Idle = NULL then Inl (KPanic ''thread_profiler: Idle'')
     else if t_magic (tmem s Idle) \<noteq> 1234 then Inl (KPanic ''thread_profiler: Idle validation'')
     else let current = GetCurrentThread s in
     if current = NULL then Inl (KPanic ''thread_profiler: __current'')
     else if t_magic (tmem s current) \<noteq> 1234 then Inl (KPanic ''thread_profiler: __current validation'')
     else if service = 1
     then Inr (0, upd_thread current (\<lambda>r. r\<lparr>t_profiler_ticks_running := t_profiler_ticks_running r + 1\<rparr>) s)
     else if service = 2
     then kbind (kfold profiler_step (slots 0 THREAD_COUNT_MAX) s) (\<lambda>s1.
       Inr (0, s1\<lparr>profiler_percentage_all_normal_threads := 100 - t_profiler_percentage_running (tmem s1 Idle),
                  profiler_percentage_idle_thread := t_profiler_percentage_running (tmem s1 Idle)\<rparr>))
     else Inr (-1, s))"

definition thread_get_profiler_percentage :: "ptr \<Rightarrow> kstate \<Rightarrow> kfault + u64" where
  "thread_get_profiler_percentage thread s =
    (if thread = NULL then Inl (KPanic ''thread_get_profiler_percentage: thread'')
     else Inr (t_profiler_percentage_running (tmem s thread)))"

section \<open>The timer (pit.c)\<close>

definition PIT_DEV_FREQ :: u32 where "PIT_DEV_FREQ = 1193182"
definition PROFILER_TICKS_DEFAULT_LIMIT :: u64 where "PROFILER_TICKS_DEFAULT_LIMIT = 200"

definition upd_timer :: "(timer_state \<Rightarrow> timer_state) \<Rightarrow> kstate \<Rightarrow> kstate" where
  "upd_timer f s = s\<lparr>timer := f (timer s)\<rparr>"

definition timerTimer :: "kstate \<Rightarrow> int \<times> kstate" where
  "timerTimer s =
    (0, upd_timer (\<lambda>p. p\<lparr>seconds := 0, UpdateScreenFlag := FALSE, profiler_ticks_count := 0\<rparr>)
         (s\<lparr>jiffies := 0, sys_time_ms := 0, sys_time_hz := 0,
            profiler_ticks_limit := PROFILER_TICKS_DEFAULT_LIMIT\<rparr>))"

definition set_timeout :: "u64 \<Rightarrow> kstate \<Rightarrow> kstate" where
  "set_timeout ticks s = upd_timer (\<lambda>p. p\<lparr>time_out := ticks\<rparr>) s"

definition get_timeout :: "kstate \<Rightarrow> u64" where
  "get_timeout s = time_out (timer s)"

definition set_systime_hz :: "u64 \<Rightarrow> kstate \<Rightarrow> kstate" where
  "set_systime_hz hz s = s\<lparr>sys_time_hz := hz\<rparr>"

definition get_systime_hz :: "kstate \<Rightarrow> u64" where
  "get_systime_hz s = sys_time_hz s"

definition get_systime_ms :: "kstate \<Rightarrow> u64" where
  "get_systime_ms s = sys_time_ms s"

definition get_systime_totalticks :: "kstate \<Rightarrow> u64" where
  "get_systime_totalticks s = jiffies s"

definition get_systime_info :: "int \<Rightarrow> kstate \<Rightarrow> u64" where
  "get_systime_info n s =
    (if n = 1 then get_systime_hz s else if n = 2 then get_systime_ms s
     else if n = 3 then get_systime_totalticks s else 0)"

definition timerEnableTextCursor :: "kstate \<Rightarrow> kstate" where
  "timerEnableTextCursor s = upd_timer (\<lambda>p. p\<lparr>timerShowTextCursor := TRUE\<rparr>) s"

definition timerDisableTextCursor :: "kstate \<Rightarrow> kstate" where
  "timerDisableTextCursor s = upd_timer (\<lambda>p. p\<lparr>timerShowTextCursor := FALSE\<rparr>) s"

definition now :: "kstate \<Rightarrow> u64" where
  "now s = get_systime_ms s"

definition timerInit8253 :: "u32 \<Rightarrow> kstate \<Rightarrow> kfault + kstate" where
  "timerInit8253 freq s =
    (let s1 = upd_timer (\<lambda>p. p\<lparr>PIT_initialized := FALSE\<rparr>) s;
         clocks_per_sec = freq AND 0xFFFFFFFF
     in if clocks_per_sec = 0 then Inl (KPanic ''timerInit8253:'')
        else let s2 = upd_timer (\<lambda>p. p\<lparr>PIT_clocks_per_sec := clocks_per_sec,
                PIT_dev_freq := PIT_DEV_FREQ, PIT_period := PIT_DEV_FREQ div clocks_per_sec\<rparr>) s1
        in Inr (upd_timer (\<lambda>p. p\<lparr>PIT_initialized := TRUE\<rparr>) (set_systime_hz (ucast freq) s2)))"

definition early_timer_init :: "kstate \<Rightarrow> int kresult" where
  "early_timer_init s =
    (let s1 = snd (timerTimer s);
         s2 = upd_timer (fold (\<lambda>i p. p\<lparr>timerList := (timerList p)(i := 0)\<rparr>) (slots 0 32)) s1
     in kbind (timerInit8253 (ucast JIFFY_FREQ) s2) (\<lambda>s3. Inr (0, set_timeout 0 s3)))"

definition srand :: "u32 \<Rightarrow> kstate \<Rightarrow> kstate" where
  "srand seed s = upd_timer (\<lambda>p. p\<lparr>randseed := sint seed\<rparr>) s"

text \<open>The multiplication of the seed wraps in 32 bits.\<close>

definition rand :: "kstate \<Rightarrow> int \<times> kstate" where
  "rand s = (let s1 = srand (ucast (jiffies s AND 0xFFFFFFFF)) s
     in (sint ((word_of_int (randseed (timer s1)) :: 32 word) * 8 + 8), s1))"

definition wmTimerEvent :: "int \<Rightarrow> kstate \<Rightarrow> int kresult" where
  "wmTimerEvent signature s =
    (if signature \<noteq> 1234 then Inr (-1, s)
     else if jiffies s mod JIFFY_FREQ = 0
     then kbind (ipc_post_message_to_ds MSG_TIMER 1234 (jiffies s) s) (\<lambda>(_, s1). Inr (0, s1))
     else Inr (0, s))"

definition DeviceInterface_PIT :: "kstate \<Rightarrow> kfault + kstate" where
  "DeviceInterface_PIT s =
    (if PIT_initialized (timer s) \<noteq> TRUE then Inr s
     else let s1 = s\<lparr>jiffies := jiffies s + 1\<rparr>;
              s2 = srand (ucast (jiffies s1 AND 0xFFFFFFFF)) s1
     in kbind (wmTimerEvent 1234 s2) (\<lambda>(_, s3). Inr s3))"

definition irq0_TIMER :: "nat \<Rightarrow> kstate \<Rightarrow> (kfault + (switch_outcome \<times> kstate)) option" where
  "irq0_TIMER fuel s =
    (case DeviceInterface_PIT s of
       Inl e \<Rightarrow> Some (Inl e)
     | Inr s1 \<Rightarrow> (case tsTaskSwitch fuel (spawn_set_eoi_state s1) of
         None \<Rightarrow> None
       | Some (Inl e) \<Rightarrow> Some (Inl e)
       | Some (Inr (r, s2)) \<Rightarrow>
           if r = Returned then Some (Inr (r, spawn_reset_eoi_state s2)) else Some (Inr (r, s2))))"

section \<open>Timer objects (pit.c)\<close>

definition timer_d_size :: int where "timer_d_size = 96"

definition new_timer_id :: "kstate \<Rightarrow> int" where
  "new_timer_id s = (case find (\<lambda>i. timerList (timer s) i = 0) (slots 0 32) of Some i \<Rightarrow> i | None \<Rightarrow> -1)"

text \<open>The quotient of the milliseconds is an unsigned long stored in an int.\<close>

definition create_timer :: "int \<Rightarrow> u64 \<Rightarrow> int \<Rightarrow> kstate \<Rightarrow> ptr kresult" where
  "create_timer pid ms type s =
    (if pid < 0 \<or> pid \<ge> PROCESS_COUNT_MAX then Inr (NULL, s)
     else let Process = processList s pid in
     if Process = NULL then Inr (NULL, s)
     else if current_thread s < 0 \<or> current_thread s \<ge> THREAD_COUNT_MAX then Inr (NULL, s)
     else let Thread = threadList s (current_thread s) in
     if Thread = NULL then Inr (NULL, s)
     else if sys_time_hz s = 0 then Inl (DivByZero ''sys_time_hz'')
     else let tick = JIFFY_FREQ div sys_time_hz s; ms = (if ms < tick then tick else ms) in
     if type < 1 \<or> type > 10 then Inl (KPanic ''create_timer: type fail'')
     else kbind (kmalloc timer_d_size s) (\<lambda>(a, s1). let Timer = unat a in
     if Timer = NULL then Inl (KPanic ''create_timer: Timer fail'')
     else let ID = new_timer_id s1 in
     if ID < 0 \<or> ID > 32 then Inl (KPanic ''create_timer: ID fail'')
     else if tick = 0 then Inl (DivByZero ''JIFFY_FREQ/sys_time_hz'')
     else let count = sint (ucast (ms div tick) :: u32) in
       Inr (Timer, upd_timer (\<lambda>p. p\<lparr>timerList := (timerList p)(ID := Timer),
           timem := (timem p)(Timer := (timem p Timer)\<lparr>i_used := TRUE, i_magic := 1234, i_id := ID,
             i_initial_count_down := count, i_count_down := count, i_type := type, i_process := Process,
             i_thread := Thread, i_pid := pid, i_tid := current_thread s1\<rparr>)\<rparr>) s1)))"

section \<open>Allocation as a frame\<close>

definition heap_top :: "kstate \<Rightarrow> nat" where
  "heap_top s = unat (g_heap_pointer (heap s))"

definition heap_room :: "kstate \<Rightarrow> ptr \<Rightarrow> nat \<Rightarrow> nat \<Rightarrow> bool" where
  "heap_room s p nbytes count \<longleftrightarrow> process_current s p \<and> heap_wf (heap s)
     \<and> nbytes \<le> unat (g_available_heap (heap s)) \<and> mmblockCount (heap s) + int count < MMBLOCK_COUNT_MAX"

lemma heap_room_move:
  assumes "heap_room s p n k" "heap s' = heap s" "pmem s' = pmem s" "processList s' = processList s"
    "current_pid s' = current_pid s" "system_state s' = system_state s"
  shows "heap_room s' p n k"
  using assms(1) unfolding heap_room_def process_current_def assms(2-6) .

text \<open>An allocation changes the heap and the bytes charged to processes, and nothing else.\<close>

definition charged :: "(ptr \<Rightarrow> process_d) \<Rightarrow> (ptr \<Rightarrow> process_d) \<Rightarrow> bool" where
  "charged pm pm' \<longleftrightarrow> (\<forall>q. (pm' q)\<lparr>p_allocated_memory := 0\<rparr> = (pm q)\<lparr>p_allocated_memory := 0\<rparr>)"

lemma charged_refl [simp]: "charged pm pm"
  by (simp add: charged_def)

lemma charged_trans: "charged a b \<Longrightarrow> charged b c \<Longrightarrow> charged a c"
  by (simp add: charged_def)

lemma charged_fields:
  assumes "charged pm pm'"
  shows "p_used (pm' q) = p_used (pm q)" "p_magic (pm' q) = p_magic (pm q)" "p_pid (pm' q) = p_pid (pm q)"
    "p_pml4_PA (pm' q) = p_pml4_PA (pm q)"
proof -
  have e: "(pm' q)\<lparr>p_allocated_memory := 0\<rparr> = (pm q)\<lparr>p_allocated_memory := 0\<rparr>"
    using assms by (simp add: charged_def)
  show "p_used (pm' q) = p_used (pm q)" "p_magic (pm' q) = p_magic (pm q)" "p_pid (pm' q) = p_pid (pm q)"
    "p_pml4_PA (pm' q) = p_pml4_PA (pm q)"
    using arg_cong[OF e, of p_used] arg_cong[OF e, of p_magic] arg_cong[OF e, of p_pid]
      arg_cong[OF e, of p_pml4_PA] by simp_all
qed

lemma heap_wf_top:
  assumes "heap_wf h"
  shows "unat (g_heap_pointer h) = 0x301D0000 - unat (g_available_heap h)"
    "unat (g_available_heap h) \<le> 0xD0000"
proof -
  have "unat (g_available_heap h) + unat (g_heap_pointer h) = 0x301D0000"
    using assms by (simp add: heap_wf_def heap_consts)
  then show "unat (g_heap_pointer h) = 0x301D0000 - unat (g_available_heap h)"
    "unat (g_available_heap h) \<le> 0xD0000"
    using heap_bounds(2)[OF assms] by linarith+
qed

lemma kmalloc_room:
  assumes room: "heap_room s p (nat n + 72 + b) (k + 1)" and n: "0 < n" "n < 2 ^ 31"
  shows "\<exists>a h pm. kmalloc n s = Inr (a, s\<lparr>heap := h, pmem := pm\<rparr>) \<and> unat a = heap_top s + 72
     \<and> charged (pmem s) pm \<and> heap_room (s\<lparr>heap := h, pmem := pm\<rparr>) p b k
     \<and> heap_top (s\<lparr>heap := h, pmem := pm\<rparr>) = heap_top s + nat n + 72"
proof -
  have r: "process_current s p" "heap_wf (heap s)" "nat n + 72 + b \<le> unat (g_available_heap (heap s))"
    "mmblockCount (heap s) + int k + 1 < MMBLOCK_COUNT_MAX"
    using room by (simp_all add: heap_room_def)
  have m: "max 1 n = n" using n by simp
  obtain h' where h': "kmalloc n s = Inr (g_heap_pointer (heap s) + 72,
         upd_process p (\<lambda>r. r\<lparr>p_allocated_memory := p_allocated_memory r + word_of_int n\<rparr>) (s\<lparr>heap := h'\<rparr>))"
      "heap_wf h'" "mmblockCount h' = mmblockCount (heap s) + 1"
      "unat (g_available_heap h') + (nat n + 72) = unat (g_available_heap (heap s))"
    using kmalloc_result[OF r(1,2), of n] r(3,4) n m by auto
  let ?pm = "(pmem s)(p := (pmem s p)\<lparr>p_allocated_memory := p_allocated_memory (pmem s p) + word_of_int n\<rparr>)"
  have st: "upd_process p (\<lambda>r. r\<lparr>p_allocated_memory := p_allocated_memory r + word_of_int n\<rparr>) (s\<lparr>heap := h'\<rparr>)
      = s\<lparr>heap := h', pmem := ?pm\<rparr>"
    by (simp add: upd_process_def)
  have "unat (g_heap_pointer (heap s) + 72) = unat (g_heap_pointer (heap s)) + 72"
    using heap_bounds(1)[OF r(2)] by (subst unat_plus_small) simp_all
  moreover have "charged (pmem s) ?pm" by (simp add: charged_def)
  moreover have "process_current (s\<lparr>heap := h', pmem := ?pm\<rparr>) p"
    using r(1) by (auto simp: process_current_def)
  ultimately show ?thesis
    using h' r heap_wf_top[OF r(2)] heap_wf_top[OF h'(2)]
    by (intro exI[of _ "g_heap_pointer (heap s) + 72"] exI[of _ h'] exI[of _ ?pm])
      (simp add: st heap_room_def heap_top_def)
qed

section \<open>The message ring of a new thread\<close>

definition fresh_msg :: msg_d where
  "fresh_msg = zero_msg\<lparr>m_used := TRUE, m_magic := 1234\<rparr>"

definition msg_at :: "nat \<Rightarrow> nat \<Rightarrow> ptr" where
  "msg_at g i = g + 72 + 152 * i"

lemma new_messages:
  assumes "heap_room s p (152 * n + b) (n + k)"
  shows "\<exists>h pm. let s' = s\<lparr>heap := h, pmem := pm,
         tmem := (tmem s)(t := (tmem s t)\<lparr>t_MsgQueue := (\<lambda>i. if 0 \<le> i \<and> i < int n
            then msg_at (heap_top s) (nat i) else t_MsgQueue (tmem s t) i)\<rparr>),
         mmem := (\<lambda>a. if \<exists>i<n. a = msg_at (heap_top s) i then fresh_msg else mmem s a)\<rparr>
     in kfold (new_message t) (slots 0 (int n)) s = Inr s' \<and> charged (pmem s) pm
        \<and> heap_room s' p b k \<and> heap_top s' = heap_top s + 152 * n"
  using assms
proof (induction n arbitrary: b k)
  case 0
  have q: "(\<lambda>i. if 0 \<le> i \<and> i < int 0 then msg_at (heap_top s) (nat i) else t_MsgQueue (tmem s t) i)
      = t_MsgQueue (tmem s t)"
    by (rule ext) auto
  show ?case unfolding q Let_def
    using 0 by (intro exI[of _ "heap s"] exI[of _ "pmem s"]) (simp add: slots_empty)
next
  case (Suc n)
  let ?q = "\<lambda>n i. if 0 \<le> i \<and> i < int n then msg_at (heap_top s) (nat i) else t_MsgQueue (tmem s t) i"
  let ?m = "\<lambda>n a. if \<exists>i<n. a = msg_at (heap_top s) i then fresh_msg else mmem s a"
  let ?st = "\<lambda>h pm n. s\<lparr>heap := h, pmem := pm,
      tmem := (tmem s)(t := (tmem s t)\<lparr>t_MsgQueue := ?q n\<rparr>), mmem := ?m n\<rparr>"
  have r: "heap_room s p (152 * n + (152 + b)) (n + (1 + k))" using Suc.prems by (simp add: algebra_simps)
  obtain h pm where IH: "kfold (new_message t) (slots 0 (int n)) s = Inr (?st h pm n)"
      "charged (pmem s) pm" "heap_room (?st h pm n) p (152 + b) (1 + k)"
      "heap_top (?st h pm n) = heap_top s + 152 * n"
    using Suc.IH[OF r] unfolding Let_def by blast
  let ?s1 = "?st h pm n"
  have "heap_room ?s1 p (nat msg_d_size + 72 + b) (k + 1)" using IH(3) by (simp add: msg_d_size_def)
  from kmalloc_room[OF this] obtain a h' pm' where k: "kmalloc msg_d_size ?s1 = Inr (a, ?s1\<lparr>heap := h', pmem := pm'\<rparr>)"
      "unat a = msg_at (heap_top s) n" "charged (pmem ?s1) pm'" "heap_room (?s1\<lparr>heap := h', pmem := pm'\<rparr>) p b k"
      "heap_top (?s1\<lparr>heap := h', pmem := pm'\<rparr>) = heap_top s + 152 * Suc n"
    unfolding IH(4) by (auto simp: msg_d_size_def msg_at_def)
  have q: "(?q n)(int n := msg_at (heap_top s) n) = ?q (Suc n)" by (auto simp: fun_eq_iff)
  have m: "(?m n)(msg_at (heap_top s) n := fresh_msg) = ?m (Suc n)" by (auto simp: fun_eq_iff less_Suc_eq)
  have z: "msg_at (heap_top s) n \<noteq> 0" by (simp add: msg_at_def)
  have sl: "slots 0 (int (Suc n)) = slots 0 (int n) @ [int n]" using slots_snoc[of 0 "int n"] by (simp add: add.commute)
  have msg: "zero_msg\<lparr>m_opaque_window := NULL, m_msg := 0, m_long1 := 0, m_long2 := 0, m_long3 := 0,
      m_long4 := 0, m_used := TRUE, m_magic := 1234\<rparr> = fresh_msg"
    by (simp add: fresh_msg_def zero_msg_def)
  have "new_message t (int n) ?s1 = Inr (?st h' pm' (Suc n))"
    using z unfolding new_message_def msg q[symmetric] m[symmetric] k(1)
    by (simp add: Let_def k(2) upd_thread_def upd_msg_def)
  then have "kfold (new_message t) (slots 0 (int (Suc n))) s = Inr (?st h' pm' (Suc n))"
    unfolding sl kfold_append IH(1) by simp
  moreover have "charged (pmem s) pm'" using IH(2) k(3) charged_trans by simp
  moreover have "heap_room (?st h' pm' (Suc n)) p b k"
    by (rule heap_room_move[OF k(4)]) simp_all
  moreover have "heap_top (?st h' pm' (Suc n)) = heap_top s + 152 * Suc n"
    using k(5) by (simp add: heap_top_def)
  ultimately show ?case unfolding Let_def by blast
qed

section \<open>The structure of a new thread\<close>

definition start_context :: "int \<Rightarrow> u64 \<Rightarrow> u64 \<Rightarrow> x64_context \<Rightarrow> x64_context" where
  "start_context cpl sp ip c =
    (let c1 = (if cpl = RING0
        then c\<lparr>c_ss := 0x10, c_rsp := sp, c_rflags := 0x0202, c_cs := 0x8, c_rip := ip, c_ds := 0x10,
                 c_es := 0x10, c_fs := 0x10, c_gs := 0x10\<rparr>
        else c\<lparr>c_ss := 0x23, c_rsp := sp, c_rflags := 0x3202, c_cs := 0x1B, c_rip := ip, c_ds := 0x23,
                 c_es := 0x23, c_fs := 0x23, c_gs := 0x23\<rparr>)
     in c1\<lparr>c_rax := 0, c_rbx := 0, c_rcx := 0, c_rdx := 0, c_rsi := 0, c_rdi := 0, c_rbp := 0, c_r8 := 0,
          c_r9 := 0, c_r10 := 0, c_r11 := 0, c_r12 := 0, c_r13 := 0, c_r14 := 0, c_r15 := 0\<rparr>)"

definition start_image :: "int \<Rightarrow> u64 \<Rightarrow> u64 \<Rightarrow> thread_d \<Rightarrow> thread_d" where
  "start_image cpl sp ip r = r\<lparr>t_cpl := cpl, t_rflags_initial_iopl := word_of_int cpl,
     t_rflags_current_iopl := word_of_int cpl, t_initial_rip := ip,
     t_context := start_context cpl sp ip (t_context r), t_saved := FALSE\<rparr>"

lemma setup_context:
  assumes "cpl \<in> {RING0, RING3}"
  shows "ps_setup_x64_context t cpl sp ip s = Inr (upd_thread t (start_image cpl sp ip) s)"
  using assms by (auto simp: ps_setup_x64_context_def start_image_def start_context_def RING0_def
      RING3_def Let_def upd_thread_def)

lemma start_context_fields [simp]:
  "c_rip (start_context cpl sp ip c) = ip" "c_rsp (start_context cpl sp ip c) = sp"
  "c_cs (start_context RING3 sp ip c) = 0x1B"
  by (simp_all add: start_context_def RING0_def RING3_def)

text \<open>What the updates of a new structure set, and what they leave.\<close>

lemma start_image_fields [simp]:
  "t_used (start_image c sp ip r) = t_used r" "t_magic (start_image c sp ip r) = t_magic r"
  "t_tid (start_image c sp ip r) = t_tid r" "t_MsgQueue (start_image c sp ip r) = t_MsgQueue r"
  "t_MsgQueueHead (start_image c sp ip r) = t_MsgQueueHead r"
  "t_MsgQueueTail (start_image c sp ip r) = t_MsgQueueTail r"
  "t_cpl (start_image c sp ip r) = c" "t_saved (start_image c sp ip r) = FALSE"
  "t_context (start_image c sp ip r) = start_context c sp ip (t_context r)"
  "t_owner_pid (start_image c sp ip r) = t_owner_pid r" "t_pml4_PA (start_image c sp ip r) = t_pml4_PA r"
  "t_owner_process (start_image c sp ip r) = t_owner_process r"
  "t_quantum (start_image c sp ip r) = t_quantum r"
  by (simp_all add: start_image_def)

lemma thread_times_fields [simp]:
  "t_used (thread_times s r) = t_used r" "t_magic (thread_times s r) = t_magic r"
  "t_tid (thread_times s r) = t_tid r" "t_MsgQueue (thread_times s r) = t_MsgQueue r"
  "t_MsgQueueHead (thread_times s r) = t_MsgQueueHead r"
  "t_MsgQueueTail (thread_times s r) = t_MsgQueueTail r"
  "t_owner_pid (thread_times s r) = t_owner_pid r" "t_pml4_PA (thread_times s r) = t_pml4_PA r"
  "t_owner_process (thread_times s r) = t_owner_process r"
  "t_quantum (thread_times s r) = QUANTUM_NORMAL_THRESHOLD"
  by (simp_all add: thread_times_def)

lemma thread_header_fields [simp]:
  "t_tid (thread_header i p pid s r) = i" "t_owner_pid (thread_header i p pid s r) = pid"
  "t_owner_process (thread_header i p pid s r) = p"
  "t_pml4_PA (thread_header i p pid s r) = p_pml4_PA (pmem s p)"
  "t_MsgQueue (thread_header i p pid s r) = t_MsgQueue r"
  "t_MsgQueueHead (thread_header i p pid s r) = t_MsgQueueHead r"
  "t_MsgQueueTail (thread_header i p pid s r) = t_MsgQueueTail r"
  by (simp_all add: thread_header_def)

definition born :: "int \<Rightarrow> kstate \<Rightarrow> int \<Rightarrow> int \<Rightarrow> u64 \<Rightarrow> u64 \<Rightarrow> thread_d \<Rightarrow> bool" where
  "born i s pid cpl ip sp r \<longleftrightarrow> t_used r = TRUE \<and> t_magic r = 1234 \<and> t_tid r = i \<and> t_state r = INITIALIZED
     \<and> t_owner_pid r = pid \<and> t_owner_process r = processList s pid
     \<and> t_pml4_PA r = p_pml4_PA (pmem s (processList s pid)) \<and> t_cpl r = cpl \<and> t_saved r = FALSE
     \<and> c_rip (t_context r) = ip \<and> c_rsp (t_context r) = sp \<and> t_quantum r = QUANTUM_NORMAL_THRESHOLD
     \<and> t_MsgQueueHead r = 0 \<and> t_MsgQueueTail r = 0
     \<and> (\<forall>k. in_ring k \<longrightarrow> t_MsgQueue r k = msg_at (heap_top s + 2032) (nat k))"

text \<open>The messages of the new ring, written over the store.\<close>

definition ring_store :: "nat \<Rightarrow> (ptr \<Rightarrow> msg_d) \<Rightarrow> ptr \<Rightarrow> msg_d" where
  "ring_store g mm a = (if \<exists>k<64. a = msg_at g k then fresh_msg else mm a)"

lemma ring_store_fun: "ring_store g mm = (\<lambda>a. if \<exists>k<64. a = msg_at g k then fresh_msg else mm a)"
  by (rule ext) (simp add: ring_store_def)

lemma common_elements:
  assumes "heap_room s p (9728 + b) (64 + k)"
  shows "\<exists>h pm r. let s' = s\<lparr>heap := h, pmem := pm, tmem := (tmem s)(t := r), mmem := ring_store (heap_top s) (mmem s)\<rparr>
     in ps_initialize_thread_common_elements t s = Inr s' \<and> charged (pmem s) pm \<and> heap_room s' p b k
        \<and> heap_top s' = heap_top s + 9728 \<and> t_threadname r = t_threadname (tmem s t)
        \<and> t_MsgQueueHead r = 0 \<and> t_MsgQueueTail r = 0
        \<and> (\<forall>j. in_ring j \<longrightarrow> t_MsgQueue r j = msg_at (heap_top s) (nat j))"
proof -
  let ?s1 = "upd_thread t (\<lambda>r. r\<lparr>t_flags := 0,
           t_MsgQueue := (\<lambda>i. if 0 \<le> i \<and> i < MSG_QUEUE_MAX then 0 else t_MsgQueue r i),
           t_MsgQueueHead := 0, t_MsgQueueTail := 0\<rparr>) s"
  have top: "heap_top ?s1 = heap_top s" by (simp add: heap_top_def)
  have room: "heap_room ?s1 p (152 * 64 + b) (64 + k)"
    by (rule heap_room_move) (use assms in simp_all)
  let ?r = "(tmem ?s1 t)\<lparr>t_MsgQueue := (\<lambda>i. if 0 \<le> i \<and> i < int 64
            then msg_at (heap_top s) (nat i) else t_MsgQueue (tmem ?s1 t) i)\<rparr>"
  let ?s2 = "\<lambda>h pm. ?s1\<lparr>heap := h, pmem := pm, tmem := (tmem ?s1)(t := ?r),
      mmem := ring_store (heap_top s) (mmem s)\<rparr>"
  have "\<exists>h pm. let s' = ?s2 h pm in kfold (new_message t) (slots 0 (int 64)) ?s1 = Inr s'
      \<and> charged (pmem s) pm \<and> heap_room s' p b k \<and> heap_top s' = heap_top s + 152 * 64"
    using new_messages[OF room, of t] unfolding top ring_store_fun upd_thread_frame .
  then obtain h pm where m: "kfold (new_message t) (slots 0 (int 64)) ?s1 = Inr (?s2 h pm)"
      "charged (pmem s) pm" "heap_room (?s2 h pm) p b k" "heap_top (?s2 h pm) = heap_top s + 9728"
    unfolding Let_def by auto
  let ?r' = "?r\<lparr>t_signal := 0, t_umask := 0, t_exit_code := 0\<rparr>"
  let ?s3 = "s\<lparr>heap := h, pmem := pm, tmem := (tmem s)(t := ?r'), mmem := ring_store (heap_top s) (mmem s)\<rparr>"
  have "upd_thread t (\<lambda>r. r\<lparr>t_signal := 0, t_umask := 0, t_exit_code := 0\<rparr>) (?s2 h pm) = ?s3"
    by (simp add: upd_thread_def)
  then have "ps_initialize_thread_common_elements t s = Inr ?s3"
    using m(1) unfolding ps_initialize_thread_common_elements_def Let_def by (simp add: MSG_QUEUE_MAX_def)
  moreover have "heap_room ?s3 p b k" by (rule heap_room_move[OF m(3)]) simp_all
  moreover have "heap_top ?s3 = heap_top s + 9728" using m(4) by (simp add: heap_top_def)
  moreover have "\<forall>j. in_ring j \<longrightarrow> t_MsgQueue ?r' j = msg_at (heap_top s) (nat j)" by simp
  ultimately show ?thesis
    using m(2) unfolding Let_def by (intro exI[of _ h] exI[of _ pm] exI[of _ ?r']) simp
qed

lemma strcpy_fits:
  assumes "0 \<in> set nm" "length (cstr nm) < length buf"
  shows "\<exists>b. strcpy buf nm = Inr b"
  using strcpy_eq[OF assms] by blast

lemma create_thread_result:
  assumes room: "heap_room s p (11960 + b) (66 + k)"
    and args: "0 \<le> pid" "pid < PROCESS_COUNT_MAX" "cpl \<in> {RING0, RING3}"
      "nm \<noteq> []" "hd nm \<noteq> 0" "0 \<in> set nm" "length (cstr nm) < 64"
    and cur: "0 \<le> current_thread s" "current_thread s < THREAD_COUNT_MAX"
    and proc: "processList s pid \<noteq> NULL" "p_used (pmem s (processList s pid)) = TRUE"
      "p_magic (pmem s (processList s pid)) = 1234"
    and slot: "next_slot s = Some i"
    and count: "UP_threads_counter s + 1 < word_of_int THREAD_COUNT_MAX"
  shows "\<exists>h pm r. let t = heap_top s + 72; s' = s\<lparr>heap := h, pmem := pm, tmem := (tmem s)(t := r),
           mmem := ring_store (heap_top s + 2032) (mmem s), threadList := (threadList s)(i := t),
           UP_threads_counter := UP_threads_counter s + 1\<rparr>
     in create_thread ip sp pid (Some nm) cpl s = Inr (t, s') \<and> born i s pid cpl ip sp r
        \<and> charged (pmem s) pm \<and> heap_room s' p b k \<and> heap_top s' = heap_top s + 11960"
proof -
  let ?t = "heap_top s + 72" and ?P = "processList s pid"
  have "heap_room s p (nat thread_d_size + 72 + (9928 + b)) ((65 + k) + 1)"
    using room by (simp add: thread_d_size_def)
  from kmalloc_room[OF this] obtain a h1 pm1 where k1: "kmalloc thread_d_size s = Inr (a, s\<lparr>heap := h1, pmem := pm1\<rparr>)"
      "unat a = ?t" "charged (pmem s) pm1" "heap_room (s\<lparr>heap := h1, pmem := pm1\<rparr>) p (9928 + b) (65 + k)"
      "heap_top (s\<lparr>heap := h1, pmem := pm1\<rparr>) = heap_top s + 2032"
    by (auto simp: thread_d_size_def)
  let ?s1 = "s\<lparr>heap := h1, pmem := pm1, tmem := (tmem s)(?t := zero_thread)\<rparr>"
  have z: "upd_thread ?t (\<lambda>_. zero_thread) (s\<lparr>heap := h1, pmem := pm1\<rparr>) = ?s1" by (simp add: upd_thread_def)
  let ?st = "\<lambda>h pm r. s\<lparr>heap := h, pmem := pm, tmem := (tmem s)(?t := r),
      mmem := ring_store (heap_top s + 2032) (mmem s)\<rparr>"
  have k1': "heap_room (s\<lparr>heap := h1, pmem := pm1\<rparr>) p (9728 + (200 + b)) (64 + (1 + k))"
    using k1(4) by (simp add: add.assoc[symmetric])
  have "heap_room ?s1 p (9728 + (200 + b)) (64 + (1 + k))"
    by (rule heap_room_move[OF k1']) simp_all
  moreover have top1: "heap_top ?s1 = heap_top s + 2032" using k1(5) by (simp add: heap_top_def)
  ultimately obtain h2 pm2 r2 where c2: "ps_initialize_thread_common_elements ?t ?s1 = Inr (?st h2 pm2 r2)"
      "charged pm1 pm2" "heap_room (?st h2 pm2 r2) p (200 + b) (1 + k)"
      "heap_top (?st h2 pm2 r2) = heap_top s + 11760"
      "t_threadname r2 = replicate 64 0" "t_MsgQueueHead r2 = 0" "t_MsgQueueTail r2 = 0"
      "\<forall>j. in_ring j \<longrightarrow> t_MsgQueue r2 j = msg_at (heap_top s + 2032) (nat j)"
    using common_elements[of ?s1 p "200 + b" "1 + k" ?t] unfolding Let_def top1 by (auto simp: zero_thread_def)
  obtain nmb where nmb: "strcpy (t_threadname r2) nm = Inr nmb"
    using strcpy_fits[OF args(6), of "t_threadname r2"] args(7) c2(5) by auto
  let ?r3 = "(thread_header i ?P pid (?st h2 pm2 r2) r2)\<lparr>t_threadname := nmb\<rparr>"
  have s3: "upd_thread ?t (\<lambda>r. (thread_header i ?P pid (?st h2 pm2 r2) r)\<lparr>t_threadname := nmb\<rparr>) (?st h2 pm2 r2)
      = ?st h2 pm2 ?r3"
    by (simp add: upd_thread_def)
  have c2': "heap_room (?st h2 pm2 r2) p (nat rect_d_size + 72 + b) (k + 1)"
    using c2(3) by (simp add: rect_d_size_def add.commute)
  have c3: "heap_room (?st h2 pm2 ?r3) p (nat rect_d_size + 72 + b) (k + 1)"
    by (rule heap_room_move[OF c2']) simp_all
  have top3: "heap_top (?st h2 pm2 ?r3) = heap_top s + 11760" using c2(4) by (simp add: heap_top_def)
  have st3: "(?st h2 pm2 ?r3)\<lparr>heap := h, pmem := pm\<rparr> = ?st h pm ?r3" for h pm by simp
  obtain a3 h3 pm3 where k3: "kmalloc rect_d_size (?st h2 pm2 ?r3) = Inr (a3, ?st h3 pm3 ?r3)"
      "unat a3 = heap_top s + 11832" "charged pm2 pm3" "heap_room (?st h3 pm3 ?r3) p b k"
      "heap_top (?st h3 pm3 ?r3) = heap_top s + 11960"
    using kmalloc_room[OF c3] unfolding st3 top3 by (auto simp: rect_d_size_def)
  let ?r6 = "(thread_times (?st h3 pm3 ?r3) ?r3)\<lparr>t_rflags_initial_iopl := word_of_int cpl,
      t_rflags_current_iopl := word_of_int cpl\<rparr>"
  let ?r = "(start_image cpl sp ip ?r6)\<lparr>t_next := NULL, t_state := INITIALIZED, t_used := TRUE,
      t_magic := THREAD_MAGIC\<rparr>"
  let ?fin = "s\<lparr>heap := h3, pmem := pm3, tmem := (tmem s)(?t := ?r),
      mmem := ring_store (heap_top s + 2032) (mmem s), threadList := (threadList s)(i := ?t),
      UP_threads_counter := UP_threads_counter s + 1\<rparr>"
  have a3: "a3 \<noteq> 0" using k3(2) by auto
  have sl: "next_slot (?st h2 pm2 r2) = Some i" using slot by (simp add: next_slot_def)
  have "create_thread ip sp pid (Some nm) cpl s = Inr (?t, ?fin)"
    unfolding create_thread_def Let_def
    using args cur proc count a3 k1(1,2) z c2(1) sl nmb s3 k3(1)
    by (simp add: not_le setup_context) (simp add: upd_thread_def)
  moreover have "charged (pmem s) pm3"
    using charged_trans[OF charged_trans[OF k1(3) c2(2)] k3(3)] .
  moreover have "heap_room ?fin p b k" by (rule heap_room_move[OF k3(4)]) simp_all
  moreover have "heap_top ?fin = heap_top s + 11960" using k3(5) by (simp add: heap_top_def)
  moreover have "born i s pid cpl ip sp ?r"
    using c2(6-8) charged_fields(4)[OF charged_trans[OF k1(3) c2(2)], of ?P]
    by (simp add: born_def THREAD_MAGIC_def)
  ultimately show ?thesis unfolding Let_def by blast
qed

section \<open>A new thread beside the others\<close>

text \<open>
  Everything the kernel reaches lies below the heap pointer: the thread structures (a new one is
  placed 72 bytes above it, behind its block header) and the messages of the rings.
\<close>

definition fresh :: "kstate \<Rightarrow> bool" where
  "fresh s \<longleftrightarrow> (\<forall>tid. tid_ok tid \<longrightarrow> threadList s tid < heap_top s + 72)
     \<and> (\<forall>tid k. slot_valid s tid \<and> in_ring k \<longrightarrow> ring s tid k < heap_top s + 72)"

lemma msg_at_inj [simp]: "msg_at g i = msg_at g j \<longleftrightarrow> i = j"
  by (simp add: msg_at_def)

lemma ring_store_at: "k < 64 \<Longrightarrow> ring_store g mm (msg_at g k) = fresh_msg"
  by (auto simp: ring_store_def)

lemma ring_store_below: "a < g + 72 \<Longrightarrow> ring_store g mm a = mm a"
  by (auto simp: ring_store_def msg_at_def)

lemma find_SomeD: "find P xs = Some x \<Longrightarrow> x \<in> set xs \<and> P x"
  by (induction xs) (auto split: if_splits)

lemma next_slot_user:
  assumes "next_slot s = Some i"
  shows "tid_ok i" "100 \<le> i" "threadList s i = NULL"
  using find_SomeD[OF assms[unfolded next_slot_def]] by (auto simp: tid_ok_def USER_THRESHOLD_TID_def)

text \<open>The step from \<open>s\<close> to \<open>s'\<close> that puts the new thread \<open>r\<close> at the address \<open>t\<close> into slot \<open>i\<close>.\<close>

definition joins :: "kstate \<Rightarrow> int \<Rightarrow> ptr \<Rightarrow> thread_d \<Rightarrow> kstate \<Rightarrow> bool" where
  "joins s i t r s' \<longleftrightarrow> ipc_wf s \<and> fresh s \<and> t = heap_top s + 72 \<and> tid_ok i \<and> threadList s i = NULL
     \<and> t_used r = TRUE \<and> t_magic r = 1234 \<and> t_tid r = i \<and> t_MsgQueueHead r = 0 \<and> t_MsgQueueTail r = 0
     \<and> (\<forall>k. in_ring k \<longrightarrow> t_MsgQueue r k = msg_at (heap_top s + 2032) (nat k))
     \<and> tmem s' = (tmem s)(t := r) \<and> mmem s' = ring_store (heap_top s + 2032) (mmem s)
     \<and> threadList s' = (threadList s)(i := t) \<and> heap_top s' = heap_top s + 11960"

lemma joins_new:
  assumes "joins s i t r s'"
  shows "threadList s' i = t" "tmem s' (threadList s' i) = r" "tmem s' t = r" "\<not> slot_valid s i"
    "slot_valid s' i" "qhead s' i = 0" "qtail s' i = 0"
  using assms by (simp_all add: joins_def slot_defs)

lemma joins_other:
  assumes j: "joins s i t r s'" and "tid \<noteq> i" "tid_ok tid"
  shows "threadList s' tid = threadList s tid" "tmem s' (threadList s' tid) = tmem s (threadList s tid)"
proof -
  have "threadList s tid < heap_top s + 72" using assms by (simp add: joins_def fresh_def)
  then show "threadList s' tid = threadList s tid" "tmem s' (threadList s' tid) = tmem s (threadList s tid)"
    using assms by (simp_all add: joins_def)
qed

lemma joins_valid:
  assumes j: "joins s i t r s'"
  shows "slot_valid s' tid \<longleftrightarrow> tid = i \<or> slot_valid s tid"
  using joins_new[OF j] joins_other[OF j, of tid] by (cases "tid = i"; cases "tid_ok tid") (auto simp: slot_valid_def)

lemma joins_other_ring:
  assumes j: "joins s i t r s'" and v: "slot_valid s tid"
  shows "tid \<noteq> i" "tmem s' (threadList s' tid) = tmem s (threadList s tid)"
    "ring s' tid k = ring s tid k" "qhead s' tid = qhead s tid" "qtail s' tid = qtail s tid"
    "in_ring k \<Longrightarrow> ring s tid k < heap_top s + 72"
    "in_ring k \<Longrightarrow> mmem s' (ring s tid k) = mmem s (ring s tid k)"
proof -
  show n: "tid \<noteq> i" using v joins_new(4)[OF j] by auto
  show e: "tmem s' (threadList s' tid) = tmem s (threadList s tid)"
    using joins_other(2)[OF j n] v by (simp add: slot_valid_def)
  show "ring s' tid k = ring s tid k" "qhead s' tid = qhead s tid" "qtail s' tid = qtail s tid"
    by (simp_all add: e)
  show low: "ring s tid k < heap_top s + 72" if "in_ring k" using j v that by (simp add: joins_def fresh_def)
  show "mmem s' (ring s tid k) = mmem s (ring s tid k)" if "in_ring k"
    using low[OF that] j by (simp add: joins_def ring_store_below)
qed

lemma joins_new_ring:
  assumes j: "joins s i t r s'" and k: "in_ring k"
  shows "ring s' i k = msg_at (heap_top s + 2032) (nat k)" "mmem s' (ring s' i k) = fresh_msg"
    "heap_top s + 72 \<le> ring s' i k" "ring s' i k < heap_top s' + 72"
proof -
  show q: "ring s' i k = msg_at (heap_top s + 2032) (nat k)" using j k by (simp add: joins_def)
  have l: "nat k < 64" using k by auto
  show "mmem s' (ring s' i k) = fresh_msg" unfolding q using j ring_store_at[OF l] by (simp add: joins_def)
  show "heap_top s + 72 \<le> ring s' i k" "ring s' i k < heap_top s' + 72"
    unfolding q using j l by (simp_all add: joins_def msg_at_def)
qed

lemma joins_ipc_wf:
  assumes j: "joins s i t r s'"
  shows "ipc_wf s'"
proof -
  have wf: "ipc_wf s" using j by (simp add: joins_def)
  have "t_tid (tmem s' (threadList s' tid)) = tid" if "slot_valid s' tid" for tid
  proof (cases "tid = i")
    case True
    then show ?thesis using joins_new[OF j] j by (simp add: joins_def)
  next
    case False
    then have "slot_valid s tid" using that joins_valid[OF j] by simp
    then show ?thesis using joins_other_ring(2)[OF j] ipc_wf_tid[OF wf] by simp
  qed
  moreover have "queue_wf s' tid" if "slot_valid s' tid" for tid
  proof (cases "tid = i")
    case True
    have "ring s' i k \<noteq> NULL" if "in_ring k" for k using joins_new_ring(3)[OF j that] by auto
    then show ?thesis unfolding True queue_wf_def joins_new(6,7)[OF j]
      using joins_new_ring(2)[OF j] by (simp add: fresh_msg_def)
  next
    case False
    then have v: "slot_valid s tid" using that joins_valid[OF j] by simp
    show ?thesis unfolding queue_wf_def joins_other_ring(3-5)[OF j v]
      using joins_other_ring(7)[OF j v] ipc_wf_indices[OF wf v] ipc_wf_slot[OF wf v] by simp
  qed
  moreover have "a = b \<and> m = k"
    if v: "slot_valid s' a" "slot_valid s' b" "in_ring m" "in_ring k" "ring s' a m = ring s' b k" for a b m k
  proof -
    have low: "ring s' c n < heap_top s + 72" if "slot_valid s c" "in_ring n" for c n
      using joins_other_ring(3,6)[OF j that(1)] that(2) by simp
    consider "a = i" "b = i" | "slot_valid s a" "slot_valid s b" | "a = i" "slot_valid s b"
      | "slot_valid s a" "b = i"
      using v(1,2) joins_valid[OF j] by blast
    then show ?thesis
    proof cases
      case 1 then show ?thesis using v(3-5) joins_new_ring(1)[OF j] by (auto simp: eq_nat_nat_iff)
    next
      case 2
      have "ring s a m = ring s b k"
        using v(5) unfolding joins_other_ring(3)[OF j 2(1)] joins_other_ring(3)[OF j 2(2)] .
      then show ?thesis using ring_inj[OF wf 2 v(3,4)] by simp
    next
      case 3 then show ?thesis using low[OF 3(2) v(4)] joins_new_ring(3)[OF j v(3)] v(5) by simp
    next
      case 4 then show ?thesis using low[OF 4(1) v(3)] joins_new_ring(3)[OF j v(4)] v(5) by simp
    qed
  qed
  ultimately show ?thesis unfolding ipc_wf_def threads_wf_def rings_disjoint_def by blast
qed

lemma joins_fresh:
  assumes j: "joins s i t r s'"
  shows "fresh s'"
proof -
  have top: "heap_top s' = heap_top s + 11960" using j by (simp add: joins_def)
  have "threadList s' tid < heap_top s' + 72" if "tid_ok tid" for tid
  proof (cases "tid = i")
    case True
    then show ?thesis using joins_new(1)[OF j] j by (simp add: joins_def)
  next
    case False
    have "threadList s tid < heap_top s + 72" using j that by (simp add: joins_def fresh_def)
    then show ?thesis using joins_other(1)[OF j False that] top by simp
  qed
  moreover have "ring s' tid k < heap_top s' + 72" if "slot_valid s' tid" "in_ring k" for tid k
    using that joins_valid[OF j, of tid] joins_new_ring(4)[OF j that(2)] joins_other_ring(3,6)[OF j, of tid k] top
    by auto
  ultimately show ?thesis by (simp add: fresh_def)
qed

lemma joins_mailbox:
  assumes j: "joins s i t r s'"
  shows "mailbox s' i = []" "mailbox_tidy s' i"
    "slot_valid s tid \<Longrightarrow> mailbox s' tid = mailbox s tid"
    "slot_valid s tid \<Longrightarrow> mailbox_tidy s' tid = mailbox_tidy s tid"
proof -
  have p: "pending s' i = 0" by (simp add: pending_def joins_new(6,7)[OF j])
  then show "mailbox s' i = []" by (simp add: mailbox_def)
  have "mmem s' (slot_at s' i k) = fresh_msg" if "k < 64" for k
    using joins_new_ring(2)[OF j, of "int k"] that unfolding slot_at_def joins_new(6)[OF j] by simp
  then show "mailbox_tidy s' i" by (simp add: mailbox_tidy_def p fresh_msg_def zero_msg_def)
  assume v: "slot_valid s tid"
  have p: "pending s' tid = pending s tid" by (simp only: pending_def joins_other_ring(4,5)[OF j v])
  have sl: "mmem s' (slot_at s' tid k) = mmem s (slot_at s tid k)" for k
    unfolding slot_at_def joins_other_ring(3,4)[OF j v] by (rule joins_other_ring(7)[OF j v]) simp
  show "mailbox s' tid = mailbox s tid" "mailbox_tidy s' tid = mailbox_tidy s tid"
    by (simp_all add: mailbox_def mailbox_tidy_def p sl)
qed

section \<open>What a thread costs\<close>

lemma heapAllocateMemory_cost:
  assumes "heapAllocateMemory n h = Inr (a, h')" and "a \<noteq> 0" and "0 < unat n" and "unat n < 2 ^ 32"
  shows "0x30100000 \<le> unat (g_heap_pointer h) \<and> unat (g_heap_pointer h) < 0x301D0000
     \<and> unat (g_heap_pointer h') = unat (g_heap_pointer h) + unat n + 72"
proof -
  have n: "n \<noteq> 0" using assms(3) by auto
  have r: "KERNEL_HEAP_START \<le> g_heap_pointer h" "g_heap_pointer h < KERNEL_HEAP_END"
    "g_heap_pointer h' = g_heap_pointer h + 72 + n"
    using assms(1,2) n by (auto simp: heapAllocateMemory_def Let_def block_header_def mmblock_size_def
        split: if_splits)
  then have b: "0x30100000 \<le> unat (g_heap_pointer h)" "unat (g_heap_pointer h) < 0x301D0000"
    by (simp_all add: word_le_nat_alt word_less_nat_alt heap_consts)
  have "unat (g_heap_pointer h + 72) = unat (g_heap_pointer h) + 72" using b by (subst unat_plus_small) simp_all
  then have "unat (g_heap_pointer h + 72 + n) = unat (g_heap_pointer h) + 72 + unat n"
    using b assms(4) by (subst unat_plus_small) simp_all
  then show ?thesis using b r(3) by simp
qed

lemma kmalloc_cost:
  assumes "kmalloc n s = Inr (a, s')" and "unat a \<noteq> NULL" and "0 < n" and "n < 2 ^ 31"
  shows "0x30100000 \<le> heap_top s \<and> heap_top s < 0x301D0000 \<and> heap_top s' = heap_top s + nat n + 72"
proof -
  have a: "a \<noteq> 0" using assms(2) by auto
  have n: "\<not> n < 0" "n \<noteq> 0" using assms(3) by simp_all
  obtain h' where h': "heapAllocateMemory (word_of_int n) (heap s) = Inr (a, h')" "heap s' = h'"
    using assms(1) a n kmalloc_size[OF assms(3,4)]
    by (auto simp: kmalloc_def kmalloc_impl_def Let_def kbind_Inr_iff split: if_splits sum.splits)
  have u: "unat (word_of_int n :: u64) = nat n" using kmalloc_size[OF assms(3,4)] by simp
  have "nat n < 2 ^ 31" using assms(3,4) by simp
  then have "unat (word_of_int n :: u64) < 2 ^ 32" using u by simp
  from heapAllocateMemory_cost[OF h'(1) a _ this] show ?thesis
    using u assms(3) h'(2) by (simp add: heap_top_def)
qed

text \<open>What a caller of create_thread() has to provide for it not to stop the kernel.\<close>

definition creatable :: "kstate \<Rightarrow> int \<Rightarrow> u8 list \<Rightarrow> int \<Rightarrow> bool" where
  "creatable s pid nm cpl \<longleftrightarrow> pid_ok pid \<and> cpl \<in> {RING0, RING3}
     \<and> nm \<noteq> [] \<and> hd nm \<noteq> 0 \<and> 0 \<in> set nm \<and> length (cstr nm) < 64
     \<and> tid_ok (current_thread s) \<and> processList s pid \<noteq> NULL
     \<and> p_used (pmem s (processList s pid)) = TRUE \<and> p_magic (pmem s (processList s pid)) = 1234
     \<and> UP_threads_counter s + 1 < word_of_int THREAD_COUNT_MAX"

lemma born_joins:
  assumes "born i s pid cpl ip sp r" "ipc_wf s" "fresh s" "next_slot s = Some i"
    and "heap_top s' = heap_top s + 11960" "tmem s' = (tmem s)(heap_top s + 72 := r)"
    "mmem s' = ring_store (heap_top s + 2032) (mmem s)"
    "threadList s' = (threadList s)(i := heap_top s + 72)"
  shows "joins s i (heap_top s + 72) r s'"
  using assms next_slot_user[OF assms(4)] by (simp add: joins_def born_def)

lemma create_thread_ok:
  assumes "creatable s pid nm cpl" and "next_slot s = Some i" and "heap_room s p (11960 + b) (66 + k)"
  shows "\<exists>s' r. create_thread ip sp pid (Some nm) cpl s = Inr (heap_top s + 72, s')
     \<and> born i s pid cpl ip sp r \<and> heap_room s' p b k \<and> heap_top s' = heap_top s + 11960
     \<and> tmem s' = (tmem s)(heap_top s + 72 := r) \<and> mmem s' = ring_store (heap_top s + 2032) (mmem s)
     \<and> threadList s' = (threadList s)(i := heap_top s + 72)"
proof -
  note c = assms(1)[unfolded creatable_def pid_ok_def tid_ok_def]
  have "\<exists>h pm r. let t = heap_top s + 72; s' = s\<lparr>heap := h, pmem := pm, tmem := (tmem s)(t := r),
           mmem := ring_store (heap_top s + 2032) (mmem s), threadList := (threadList s)(i := t),
           UP_threads_counter := UP_threads_counter s + 1\<rparr>
     in create_thread ip sp pid (Some nm) cpl s = Inr (t, s') \<and> born i s pid cpl ip sp r
        \<and> charged (pmem s) pm \<and> heap_room s' p b k \<and> heap_top s' = heap_top s + 11960"
    using c by (intro create_thread_result[OF assms(3)]) (simp_all add: assms(2))
  then show ?thesis unfolding Let_def by force
qed

text \<open>
  C30. A new thread joins the running ones. With room in the heap and an empty slot, create_thread()
  returns a structure in the first empty user slot that is complete (state INITIALIZED, entry point,
  stack, ring level, address space of its process, an empty tidy ring of 64 valid messages); the
  thread table and its rings stay well formed, every older thread keeps its structure and its
  mailbox, and the conditions hold again for the next creation, 11960 bytes and 66 blocks later.
\<close>

theorem new_thread_joins:
  assumes "ipc_wf s" and "fresh s" and "creatable s pid nm cpl" and "next_slot s = Some i"
    and "heap_room s p (11960 + b) (66 + k)"
  shows "\<exists>t s'. create_thread ip sp pid (Some nm) cpl s = Inr (t, s')
     \<and> t \<noteq> NULL \<and> threadList s' = (threadList s)(i := t) \<and> born i s pid cpl ip sp (tmem s' t)
     \<and> ipc_wf s' \<and> fresh s' \<and> heap_room s' p b k
     \<and> slot_valid s' i \<and> \<not> slot_valid s i \<and> mailbox s' i = [] \<and> mailbox_tidy s' i
     \<and> (\<forall>tid. slot_valid s tid \<longrightarrow> slot_valid s' tid
          \<and> tmem s' (threadList s' tid) = tmem s (threadList s tid)
          \<and> mailbox s' tid = mailbox s tid \<and> (mailbox_tidy s' tid \<longleftrightarrow> mailbox_tidy s tid))"
proof -
  let ?t = "heap_top s + 72"
  obtain s' r where n: "create_thread ip sp pid (Some nm) cpl s = Inr (?t, s')" "born i s pid cpl ip sp r"
      "heap_room s' p b k" "heap_top s' = heap_top s + 11960" "tmem s' = (tmem s)(?t := r)"
      "mmem s' = ring_store (heap_top s + 2032) (mmem s)" "threadList s' = (threadList s)(i := ?t)"
    using create_thread_ok[OF assms(3-5), of ip sp] by blast
  note j = born_joins[OF n(2) assms(1,2,4) n(4-7)]
  have "\<forall>tid. slot_valid s tid \<longrightarrow> slot_valid s' tid \<and> tmem s' (threadList s' tid) = tmem s (threadList s tid)
        \<and> mailbox s' tid = mailbox s tid \<and> (mailbox_tidy s' tid \<longleftrightarrow> mailbox_tidy s tid)"
    using joins_valid[OF j] joins_other_ring(2)[OF j] joins_mailbox(3,4)[OF j] by blast
  then show ?thesis
    using n(1-3) n(7) joins_ipc_wf[OF j] joins_fresh[OF j] joins_new(3-5)[OF j] joins_mailbox(1,2)[OF j]
    by (intro exI[of _ ?t] exI[of _ s'] conjI) simp_all
qed

lemma new_message_cost:
  assumes "new_message t i s = Inr s'"
  shows "0x30100000 \<le> heap_top s \<and> heap_top s < 0x301D0000 \<and> heap_top s' = heap_top s + 152"
proof -
  obtain a s1 where a: "kmalloc msg_d_size s = Inr (a, s1)" "unat a \<noteq> NULL" "heap s' = heap s1"
    using assms by (auto simp: new_message_def kbind_Inr_iff Let_def upd_thread_frame split: if_splits)
  then show ?thesis using kmalloc_cost[OF a(1,2)] by (simp add: msg_d_size_def heap_top_def)
qed

lemma new_messages_cost:
  "kfold (new_message t) is s = Inr s' \<Longrightarrow> heap_top s' = heap_top s + 152 * length is"
  by (induction "is" arbitrary: s) (auto simp: kbind_Inr_iff dest!: new_message_cost)

lemma common_elements_cost:
  assumes "ps_initialize_thread_common_elements t s = Inr s'"
  shows "heap_top s' = heap_top s + 9728"
proof -
  have l: "length (slots 0 MSG_QUEUE_MAX) = 64" by (simp add: slots_def MSG_QUEUE_MAX_def)
  let ?s1 = "upd_thread t (\<lambda>r. r\<lparr>t_flags := 0,
           t_MsgQueue := (\<lambda>i. if 0 \<le> i \<and> i < MSG_QUEUE_MAX then 0 else t_MsgQueue r i),
           t_MsgQueueHead := 0, t_MsgQueueTail := 0\<rparr>) s"
  obtain s2 where "kfold (new_message t) (slots 0 MSG_QUEUE_MAX) ?s1 = Inr s2" "heap s' = heap s2"
    using assms by (auto simp: ps_initialize_thread_common_elements_def kbind_Inr_iff Let_def)
  then show ?thesis using new_messages_cost[of t "slots 0 MSG_QUEUE_MAX" ?s1 s2] l
    by (simp add: heap_top_def)
qed

lemma setup_context_heap:
  "ps_setup_x64_context t cpl sp ip s = Inr s' \<Longrightarrow> heap s' = heap s"
  by (auto simp: ps_setup_x64_context_def Let_def split: if_splits)

lemma create_thread_cost:
  assumes "create_thread ip sp pid nm cpl s = Inr (t, s')" and "t \<noteq> NULL"
  shows "0x30100000 \<le> heap_top s \<and> heap_top s + 11760 < 0x301D0000 \<and> heap_top s' = heap_top s + 11960"
proof -
  have "\<exists>a s1 s2 s3 r s4. kmalloc thread_d_size s = Inr (a, s1) \<and> a \<noteq> 0
      \<and> ps_initialize_thread_common_elements (unat a) (upd_thread (unat a) (\<lambda>_. zero_thread) s1) = Inr s2
      \<and> kmalloc rect_d_size s3 = Inr (r, s4) \<and> r \<noteq> 0 \<and> heap s3 = heap s2 \<and> heap s' = heap s4"
    using assms
    by (auto simp: create_thread_def kbind_Inr_iff Let_def
        split: if_splits option.splits dest!: setup_context_heap)
      (intro exI conjI, assumption, assumption, simp, simp)+
  then obtain a s1 s2 s3 r s4 where
      k: "kmalloc thread_d_size s = Inr (a, s1)" "unat a \<noteq> NULL"
        "ps_initialize_thread_common_elements (unat a) (upd_thread (unat a) (\<lambda>_. zero_thread) s1) = Inr s2"
        "kmalloc rect_d_size s3 = Inr (r, s4)" "unat r \<noteq> NULL" "heap s3 = heap s2" "heap s' = heap s4"
    by (auto simp: unat_eq_0)
  have h: "heap_top x = heap_top y" if "heap x = heap y" for x y
    using that by (simp add: heap_top_def)
  have "heap_top s2 = heap_top s1 + 9728" using common_elements_cost[OF k(3)] by (simp add: heap_top_def)
  then show ?thesis
    using kmalloc_cost[OF k(1,2)] kmalloc_cost[OF k(4,5)] h[OF k(6)] h[OF k(7)]
    by (simp add: thread_d_size_def rect_d_size_def)
qed

text \<open>
  \<open>n\<close> successful creations with anything in between that does not move the heap pointer back; no
  function of the kernel does.
\<close>

inductive creations :: "kstate \<Rightarrow> nat \<Rightarrow> kstate \<Rightarrow> bool" where
  none: "heap_top s \<le> heap_top s' \<Longrightarrow> creations s 0 s'"
| more: "creations s n s1 \<Longrightarrow> create_thread ip sp pid nm cpl s1 = Inr (t, s2) \<Longrightarrow> t \<noteq> NULL
     \<Longrightarrow> heap_top s2 \<le> heap_top s' \<Longrightarrow> creations s (Suc n) s'"

lemma creations_cost:
  "creations s n s' \<Longrightarrow> n = 0 \<or> 0x30100000 + 11960 * n \<le> heap_top s' \<and> 11960 * n < 0xD0000 + 200"
  by (induction rule: creations.induct) (auto dest!: create_thread_cost)

text \<open>
  C31. The thread table never fills up: whatever the requests and whatever the kernel does in between, the heap
  of the kernel ends before the 72nd thread, so create_thread() never reaches its own limit of 1024
  slots; the creation that does not fit stops the kernel.
\<close>

theorem thread_table_never_fills:
  assumes "creations s n s'"
  shows "n \<le> 71 \<and> int n + USER_THRESHOLD_TID < THREAD_COUNT_MAX"
  using creations_cost[OF assms] by (auto simp: THREAD_COUNT_MAX_def USER_THRESHOLD_TID_def)

section \<open>Witnesses\<close>

lemma demo_life:
  "ipc_wf demo_mm" "fresh demo_mm" "creatable demo_mm 100 [84, 0] RING3" "next_slot demo_mm = Some 101"
  "heap_room demo_mm 7 (11960 + 0) (66 + 0)"
proof -
  have rf: "ring_frame demo demo_mm"
    by (auto simp: ring_frame_def demo_mm_def demo_switch_def demo_user_def demo_sched_def)
  show "ipc_wf demo_mm" by (rule ring_frame_ipc_wf[OF rf demo_ipc_wf])
  have top: "heap_top demo_mm = 0x30100000"
    using heap_wf_top[OF demo_heap_facts(1)] by (simp add: heap_top_def demo_mm_current(2))
  have tl: "threadList demo_mm tid = (if tid = 0 \<or> tid = 100 then nat tid + 1 else 0)" for tid
    by (simp add: demo_mm_def)
  have tm: "tmem demo_mm = demo_user RUNNING READY" by (simp add: demo_mm_def)
  have "slot_valid demo_mm tid \<Longrightarrow> tid = 0 \<or> tid = 100" for tid
    by (auto simp: slot_valid_def tl split: if_splits)
  moreover have "t_MsgQueue (demo_user RUNNING READY p) k = 64 * p + nat k" for p k
    by (simp add: demo_user_def)
  ultimately show "fresh demo_mm" unfolding fresh_def top tl tm by fastforce
  show "creatable demo_mm 100 [84, 0] RING3"
    by (simp add: creatable_def pid_ok_def tid_ok_def THREAD_COUNT_MAX_def PROCESS_COUNT_MAX_def demo_mm_def cstr_def)
      (simp add: demo_switch_def)
  have "slots USER_THRESHOLD_TID THREAD_COUNT_MAX = 100 # 101 # slots 102 THREAD_COUNT_MAX"
    by (simp add: slots_Cons USER_THRESHOLD_TID_def THREAD_COUNT_MAX_def)
  then show "next_slot demo_mm = Some 101" by (simp add: next_slot_def tl)
  show "heap_room demo_mm 7 (11960 + 0) (66 + 0)"
    using demo_mm_current by (simp add: heap_room_def MMBLOCK_COUNT_MAX_def)
qed

theorem new_thread_joins_witness:
  "\<exists>t s'. create_thread 0x201000 0x2FFFF0 100 (Some [84, 0]) RING3 demo_mm = Inr (t, s') \<and> t \<noteq> NULL
     \<and> ipc_wf s' \<and> slot_valid s' 101 \<and> mailbox s' 101 = [] \<and> slot_valid s' 100"
proof -
  have "slot_valid demo_mm 100" by (auto simp: demo_mm_def slot_valid_def tid_ok_def THREAD_COUNT_MAX_def thread_valid_def)
  then show ?thesis
    using new_thread_joins[OF demo_life, where ip = "0x201000" and sp = "0x2FFFF0"] by blast
qed

lemma demo_creation: "\<exists>s'. creations demo_mm 1 s'"
proof -
  obtain s' where c: "create_thread 0 0 100 (Some [84, 0]) RING3 demo_mm = Inr (heap_top demo_mm + 72, s')"
    using create_thread_ok[OF demo_life(3-5), of 0 0] by blast
  have "creations demo_mm (Suc 0) s'"
    by (rule creations.more[OF creations.none[OF order_refl] c _ order_refl]) simp
  then show ?thesis by auto
qed

theorem thread_table_never_fills_witness: "\<exists>s'. creations demo_mm 1 s' \<and> (1 :: nat) \<le> 71"
  using demo_creation thread_table_never_fills by blast

end
