(* ===== verification/KDisk.thy ===== *)
theory KDisk
  imports KString
begin

text \<open>
  Sectors between memory and disk: the PIO transfers of atahdd.c, read_lba() and write_lba() of
  storage.c, and the sequences of sectors of disk_r.c and disk_w.c. The state \<open>fs_state\<close> holds the
  bytes of memory, the sectors of the drives as lists of 512 bytes, and the globals of the storage
  and file system files. What the device itself decides, whether it offers data before the poll of
  the status register gives up (\<open>data_ready\<close>) and whether it reports an error after a write
  (\<open>write_error\<close>), are fields that no operation changes.
\<close>

section \<open>Memory as bytes\<close>

definition mem_bytes :: "(u64 \<Rightarrow> u8) \<Rightarrow> u64 \<Rightarrow> nat \<Rightarrow> u8 list" where
  "mem_bytes m a n = map (\<lambda>k. m (a + of_nat k)) [0..<n]"

definition put_bytes :: "u64 \<Rightarrow> u8 list \<Rightarrow> (u64 \<Rightarrow> u8) \<Rightarrow> u64 \<Rightarrow> u8" where
  "put_bytes a xs m = (\<lambda>x. if unat (x - a) < length xs then xs ! unat (x - a) else m x)"

definition word16 :: "u8 \<Rightarrow> u8 \<Rightarrow> u16" where
  "word16 lo hi = push_bit 8 (ucast hi) OR ucast lo"

definition low_byte :: "u16 \<Rightarrow> u8" where "low_byte w = ucast w"

definition high_byte :: "u16 \<Rightarrow> u8" where "high_byte w = ucast (drop_bit 8 w)"

definition load16 :: "(u64 \<Rightarrow> u8) \<Rightarrow> u64 \<Rightarrow> u16" where
  "load16 m a = word16 (m a) (m (a + 1))"

definition store16 :: "u64 \<Rightarrow> u16 \<Rightarrow> (u64 \<Rightarrow> u8) \<Rightarrow> u64 \<Rightarrow> u8" where
  "store16 a v = put_bytes a [low_byte v, high_byte v]"

definition load32 :: "(u64 \<Rightarrow> u8) \<Rightarrow> u64 \<Rightarrow> u32" where
  "load32 m a = push_bit 24 (ucast (m (a + 3))) OR push_bit 16 (ucast (m (a + 2)))
     OR push_bit 8 (ucast (m (a + 1))) OR ucast (m a)"

section \<open>The state\<close>

record ide_port_d =
  base_port :: u16
  dev_num :: u8

text \<open>\<open>struct filesystem_d\<close> of fs.h, with the fields fs_init_structures() sets.\<close>

record filesystem_d =
  fs_used :: int
  fs_magic :: int
  fs_type :: int
  spc :: int
  dir_entries :: int
  entry_size :: int
  rootdir_address :: u64
  rootdir_first_lba :: u64
  rootdir_size_in_sectors :: u64
  fat_address :: u64
  fat_first_lba :: u64
  fat_size_in_sectors :: u64
  dataarea_first_lba :: u64

text \<open>\<open>struct system_directory_d\<close>: a directory of the boot partition that was loaded at boot.\<close>

record system_directory_d =
  sd_initialized :: int
  sd_address :: u64

record fs_state =
  fmem :: "u64 \<Rightarrow> u8"
  disk :: "u16 \<times> bool \<Rightarrow> u32 \<Rightarrow> u8 list"
  data_ready :: "u16 \<times> bool \<Rightarrow> u32 \<Rightarrow> bool"
  write_error :: "u16 \<times> bool \<Rightarrow> u32 \<Rightarrow> bool"
  ide_ports :: "nat \<Rightarrow> ide_port_d"
  g_current_ide_port_index :: int
  ata_irq_invoked :: int
  gNumberOfSectorsInBootDisk :: u64
  g_currentvolume_fatbits :: int
  g_fat_cache_saved :: int
  g_fat_cache_loaded :: int
  g_filesystem_type :: int
  root :: "filesystem_d option"
  fat16ClustersToSave :: "nat \<Rightarrow> u16"
  sdGRAMADO :: system_directory_d
  sdDE :: system_directory_d

section \<open>One sector\<close>

definition OPERATION_PIO_READ :: int where "OPERATION_PIO_READ = 1000"
definition OPERATION_PIO_WRITE :: int where "OPERATION_PIO_WRITE = 2000"
definition ATA_MASTER :: u8 where "ATA_MASTER = 0"
definition ATA_SLAVE :: u8 where "ATA_SLAVE = 1"
definition SECTOR_SIZE :: u64 where "SECTOR_SIZE = 512"

definition ata_get_current_ide_port_index :: "fs_state \<Rightarrow> int" where
  "ata_get_current_ide_port_index s = g_current_ide_port_index s"

text \<open>
  The bytes __pio_rw_sector() writes to the registers ATA_REG_DEVSEL and ATA_REG_LBA2 to LBA0. Bit 4
  of the first selects the drive, its low half and the other three make the 28 bits of the sector.
\<close>

definition devsel_byte :: "u8 \<Rightarrow> u32 \<Rightarrow> u8" where
  "devsel_byte value lba = ucast (drop_bit 24 lba OR (if value = ATA_MASTER then 0xE0 else 0xF0))"

definition selected_sector :: "u8 \<Rightarrow> u32 \<Rightarrow> u32" where
  "selected_sector devsel lba = push_bit 24 (ucast (devsel AND 0x0F))
     OR push_bit 16 (ucast (ucast (drop_bit 16 lba AND 0xFF) :: u8))
     OR push_bit 8 (ucast (ucast (drop_bit 8 lba AND 0xFF) :: u8)) OR ucast (ucast (lba AND 0xFF) :: u8)"

definition pio_rw_sector :: "u64 \<Rightarrow> u32 \<Rightarrow> int \<Rightarrow> u32 \<Rightarrow> fs_state \<Rightarrow> kfault + (int \<times> fs_state)" where
  "pio_rw_sector buffer lba operation_number port s =
    (if operation_number \<noteq> OPERATION_PIO_READ \<and> operation_number \<noteq> OPERATION_PIO_WRITE then Inr (-1, s)
     else let port_index = port AND 0xFF in
     if port_index > 3 then Inl (KPanic ''__pio_rw_sector: We only support 4 ata ports.'')
     else let p = ide_ports s (unat port_index); value = dev_num p in
     if value \<noteq> ATA_MASTER \<and> value \<noteq> ATA_SLAVE then Inl (KPanic ''__pio_rw_sector: value?'')
     else let devsel = devsel_byte value lba; d = (base_port p, bit devsel 4);
              k = selected_sector devsel lba in
     if \<not> data_ready s d k then Inr (-3, s)
     else if operation_number = OPERATION_PIO_READ
     then Inr (0, s\<lparr>fmem := put_bytes buffer (disk s d k) (fmem s)\<rparr>)
     else let s1 = s\<lparr>disk := (disk s)(d := (disk s d)(k := mem_bytes (fmem s) buffer 512))\<rparr> in
          if write_error s d k then Inr (-1, s1) else Inr (0, s1))"

definition ataReadSector :: "u64 \<Rightarrow> u64 \<Rightarrow> fs_state \<Rightarrow> kfault + (int \<times> fs_state)" where
  "ataReadSector buffer lba s =
    (let idePort = word_of_int (ata_get_current_ide_port_index s) in
     if gNumberOfSectorsInBootDisk s = 0 then Inl (KPanic ''ataReadSector: gNumberOfSectorsInBootDisk'')
     else if lba \<ge> gNumberOfSectorsInBootDisk s then Inl (KPanic ''ataReadSector: lba limits'')
     else pio_rw_sector buffer (ucast lba) OPERATION_PIO_READ idePort s)"

definition ataWriteSector :: "u64 \<Rightarrow> u64 \<Rightarrow> fs_state \<Rightarrow> kfault + (int \<times> fs_state)" where
  "ataWriteSector buffer lba s =
    (let idePort = word_of_int (ata_get_current_ide_port_index s) in
     if gNumberOfSectorsInBootDisk s = 0 then Inl (KPanic ''ataWriteSector: gNumberOfSectorsInBootDisk'')
     else if lba \<ge> gNumberOfSectorsInBootDisk s then Inl (KPanic ''ataWriteSector: lba limits'')
     else pio_rw_sector buffer (ucast lba) OPERATION_PIO_WRITE idePort s)"

text \<open>
  The wait for the interrupt of the disk ends by the flag, by an error or by its own time limit;
  each way clears the flag, and no caller looks at the answer.
\<close>

definition disk_ata_wait_irq :: "fs_state \<Rightarrow> fs_state" where
  "disk_ata_wait_irq s = s\<lparr>ata_irq_invoked := 0\<rparr>"

definition read_lba :: "u64 \<Rightarrow> u64 \<Rightarrow> fs_state \<Rightarrow> kfault + fs_state" where
  "read_lba address lba s =
    (if g_currentvolume_fatbits s = 32 then Inr s
     else if g_currentvolume_fatbits s = 16 then kbind (ataReadSector address lba s) (\<lambda>(_, s1). Inr s1)
     else if g_currentvolume_fatbits s = 12 then Inr s
     else Inl (KPanic ''read_lba: default''))"

definition write_lba :: "u64 \<Rightarrow> u64 \<Rightarrow> fs_state \<Rightarrow> kfault + fs_state" where
  "write_lba address lba s =
    (if address = 0 then Inr s
     else if g_currentvolume_fatbits s = 32 then Inr s
     else if g_currentvolume_fatbits s = 16 then kbind (ataWriteSector address lba s) (\<lambda>(_, s1). Inr s1)
     else if g_currentvolume_fatbits s = 12 then Inr s
     else Inl (KPanic ''read_lba: default''))"

section \<open>Sequences of sectors\<close>

definition read_step :: "u64 \<Rightarrow> u64 \<Rightarrow> nat \<Rightarrow> fs_state \<Rightarrow> kfault + fs_state" where
  "read_step address lba i s =
    kbind (ataReadSector (address + of_nat (512 * i)) (lba + of_nat i) s) (\<lambda>(_, s1). Inr s1)"

definition load_sequential_sectors :: "u64 \<Rightarrow> u64 \<Rightarrow> u64 \<Rightarrow> fs_state \<Rightarrow> kfault + (int \<times> fs_state)" where
  "load_sequential_sectors address lba sectors s =
    kbind (kfold (read_step address lba) [0..<unat sectors] s) (\<lambda>s1. Inr (0, s1))"

definition save_step :: "u64 \<Rightarrow> u64 \<Rightarrow> nat \<Rightarrow> fs_state \<Rightarrow> kfault + fs_state" where
  "save_step buffer_va lba i s =
    kbind (ataWriteSector (buffer_va + of_nat (512 * i)) (lba + of_nat i) (disk_ata_wait_irq s))
      (\<lambda>(_, s1). Inr s1)"

definition do_save_sequence :: "u64 \<Rightarrow> u64 \<Rightarrow> u64 \<Rightarrow> fs_state \<Rightarrow> kfault + (int \<times> fs_state)" where
  "do_save_sequence buffer_va lba number_of_clusters s =
    (let Total = number_of_clusters AND 0xFFFFFFFF in
     kbind (kfold (save_step buffer_va lba) [0..<unat Total] s) (\<lambda>s1. Inr (0, s1)))"

definition fatClustToSect :: "u16 \<Rightarrow> u64 \<Rightarrow> u64 \<Rightarrow> u64" where
  "fatClustToSect cluster sectors_pc first_data_sector =
    (let C = ucast cluster - 2 in C * sectors_pc + first_data_sector)"

definition fatLoadCluster :: "u64 \<Rightarrow> u64 \<Rightarrow> u64 \<Rightarrow> fs_state \<Rightarrow> kfault + fs_state" where
  "fatLoadCluster sector address sectors_pc s =
    kfold (\<lambda>i. read_lba (address + SECTOR_SIZE * of_nat i) (sector + of_nat i)) [0..<unat sectors_pc] s"

definition fatWriteCluster :: "u64 \<Rightarrow> u64 \<Rightarrow> u64 \<Rightarrow> fs_state \<Rightarrow> kfault + fs_state" where
  "fatWriteCluster sector address sectors_pc s =
    (if sectors_pc = 0 then Inr s
     else kfold (\<lambda>i. write_lba (address + 512 * of_nat i) (sector + of_nat i)) [0..<unat sectors_pc] s)"

definition fs_load_metafile :: "u64 \<Rightarrow> u64 \<Rightarrow> u64 \<Rightarrow> fs_state \<Rightarrow> kfault + fs_state" where
  "fs_load_metafile buffer first_lba sz s =
    (let SizeInSectors = sz AND 0xFFFFFFFF in
     if buffer = 0 then Inr s
     else if sz = 0 then Inr s
     else kbind (load_sequential_sectors buffer first_lba SizeInSectors s) (\<lambda>(_, s1). Inr s1))"

definition fs_load_mbr :: "u64 \<Rightarrow> fs_state \<Rightarrow> kfault + fs_state" where
  "fs_load_mbr mbr_address s =
    kbind (load_sequential_sectors mbr_address 0 1 s) (\<lambda>(_, s1). Inr s1)"

definition FAT_CACHE_LOADED :: int where "FAT_CACHE_LOADED = 1"
definition FAT_CACHE_NOT_LOADED :: int where "FAT_CACHE_NOT_LOADED = 0"
definition FAT_CACHE_SAVED :: int where "FAT_CACHE_SAVED = 1"
definition FAT_CACHE_NOT_SAVED :: int where "FAT_CACHE_NOT_SAVED = 0"

definition fs_load_fat :: "u64 \<Rightarrow> u64 \<Rightarrow> u64 \<Rightarrow> fs_state \<Rightarrow> kfault + fs_state" where
  "fs_load_fat fat_addr fat_lba size_in_sectors s =
    (if g_fat_cache_loaded s = FAT_CACHE_LOADED then Inr s
     else kbind (load_sequential_sectors fat_addr fat_lba (size_in_sectors AND 0xFFFF) s)
       (\<lambda>(_, s1). Inr (s1\<lparr>g_fat_cache_loaded := FAT_CACHE_LOADED\<rparr>)))"

definition fs_load_rootdir :: "u64 \<Rightarrow> u64 \<Rightarrow> u64 \<Rightarrow> fs_state \<Rightarrow> kfault + fs_state" where
  "fs_load_rootdir root_address root_lba size_in_sectors s =
    kbind (load_sequential_sectors root_address root_lba (size_in_sectors AND 0xFFFF) s)
      (\<lambda>(_, s1). Inr s1)"

definition VOLUME1_FAT_LBA :: u64 where "VOLUME1_FAT_LBA = 67"
definition VOLUME1_ROOTDIR_LBA :: u64 where "VOLUME1_ROOTDIR_LBA = 559"
definition VOLUME1_DATAAREA_LBA :: u64 where "VOLUME1_DATAAREA_LBA = 591"
definition VOLUME1_SPC :: int where "VOLUME1_SPC = 1"
definition VOLUME1_FAT_SIZE :: u64 where "VOLUME1_FAT_SIZE = 246"
definition VOLUME1_FAT_ADDRESS :: u64 where "VOLUME1_FAT_ADDRESS = 0x30000"
definition VOLUME1_ROOTDIR_ADDRESS :: u64 where "VOLUME1_ROOTDIR_ADDRESS = 0x70000"

definition fs_save_fat :: "u64 \<Rightarrow> u64 \<Rightarrow> u64 \<Rightarrow> fs_state \<Rightarrow> kfault + (int \<times> fs_state)" where
  "fs_save_fat fat_addr fat_lba fat_size s =
    (if fat_addr = 0 then Inl (KPanic ''fs_save_fat: fat_address'')
     else if fat_lba = 0 then Inl (KPanic ''fs_save_fat: fat_lba'')
     else if fat_size \<noteq> VOLUME1_FAT_SIZE then Inl (KPanic ''fs_save_fat: fat_size'')
     else kbind (do_save_sequence fat_addr fat_lba fat_size s) (\<lambda>(_, s1). Inr (0, s1)))"

definition fs_save_rootdir :: "u64 \<Rightarrow> u64 \<Rightarrow> u64 \<Rightarrow> fs_state \<Rightarrow> kfault + (int \<times> fs_state)" where
  "fs_save_rootdir root_address root_lba root_size s =
    (if root_address = 0 then Inl (KPanic ''fs_save_rootdir: root_address'')
     else if root_lba = 0 then Inl (KPanic ''fs_save_rootdir: root_lba'')
     else if root_size \<noteq> 32 then Inl (KPanic ''fs_save_rootdir: root_size'')
     else kbind (do_save_sequence root_address root_lba root_size s) (\<lambda>(_, s1). Inr (0, s1)))"


section \<open>Bytes in memory\<close>

lemma length_mem_bytes [simp]: "length (mem_bytes m a n) = n"
  by (simp add: mem_bytes_def)

lemma nth_mem_bytes [simp]: "k < n \<Longrightarrow> mem_bytes m a n ! k = m (a + of_nat k)"
  by (simp add: mem_bytes_def)

lemma take_mem_bytes: "k \<le> n \<Longrightarrow> take k (mem_bytes m a n) = mem_bytes m a k"
  by (simp add: list_eq_iff_nth_eq)

lemma drop_mem_bytes: "drop k (mem_bytes m a n) = mem_bytes m (a + of_nat k) (n - k)"
  by (simp add: list_eq_iff_nth_eq algebra_simps)

lemma mem_bytes_append: "mem_bytes m a k @ mem_bytes m (a + of_nat k) n = mem_bytes m a (k + n)"
  by (rule nth_equalityI) (simp_all add: nth_append add.assoc flip: of_nat_add)

lemma unat_of_nat_64: "n < 2 ^ 64 \<Longrightarrow> unat (of_nat n :: u64) = n"
  by (simp add: unat_of_nat)

lemma unat_offset:
  fixes a x :: u64
  assumes "unat x < unat a \<or> unat a + n \<le> unat x" and "unat a + n \<le> 2 ^ 64"
  shows "\<not> unat (x - a) < n"
proof (cases "a \<le> x")
  case True
  then show ?thesis using assms(1) by (simp add: unat_sub word_le_nat_alt)
next
  case False
  then have "unat (x - a) = unat x + 2 ^ 64 - unat a"
    using unat_sub_if'[of x a] by (simp add: word_le_nat_alt)
  then show ?thesis using assms(2) by simp
qed

lemma put_bytes_in: "unat (x - a) < length xs \<Longrightarrow> put_bytes a xs m x = xs ! unat (x - a)"
  by (simp add: put_bytes_def)

lemma put_bytes_out:
  "unat x < unat a \<or> unat a + length xs \<le> unat x \<Longrightarrow> unat a + length xs \<le> 2 ^ 64 \<Longrightarrow>
    put_bytes a xs m x = m x"
  using unat_offset[of x a "length xs"] by (simp add: put_bytes_def)

lemma put_bytes_nth: "k < length xs \<Longrightarrow> length xs \<le> 2 ^ 64 \<Longrightarrow> put_bytes a xs m (a + of_nat k) = xs ! k"
  by (simp add: put_bytes_def unat_of_nat)

lemma put_bytes_Nil [simp]: "put_bytes a [] m = m"
  by (simp add: put_bytes_def)

lemma mem_put_append:
  assumes "length xs + length ys \<le> 2 ^ 64"
  shows "put_bytes (a + of_nat (length xs)) ys (put_bytes a xs m) = put_bytes a (xs @ ys) m"
proof
  fix x :: u64
  let ?d = "x - a"
  have e: "x - (a + of_nat (length xs)) = ?d - of_nat (length xs)" by simp
  show "put_bytes (a + of_nat (length xs)) ys (put_bytes a xs m) x = put_bytes a (xs @ ys) m x"
  proof (cases "unat ?d < length xs")
    case True
    have "\<not> unat (?d - of_nat (length xs)) < length ys"
    proof (cases "ys = []")
      case False
      then have "length xs < 2 ^ 64" using assms by (cases ys) auto
      then show ?thesis using assms True by (intro unat_offset) (simp_all add: unat_of_nat)
    qed simp
    then show ?thesis using True by (simp add: put_bytes_def e nth_append)
  next
    case False
    have "unat ?d < 2 ^ 64" by (rule order_less_le_trans[OF unsigned_less]) simp
    then have l: "length xs < 2 ^ 64" using False by simp
    have "unat (?d - of_nat (length xs)) = unat ?d - length xs"
      using False l by (simp add: unat_sub word_le_nat_alt unat_of_nat)
    then show ?thesis using False by (auto simp: put_bytes_def e nth_append)
  qed
qed

lemma mem_bytes_put_bytes:
  "length xs \<le> 2 ^ 64 \<Longrightarrow> mem_bytes (put_bytes a xs m) a (length xs) = xs"
  by (simp add: list_eq_iff_nth_eq put_bytes_nth)

text \<open>Two areas of memory that do not meet.\<close>

definition apart :: "u64 \<Rightarrow> nat \<Rightarrow> u64 \<Rightarrow> nat \<Rightarrow> bool" where
  "apart a n b k \<longleftrightarrow> unat a + n \<le> 2 ^ 64 \<and> unat b + k \<le> 2 ^ 64 \<and> (unat a + n \<le> unat b \<or> unat b + k \<le> unat a)"

lemma apart_commute: "apart a n b k \<longleftrightarrow> apart b k a n"
  by (auto simp: apart_def)

lemma apart_sub:
  assumes "apart a n b k" and "i + n' \<le> n" and "0 < n'"
  shows "apart (a + of_nat i) n' b k"
proof -
  have "unat (a + of_nat i) = unat a + i"
    using assms by (auto simp: apart_def unat_word_ariths unat_of_nat)
  then show ?thesis using assms by (auto simp: apart_def)
qed

lemma put_bytes_apart:
  assumes "apart a n b (length ys)" and "k < n"
  shows "put_bytes b ys m (a + of_nat k) = m (a + of_nat k)"
proof (rule put_bytes_out)
  have "unat (a + of_nat k) = unat a + k"
    using assms by (auto simp: apart_def unat_word_ariths unat_of_nat)
  then show "unat (a + of_nat k) < unat b \<or> unat b + length ys \<le> unat (a + of_nat k)"
    using assms by (auto simp: apart_def)
  show "unat b + length ys \<le> 2 ^ 64" using assms by (simp add: apart_def)
qed

lemma mem_bytes_apart:
  "apart a n b (length ys) \<Longrightarrow> mem_bytes (put_bytes b ys m) a n = mem_bytes m a n"
  by (simp add: list_eq_iff_nth_eq put_bytes_apart)

lemma word16_bytes [simp]: "word16 (low_byte v) (high_byte v) = v"
  by (rule bit_word_eqI) (auto simp: word16_def low_byte_def high_byte_def bit_simps)

lemma word16_eq_0_iff [simp]: "word16 lo hi = 0 \<longleftrightarrow> lo = 0 \<and> hi = 0"
proof
  assume z: "word16 lo hi = 0"
  have "lo = low_byte (word16 lo hi)" "hi = high_byte (word16 lo hi)"
    by (rule bit_word_eqI; auto simp: word16_def low_byte_def high_byte_def bit_simps dest: bit_imp_le_length)+
  then show "lo = 0 \<and> hi = 0" unfolding z by (simp add: low_byte_def high_byte_def)
qed (simp add: word16_def)

lemma load16_store16 [simp]: "load16 (store16 a v m) a = v"
  by (simp add: load16_def store16_def put_bytes_def)

lemma load16_mem_bytes:
  "2 * c + 1 < n \<Longrightarrow> load16 m (a + 2 * of_nat c) = word16 (mem_bytes m a n ! (2 * c)) (mem_bytes m a n ! (2 * c + 1))"
  by (simp add: load16_def algebra_simps)

section \<open>A working disk\<close>

definition drive :: "fs_state \<Rightarrow> u16 \<times> bool" where
  "drive s = (let p = ide_ports s (nat (g_current_ide_port_index s)) in (base_port p, dev_num p = ATA_SLAVE))"

definition sec :: "fs_state \<Rightarrow> nat \<Rightarrow> u8 list" where
  "sec s n = disk s (drive s) (of_nat n)"

definition put_sec :: "nat \<Rightarrow> u8 list \<Rightarrow> fs_state \<Rightarrow> fs_state" where
  "put_sec n xs s = s\<lparr>disk := (disk s)(drive s := (disk s (drive s))(of_nat n := xs))\<rparr>"

definition disk_ok :: "fs_state \<Rightarrow> bool" where
  "disk_ok s \<longleftrightarrow> 0 \<le> g_current_ide_port_index s \<and> g_current_ide_port_index s \<le> 3
     \<and> dev_num (ide_ports s (nat (g_current_ide_port_index s))) \<in> {ATA_MASTER, ATA_SLAVE}
     \<and> 0 < gNumberOfSectorsInBootDisk s \<and> gNumberOfSectorsInBootDisk s \<le> 2 ^ 28
     \<and> (\<forall>k. data_ready s (drive s) k \<and> length (disk s (drive s) k) = 512)"

abbreviation sectors :: "fs_state \<Rightarrow> nat" where
  "sectors s \<equiv> unat (gNumberOfSectorsInBootDisk s)"

lemma sec_length: "disk_ok s \<Longrightarrow> length (sec s n) = 512"
  by (simp add: disk_ok_def sec_def)

lemma sectors_limit: "disk_ok s \<Longrightarrow> sectors s \<le> 2 ^ 28"
  by (simp add: disk_ok_def word_le_nat_alt)

lemma low_28: "(x :: u32) < 2 ^ 28 \<Longrightarrow> bit x n \<Longrightarrow> n < 28"
proof -
  assume "x < 2 ^ 28" and b: "bit x n"
  then have "take_bit 28 (unat x) = unat x" by (simp add: take_bit_nat_eq_self word_less_nat_alt)
  then show "n < 28" using b bit_take_bit_iff[of 28 "unat x" n] by (simp add: bit_unsigned_iff)
qed

lemma devsel_drive:
  assumes "x < 2 ^ 28" and "v = ATA_MASTER \<or> v = ATA_SLAVE"
  shows "bit (devsel_byte v x) 4 \<longleftrightarrow> v = ATA_SLAVE"
proof -
  have "\<not> bit x 28" using low_28[OF assms(1), of 28] by blast
  then show ?thesis
    using assms(2) by (auto simp: devsel_byte_def ATA_MASTER_def ATA_SLAVE_def bit_simps)
qed

lemma masks: "(0x0F :: u8) = mask 4" "(0xFF :: u32) = mask 8"
    "(0xE0 :: u32) = push_bit 5 (mask 3)" "(0xF0 :: u32) = push_bit 4 (mask 4)"
  by (simp_all add: mask_eq_exp_minus_1)

lemma devsel_sector:
  assumes "x < 2 ^ 28"
  shows "selected_sector (devsel_byte v x) x = x"
proof (rule bit_word_eqI)
  fix n assume n: "n < LENGTH(32)"
  have low: "bit x m \<Longrightarrow> m < 28" for m using low_28[OF assms] .
  show "bit (selected_sector (devsel_byte v x) x) n = bit x n"
  proof -
    consider "n < 8" | k where "n = 8 + k" "k < 8" | k where "n = 16 + k" "k < 8"
      | k where "n = 24 + k" "k < 4" | k where "n = 28 + k" "k < 4"
    proof -
      have "n < 8 \<or> (8 \<le> n \<and> n < 16) \<or> (16 \<le> n \<and> n < 24) \<or> (24 \<le> n \<and> n < 28) \<or> (28 \<le> n \<and> n < 32)"
        using n by auto
      then show ?thesis using that
        by (elim disjE conjE) (auto dest!: le_Suc_ex simp: nat_less_iff)
    qed
    then show ?thesis
      using low[of n] by cases (auto simp: masks selected_sector_def devsel_byte_def bit_simps)
  qed
qed

lemma sector_word:
  assumes "disk_ok s" and "n < sectors s"
  shows "(ucast (of_nat n :: u64) :: u32) = of_nat n" "(of_nat n :: u32) < 2 ^ 28"
    and "(of_nat n :: u64) < gNumberOfSectorsInBootDisk s"
proof -
  have n: "n < 2 ^ 28" using sectors_limit[OF assms(1)] assms(2) by simp
  show "(ucast (of_nat n :: u64) :: u32) = of_nat n"
    by (rule bit_word_eqI) (simp add: bit_simps)
  show "(of_nat n :: u32) < 2 ^ 28" using n by (simp add: word_less_nat_alt unat_of_nat)
  show "(of_nat n :: u64) < gNumberOfSectorsInBootDisk s"
    using n assms(2) by (simp add: word_less_nat_alt unat_of_nat)
qed

lemma port_word: "0 \<le> i \<Longrightarrow> i \<le> 3 \<Longrightarrow>
    (word_of_int i :: u32) AND 0xFF \<le> 3 \<and> unat ((word_of_int i :: u32) AND 0xFF) = nat i"
proof -
  assume "0 \<le> i" "i \<le> 3"
  then consider "i = 0" | "i = 1" | "i = 2" | "i = 3" by linarith
  then show ?thesis by cases simp_all
qed

lemma pio_rw_sector_ok:
  assumes "disk_ok s" and "n < sectors s"
  defines "port \<equiv> word_of_int (g_current_ide_port_index s)"
  shows "pio_rw_sector a (of_nat n) OPERATION_PIO_READ port s
      = Inr (0, s\<lparr>fmem := put_bytes a (sec s n) (fmem s)\<rparr>)"
    and "\<exists>r. pio_rw_sector a (of_nat n) OPERATION_PIO_WRITE port s
      = Inr (r, put_sec n (mem_bytes (fmem s) a 512) s)"
proof -
  let ?p = "ide_ports s (nat (g_current_ide_port_index s))"
  let ?v = "dev_num ?p"
  have v: "?v = ATA_MASTER \<or> ?v = ATA_SLAVE" and r: "data_ready s (drive s) k" for k
    using assms(1) by (auto simp: disk_ok_def)
  have i: "port AND 0xFF \<le> 3" "unat (port AND 0xFF) = nat (g_current_ide_port_index s)"
    using port_word[of "g_current_ide_port_index s"] assms(1) by (simp_all add: disk_ok_def port_def)
  note n = sector_word[OF assms(1,2)]
  have d: "(base_port ?p, bit (devsel_byte ?v (of_nat n)) 4) = drive s"
    using devsel_drive[OF n(2) v] by (simp add: drive_def Let_def)
  have ops: "OPERATION_PIO_READ \<noteq> OPERATION_PIO_WRITE"
    by (simp add: OPERATION_PIO_READ_def OPERATION_PIO_WRITE_def)
  show "pio_rw_sector a (of_nat n) OPERATION_PIO_READ port s
      = Inr (0, s\<lparr>fmem := put_bytes a (sec s n) (fmem s)\<rparr>)"
    using i v r by (auto simp: pio_rw_sector_def Let_def d devsel_sector[OF n(2)] sec_def)
  show "\<exists>r. pio_rw_sector a (of_nat n) OPERATION_PIO_WRITE port s
      = Inr (r, put_sec n (mem_bytes (fmem s) a 512) s)"
    using i v r ops by (auto simp: pio_rw_sector_def Let_def d devsel_sector[OF n(2)] put_sec_def)
qed

lemma ataReadSector_ok:
  assumes "disk_ok s" and "n < sectors s"
  shows "ataReadSector a (of_nat n) s = Inr (0, s\<lparr>fmem := put_bytes a (sec s n) (fmem s)\<rparr>)"
  using sector_word[OF assms] pio_rw_sector_ok(1)[OF assms] assms
  by (auto simp: ataReadSector_def ata_get_current_ide_port_index_def not_le)

lemma ataWriteSector_ok:
  assumes "disk_ok s" and "n < sectors s"
  shows "\<exists>r. ataWriteSector a (of_nat n) s = Inr (r, put_sec n (mem_bytes (fmem s) a 512) s)"
  using sector_word[OF assms] pio_rw_sector_ok(2)[OF assms] assms
  by (auto simp: ataWriteSector_def ata_get_current_ide_port_index_def not_le)


section \<open>Sequences on a working disk\<close>

definition put_secs :: "nat \<Rightarrow> nat \<Rightarrow> (nat \<Rightarrow> u8 list) \<Rightarrow> fs_state \<Rightarrow> fs_state" where
  "put_secs l n f s = s\<lparr>disk := (disk s)(drive s := (\<lambda>k. if l \<le> unat k \<and> unat k < l + n
     then f (unat k - l) else disk s (drive s) k))\<rparr>"

lemma drive_cong: "ide_ports t = ide_ports s \<Longrightarrow> g_current_ide_port_index t = g_current_ide_port_index s \<Longrightarrow>
    drive t = drive s"
  by (simp add: drive_def)

lemma drive_frame [simp]:
  "drive (s\<lparr>fmem := m\<rparr>) = drive s" "drive (s\<lparr>disk := d\<rparr>) = drive s"
  "drive (s\<lparr>ata_irq_invoked := i\<rparr>) = drive s" "drive (s\<lparr>g_fat_cache_loaded := i\<rparr>) = drive s"
  "drive (s\<lparr>g_fat_cache_saved := i\<rparr>) = drive s" "drive (s\<lparr>fat16ClustersToSave := c\<rparr>) = drive s"
  "drive (put_sec n xs s) = drive s" "drive (put_secs l k f s) = drive s"
  by (simp_all add: drive_def put_sec_def put_secs_def)

lemma sec_frame [simp]:
  "sec (s\<lparr>fmem := m\<rparr>) = sec s" "sec (s\<lparr>ata_irq_invoked := i\<rparr>) = sec s"
  "sec (s\<lparr>g_fat_cache_loaded := i\<rparr>) = sec s" "sec (s\<lparr>g_fat_cache_saved := i\<rparr>) = sec s"
  "sec (s\<lparr>fat16ClustersToSave := c\<rparr>) = sec s"
  by (simp_all add: sec_def fun_eq_iff)

lemma disk_ok_frame [simp]:
  "disk_ok (s\<lparr>fmem := m\<rparr>) = disk_ok s" "disk_ok (s\<lparr>ata_irq_invoked := i\<rparr>) = disk_ok s"
  "disk_ok (s\<lparr>g_fat_cache_loaded := i\<rparr>) = disk_ok s" "disk_ok (s\<lparr>g_fat_cache_saved := i\<rparr>) = disk_ok s"
  "disk_ok (s\<lparr>fat16ClustersToSave := c\<rparr>) = disk_ok s"
  by (simp_all add: disk_ok_def)

lemma put_secs_frame [simp]:
  "fmem (put_secs l n f s) = fmem s" "gNumberOfSectorsInBootDisk (put_secs l n f s) = gNumberOfSectorsInBootDisk s"
  "g_fat_cache_loaded (put_secs l n f s) = g_fat_cache_loaded s"
  "g_fat_cache_saved (put_secs l n f s) = g_fat_cache_saved s" "root (put_secs l n f s) = root s"
  "g_currentvolume_fatbits (put_secs l n f s) = g_currentvolume_fatbits s"
  "fat16ClustersToSave (put_secs l n f s) = fat16ClustersToSave s"
  by (simp_all add: put_secs_def)

lemma sec_put_secs:
  "m < 2 ^ 32 \<Longrightarrow> sec (put_secs l n f s) m = (if l \<le> m \<and> m < l + n then f (m - l) else sec s m)"
  by (simp add: put_secs_def sec_def drive_def Let_def unat_of_nat)

lemma disk_ok_put_secs [simp]:
  "disk_ok s \<Longrightarrow> (\<And>i. i < n \<Longrightarrow> length (f i) = 512) \<Longrightarrow> disk_ok (put_secs l n f s)"
  by (auto simp: disk_ok_def put_secs_def drive_def Let_def)

lemma put_sec_secs: "n < 2 ^ 32 \<Longrightarrow> put_sec n xs s = put_secs n 1 (\<lambda>_. xs) s"
proof -
  assume n: "n < 2 ^ 32"
  have "(n \<le> unat k \<and> unat k < n + 1) = (k = of_nat n)" for k :: u32
    using n by (auto simp: word_unat_eq_iff unat_of_nat)
  then show ?thesis by (auto simp: put_sec_def put_secs_def fun_upd_def)
qed

lemma put_secs_0 [simp]: "put_secs l 0 f s = s"
proof -
  have "(\<lambda>k. if l \<le> unat k \<and> unat k < l + 0 then f (unat k - l) else disk s (drive s) k) = disk s (drive s)"
    by (rule ext) auto
  then show ?thesis unfolding put_secs_def by simp
qed

lemma put_secs_snoc:
  "put_secs (l + n) 1 g (put_secs l n f s) = put_secs l (n + 1) (\<lambda>i. if i = n then g 0 else f i) s"
proof -
  have "(\<lambda>k. if l + n \<le> unat k \<and> unat k < l + n + 1 then g (unat k - (l + n))
      else if l \<le> unat k \<and> unat k < l + n then f (unat k - l) else disk s (drive s) k)
    = (\<lambda>k :: u32. if l \<le> unat k \<and> unat k < l + (n + 1) then if unat k - l = n then g 0 else f (unat k - l)
      else disk s (drive s) k)"
    by (rule ext) auto
  then show ?thesis by (simp add: put_secs_def cong: if_cong)
qed

lemma concat_secs_length:
  "disk_ok s \<Longrightarrow> length (concat (map (sec s) [l..<l + n])) = 512 * n"
  by (induction n) (simp_all add: sec_length)

lemma read_steps_ok:
  assumes "disk_ok s" and "l + n \<le> sectors s"
  shows "kfold (read_step a (of_nat l)) [0..<n] s
    = Inr (s\<lparr>fmem := put_bytes a (concat (map (sec s) [l..<l + n])) (fmem s)\<rparr>)"
  using assms(2)
proof (induction n)
  case (Suc n)
  let ?m = "put_bytes a (concat (map (sec s) [l..<l + n])) (fmem s)"
  have len: "length (concat (map (sec s) [l..<l + n])) = 512 * n" "length (sec s (l + n)) = 512"
    using concat_secs_length[OF assms(1)] sec_length[OF assms(1)] by blast+
  have b: "512 * n + 512 \<le> 2 ^ 64" using Suc.prems sectors_limit[OF assms(1)] by simp
  have "read_step a (of_nat l) n (s\<lparr>fmem := ?m\<rparr>)
      = Inr (s\<lparr>fmem := put_bytes (a + of_nat (512 * n)) (sec s (l + n)) ?m\<rparr>)"
    using ataReadSector_ok[of "s\<lparr>fmem := ?m\<rparr>" "l + n"] assms(1) Suc.prems
    by (simp add: read_step_def)
  moreover have "put_bytes (a + of_nat (512 * n)) (sec s (l + n)) ?m
      = put_bytes a (concat (map (sec s) [l..<l + Suc n])) (fmem s)"
    using mem_put_append[of "concat (map (sec s) [l..<l + n])" "sec s (l + n)" a] b len by simp
  ultimately show ?case using Suc by (simp add: kfold_append)
qed simp

lemma load_sequential_ok:
  assumes "disk_ok s" and "l + n \<le> sectors s"
  shows "load_sequential_sectors a (of_nat l) (of_nat n) s
    = Inr (0, s\<lparr>fmem := put_bytes a (concat (map (sec s) [l..<l + n])) (fmem s)\<rparr>)"
proof -
  have "n < 2 ^ 64" using assms(2) sectors_limit[OF assms(1)] by simp
  then have "unat (of_nat n :: u64) = n" by (simp add: unat_of_nat)
  then show ?thesis using read_steps_ok[OF assms] by (simp add: load_sequential_sectors_def)
qed

lemma save_steps_ok:
  assumes "disk_ok s" and "l + n \<le> sectors s"
  shows "\<exists>i. kfold (save_step a (of_nat l)) [0..<n] s
    = Inr (put_secs l n (\<lambda>i. mem_bytes (fmem s) (a + of_nat (512 * i)) 512) (s\<lparr>ata_irq_invoked := i\<rparr>))"
  using assms(2)
proof (induction n)
  case 0
  show ?case by (auto intro!: exI[of _ "ata_irq_invoked s"])
next
  case (Suc n)
  let ?f = "\<lambda>i. mem_bytes (fmem s) (a + of_nat (512 * i)) 512"
  obtain i where i: "kfold (save_step a (of_nat l)) [0..<n] s = Inr (put_secs l n ?f (s\<lparr>ata_irq_invoked := i\<rparr>))"
    using Suc by auto
  let ?t = "put_secs l n ?f (s\<lparr>ata_irq_invoked := i\<rparr>)"
  have ok: "disk_ok (disk_ata_wait_irq ?t)" using assms(1) by (simp add: disk_ata_wait_irq_def)
  have lim: "l + n < 2 ^ 32" using Suc.prems sectors_limit[OF assms(1)] by simp
  have "\<exists>r. ataWriteSector (a + of_nat (512 * n)) (of_nat (l + n)) (disk_ata_wait_irq ?t)
      = Inr (r, put_sec (l + n) (?f n) (disk_ata_wait_irq ?t))"
    using ataWriteSector_ok[OF ok, of "l + n" "a + of_nat (512 * n)"] Suc.prems
    by (simp add: disk_ata_wait_irq_def)
  moreover have "put_sec (l + n) (?f n) (disk_ata_wait_irq ?t) = put_secs l (Suc n) ?f (s\<lparr>ata_irq_invoked := 0\<rparr>)"
  proof -
    have w: "disk_ata_wait_irq ?t = put_secs l n ?f (s\<lparr>ata_irq_invoked := 0\<rparr>)"
      by (simp add: disk_ata_wait_irq_def put_secs_def cong: if_cong)
    have "(\<lambda>i. if i = n then ?f n else ?f i) = ?f" by auto
    then show ?thesis using put_secs_snoc[of l n "\<lambda>_. ?f n" ?f "s\<lparr>ata_irq_invoked := 0\<rparr>"]
      unfolding put_sec_secs[OF lim] w by simp
  qed
  ultimately have "save_step a (of_nat l) n ?t = Inr (put_secs l (Suc n) ?f (s\<lparr>ata_irq_invoked := 0\<rparr>))"
    by (auto simp: save_step_def)
  then show ?case using i by (auto simp: kfold_append)
qed

end
