(* ===== verification/KFat.thy ===== *)
theory KFat
  imports KDisk
begin

text \<open>
  The FAT16 file system of the boot volume: search in a directory (search.c, fat16.c), loading a file
  by its chain of clusters (fsload.c) and saving a file in the root directory (fslib.c). The FAT is
  cached at \<open>VOLUME1_FAT_ADDRESS\<close> and the root directory at \<open>VOLUME1_ROOTDIR_ADDRESS\<close>. The name of a
  file is the list of bytes from its pointer to the end of the object it points into, None for NULL.
\<close>

section \<open>Search\<close>

definition FAT16_ROOT_ENTRIES :: int where "FAT16_ROOT_ENTRIES = 512"
definition FAT16_ENTRY_SIZE :: int where "FAT16_ENTRY_SIZE = 32"
definition FAT_DIRECTORY_ENTRY_FREE :: u8 where "FAT_DIRECTORY_ENTRY_FREE = 0xE5"

fun kfind :: "(nat \<Rightarrow> kfault + bool) \<Rightarrow> nat list \<Rightarrow> kfault + nat option" where
  "kfind P [] = Inr None"
| "kfind P (i # is) = kbind (P i) (\<lambda>b. if b then Inr (Some i) else kfind P is)"

text \<open>
  The local buffers of the source are uninitialised; the first 11 bytes of Name_Desired are always
  written by strncpy(), also where the code before has put spaces, and only they are compared.
\<close>

definition name_spaces :: "nat \<Rightarrow> u8 list \<Rightarrow> u8 list" where
  "name_spaces stringSize buf =
    (if stringSize = 10 then buf[10 := 32]
     else if stringSize = 9 then buf[10 := 32, 9 := 32]
     else if stringSize = 8 then buf[10 := 32, 9 := 32, 8 := 32] else buf)"

definition same_11 :: "u8 list \<Rightarrow> (u64 \<Rightarrow> u8) \<Rightarrow> u64 \<Rightarrow> nat \<Rightarrow> kfault + bool" where
  "same_11 Name_Desired m dir i =
    (let j = dir + of_nat (32 * i) in
     if m j = FAT_DIRECTORY_ENTRY_FREE then Inr False
     else if m j = 46 then Inr False
     else if m j \<noteq> 0
     then kbind (memcpy (replicate 13 0) (mem_bytes m j 11) 11) (\<lambda>Name_InEntry.
          kbind (kstrncmp Name_Desired (Name_InEntry[11 := 0]) 11) (\<lambda>Status. Inr (Status = 0)))
     else Inr False)"

definition search_in_dir :: "u8 list option \<Rightarrow> u64 \<Rightarrow> fs_state \<Rightarrow> kfault + int" where
  "search_in_dir file_name dir_address s =
    (case file_name of None \<Rightarrow> Inr (-1)
     | Some nm \<Rightarrow>
       if nm = [] then Inl (OutOfBounds ''file_name'')
       else if hd nm = 0 then Inr (-1)
       else if dir_address = 0 then Inr (-1)
       else kbind (strlen nm) (\<lambda>stringSize.
         if stringSize > 11 then Inr (-1)
         else kbind (strncpy (name_spaces stringSize (replicate 13 0)) nm 11) (\<lambda>b.
           let Name_Desired = b[11 := 0] in
           if hd nm = 47 then Inr (-1)
           else kbind (kfind (same_11 Name_Desired (fmem s) dir_address) [0..<512])
             (\<lambda>r. Inr (if r = None then -1 else 1)))))"

definition search_in_root :: "u8 list option \<Rightarrow> fs_state \<Rightarrow> kfault + int" where
  "search_in_root file_name s =
    (case file_name of None \<Rightarrow> Inr (-1)
     | Some nm \<Rightarrow> if nm = [] then Inl (OutOfBounds ''file_name'')
                 else if hd nm = 0 then Inr (-1)
                 else search_in_dir file_name VOLUME1_ROOTDIR_ADDRESS s)"

definition fsSearchFileInRoot :: "u8 list option \<Rightarrow> fs_state \<Rightarrow> kfault + int" where
  "fsSearchFileInRoot file_name s = (if file_name = None then Inr (-1) else search_in_root file_name s)"

definition findEmptyDirectoryEntry :: "u64 \<Rightarrow> int \<Rightarrow> fs_state \<Rightarrow> int" where
  "findEmptyDirectoryEntry dir_address number_of_entries s =
    (if dir_address = 0 then -1
     else if number_of_entries < 0 then -1
     else case find (\<lambda>i. fmem s (dir_address + of_nat (32 * i)) = 0) [0..<nat number_of_entries] of
            Some i \<Rightarrow> int i
          | None \<Rightarrow> -1)"

definition fs_find_n_empty_entries :: "int \<Rightarrow> fs_state \<Rightarrow> kfault + u16" where
  "fs_find_n_empty_entries n s = Inl (KPanic ''fs_find_n_empty_entries: #fixme'')"

definition fs_find_empty_entry_in_fat :: "u64 \<Rightarrow> fs_state \<Rightarrow> kfault + u16" where
  "fs_find_empty_entry_in_fat fat_addr s = Inl (KPanic ''fs_find_empty_entry_in_fat:'')"

text \<open>
  The comparison fsGetFileSize() and fsLoadFile() share: only the length of the wanted name counts,
  so a name matches every entry that begins with it.
\<close>

definition entry_begins :: "nat \<Rightarrow> u8 list \<Rightarrow> nat \<Rightarrow> (u64 \<Rightarrow> u8) \<Rightarrow> u64 \<Rightarrow> nat \<Rightarrow> kfault + bool" where
  "entry_begins buf_size nm n m dir i =
    (let z = dir + of_nat (32 * i) in
     if load16 m z \<noteq> 0
     then kbind (memcpy (replicate buf_size 0) (mem_bytes m z n) n) (\<lambda>name.
          kbind (kstrncmp nm (name[n := 0]) n) (\<lambda>st. Inr (st = 0)))
     else Inr False)"

definition fsGetFileSize :: "u8 list option \<Rightarrow> u64 \<Rightarrow> fs_state \<Rightarrow> kfault + (u64 \<times> fs_state)" where
  "fsGetFileSize file_name dir_address s =
    (case file_name of None \<Rightarrow> Inr (0, s)
     | Some nm \<Rightarrow>
       if nm = [] then Inl (OutOfBounds ''file_name'')
       else if hd nm = 0 then Inr (0, s)
       else if dir_address = 0 then Inr (0, s)
       else kbind (if dir_address = VOLUME1_ROOTDIR_ADDRESS
                   then fs_load_rootdir VOLUME1_ROOTDIR_ADDRESS VOLUME1_ROOTDIR_LBA 32 s else Inr s) (\<lambda>s1.
       case root s1 of None \<Rightarrow> Inl (KPanic ''fsGetFileSize: [FAIL] No root file system!'')
       | Some r \<Rightarrow>
         if spc r \<le> 0 then Inl (KPanic ''fsGetFileSize: [FAIL] spc'')
         else if dir_entries r = 0 then Inl (KPanic ''fsGetFileSize: [FAIL] max root entries'')
         else kbind (strlen nm) (\<lambda>n.
           let szFileName = (if n > 11 then 11 else n) in
           kbind (kfind (entry_begins 13 nm szFileName (fmem s1) dir_address)
                    [0..<unat (word_of_int (dir_entries r) :: u64)]) (\<lambda>found.
             case found of None \<Rightarrow> Inr (0, s1)
             | Some i \<Rightarrow> Inr (ucast (load32 (fmem s1) (dir_address + of_nat (32 * i) + 28)), s1)))))"

section \<open>Loading a file\<close>

definition KERNEL_IMAGE_BASE :: u64 where "KERNEL_IMAGE_BASE = 0x30000000"
definition DEFAULT_LFB_VIRTUALADDRESS :: u64 where "DEFAULT_LFB_VIRTUALADDRESS = 0x30200000"
definition DEFAULT_BACKBUFFER_VIRTUALADDRESS :: u64 where "DEFAULT_BACKBUFFER_VIRTUALADDRESS = 0x30400000"
definition IMAGESIZE_LIMIT_IN_KB :: nat where "IMAGESIZE_LIMIT_IN_KB = 405"

definition check_address_validation :: "u64 \<Rightarrow> int" where
  "check_address_validation address =
    (if address = VOLUME1_FAT_ADDRESS \<or> address = VOLUME1_ROOTDIR_ADDRESS \<or> address = KERNEL_IMAGE_BASE
        \<or> address = DEFAULT_LFB_VIRTUALADDRESS \<or> address = DEFAULT_BACKBUFFER_VIRTUALADDRESS
     then FALSE else TRUE)"

definition fat_at :: "fs_state \<Rightarrow> u16 \<Rightarrow> u16" where
  "fat_at s c = load16 (fmem s) (VOLUME1_FAT_ADDRESS + 2 * ucast c)"

definition cluster_lba :: "u16 \<Rightarrow> u64" where
  "cluster_lba c = word_of_int (591 + uint c - 2)"

text \<open>
  The loop of fsLoadFile() over the chain of clusters: one unit of fuel per cluster. A chain that
  runs in a circle never ends; None is the value for that.
\<close>

fun load_chain :: "nat \<Rightarrow> u16 \<Rightarrow> u64 \<Rightarrow> nat \<Rightarrow> fs_state \<Rightarrow> (kfault + (u64 \<times> fs_state)) option" where
  "load_chain 0 cluster Buffer nreads s = None"
| "load_chain (Suc fuel) cluster Buffer nreads s =
    (if check_address_validation Buffer \<noteq> TRUE then Some (Inl (KPanic ''fsLoadFile: Not a valid address''))
     else if cluster = 0 \<or> cluster > 0xFFF0 then Some (Inl (KPanic ''fsLoadFile: fat[] vector limits.''))
     else case read_lba Buffer (cluster_lba cluster) s of
       Inl e \<Rightarrow> Some (Inl e)
     | Inr s1 \<Rightarrow> let cluster' = fat_at s1 cluster in
         if cluster' = 0xFFF7 then Some (Inl (KPanic ''fsLoadFile: Bad cluster''))
         else if cluster' = 0xFFFF \<or> cluster' = 0xFFF8
         then (if (nreads + 1) div 2 > IMAGESIZE_LIMIT_IN_KB then Some (Inl (KPanic ''fsLoadFile: nreads''))
               else Some (Inr (0, s1)))
         else load_chain fuel cluster' (Buffer + SECTOR_SIZE) (nreads + 1) s1)"

definition fsLoadFile ::
  "nat \<Rightarrow> u64 \<Rightarrow> u64 \<Rightarrow> int \<Rightarrow> u8 list option \<Rightarrow> u64 \<Rightarrow> u64 \<Rightarrow> fs_state
     \<Rightarrow> (kfault + (u64 \<times> fs_state)) option" where
  "fsLoadFile fuel fat_addr dir_address direntries file_name buffer buffer_size_in_bytes s =
    (let DirEntries = direntries AND 0xFFFF; MaxEntries = FAT16_ROOT_ENTRIES;
         BufferSizeInBytes = buffer_size_in_bytes AND 0xFFFFFFFF in
     if fat_addr = 0 then Some (Inl (KPanic ''fsLoadFile: [FAIL] fat_address''))
     else if dir_address = 0 then Some (Inl (KPanic ''fsLoadFile: [FAIL] dir_address''))
     else if fat_addr \<noteq> VOLUME1_FAT_ADDRESS then Some (Inl (KPanic ''fsLoadFile: Not valid fat address''))
     else if DirEntries > MaxEntries then Some (Inl (KPanic ''fsLoadFile: DirEntries''))
     else if DirEntries \<noteq> MaxEntries then Some (Inl (KPanic ''fsLoadFile: [DEBUG] DirEntries''))
     else if BufferSizeInBytes = 0 then Some (Inl (KPanic ''fsLoadFile: BufferSizeInBytes = 0''))
     else if BufferSizeInBytes > 512 * 4096 then Some (Inl (KPanic ''fsLoadFile: BufferSizeInBytes limits''))
     else case root s of None \<Rightarrow> Some (Inl (KPanic ''fsLoadFile: root''))
     | Some r \<Rightarrow>
     if fs_used r \<noteq> TRUE \<or> fs_magic r \<noteq> 1234 then Some (Inl (KPanic ''fsLoadFile: root validation''))
     else if spc r \<le> 0 then Some (Inl (KPanic ''fsLoadFile: Spc''))
     else if dir_entries r \<noteq> MaxEntries then Some (Inl (KPanic ''fsLoadFile: root->dir_entries''))
     else case file_name of None \<Rightarrow> Some (Inr (1, s))
     | Some nm \<Rightarrow>
     if nm = [] then Some (Inl (OutOfBounds ''file_name''))
     else if hd nm = 0 then Some (Inr (1, s))
     else case strlen nm of Inl e \<Rightarrow> Some (Inl e)
     | Inr FileNameSize \<Rightarrow>
     if FileNameSize > 11 then Some (Inr (1, s))
     else case fsGetFileSize (Some nm) dir_address s of Inl e \<Rightarrow> Some (Inl e)
     | Inr (FileSize, s1) \<Rightarrow>
     if FileSize \<ge> BufferSizeInBytes then Some (Inr (1, s1))
     else case kfind (entry_begins 256 nm FileNameSize (fmem s1) dir_address) [0..<nat MaxEntries] of
       Inl e \<Rightarrow> Some (Inl e)
     | Inr None \<Rightarrow> Some (Inr (1, s1))
     | Inr (Some i) \<Rightarrow>
       let cluster = load16 (fmem s1) (dir_address + of_nat (32 * i) + 26) in
       if cluster = 0 \<or> cluster > 0xFFF0 then Some (Inr (1, s1))
       else case fs_load_fat VOLUME1_FAT_ADDRESS VOLUME1_FAT_LBA 246 s1 of Inl e \<Rightarrow> Some (Inl e)
       | Inr s2 \<Rightarrow> load_chain fuel cluster buffer 0 s2)"

text \<open>fsLoadProgramFromGRAMADO() and fsLoadProgramFromDE(): the same code for the two directories.\<close>

definition fsLoadProgram ::
  "system_directory_d \<Rightarrow> nat \<Rightarrow> u8 list option \<Rightarrow> u64 \<Rightarrow> u64 \<Rightarrow> fs_state
     \<Rightarrow> (kfault + (u64 \<times> fs_state)) option" where
  "fsLoadProgram sd fuel program_name buffer buffer_size_in_bytes s =
    (if buffer = 0 then Some (Inr (1, s))
     else if buffer_size_in_bytes = 0 then Some (Inr (1, s))
     else if sd_initialized sd \<noteq> TRUE then Some (Inr (1, s))
     else if sd_address sd = 0 then Some (Inr (1, s))
     else case fsLoadFile fuel VOLUME1_FAT_ADDRESS (sd_address sd) 512 program_name buffer
                 buffer_size_in_bytes s of
       Some (Inr (Status, s1)) \<Rightarrow> Some (Inr (if Status \<noteq> 0 then 1 else 0, s1))
     | r \<Rightarrow> r)"

definition fsLoadProgramFromGRAMADO ::
  "nat \<Rightarrow> u8 list option \<Rightarrow> u64 \<Rightarrow> u64 \<Rightarrow> fs_state \<Rightarrow> (kfault + (u64 \<times> fs_state)) option" where
  "fsLoadProgramFromGRAMADO fuel program_name buffer sz s =
    fsLoadProgram (sdGRAMADO s) fuel program_name buffer sz s"

definition fsLoadProgramFromDE ::
  "nat \<Rightarrow> u8 list option \<Rightarrow> u64 \<Rightarrow> u64 \<Rightarrow> fs_state \<Rightarrow> (kfault + (u64 \<times> fs_state)) option" where
  "fsLoadProgramFromDE fuel program_name buffer sz s =
    fsLoadProgram (sdDE s) fuel program_name buffer sz s"

section \<open>Saving a file\<close>

definition CLUSTERS_TO_SAVE_MAX :: nat where "CLUSTERS_TO_SAVE_MAX = 32 * 1024"

text \<open>
  The loop over the FAT that fills fat16ClustersToSave with free clusters: \<open>n\<close> entries are left to
  look at, \<open>c\<close> is the next, \<open>file_size\<close> clusters are still missing.
\<close>

fun find_clusters ::
  "nat \<Rightarrow> u64 \<Rightarrow> u64 \<Rightarrow> nat \<Rightarrow> (u64 \<Rightarrow> u8) \<Rightarrow> (nat \<Rightarrow> u16) \<Rightarrow> bool \<times> (nat \<Rightarrow> u16)" where
  "find_clusters 0 c file_size j m l = (False, l)"
| "find_clusters (Suc n) c file_size j m l =
    (if load16 m (VOLUME1_FAT_ADDRESS + 2 * c) = 0
     then if file_size = 0 then (True, l(j := 0xFFF8))
          else find_clusters n (c + 1) (file_size - 1) (j + 1) m (l(j := ucast c))
     else find_clusters n (c + 1) file_size j m l)"

definition DirEntry :: "u8 list \<Rightarrow> u8 \<Rightarrow> u16 \<Rightarrow> u64 \<Rightarrow> kfault + u8 list" where
  "DirEntry file_name flag first sz =
    (if length file_name < 11 then Inl (OutOfBounds ''file_name'')
     else Inr (take 8 file_name
       @ (if flag = 0x10 then [0x20, 0x20, 0x20] else take 3 (drop 8 file_name))
       @ [flag, 0, 0x97, 0xD3, 0xBA, 0xE2, 0x58, 0xE2, 0x58, 0, 0, 0xD3, 0xBA, 0xE2, 0x58]
       @ [low_byte first, high_byte first]
       @ (if flag = 0x10 then [0, 0, 0, 0]
          else [ucast sz, ucast (drop_bit 8 sz), ucast (drop_bit 16 sz), ucast (drop_bit 24 sz)])))"

definition put_fat :: "u16 \<Rightarrow> u16 \<Rightarrow> fs_state \<Rightarrow> fs_state" where
  "put_fat c v s = s\<lparr>fmem := store16 (VOLUME1_FAT_ADDRESS + 2 * ucast c) v (fmem s)\<rparr>"

text \<open>The loop that links the clusters in the FAT and writes them; TRUE when it met the end mark.\<close>

function save_clusters :: "nat \<Rightarrow> u64 \<Rightarrow> fs_state \<Rightarrow> kfault + (int \<times> fs_state)" where
  "save_clusters i address s =
    (let next = fat16ClustersToSave s i in
     if next = 0xFFF8
     then (if i = 0 then Inl (OutOfBounds ''fat16ClustersToSave[i-1]'')
           else Inr (TRUE, put_fat (fat16ClustersToSave s (i - 1)) 0xFFF8 s))
     else let s1 = put_fat next (fat16ClustersToSave s (i + 1)) s in
       case ataWriteSector address (cluster_lba next) (disk_ata_wait_irq s1) of
         Inl e \<Rightarrow> Inl e
       | Inr (_, s2) \<Rightarrow> if i + 1 > 16 then Inr (FALSE, s2) else save_clusters (i + 1) (address + 512) s2)"
  by pat_completeness auto
termination by (relation "measure (\<lambda>(i, _). 17 - i)") auto

definition fs_fat16_cache_not_saved :: "fs_state \<Rightarrow> fs_state" where
  "fs_fat16_cache_not_saved s = s\<lparr>g_fat_cache_saved := FAT_CACHE_NOT_SAVED\<rparr>"

definition fsSaveFile ::
  "u64 \<Rightarrow> u64 \<Rightarrow> int \<Rightarrow> u8 list option \<Rightarrow> u64 \<Rightarrow> u64 \<Rightarrow> u64 \<Rightarrow> u8 \<Rightarrow> fs_state
     \<Rightarrow> kfault + (int \<times> fs_state)" where
  "fsSaveFile fat_addr dir_address direntries file_name file_size size_in_bytes file_address flag s =
    (if fat_addr = 0 then Inl (KPanic ''fsSaveFile: fat_address'')
     else if dir_address = 0 then Inl (KPanic ''fsSaveFile: dir_address'')
     else if fat_addr \<noteq> VOLUME1_FAT_ADDRESS then Inl (KPanic ''fsSaveFile: fat_address'')
     else case file_name of None \<Rightarrow> Inr (1, s)
     | Some nm \<Rightarrow>
     if nm = [] then Inl (OutOfBounds ''file_name'')
     else if hd nm = 0 then Inr (1, s)
     else if direntries = 0 \<or> direntries > FAT16_ROOT_ENTRIES then Inl (KPanic ''fsSaveFile: [FAIL] max dir entries'')
     else if file_size > 16 then Inr (1, s)
     else kbind (fs_load_rootdir VOLUME1_ROOTDIR_ADDRESS VOLUME1_ROOTDIR_LBA 32 s) (\<lambda>s1.
     kbind (fs_load_fat VOLUME1_FAT_ADDRESS VOLUME1_FAT_LBA 246 s1) (\<lambda>s2.
     let (enough, l) = find_clusters CLUSTERS_TO_SAVE_MAX 3 file_size 0 (fmem s2) (fat16ClustersToSave s2);
         s3 = s2\<lparr>fat16ClustersToSave := l\<rparr> in
       if \<not> enough then Inr (1, s3)
       else kbind (DirEntry nm flag (l 0) size_in_bytes) (\<lambda>entry.
       let FreeIndex = findEmptyDirectoryEntry dir_address direntries s3 in
       if FreeIndex = -1 then Inr (1, s3)
       else let s4 = s3\<lparr>fmem := put_bytes (dir_address + 2 * word_of_int (FreeIndex * 16)) entry (fmem s3)\<rparr> in
       kbind (save_clusters 0 file_address s4) (\<lambda>(done, s5).
       if done \<noteq> TRUE then Inr (1, s5)
       else kbind (fs_save_rootdir VOLUME1_ROOTDIR_ADDRESS VOLUME1_ROOTDIR_LBA 32 s5) (\<lambda>(_, s6).
         Inr (0, fs_fat16_cache_not_saved s6)))))))"

definition do_write_file_to_disk ::
  "u8 list option \<Rightarrow> u64 \<Rightarrow> u64 \<Rightarrow> u64 \<Rightarrow> u8 \<Rightarrow> fs_state \<Rightarrow> kfault + (int \<times> fs_state)" where
  "do_write_file_to_disk file_name file_size size_in_bytes file_address flag s =
    (case file_name of None \<Rightarrow> Inr (-22, s)
     | Some nm \<Rightarrow>
     if nm = [] then Inl (OutOfBounds ''file_name'')
     else if hd nm = 0 then Inr (-22, s)
     else fsSaveFile VOLUME1_FAT_ADDRESS VOLUME1_ROOTDIR_ADDRESS FAT16_ROOT_ENTRIES
            (Some (if hd nm = 47 then tl nm else nm)) file_size size_in_bytes file_address flag s)"

section \<open>The cached FAT\<close>

definition fs_save_fat16_cache :: "fs_state \<Rightarrow> kfault + (int \<times> fs_state)" where
  "fs_save_fat16_cache s =
    (if g_fat_cache_saved s \<noteq> FAT_CACHE_NOT_SAVED then Inr (-1, s)
     else kbind (fs_save_fat VOLUME1_FAT_ADDRESS VOLUME1_FAT_LBA VOLUME1_FAT_SIZE s) (\<lambda>(_, s1).
       Inr (0, s1\<lparr>g_fat_cache_saved := FAT_CACHE_SAVED\<rparr>)))"


section \<open>What the disk holds\<close>

text \<open>
  The specification's view: the root directory on the disk, the FAT (the cached one once it is
  loaded), the first entry a name finds, the chains of the FAT and the bytes of their clusters.
\<close>

definition fs_ok :: "fs_state \<Rightarrow> bool" where
  "fs_ok s \<longleftrightarrow> disk_ok s \<and> g_currentvolume_fatbits s = 16 \<and> 591 \<le> sectors s
     \<and> (case root s of None \<Rightarrow> False
        | Some r \<Rightarrow> fs_used r = TRUE \<and> fs_magic r = 1234 \<and> 0 < spc r \<and> dir_entries r = FAT16_ROOT_ENTRIES)"

definition root_image :: "fs_state \<Rightarrow> u8 list" where
  "root_image s = concat (map (sec s) [559..<559 + 32])"

definition fat_image :: "fs_state \<Rightarrow> u8 list" where
  "fat_image s = (if g_fat_cache_loaded s = FAT_CACHE_LOADED then mem_bytes (fmem s) VOLUME1_FAT_ADDRESS 125952
     else concat (map (sec s) [67..<67 + 246]))"

definition fat_val :: "fs_state \<Rightarrow> nat \<Rightarrow> u16" where
  "fat_val s c = word16 (fat_image s ! (2 * c)) (fat_image s ! (2 * c + 1))"

definition dirent :: "fs_state \<Rightarrow> nat \<Rightarrow> u8 list" where
  "dirent s i = take 32 (drop (32 * i) (root_image s))"

definition dirent_begins :: "fs_state \<Rightarrow> u8 list \<Rightarrow> nat \<Rightarrow> bool" where
  "dirent_begins s nm i \<longleftrightarrow> (dirent s i ! 0 \<noteq> 0 \<or> dirent s i ! 1 \<noteq> 0) \<and> take (length nm) (dirent s i) = nm"

definition lookup :: "fs_state \<Rightarrow> u8 list \<Rightarrow> nat option" where
  "lookup s nm = find (dirent_begins s nm) [0..<512]"

definition dirent_cluster :: "fs_state \<Rightarrow> nat \<Rightarrow> u16" where
  "dirent_cluster s i = word16 (dirent s i ! 26) (dirent s i ! 27)"

definition dirent_size :: "fs_state \<Rightarrow> nat \<Rightarrow> u32" where
  "dirent_size s i = load32 (\<lambda>k. dirent s i ! unat k) 28"

definition cluster_ok :: "fs_state \<Rightarrow> u16 \<Rightarrow> bool" where
  "cluster_ok s c \<longleftrightarrow> 2 \<le> c \<and> unat c < 62976 \<and> 589 + unat c < sectors s"

fun is_chain :: "fs_state \<Rightarrow> u16 list \<Rightarrow> bool" where
  "is_chain s [] \<longleftrightarrow> False"
| "is_chain s [c] \<longleftrightarrow> cluster_ok s c \<and> (fat_val s (unat c) = 0xFFFF \<or> fat_val s (unat c) = 0xFFF8)"
| "is_chain s (c # d # cs) \<longleftrightarrow> cluster_ok s c \<and> fat_val s (unat c) = d \<and> is_chain s (d # cs)"

definition cluster_data :: "fs_state \<Rightarrow> u16 list \<Rightarrow> u8 list" where
  "cluster_data s cs = concat (map (\<lambda>c. sec s (589 + unat c)) cs)"

text \<open>A buffer for \<open>n\<close> clusters that keeps clear of the cached FAT and of the protected addresses.\<close>

definition buffer_ok :: "u64 \<Rightarrow> nat \<Rightarrow> bool" where
  "buffer_ok b n \<longleftrightarrow> apart b (512 * n) VOLUME1_FAT_ADDRESS 125952
     \<and> (\<forall>i<n. check_address_validation (b + of_nat (512 * i)) = TRUE)"

lemma fs_ok_disk: "fs_ok s \<Longrightarrow> disk_ok s" by (simp add: fs_ok_def)

lemma fs_ok_frame [simp]:
  "fs_ok (s\<lparr>fmem := m\<rparr>) = fs_ok s" "fs_ok (s\<lparr>g_fat_cache_loaded := i\<rparr>) = fs_ok s"
  "fs_ok (s\<lparr>g_fat_cache_saved := i\<rparr>) = fs_ok s" "fs_ok (s\<lparr>ata_irq_invoked := i\<rparr>) = fs_ok s"
  "fs_ok (s\<lparr>fat16ClustersToSave := c\<rparr>) = fs_ok s"
  by (simp_all add: fs_ok_def)

lemma image_length:
  assumes "disk_ok s"
  shows "length (root_image s) = 16384" "length (fat_image s) = 125952"
  using concat_secs_length[OF assms, of 559 32] concat_secs_length[OF assms, of 67 246]
  by (simp_all add: root_image_def fat_image_def del: upt_rec_numeral)

lemma fs_load_rootdir_ok:
  assumes "fs_ok s"
  shows "fs_load_rootdir VOLUME1_ROOTDIR_ADDRESS VOLUME1_ROOTDIR_LBA 32 s
    = Inr (s\<lparr>fmem := put_bytes VOLUME1_ROOTDIR_ADDRESS (root_image s) (fmem s)\<rparr>)"
  using load_sequential_ok[of s 559 32] assms
  by (simp add: fs_load_rootdir_def fs_ok_def VOLUME1_ROOTDIR_LBA_def root_image_def del: upt_rec_numeral)

lemma fs_load_fat_ok:
  assumes "fs_ok s"
  obtains m where "fs_load_fat VOLUME1_FAT_ADDRESS VOLUME1_FAT_LBA 246 s
      = Inr (s\<lparr>fmem := m, g_fat_cache_loaded := FAT_CACHE_LOADED\<rparr>)"
    and "mem_bytes m VOLUME1_FAT_ADDRESS 125952 = fat_image s"
    and "\<And>x. unat x < 0x30000 \<or> 0x4EC00 \<le> unat x \<Longrightarrow> m x = fmem s x"
proof (cases "g_fat_cache_loaded s = FAT_CACHE_LOADED")
  case True
  then have "s\<lparr>fmem := fmem s, g_fat_cache_loaded := FAT_CACHE_LOADED\<rparr> = s" by simp
  then show thesis using that[of "fmem s"] True by (simp add: fs_load_fat_def fat_image_def)
next
  case False
  let ?m = "put_bytes VOLUME1_FAT_ADDRESS (fat_image s) (fmem s)"
  have len: "length (fat_image s) = 125952" using image_length[of s] assms by (simp add: fs_ok_def)
  show thesis
  proof (rule that[of ?m])
    show "fs_load_fat VOLUME1_FAT_ADDRESS VOLUME1_FAT_LBA 246 s
      = Inr (s\<lparr>fmem := ?m, g_fat_cache_loaded := FAT_CACHE_LOADED\<rparr>)"
      using load_sequential_ok[of s 67 246] assms False
      by (simp add: fs_load_fat_def fs_ok_def VOLUME1_FAT_LBA_def fat_image_def del: upt_rec_numeral)
    show "mem_bytes ?m VOLUME1_FAT_ADDRESS 125952 = fat_image s"
      using mem_bytes_put_bytes[of "fat_image s" VOLUME1_FAT_ADDRESS] len by simp
    show "unat x < 0x30000 \<or> 0x4EC00 \<le> unat x \<Longrightarrow> ?m x = fmem s x" for x
      by (rule put_bytes_out) (simp_all add: len VOLUME1_FAT_ADDRESS_def)
  qed
qed

section \<open>Loading a chain\<close>

lemma fat_at_val:
  assumes "g_fat_cache_loaded s = FAT_CACHE_LOADED" and "unat c < 62976"
  shows "fat_at s c = fat_val s (unat c)"
proof -
  have "VOLUME1_FAT_ADDRESS + 2 * ucast c = VOLUME1_FAT_ADDRESS + 2 * of_nat (unat c)" by simp
  then show ?thesis
    using assms load16_mem_bytes[of "unat c" 125952 "fmem s" VOLUME1_FAT_ADDRESS]
    by (simp add: fat_at_def fat_val_def fat_image_def)
qed

lemma cluster_lba_nat: "2 \<le> c \<Longrightarrow> cluster_lba c = of_nat (589 + unat c)"
  by (simp add: cluster_lba_def)

lemma cluster_in_range: "cluster_ok s c \<Longrightarrow> c \<noteq> 0 \<and> \<not> c > 0xFFF0 \<and> c \<noteq> 0xFFF7 \<and> c \<noteq> 0xFFFF \<and> c \<noteq> 0xFFF8"
  by (auto simp: cluster_ok_def word_less_nat_alt word_le_nat_alt)

lemma read_cluster:
  assumes "fs_ok s" and "cluster_ok s c"
  shows "read_lba a (cluster_lba c) s = Inr (s\<lparr>fmem := put_bytes a (sec s (589 + unat c)) (fmem s)\<rparr>)"
  using ataReadSector_ok[of s "589 + unat c" a] assms cluster_lba_nat[of c]
  by (simp add: read_lba_def fs_ok_def cluster_ok_def)

lemma fat_image_apart:
  assumes "g_fat_cache_loaded s = FAT_CACHE_LOADED" and "apart b (length xs) VOLUME1_FAT_ADDRESS 125952"
  shows "fat_image (s\<lparr>fmem := put_bytes b xs (fmem s)\<rparr>) = fat_image s"
  using assms mem_bytes_apart[of VOLUME1_FAT_ADDRESS 125952 b xs] apart_commute
  by (simp add: fat_image_def)

lemma is_chain_cong:
  assumes "sectors t = sectors s" and "\<And>c. c \<in> set cs \<Longrightarrow> fat_val t (unat c) = fat_val s (unat c)"
  shows "is_chain t cs = is_chain s cs"
  using assms(2)
proof (induction cs)
  case (Cons c cs)
  then show ?case by (cases cs) (simp_all add: cluster_ok_def assms(1))
qed simp


lemma buffer_ok_step:
  assumes "buffer_ok b (Suc n)" and "0 < n"
  shows "buffer_ok (b + 512) n"
proof -
  have "apart (b + of_nat 512) (512 * n) VOLUME1_FAT_ADDRESS 125952"
    using assms by (intro apart_sub[where n = "512 * Suc n"]) (auto simp: buffer_ok_def)
  moreover have "check_address_validation (b + 512 + of_nat (512 * i)) = TRUE" if "i < n" for i
  proof -
    have "b + 512 + of_nat (512 * i) = b + of_nat (512 * Suc i)" by simp
    then show ?thesis using assms(1) that unfolding buffer_ok_def by (metis Suc_less_eq)
  qed
  ultimately show ?thesis by (simp add: buffer_ok_def)
qed

lemma cluster_data_length: "disk_ok s \<Longrightarrow> length (cluster_data s cs) = 512 * length cs"
  by (induction cs) (simp_all add: cluster_data_def sec_length)

lemma load_chain_ok:
  assumes "fs_ok s" and "g_fat_cache_loaded s = FAT_CACHE_LOADED" and "is_chain s cs"
    and "length cs \<le> fuel" and "nreads + length cs \<le> 811" and "buffer_ok b (length cs)"
  shows "load_chain fuel (hd cs) b nreads s
    = Some (Inr (0, s\<lparr>fmem := put_bytes b (cluster_data s cs) (fmem s)\<rparr>))"
  using assms
proof (induction cs arbitrary: fuel b nreads s)
  case (Cons c cs)
  obtain f where f: "fuel = Suc f" using Cons.prems(4) by (cases fuel) auto
  let ?d = "sec s (589 + unat c)"
  let ?t = "s\<lparr>fmem := put_bytes b ?d (fmem s)\<rparr>"
  have ok: "disk_ok s" and c: "cluster_ok s c" using Cons.prems(1,3) by (cases cs, simp_all add: fs_ok_def)+
  have len: "length ?d = 512" using sec_length[OF ok] .
  have addr: "check_address_validation b = TRUE" using Cons.prems(6) by (auto simp: buffer_ok_def)
  have ap: "apart b (length ?d) VOLUME1_FAT_ADDRESS 125952"
    using Cons.prems(6) by (auto simp: buffer_ok_def apart_def len)
  have same: "fat_val ?t n = fat_val s n" for n
    using fat_image_apart[OF Cons.prems(2) ap] by (simp add: fat_val_def)
  have nxt: "fat_at ?t c = fat_val s (unat c)"
    using fat_at_val[of ?t c] same Cons.prems(2) c by (simp add: cluster_ok_def)
  show ?case
  proof (cases cs)
    case Nil
    then have "fat_val s (unat c) = 0xFFFF \<or> fat_val s (unat c) = 0xFFF8" using Cons.prems(3) by simp
    then show ?thesis
      using Nil Cons.prems(5) addr cluster_in_range[OF c] read_cluster[OF Cons.prems(1) c, of b] nxt
      by (auto simp: f IMAGESIZE_LIMIT_IN_KB_def cluster_data_def)
  next
    case (Cons d ds)
    then have d: "fat_val s (unat c) = d" "is_chain s cs" "cluster_ok s d"
      using Cons.prems(3) by (simp, simp, cases ds, simp_all)
    have b: "buffer_ok (b + 512) (length cs)"
      using buffer_ok_step[of b "length cs"] Cons.prems(6) Cons by simp
    have "load_chain f (hd cs) (b + 512) (nreads + 1) ?t
        = Some (Inr (0, ?t\<lparr>fmem := put_bytes (b + 512) (cluster_data ?t cs) (fmem ?t)\<rparr>))"
      using Cons.prems d is_chain_cong[of ?t s cs] same f b
      by (intro Cons.IH) simp_all
    moreover have "put_bytes (b + 512) (cluster_data ?t cs) (fmem ?t) = put_bytes b (cluster_data s (c # cs)) (fmem s)"
      using mem_put_append[of ?d "cluster_data s cs" b "fmem s"] len cluster_data_length[OF ok, of cs]
        Cons.prems(5) by (simp add: cluster_data_def)
    ultimately show ?thesis
      using Cons d addr cluster_in_range[OF c] cluster_in_range[OF d(3)] read_cluster[OF Cons.prems(1) c, of b] nxt
      by (simp add: f SECTOR_SIZE_def)
  qed
qed simp


section \<open>Looking up a name\<close>

lemma kfind_total: "(\<And>i. i \<in> set is \<Longrightarrow> P i = Inr (Q i)) \<Longrightarrow> kfind P is = Inr (find Q is)"
  by (induction "is") auto

lemma kstrncmp_same_length:
  "length xs = length ys \<Longrightarrow> \<exists>st. kstrncmp (xs @ 0 # r) (ys @ 0 # t) (length xs) = Inr st \<and> (st = 0 \<longleftrightarrow> ys = xs)"
  by (induction xs ys rule: list_induct2) auto

lemma entry_begins_eq:
  assumes "length nm < k"
  shows "entry_begins k (nm @ 0 # r) (length nm) m dir i
    = Inr (load16 m (dir + of_nat (32 * i)) \<noteq> 0 \<and> mem_bytes m (dir + of_nat (32 * i)) (length nm) = nm)"
proof -
  let ?z = "dir + of_nat (32 * i)"
  let ?b = "mem_bytes m ?z (length nm)"
  have c: "memcpy (replicate k 0) ?b (length nm) = Inr (?b @ replicate (k - length nm) 0)"
    using assms by (simp add: memcpy_eq)
  have "(?b @ replicate (k - length nm) 0)[length nm := 0] = ?b @ 0 # replicate (k - length nm - 1) 0"
    using assms by (cases "k - length nm") (simp_all add: list_update_append)
  then show ?thesis
    using kstrncmp_same_length[of nm ?b r "replicate (k - length nm - 1) 0"] c
    by (auto simp: entry_begins_def Let_def)
qed

definition root_loaded :: "fs_state \<Rightarrow> (u64 \<Rightarrow> u8) \<Rightarrow> bool" where
  "root_loaded s m \<longleftrightarrow> mem_bytes m VOLUME1_ROOTDIR_ADDRESS 16384 = root_image s"

lemma dirent_mem:
  assumes "root_loaded s m" and "i < 512"
  shows "dirent s i = mem_bytes m (VOLUME1_ROOTDIR_ADDRESS + of_nat (32 * i)) 32"
proof -
  have "drop (32 * i) (root_image s) = mem_bytes m (VOLUME1_ROOTDIR_ADDRESS + of_nat (32 * i)) (16384 - 32 * i)"
    using assms(1) drop_mem_bytes[of "32 * i" m VOLUME1_ROOTDIR_ADDRESS 16384] by (simp add: root_loaded_def)
  then show ?thesis using assms(2) by (simp add: dirent_def take_mem_bytes)
qed

lemma dirent_nth:
  assumes "root_loaded s m" and "i < 512" and "k < 32"
  shows "m (VOLUME1_ROOTDIR_ADDRESS + of_nat (32 * i) + of_nat k) = dirent s i ! k"
  using dirent_mem[OF assms(1,2)] assms(3) by simp

lemma entry_begins_root:
  assumes "root_loaded s m" and "i < 512" and "length nm < k" and "length nm \<le> 32"
  shows "entry_begins k (nm @ 0 # r) (length nm) m VOLUME1_ROOTDIR_ADDRESS i = Inr (dirent_begins s nm i)"
proof -
  note e = dirent_nth[OF assms(1,2)]
  have "load16 m (VOLUME1_ROOTDIR_ADDRESS + of_nat (32 * i)) \<noteq> 0 \<longleftrightarrow> dirent s i ! 0 \<noteq> 0 \<or> dirent s i ! 1 \<noteq> 0"
    using e[of 0] e[of 1] by (simp add: load16_def)
  then show ?thesis
    using dirent_mem[OF assms(1,2)] assms(4)
    by (simp add: entry_begins_eq[OF assms(3)] dirent_begins_def take_mem_bytes)
qed

lemma search_root:
  assumes "root_loaded s m" and "length nm < k" and "length nm \<le> 32"
  shows "kfind (entry_begins k (nm @ 0 # r) (length nm) m VOLUME1_ROOTDIR_ADDRESS) [0..<512] = Inr (lookup s nm)"
  unfolding lookup_def by (rule kfind_total, rule entry_begins_root) (use assms in auto)

lemma root_loaded_put:
  "disk_ok s \<Longrightarrow> root_loaded s (put_bytes VOLUME1_ROOTDIR_ADDRESS (root_image s) m)"
  using mem_bytes_put_bytes[of "root_image s" VOLUME1_ROOTDIR_ADDRESS m] image_length[of s]
  by (simp add: root_loaded_def)

lemma lookup_Some: "lookup s nm = Some i \<Longrightarrow> i < 512 \<and> dirent_begins s nm i"
  by (auto simp: lookup_def find_Some_iff)

text \<open>A C string: the name and its end.\<close>

definition name_ok :: "u8 list \<Rightarrow> bool" where
  "name_ok nm \<longleftrightarrow> nm \<noteq> [] \<and> 0 \<notin> set nm \<and> length nm \<le> 11"

lemma strlen_name: "0 \<notin> set nm \<Longrightarrow> strlen (nm @ 0 # r) = Inr (length nm)"
  by (simp add: strlen_cstr)

lemma name_hd: "name_ok nm \<Longrightarrow> hd (nm @ 0 # r) = hd nm \<and> hd nm \<noteq> 0 \<and> nm @ 0 # r \<noteq> []"
  by (cases nm) (auto simp: name_ok_def)

lemma dirent_size_mem:
  assumes "root_loaded s m" and "i < 512"
  shows "load32 m (VOLUME1_ROOTDIR_ADDRESS + of_nat (32 * i) + 28) = dirent_size s i"
  using dirent_nth[OF assms, of 28] dirent_nth[OF assms, of 29] dirent_nth[OF assms, of 30]
    dirent_nth[OF assms, of 31]
  by (simp add: load32_def dirent_size_def add.assoc)

lemma dirent_cluster_mem:
  assumes "root_loaded s m" and "i < 512"
  shows "load16 m (VOLUME1_ROOTDIR_ADDRESS + of_nat (32 * i) + 26) = dirent_cluster s i"
  using dirent_nth[OF assms, of 26] dirent_nth[OF assms, of 27]
  by (simp add: load16_def dirent_cluster_def add.assoc)

text \<open>fsGetFileSize() in the root directory: the size field of the first entry that begins with the name.\<close>

lemma fsGetFileSize_root:
  assumes "fs_ok s" and "name_ok nm"
  shows "fsGetFileSize (Some (nm @ 0 # r)) VOLUME1_ROOTDIR_ADDRESS s
    = Inr (case lookup s nm of None \<Rightarrow> 0 | Some i \<Rightarrow> ucast (dirent_size s i),
           s\<lparr>fmem := put_bytes VOLUME1_ROOTDIR_ADDRESS (root_image s) (fmem s)\<rparr>)"
proof -
  let ?m = "put_bytes VOLUME1_ROOTDIR_ADDRESS (root_image s) (fmem s)"
  obtain q where q: "root s = Some q" "spc q > 0" "dir_entries q = FAT16_ROOT_ENTRIES"
    using assms(1) by (auto simp: fs_ok_def split: option.splits)
  have l: "root_loaded s ?m" using root_loaded_put assms(1) by (simp add: fs_ok_def)
  have n: "length nm \<le> 11" "0 \<notin> set nm" using assms(2) by (auto simp: name_ok_def)
  have d: "VOLUME1_ROOTDIR_ADDRESS \<noteq> 0" by (simp add: VOLUME1_ROOTDIR_ADDRESS_def)
  have f: "kfind (entry_begins 13 (nm @ 0 # r) (length nm) ?m VOLUME1_ROOTDIR_ADDRESS) [0..<512]
      = Inr (lookup s nm)"
    using search_root[OF l, of nm 13 r] n by (simp del: upt_rec_numeral)
  show ?thesis
  proof (cases "lookup s nm")
    case None
    then show ?thesis
      using f q d name_hd[OF assms(2), of r] fs_load_rootdir_ok[OF assms(1)] strlen_name[OF n(2), of r] n(1)
      by (simp add: fsGetFileSize_def FAT16_ROOT_ENTRIES_def Let_def del: upt_rec_numeral)
  next
    case (Some i)
    then have "i < 512" using lookup_Some by blast
    then show ?thesis
      using Some f q d name_hd[OF assms(2), of r] fs_load_rootdir_ok[OF assms(1)] strlen_name[OF n(2), of r] n(1)
        dirent_size_mem[OF l]
      by (simp add: fsGetFileSize_def FAT16_ROOT_ENTRIES_def Let_def del: upt_rec_numeral)
  qed
qed


section \<open>Loading a file\<close>

lemma and_mask_32: "x < 2 ^ 32 \<Longrightarrow> (x :: u64) AND 0xFFFFFFFF = x"
proof -
  assume "x < 2 ^ 32"
  then have "take_bit 32 x = x" by (simp add: take_bit_word_eq_self word_less_nat_alt take_bit_nat_eq_self word_unat_eq_iff unsigned_take_bit_eq)
  then show ?thesis by (simp add: take_bit_eq_mask mask_eq_exp_minus_1)
qed

lemma is_chain_hd: "is_chain s cs \<Longrightarrow> cs \<noteq> [] \<and> cluster_ok s (hd cs)"
  by (cases "(s, cs)" rule: is_chain.cases) auto

lemma is_chain_ok: "is_chain s cs \<Longrightarrow> c \<in> set cs \<Longrightarrow> cluster_ok s c"
  by (induction s cs rule: is_chain.induct) auto

text \<open>Both caches are filled before a file is loaded or saved.\<close>

lemma load_both:
  assumes "fs_ok s"
  obtains m where "fs_load_fat VOLUME1_FAT_ADDRESS VOLUME1_FAT_LBA 246
        (s\<lparr>fmem := put_bytes VOLUME1_ROOTDIR_ADDRESS (root_image s) (fmem s)\<rparr>)
      = Inr (s\<lparr>fmem := m, g_fat_cache_loaded := FAT_CACHE_LOADED\<rparr>)"
    and "mem_bytes m VOLUME1_FAT_ADDRESS 125952 = fat_image s" and "root_loaded s m"
    and "\<And>x. unat x < 0x30000 \<or> (0x4EC00 \<le> unat x \<and> unat x < 0x70000) \<or> 0x74000 \<le> unat x \<Longrightarrow> m x = fmem s x"
proof -
  let ?m = "put_bytes VOLUME1_ROOTDIR_ADDRESS (root_image s) (fmem s)"
  let ?s1 = "s\<lparr>fmem := ?m\<rparr>"
  note ok = fs_ok_disk[OF assms]
  note len = image_length[OF ok]
  have image: "fat_image ?s1 = fat_image s"
  proof (cases "g_fat_cache_loaded s = FAT_CACHE_LOADED")
    case True
    then show ?thesis
      by (intro fat_image_apart) (simp_all add: apart_def len VOLUME1_FAT_ADDRESS_def VOLUME1_ROOTDIR_ADDRESS_def)
  qed (simp add: fat_image_def del: upt_rec_numeral)
  obtain m where m: "fs_load_fat VOLUME1_FAT_ADDRESS VOLUME1_FAT_LBA 246 ?s1
        = Inr (?s1\<lparr>fmem := m, g_fat_cache_loaded := FAT_CACHE_LOADED\<rparr>)"
      "mem_bytes m VOLUME1_FAT_ADDRESS 125952 = fat_image ?s1"
      "\<And>x. unat x < 0x30000 \<or> 0x4EC00 \<le> unat x \<Longrightarrow> m x = fmem ?s1 x"
    using fs_load_fat_ok[of ?s1] assms by (metis fs_ok_frame(1))
  have "m (VOLUME1_ROOTDIR_ADDRESS + of_nat j) = ?m (VOLUME1_ROOTDIR_ADDRESS + of_nat j)" if "j < 16384" for j
  proof -
    have "unat (VOLUME1_ROOTDIR_ADDRESS + of_nat j) = 0x70000 + j"
      using that by (simp add: VOLUME1_ROOTDIR_ADDRESS_def unat_word_ariths unat_of_nat)
    then show ?thesis using m(3)[of "VOLUME1_ROOTDIR_ADDRESS + of_nat j"] by simp
  qed
  then have "mem_bytes m VOLUME1_ROOTDIR_ADDRESS 16384 = mem_bytes ?m VOLUME1_ROOTDIR_ADDRESS 16384"
    by (intro nth_equalityI) simp_all
  then have loaded: "root_loaded s m" using root_loaded_put[OF ok, of "fmem s"] by (simp add: root_loaded_def)
  have out: "m x = fmem s x" if "unat x < 0x30000 \<or> (0x4EC00 \<le> unat x \<and> unat x < 0x70000) \<or> 0x74000 \<le> unat x" for x
    using that m(3)[of x] put_bytes_out[of x VOLUME1_ROOTDIR_ADDRESS "root_image s" "fmem s"] len
    by (auto simp: VOLUME1_ROOTDIR_ADDRESS_def)
  show thesis
    by (rule that[of m]) (use m(1,2) image loaded out in simp_all)
qed

lemma fsLoadFile_enters:
  assumes "fs_ok s" and "name_ok nm" and "lookup s nm = Some i" and "cluster_ok s (dirent_cluster s i)"
    and "ucast (dirent_size s i) < sz" and "sz \<le> 512 * 4096"
  obtains m where "fsLoadFile fuel VOLUME1_FAT_ADDRESS VOLUME1_ROOTDIR_ADDRESS 512 (Some (nm @ 0 # r)) b sz s
      = load_chain fuel (dirent_cluster s i) b 0 (s\<lparr>fmem := m, g_fat_cache_loaded := FAT_CACHE_LOADED\<rparr>)"
    and "mem_bytes m VOLUME1_FAT_ADDRESS 125952 = fat_image s"
    and "\<And>x. unat x < 0x30000 \<or> (0x4EC00 \<le> unat x \<and> unat x < 0x70000) \<or> 0x74000 \<le> unat x \<Longrightarrow> m x = fmem s x"
proof -
  let ?m = "put_bytes VOLUME1_ROOTDIR_ADDRESS (root_image s) (fmem s)"
  let ?s1 = "s\<lparr>fmem := ?m\<rparr>"
  note ok = fs_ok_disk[OF assms(1)]
  obtain q where q: "root s = Some q" "spc q > 0" "dir_entries q = FAT16_ROOT_ENTRIES" "fs_used q = TRUE" "fs_magic q = 1234"
    using assms(1) by (auto simp: fs_ok_def split: option.splits)
  have i: "i < 512" using lookup_Some[OF assms(3)] by simp
  have n: "length nm \<le> 11" "0 \<notin> set nm" using assms(2) by (auto simp: name_ok_def)
  have l: "root_loaded s ?m" using root_loaded_put[OF ok] .
  have found: "kfind (entry_begins 256 (nm @ 0 # r) (length nm) ?m VOLUME1_ROOTDIR_ADDRESS) [0..<512] = Inr (Some i)"
    using search_root[OF l, of nm 256 r] n assms(3) by (simp del: upt_rec_numeral)
  obtain m where m: "fs_load_fat VOLUME1_FAT_ADDRESS VOLUME1_FAT_LBA 246 ?s1
        = Inr (s\<lparr>fmem := m, g_fat_cache_loaded := FAT_CACHE_LOADED\<rparr>)"
      "mem_bytes m VOLUME1_FAT_ADDRESS 125952 = fat_image s"
      "\<And>x. unat x < 0x30000 \<or> (0x4EC00 \<le> unat x \<and> unat x < 0x70000) \<or> 0x74000 \<le> unat x \<Longrightarrow> m x = fmem s x"
    using load_both[OF assms(1)] by metis
  have sz: "sz AND 0xFFFFFFFF = sz" "\<not> sz > 512 * 4096" "sz \<noteq> 0" "\<not> sz \<le> ucast (dirent_size s i)"
    using and_mask_32[of sz] assms(5,6) by (auto simp: word_less_nat_alt word_le_nat_alt)
  have c: "dirent_cluster s i \<noteq> 0 \<and> \<not> dirent_cluster s i > 0xFFF0" using cluster_in_range[OF assms(4)] by simp
  show thesis
  proof (rule that[of m])
    show "fsLoadFile fuel VOLUME1_FAT_ADDRESS VOLUME1_ROOTDIR_ADDRESS 512 (Some (nm @ 0 # r)) b sz s
      = load_chain fuel (dirent_cluster s i) b 0 (s\<lparr>fmem := m, g_fat_cache_loaded := FAT_CACHE_LOADED\<rparr>)"
      using q name_hd[OF assms(2), of r] strlen_name[OF n(2), of r] n(1) fsGetFileSize_root[OF assms(1,2), of r]
        assms(3,5) sz found m(1) c dirent_cluster_mem[OF l i]
      by (simp add: fsLoadFile_def VOLUME1_FAT_ADDRESS_def VOLUME1_ROOTDIR_ADDRESS_def FAT16_ROOT_ENTRIES_def Let_def
          del: upt_rec_numeral)
    show "mem_bytes m VOLUME1_FAT_ADDRESS 125952 = fat_image s" by (rule m(2))
  qed (rule m(3))
qed

lemma fsLoadFile_root:
  assumes "fs_ok s" and "name_ok nm" and "lookup s nm = Some i" and "is_chain s cs"
    and "hd cs = dirent_cluster s i" and "length cs \<le> 811" and "length cs \<le> fuel"
    and "ucast (dirent_size s i) < sz" and "sz \<le> 512 * 4096" and "buffer_ok b (length cs)"
  obtains m where "fsLoadFile fuel VOLUME1_FAT_ADDRESS VOLUME1_ROOTDIR_ADDRESS 512 (Some (nm @ 0 # r)) b sz s
      = Some (Inr (0, s\<lparr>fmem := put_bytes b (cluster_data s cs) m, g_fat_cache_loaded := FAT_CACHE_LOADED\<rparr>))"
    and "mem_bytes m VOLUME1_FAT_ADDRESS 125952 = fat_image s"
    and "\<And>x. unat x < 0x30000 \<or> (0x4EC00 \<le> unat x \<and> unat x < 0x70000) \<or> 0x74000 \<le> unat x \<Longrightarrow> m x = fmem s x"
proof -
  have c: "cluster_ok s (dirent_cluster s i)" using is_chain_hd[OF assms(4)] assms(5) by simp
  obtain m where m: "fsLoadFile fuel VOLUME1_FAT_ADDRESS VOLUME1_ROOTDIR_ADDRESS 512 (Some (nm @ 0 # r)) b sz s
      = load_chain fuel (dirent_cluster s i) b 0 (s\<lparr>fmem := m, g_fat_cache_loaded := FAT_CACHE_LOADED\<rparr>)"
    "mem_bytes m VOLUME1_FAT_ADDRESS 125952 = fat_image s"
    "\<And>x. unat x < 0x30000 \<or> (0x4EC00 \<le> unat x \<and> unat x < 0x70000) \<or> 0x74000 \<le> unat x \<Longrightarrow> m x = fmem s x"
    using fsLoadFile_enters[OF assms(1-3) c assms(8,9)] by metis
  let ?t = "s\<lparr>fmem := m, g_fat_cache_loaded := FAT_CACHE_LOADED\<rparr>"
  have "fat_image ?t = fat_image s" using m(2) by (simp add: fat_image_def del: upt_rec_numeral)
  then have chain: "is_chain ?t cs" using assms(4) by (simp add: is_chain_cong[of ?t s] fat_val_def)
  have "cluster_data ?t cs = cluster_data s cs" by (simp add: cluster_data_def)
  then show thesis
    using that[OF _ m(2,3)] m(1) load_chain_ok[of ?t cs fuel 0 b] assms chain by simp
qed

text \<open>A chain that breaks off in a free cluster stops the kernel.\<close>

lemma load_chain_breaks:
  assumes "fs_ok s" and "g_fat_cache_loaded s = FAT_CACHE_LOADED" and "cluster_ok s c" and "fat_val s (unat c) = 0"
    and "buffer_ok b 2" and "2 \<le> fuel"
  shows "load_chain fuel c b 0 s = Some (Inl (KPanic ''fsLoadFile: fat[] vector limits.''))"
proof -
  obtain f where f: "fuel = Suc (Suc f)" using assms(6) by (metis add_2_eq_Suc le_Suc_ex)
  let ?t = "s\<lparr>fmem := put_bytes b (sec s (589 + unat c)) (fmem s)\<rparr>"
  have ap: "apart b (length (sec s (589 + unat c))) VOLUME1_FAT_ADDRESS 125952"
    using assms(5) sec_length[OF fs_ok_disk[OF assms(1)]] by (auto simp: buffer_ok_def apart_def)
  have addr: "check_address_validation (b + of_nat (512 * i)) = TRUE" if "i < 2" for i
    using assms(5) that by (simp add: buffer_ok_def)
  have "check_address_validation b = TRUE" "check_address_validation (b + 512) = TRUE"
    using addr[of 0] addr[of 1] by simp_all
  moreover have "fat_at ?t c = 0"
    using fat_at_val[of ?t c] fat_image_apart[OF assms(2) ap] assms(2-4) by (simp add: fat_val_def cluster_ok_def)
  ultimately show ?thesis
    using read_cluster[OF assms(1,3), of b] cluster_in_range[OF assms(3)] by (simp add: f SECTOR_SIZE_def)
qed

end
