(* ===== verification/KSave.thy ===== *)
theory KSave
  imports KFat
begin

text \<open>
  Saving a file: what fsSaveFile() of fslib.c leaves on the disk, in the cached FAT and in the root
  directory, and how loading sees it afterwards.
\<close>

section \<open>The free clusters\<close>

definition free_clusters :: "fs_state \<Rightarrow> nat list" where
  "free_clusters s = filter (\<lambda>c. fat_val s c = 0) [3..<3 + CLUSTERS_TO_SAVE_MAX]"

lemma of_nat_Suc_minus:
  assumes "k < 2 ^ 64" and "k = Suc k'"
  shows "(of_nat k :: u64) \<noteq> 0 \<and> (of_nat k :: u64) - 1 = of_nat k'"
proof
  have "unat (of_nat k :: u64) \<noteq> 0" unfolding unat_of_nat using assms by simp
  then show "(of_nat k :: u64) \<noteq> 0" by (metis unat_0)
  show "(of_nat k :: u64) - 1 = of_nat k'" using assms(2) by simp
qed

lemma find_clusters_found:
  assumes "\<And>x. P x \<longleftrightarrow> load16 m (VOLUME1_FAT_ADDRESS + 2 * of_nat x) = 0"
    and "filter P [c..<c + n] = fs" and "k < length fs" and "k < 2 ^ 64"
  shows "find_clusters n (of_nat c) (of_nat k) j m l = (True, \<lambda>x. if j \<le> x \<and> x < j + k
      then ucast (of_nat (fs ! (x - j)) :: u64) else if x = j + k then 0xFFF8 else l x)"
  using assms(2-)
proof (induction n arbitrary: c k j l fs)
  case (Suc n)
  have up: "[c..<c + Suc n] = c # [Suc c..<Suc c + n]" by (simp add: upt_conv_Cons del: upt_Suc)
  show ?case
  proof (cases "P c")
    case False
    then have "filter P [Suc c..<Suc c + n] = fs" using Suc.prems(1) unfolding up by simp
    from Suc.IH[OF this Suc.prems(2,3)] show ?thesis using False assms(1)[of c] by (simp add: add.commute)
  next
    case True
    define gs where "gs = filter P [Suc c..<Suc c + n]"
    have fs: "fs = c # gs" using True Suc.prems(1) unfolding up gs_def by simp
    show ?thesis
    proof (cases k)
      case 0
      then show ?thesis using True assms(1)[of c] by (auto simp: fun_eq_iff)
    next
      case (Suc k')
      have "find_clusters n (of_nat (Suc c)) (of_nat k') (Suc j) m (l(j := ucast (of_nat c :: u64)))
        = (True, \<lambda>x. if Suc j \<le> x \<and> x < Suc j + k' then ucast (of_nat (gs ! (x - Suc j)) :: u64)
            else if x = Suc j + k' then 0xFFF8 else (l(j := ucast (of_nat c :: u64))) x)"
        using Suc.prems Suc fs by (intro Suc.IH) (simp_all add: gs_def)
      moreover have "(\<lambda>x. if Suc j \<le> x \<and> x < Suc j + k' then ucast (of_nat (gs ! (x - Suc j)) :: u64)
            else if x = Suc j + k' then 0xFFF8 else (l(j := ucast (of_nat c :: u64))) x)
        = (\<lambda>x. if j \<le> x \<and> x < j + k then ucast (of_nat (fs ! (x - j)) :: u64) else if x = j + k then 0xFFF8 else l x)"
        by (rule ext) (auto simp: fs Suc nth_Cons' Suc_diff_Suc)
      ultimately show ?thesis
        using True assms(1)[of c] of_nat_Suc_minus[OF Suc.prems(3) Suc] by (simp add: add.commute)
    qed
  qed
qed simp

lemma find_clusters_full:
  assumes "\<And>x. P x \<longleftrightarrow> load16 m (VOLUME1_FAT_ADDRESS + 2 * of_nat x) = 0"
    and "length (filter P [c..<c + n]) \<le> k" and "k < 2 ^ 64"
  shows "\<not> fst (find_clusters n (of_nat c) (of_nat k) j m l)"
  using assms(2-)
proof (induction n arbitrary: c k j l)
  case (Suc n)
  have up: "[c..<c + Suc n] = c # [Suc c..<Suc c + n]" by (simp add: upt_conv_Cons del: upt_Suc)
  show ?case
  proof (cases "P c")
    case False
    then have "length (filter P [Suc c..<Suc c + n]) \<le> k" using Suc.prems(1) unfolding up by simp
    from Suc.IH[OF this Suc.prems(2)] show ?thesis using False assms(1)[of c] by (simp add: add.commute)
  next
    case True
    then obtain k' where k: "k = Suc k'" using Suc.prems(1) unfolding up by (cases k) auto
    then have "length (filter P [Suc c..<Suc c + n]) \<le> k'" using True Suc.prems(1) unfolding up by simp
    from Suc.IH[OF this, of "Suc j" "l(j := ucast (of_nat c :: u64))"] show ?thesis
      using Suc.prems(2) True assms(1)[of c] of_nat_Suc_minus[OF Suc.prems(2) k] k
      by (simp add: add.commute del: fun_upd_apply)
  qed
qed simp

lemma unat_inj: "unat (a :: 'a::len word) = unat b \<Longrightarrow> a = b"
  by (simp add: word_unat_eq_iff)

lemma unat_ucast_16 [simp]: "unat (ucast (c :: u16) :: u64) = unat c"
proof -
  have "unat c < 2 ^ 16" by (rule order_less_le_trans[OF unsigned_less]) simp
  then show ?thesis by (simp add: unsigned_ucast_eq take_bit_nat_eq_self)
qed

section \<open>Writing the clusters\<close>

fun link :: "u16 list \<Rightarrow> (nat \<Rightarrow> u16) \<Rightarrow> nat \<Rightarrow> u16" where
  "link [] f = f"
| "link [c] f = f(unat c := 0xFFF8)"
| "link (c # d # cs) f = link (d # cs) (f(unat c := d))"

fun put_clusters :: "u16 list \<Rightarrow> (u64 \<Rightarrow> u8) \<Rightarrow> u64 \<Rightarrow> (nat \<Rightarrow> u8 list) \<Rightarrow> nat \<Rightarrow> u8 list" where
  "put_clusters [] m a g = g"
| "put_clusters (c # cs) m a g = put_clusters cs m (a + 512) (g(589 + unat c := mem_bytes m a 512))"

lemma link_other: "n \<notin> unat ` set cs \<Longrightarrow> link cs f n = f n"
  by (induction cs f rule: link.induct) auto

lemma put_clusters_other: "(\<And>c. c \<in> set cs \<Longrightarrow> n \<noteq> 589 + unat c) \<Longrightarrow> put_clusters cs m a g n = g n"
  by (induction cs arbitrary: a g) auto

lemma link_chain:
  assumes "distinct cs" and "cs \<noteq> []" and "\<forall>c\<in>set cs. cluster_ok s c"
    and "\<And>n. n < 62976 \<Longrightarrow> fat_val s n = link cs f n"
  shows "is_chain s cs"
  using assms
proof (induction cs f rule: link.induct)
  case (2 c f)
  then show ?case by (simp add: cluster_ok_def)
next
  case (3 c d cs f)
  have "unat c \<notin> unat ` set (d # cs)" using 3(2) by (auto dest: unat_inj)
  then have "link (d # cs) (f(unat c := d)) (unat c) = d" by (subst link_other) simp_all
  moreover have "is_chain s (d # cs)" using 3 by (intro 3(1)) (simp_all del: fun_upd_apply)
  ultimately show ?case using 3(4,5) by (simp add: cluster_ok_def del: fun_upd_apply)
qed simp

lemma put_clusters_data:
  "distinct cs \<Longrightarrow> concat (map (\<lambda>c. put_clusters cs m a g (589 + unat c)) cs) = mem_bytes m a (512 * length cs)"
proof (induction cs arbitrary: a g)
  case (Cons c cs)
  have "put_clusters cs m (a + 512) (g(589 + unat c := mem_bytes m a 512)) (589 + unat c) = mem_bytes m a 512"
    using Cons.prems by (subst put_clusters_other) (auto dest: unat_inj)
  then show ?case using Cons mem_bytes_append[of m a 512 "512 * length cs"] by simp
qed (simp add: mem_bytes_def)

lemma fat_val_mem:
  assumes "g_fat_cache_loaded s = FAT_CACHE_LOADED" and "n < 62976"
  shows "fat_val s n = load16 (fmem s) (VOLUME1_FAT_ADDRESS + 2 * of_nat n)"
  using load16_mem_bytes[of n 125952 "fmem s" VOLUME1_FAT_ADDRESS] assms
  by (simp add: fat_val_def fat_image_def)

lemma fat_val_put_fat:
  assumes "g_fat_cache_loaded s = FAT_CACHE_LOADED" and "unat c < 62976" and "n < 62976"
  shows "fat_val (put_fat c v s) n = (if n = unat c then v else fat_val s n)"
proof -
  let ?a = "VOLUME1_FAT_ADDRESS + 2 * ucast c"
  have addr: "unat (VOLUME1_FAT_ADDRESS + 2 * of_nat k + of_nat e) = 0x30000 + 2 * k + e" if "k < 62976" "e < 2" for k e
  proof -
    have "VOLUME1_FAT_ADDRESS + 2 * of_nat k + of_nat e = (of_nat (0x30000 + 2 * k + e) :: u64)"
      by (simp add: VOLUME1_FAT_ADDRESS_def)
    moreover have "0x30000 + 2 * k + e < 2 ^ 64" using that by simp
    ultimately show ?thesis by (simp only: unat_of_nat_64)
  qed
  have ua: "unat ?a = 0x30000 + 2 * unat c" using addr[of "unat c" 0] assms(2) by simp
  have other: "put_bytes ?a [low_byte v, high_byte v] (fmem s) (VOLUME1_FAT_ADDRESS + 2 * of_nat n + of_nat e)
      = fmem s (VOLUME1_FAT_ADDRESS + 2 * of_nat n + of_nat e)" if "n \<noteq> unat c" "e < 2" for e
    by (rule put_bytes_out) (use addr[OF assms(3) that(2)] ua that assms(2) in auto)
  show ?thesis
  proof (cases "n = unat c")
    case True
    then show ?thesis using assms(1,3) fat_val_mem[of "put_fat c v s" n] by (simp add: put_fat_def)
  next
    case False
    have "load16 (fmem (put_fat c v s)) (VOLUME1_FAT_ADDRESS + 2 * of_nat n)
        = load16 (fmem s) (VOLUME1_FAT_ADDRESS + 2 * of_nat n)"
      using other[OF False, of 0] other[OF False, of 1] by (simp add: put_fat_def load16_def store16_def)
    then show ?thesis using False assms(1,3) fat_val_mem[of "put_fat c v s" n] fat_val_mem[of s n]
      by (simp add: put_fat_def)
  qed
qed

lemma put_fat_frame [simp]:
  "disk (put_fat c v s) = disk s" "fat16ClustersToSave (put_fat c v s) = fat16ClustersToSave s"
  "g_fat_cache_loaded (put_fat c v s) = g_fat_cache_loaded s" "fs_ok (put_fat c v s) = fs_ok s"
  "sec (put_fat c v s) = sec s" "gNumberOfSectorsInBootDisk (put_fat c v s) = gNumberOfSectorsInBootDisk s"
  "root (put_fat c v s) = root s" "g_fat_cache_saved (put_fat c v s) = g_fat_cache_saved s"
  by (simp_all add: put_fat_def)

lemma put_fat_mem:
  "unat c < 62976 \<Longrightarrow> unat x < 0x30000 \<or> 0x4EC00 \<le> unat x \<Longrightarrow> fmem (put_fat c v s) x = fmem s x"
proof -
  assume c: "unat c < 62976" and x: "unat x < 0x30000 \<or> 0x4EC00 \<le> unat x"
  have "unat (VOLUME1_FAT_ADDRESS + 2 * ucast c) = 0x30000 + 2 * unat c"
    using c by (simp add: VOLUME1_FAT_ADDRESS_def unat_word_ariths)
  then show ?thesis using c x by (auto simp: put_fat_def store16_def intro!: put_bytes_out)
qed

definition only_io :: "fs_state \<Rightarrow> fs_state \<Rightarrow> bool" where
  "only_io s t \<longleftrightarrow> t = s\<lparr>fmem := fmem t, disk := disk t, ata_irq_invoked := ata_irq_invoked t\<rparr>"

lemma only_io_frame:
  assumes "only_io s t"
  shows "g_fat_cache_loaded t = g_fat_cache_loaded s" "fat16ClustersToSave t = fat16ClustersToSave s"
    "gNumberOfSectorsInBootDisk t = gNumberOfSectorsInBootDisk s" "drive t = drive s" "root t = root s"
    "g_fat_cache_saved t = g_fat_cache_saved s"
proof -
  obtain m d q where "t = s\<lparr>fmem := m, disk := d, ata_irq_invoked := q\<rparr>"
    using assms unfolding only_io_def by blast
  then show "g_fat_cache_loaded t = g_fat_cache_loaded s" "fat16ClustersToSave t = fat16ClustersToSave s"
    "gNumberOfSectorsInBootDisk t = gNumberOfSectorsInBootDisk s" "drive t = drive s" "root t = root s"
    "g_fat_cache_saved t = g_fat_cache_saved s"
    by simp_all
qed

lemma only_io_trans: "only_io s t \<Longrightarrow> only_io t u \<Longrightarrow> only_io s u"
  by (cases s, cases t, cases u) (simp add: only_io_def)

text \<open>What save_clusters() has done when it returns TRUE for the clusters \<open>cs\<close> and the data at \<open>a\<close>.\<close>

definition wrote :: "u16 list \<Rightarrow> u64 \<Rightarrow> fs_state \<Rightarrow> fs_state \<Rightarrow> bool" where
  "wrote cs a s t \<longleftrightarrow> only_io s t \<and> fs_ok t
     \<and> (\<forall>x. unat x < 0x30000 \<or> 0x4EC00 \<le> unat x \<longrightarrow> fmem t x = fmem s x)
     \<and> (\<forall>n < 62976. fat_val t n = link cs (fat_val s) n)
     \<and> (\<forall>n < 2 ^ 32. sec t n = put_clusters cs (fmem s) a (sec s) n)"

lemma apart_fat:
  assumes "apart a n VOLUME1_FAT_ADDRESS 125952" and "k < n"
  shows "unat (a + of_nat k) < 0x30000 \<or> 0x4EC00 \<le> unat (a + of_nat k)"
proof -
  have "unat (a + of_nat k) = unat a + k"
    using assms by (auto simp: apart_def unat_word_ariths unat_of_nat)
  then show ?thesis using assms by (auto simp: apart_def VOLUME1_FAT_ADDRESS_def)
qed

lemma put_clusters_cong:
  "(\<And>k. k < 512 * length cs \<Longrightarrow> m (a + of_nat k) = m' (a + of_nat k)) \<Longrightarrow>
    put_clusters cs m a g = put_clusters cs m' a g"
proof (induction cs arbitrary: a g)
  case (Cons c cs)
  have "mem_bytes m a 512 = mem_bytes m' a 512"
    by (rule nth_equalityI) (simp_all add: Cons.prems)
  moreover have "m (a + 512 + of_nat k) = m' (a + 512 + of_nat k)" if "k < 512 * length cs" for k
    using Cons.prems[of "512 + k"] that by (simp add: add.assoc)
  ultimately show ?case using Cons.IH[of "a + 512"] by simp
qed simp

lemma link_cong: "(\<And>n. n < 62976 \<Longrightarrow> f n = g n) \<Longrightarrow> n < 62976 \<Longrightarrow> link cs f n = link cs g n"
proof (induction cs f arbitrary: g rule: link.induct)
  case (3 c d cs f)
  have "(f(unat c := d)) n = (g(unat c := d)) n" if "n < 62976" for n using 3(2)[OF that] by simp
  from 3(1)[OF this 3(3)] show ?case by (simp only: link.simps)
qed auto

lemma put_clusters_cong_init:
  "(\<And>n. n < 2 ^ 32 \<Longrightarrow> g n = g' n) \<Longrightarrow> n < 2 ^ 32 \<Longrightarrow> put_clusters cs m a g n = put_clusters cs m a g' n"
proof (induction cs arbitrary: a g g')
  case (Cons c cs)
  let ?u = "\<lambda>g. g(589 + unat c := mem_bytes m a 512)"
  have "?u g n = ?u g' n" if "n < 2 ^ 32" for n using Cons.prems(1)[OF that] by simp
  from Cons.IH[OF this Cons.prems(2)] show ?case by (simp only: put_clusters.simps)
qed simp

lemma wrote_cluster:
  assumes "fs_ok s" and "g_fat_cache_loaded s = FAT_CACHE_LOADED" and "cluster_ok s c"
    and "apart a (512 * Suc n) VOLUME1_FAT_ADDRESS 125952"
  obtains r t where "ataWriteSector a (cluster_lba c) (disk_ata_wait_irq (put_fat c v s)) = Inr (r, t)"
    and "only_io s t" and "fs_ok t"
    and "\<And>x. unat x < 0x30000 \<or> 0x4EC00 \<le> unat x \<Longrightarrow> fmem t x = fmem s x"
    and "\<And>n. n < 62976 \<Longrightarrow> fat_val t n = ((fat_val s)(unat c := v)) n"
    and "\<And>n. n < 2 ^ 32 \<Longrightarrow> sec t n = ((sec s)(589 + unat c := mem_bytes (fmem s) a 512)) n"
proof -
  have c: "unat c < 62976" "589 + unat c < sectors s" "2 \<le> c" using assms(3) by (simp_all add: cluster_ok_def)
  let ?s = "disk_ata_wait_irq (put_fat c v s)"
  have ok: "fs_ok ?s" using assms(1) by (simp add: disk_ata_wait_irq_def)
  have mem: "unat x < 0x30000 \<or> 0x4EC00 \<le> unat x \<Longrightarrow> fmem ?s x = fmem s x" for x
    using put_fat_mem[OF c(1)] by (simp add: disk_ata_wait_irq_def)
  have same: "mem_bytes (fmem ?s) a 512 = mem_bytes (fmem s) a 512"
    by (rule nth_equalityI) (use mem apart_fat[OF assms(4)] in simp_all)
  let ?t = "put_secs (589 + unat c) 1 (\<lambda>_. mem_bytes (fmem s) a 512) ?s"
  have "\<exists>r. ataWriteSector a (of_nat (589 + unat c)) ?s = Inr (r, put_sec (589 + unat c) (mem_bytes (fmem ?s) a 512) ?s)"
    using c(2) by (intro ataWriteSector_ok) (use ok in \<open>simp_all add: fs_ok_def disk_ata_wait_irq_def\<close>)
  then obtain r where "ataWriteSector a (cluster_lba c) ?s = Inr (r, ?t)"
    using c by (auto simp: cluster_lba_nat same put_sec_secs)
  then show thesis
  proof (rule that)
    show "only_io s ?t"
      by (simp add: only_io_def put_secs_def disk_ata_wait_irq_def put_fat_def)
    show "fs_ok ?t" using ok by (simp add: fs_ok_def)
    show "\<And>x. unat x < 0x30000 \<or> 0x4EC00 \<le> unat x \<Longrightarrow> fmem ?t x = fmem s x" using mem by simp
    show "fat_val ?t n = ((fat_val s)(unat c := v)) n" if "n < 62976" for n
    proof -
      have "fat_image ?t = fat_image (put_fat c v s)"
        using assms(2) by (simp add: fat_image_def disk_ata_wait_irq_def)
      then show ?thesis using fat_val_put_fat[OF assms(2) c(1) that, of v] by (simp add: fat_val_def)
    qed
    show "sec ?t n = ((sec s)(589 + unat c := mem_bytes (fmem s) a 512)) n" if "n < 2 ^ 32" for n
      using that by (auto simp: sec_put_secs disk_ata_wait_irq_def)
  qed
qed

declare save_clusters.simps [simp del]

lemma save_clusters_ok:
  assumes "fs_ok s" and "g_fat_cache_loaded s = FAT_CACHE_LOADED" and "cs \<noteq> []"
    and "\<forall>c\<in>set cs. cluster_ok s c" and "\<forall>j<length cs. fat16ClustersToSave s (i + j) = cs ! j"
    and "fat16ClustersToSave s (i + length cs) = 0xFFF8" and "i + length cs \<le> 16"
    and "apart a (512 * length cs) VOLUME1_FAT_ADDRESS 125952"
  shows "\<exists>t. save_clusters i a s = Inr (TRUE, t) \<and> wrote cs a s t"
  using assms
proof (induction cs arbitrary: i a s)
  case (Cons c cs)
  let ?l = "fat16ClustersToSave s"
  have c: "cluster_ok s c" "?l i = c" "c \<noteq> 0xFFF8"
    using Cons.prems(4,5) cluster_in_range[of s c] by auto
  have ap: "apart a (512 * Suc (length cs)) VOLUME1_FAT_ADDRESS 125952" using Cons.prems(8) by simp
  obtain r t where t: "ataWriteSector a (cluster_lba c) (disk_ata_wait_irq (put_fat c (?l (i + 1)) s)) = Inr (r, t)"
      "only_io s t" "fs_ok t"
      "\<And>x. unat x < 0x30000 \<or> 0x4EC00 \<le> unat x \<Longrightarrow> fmem t x = fmem s x"
      "\<And>n. n < 62976 \<Longrightarrow> fat_val t n = ((fat_val s)(unat c := ?l (i + 1))) n"
      "\<And>n. n < 2 ^ 32 \<Longrightarrow> sec t n = ((sec s)(589 + unat c := mem_bytes (fmem s) a 512)) n"
    using wrote_cluster[OF Cons.prems(1,2) c(1) ap, of "?l (i + 1)"] by metis
  have same: "g_fat_cache_loaded t = FAT_CACHE_LOADED" "fat16ClustersToSave t = ?l" "sectors t = sectors s"
    using only_io_frame[OF t(2)] Cons.prems(2) by simp_all
  have step: "save_clusters i a s = save_clusters (i + 1) (a + 512) t"
    using t(1) c Cons.prems(7) by (subst save_clusters.simps) (simp add: Let_def)
  show ?case
  proof (cases cs)
    case Nil
    then have l1: "?l (i + 1) = 0xFFF8" using Cons.prems(6) by simp
    let ?u = "put_fat c 0xFFF8 t"
    have "save_clusters (i + 1) (a + 512) t = Inr (TRUE, ?u)"
      using l1 c same by (subst save_clusters.simps) (simp add: Let_def)
    moreover have "wrote (c # cs) a s ?u"
      unfolding wrote_def
    proof (intro conjI allI impI)
      show "only_io s ?u" using t(2) by (rule only_io_trans) (simp add: only_io_def put_fat_def)
      show "fs_ok ?u" using t(3) by simp
      have cu: "unat c < 62976" using c(1) by (simp add: cluster_ok_def)
      show "fmem ?u x = fmem s x" if "unat x < 0x30000 \<or> 0x4EC00 \<le> unat x" for x
        using put_fat_mem[OF cu that] t(4)[OF that] by simp
      show "fat_val ?u n = link (c # cs) (fat_val s) n" if "n < 62976" for n
        using fat_val_put_fat[OF same(1) cu that] t(5)[OF that] Nil by auto
      show "sec ?u n = put_clusters (c # cs) (fmem s) a (sec s) n" if "n < 2 ^ 32" for n
        using t(6)[OF that] Nil by simp
    qed
    ultimately show ?thesis using step by auto
  next
    case (Cons d ds)
    have ok: "\<forall>c\<in>set cs. cluster_ok t c" using Cons.prems(4) same by (auto simp: cluster_ok_def)
    have a: "apart (a + 512) (512 * length cs) VOLUME1_FAT_ADDRESS 125952"
      using apart_sub[OF ap, of 512 "512 * length cs"] Cons by simp
    have "\<forall>j<length cs. fat16ClustersToSave t (i + 1 + j) = cs ! j"
      using Cons.prems(5) same by (metis Suc_less_eq add.assoc length_Cons nth_Cons_Suc plus_1_eq_Suc)
    then obtain u where u: "save_clusters (i + 1) (a + 512) t = Inr (TRUE, u)" "wrote cs (a + 512) t u"
      using Cons.IH[of t "i + 1" "a + 512"] t(3) same ok a Cons Cons.prems(6,7) by auto
    have l1: "?l (i + 1) = d" using Cons.prems(5) Cons by auto
    have "wrote (c # cs) a s u"
      unfolding wrote_def
    proof (intro conjI allI impI)
      show "only_io s u"
        using t(2) u(2) by (auto simp: wrote_def intro: only_io_trans)
      show "fs_ok u" using u(2) by (simp add: wrote_def)
      show "fmem u x = fmem s x" if "unat x < 0x30000 \<or> 0x4EC00 \<le> unat x" for x
        using u(2) t(4)[OF that] that by (auto simp: wrote_def)
      show "fat_val u n = link (c # cs) (fat_val s) n" if "n < 62976" for n
        using u(2) that link_cong[of "fat_val t" "(fat_val s)(unat c := d)" n cs] t(5) l1 Cons
        by (simp add: wrote_def)
      show "sec u n = put_clusters (c # cs) (fmem s) a (sec s) n" if "n < 2 ^ 32" for n
      proof -
        have "put_clusters cs (fmem t) (a + 512) g = put_clusters cs (fmem s) (a + 512) g" for g
          by (rule put_clusters_cong) (use t(4) apart_fat[OF a] in blast)
        then show ?thesis
          using u(2) that put_clusters_cong_init[of "sec t" "(sec s)(589 + unat c := mem_bytes (fmem s) a 512)" n] t(6)
          by (simp add: wrote_def)
      qed
    qed
    then show ?thesis using step u(1) by auto
  qed
qed simp


section \<open>Saving\<close>

lemma concat_mem_bytes:
  "concat (map (\<lambda>i. mem_bytes m (a + of_nat (512 * (i - l))) 512) [l..<l + n]) = mem_bytes m a (512 * n)"
proof (induction n)
  case (Suc n)
  then show ?case using mem_bytes_append[of m a "512 * n" 512] by (simp add: add.commute)
qed (simp add: mem_bytes_def)

lemma fs_save_rootdir_ok:
  assumes "fs_ok s"
  obtains t where "fs_save_rootdir VOLUME1_ROOTDIR_ADDRESS VOLUME1_ROOTDIR_LBA 32 s = Inr (0, t)"
    and "only_io s t" and "fmem t = fmem s" and "fs_ok t"
    and "root_image t = mem_bytes (fmem s) VOLUME1_ROOTDIR_ADDRESS 16384"
    and "\<And>n. n < 2 ^ 32 \<Longrightarrow> n < 559 \<or> 591 \<le> n \<Longrightarrow> sec t n = sec s n"
proof -
  let ?f = "\<lambda>i. mem_bytes (fmem s) (VOLUME1_ROOTDIR_ADDRESS + of_nat (512 * i)) 512"
  obtain q where q: "kfold (save_step VOLUME1_ROOTDIR_ADDRESS (of_nat 559)) [0..<32] s
      = Inr (put_secs 559 32 ?f (s\<lparr>ata_irq_invoked := q\<rparr>))"
    using save_steps_ok[of s 559 32 VOLUME1_ROOTDIR_ADDRESS] assms by (auto simp: fs_ok_def simp del: upt_rec_numeral)
  let ?t = "put_secs 559 32 ?f (s\<lparr>ata_irq_invoked := q\<rparr>)"
  show thesis
  proof (rule that[of ?t])
    show "fs_save_rootdir VOLUME1_ROOTDIR_ADDRESS VOLUME1_ROOTDIR_LBA 32 s = Inr (0, ?t)"
      using q by (simp add: fs_save_rootdir_def do_save_sequence_def VOLUME1_ROOTDIR_LBA_def
          VOLUME1_ROOTDIR_ADDRESS_def del: upt_rec_numeral)
    show "only_io s ?t" by (simp add: only_io_def put_secs_def)
    show "fmem ?t = fmem s" by simp
    show "fs_ok ?t" using assms by (simp add: fs_ok_def)
    have "map (sec ?t) [559..<559 + 32] = map (\<lambda>i. ?f (i - 559)) [559..<559 + 32]"
      by (rule map_cong) (simp_all add: sec_put_secs del: upt_rec_numeral)
    then have "root_image ?t = concat (map (\<lambda>i. ?f (i - 559)) [559..<559 + 32])"
      unfolding root_image_def by (simp only:)
    also have "\<dots> = mem_bytes (fmem s) VOLUME1_ROOTDIR_ADDRESS (512 * 32)" by (rule concat_mem_bytes)
    finally show "root_image ?t = mem_bytes (fmem s) VOLUME1_ROOTDIR_ADDRESS 16384" by simp
    show "sec ?t n = sec s n" if "n < 2 ^ 32" "n < 559 \<or> 591 \<le> n" for n
      using that by (auto simp: sec_put_secs)
  qed
qed

definition free_entry :: "fs_state \<Rightarrow> nat option" where
  "free_entry s = find (\<lambda>i. dirent s i ! 0 = 0) [0..<512]"

lemma find_cong_set: "(\<And>x. x \<in> set xs \<Longrightarrow> P x = Q x) \<Longrightarrow> find P xs = find Q xs"
  by (induction xs) auto

lemma findEmpty_root:
  assumes "root_loaded s (fmem t)"
  shows "findEmptyDirectoryEntry VOLUME1_ROOTDIR_ADDRESS FAT16_ROOT_ENTRIES t
    = (case free_entry s of Some i \<Rightarrow> int i | None \<Rightarrow> -1)"
proof -
  have "find (\<lambda>i. fmem t (VOLUME1_ROOTDIR_ADDRESS + of_nat (32 * i)) = 0) [0..<512] = free_entry s"
    unfolding free_entry_def
    by (rule find_cong_set) (use dirent_nth[OF assms, of _ 0] in \<open>simp del: upt_rec_numeral\<close>)
  then show ?thesis
    by (simp add: findEmptyDirectoryEntry_def FAT16_ROOT_ENTRIES_def VOLUME1_ROOTDIR_ADDRESS_def del: upt_rec_numeral)
qed

lemma word32_bytes:
  "push_bit 24 (ucast (ucast (drop_bit 24 sz) :: u8)) OR push_bit 16 (ucast (ucast (drop_bit 16 sz) :: u8))
    OR push_bit 8 (ucast (ucast (drop_bit 8 sz) :: u8)) OR ucast (ucast sz :: u8) = (ucast (sz :: u64) :: u32)"
proof (rule bit_word_eqI)
  fix n assume n: "n < LENGTH(32)"
  consider "n < 8" | k where "n = 8 + k" "k < 8" | k where "n = 16 + k" "k < 8" | k where "n = 24 + k" "k < 8"
  proof -
    have "n < 8 \<or> (8 \<le> n \<and> n < 16) \<or> (16 \<le> n \<and> n < 24) \<or> (24 \<le> n \<and> n < 32)" using n by auto
    then show ?thesis using that by (elim disjE conjE) (auto dest!: le_Suc_ex simp: nat_less_iff)
  qed
  then show "bit (push_bit 24 (ucast (ucast (drop_bit 24 sz) :: u8)) OR push_bit 16 (ucast (ucast (drop_bit 16 sz) :: u8))
    OR push_bit 8 (ucast (ucast (drop_bit 8 sz) :: u8)) OR ucast (ucast sz :: u8) :: u32) n = bit (ucast sz :: u32) n"
    by cases (auto simp: bit_simps)
qed

lemma DirEntry_ok:
  assumes "length nm = 11"
  obtains entry where "DirEntry (nm @ r) flag first sz = Inr entry" and "length entry = 32"
    and "flag \<noteq> 0x10 \<Longrightarrow> take 11 entry = nm" and "word16 (entry ! 26) (entry ! 27) = first"
    and "flag \<noteq> 0x10 \<Longrightarrow> load32 (\<lambda>k. entry ! unat k) 28 = ucast sz"
proof -
  have nm: "take 8 nm @ take 3 (drop 8 nm) = nm" using take_add[of 8 3 nm] assms by simp
  let ?x = "take 8 nm @ (if flag = 0x10 then [0x20, 0x20, 0x20] else take 3 (drop 8 nm))"
  let ?z = "if flag = 0x10 then [0, 0, 0, 0]
    else [ucast sz, ucast (drop_bit 8 sz), ucast (drop_bit 16 sz), ucast (drop_bit 24 sz)]"
  let ?y = "[flag, 0, 0x97, 0xD3, 0xBA, 0xE2, 0x58, 0xE2, 0x58, 0, 0, 0xD3, 0xBA, 0xE2, 0x58,
    low_byte first, high_byte first]"
  have len: "length ?x = 11" "length ?y = 17" "length ?z = 4" using assms by auto
  have far: "length x = 11 \<Longrightarrow> length y = 17 \<Longrightarrow> (x @ y @ z) ! (28 + k) = z ! k"
      "length x = 11 \<Longrightarrow> length y = 17 \<Longrightarrow> k < 17 \<Longrightarrow> (x @ y @ z) ! (11 + k) = y ! k" for x y z :: "u8 list" and k
    by (simp_all add: nth_append)
  note far = far[OF len(1,2)]
  show thesis
  proof (rule that[of "?x @ ?y @ ?z"])
    show "DirEntry (nm @ r) flag first sz = Inr (?x @ ?y @ ?z)" using assms by (simp add: DirEntry_def)
    show "length (?x @ ?y @ ?z) = 32" using len assms by auto
    show "take 11 (?x @ ?y @ ?z) = nm" if "flag \<noteq> 0x10" using that nm len by simp
    show "word16 ((?x @ ?y @ ?z) ! 26) ((?x @ ?y @ ?z) ! 27) = first" using far(2)[of 15] far(2)[of 16] by simp
    show "load32 (\<lambda>k. (?x @ ?y @ ?z) ! unat k) 28 = ucast sz" if "flag \<noteq> 0x10"
      using that far(1)[of _ 0] far(1)[of _ 1] far(1)[of _ 2] far(1)[of _ 3] word32_bytes[of sz] by (simp add: load32_def)
  qed
qed

section \<open>What a save does\<close>

lemma free_list:
  assumes "mem_bytes m VOLUME1_FAT_ADDRESS 125952 = fat_image s"
  shows "filter (\<lambda>c. load16 m (VOLUME1_FAT_ADDRESS + 2 * of_nat c) = 0) [3..<3 + CLUSTERS_TO_SAVE_MAX] = free_clusters s"
  unfolding free_clusters_def
proof (rule filter_cong[OF refl])
  fix c assume "c \<in> set [3..<3 + CLUSTERS_TO_SAVE_MAX]"
  then have "c < 62976" by (simp add: CLUSTERS_TO_SAVE_MAX_def del: upt_rec_numeral)
  then show "(load16 m (VOLUME1_FAT_ADDRESS + 2 * of_nat c) = 0) = (fat_val s c = 0)"
    using load16_mem_bytes[of c 125952 m VOLUME1_FAT_ADDRESS] assms by (simp add: fat_val_def)
qed

lemma fsSaveFile_root:
  assumes "fs_ok s" and "33360 \<le> sectors s" and "length nm = 11" and "hd nm \<noteq> 0" and "flag \<noteq> 0x10"
    and "0 < k" and "k \<le> 16" and "k < length (free_clusters s)" and "free_entry s = Some e"
    and "apart a (512 * k) VOLUME1_FAT_ADDRESS 125952" and "apart a (512 * k) VOLUME1_ROOTDIR_ADDRESS 16384"
  defines "cs \<equiv> map of_nat (take k (free_clusters s)) :: u16 list"
  obtains t entry where
    "fsSaveFile VOLUME1_FAT_ADDRESS VOLUME1_ROOTDIR_ADDRESS 512 (Some (nm @ r)) (of_nat k) sz a flag s = Inr (0, t)"
    and "DirEntry (nm @ r) flag (hd cs) sz = Inr entry"
    and "fs_ok t" and "sectors t = sectors s" and "g_fat_cache_loaded t = FAT_CACHE_LOADED"
    and "g_fat_cache_saved t = FAT_CACHE_NOT_SAVED"
    and "\<And>n. n < 62976 \<Longrightarrow> fat_val t n = link cs (fat_val s) n"
    and "\<And>n. n < 2 ^ 32 \<Longrightarrow> n < 559 \<or> 591 \<le> n \<Longrightarrow> sec t n = put_clusters cs (fmem s) a (sec s) n"
    and "\<And>i. i < 512 \<Longrightarrow> dirent t i = (if i = e then entry else dirent s i)"
proof -
  let ?m1 = "put_bytes VOLUME1_ROOTDIR_ADDRESS (root_image s) (fmem s)"
  let ?s1 = "s\<lparr>fmem := ?m1\<rparr>"
  obtain m where m: "fs_load_fat VOLUME1_FAT_ADDRESS VOLUME1_FAT_LBA 246 ?s1
        = Inr (s\<lparr>fmem := m, g_fat_cache_loaded := FAT_CACHE_LOADED\<rparr>)"
      "mem_bytes m VOLUME1_FAT_ADDRESS 125952 = fat_image s" "root_loaded s m"
      "\<And>x. unat x < 0x30000 \<or> (0x4EC00 \<le> unat x \<and> unat x < 0x70000) \<or> 0x74000 \<le> unat x \<Longrightarrow> m x = fmem s x"
    using load_both[OF assms(1)] by metis
  note loaded = m(3)
  let ?s2 = "s\<lparr>fmem := m, g_fat_cache_loaded := FAT_CACHE_LOADED\<rparr>"
  have "fat_image ?s2 = fat_image s" using m(2) by (simp add: fat_image_def del: upt_rec_numeral)
  then have fat2: "fat_val ?s2 n = fat_val s n" for n by (simp add: fat_val_def)
  note free = free_list[OF m(2)]
  define L where "L = (\<lambda>x. if x < k then ucast (of_nat (free_clusters s ! x) :: u64)
      else if x = k then 0xFFF8 else fat16ClustersToSave s x :: u16)"
  have search: "find_clusters CLUSTERS_TO_SAVE_MAX 3 (of_nat k) 0 m (fat16ClustersToSave s) = (True, L)"
    using find_clusters_found[OF refl free assms(8), of 0 "fat16ClustersToSave s"] assms(7)
    by (simp add: L_def cong: if_cong)
  have lcs: "length cs = k" using assms(8) by (simp add: cs_def)
  have narrow: "(ucast (of_nat x :: u64) :: u16) = of_nat x" for x
    by (rule bit_word_eqI) (simp add: bit_simps)
  have L: "L j = cs ! j" if "j < k" for j
    using that assms(8) narrow by (simp add: L_def cs_def)
  have L0: "L 0 = hd cs" using L[of 0] lcs assms(6) by (metis hd_conv_nth length_0_conv not_gr_zero)
  let ?s3 = "?s2\<lparr>fat16ClustersToSave := L\<rparr>"
  obtain entry where entry: "DirEntry (nm @ r) flag (hd cs) sz = Inr entry" "length entry = 32"
    using DirEntry_ok[OF assms(3), of r flag "hd cs" sz] by metis
  have e: "e < 512" using assms(9) by (auto simp: free_entry_def find_Some_iff)
  have FreeIndex: "findEmptyDirectoryEntry VOLUME1_ROOTDIR_ADDRESS FAT16_ROOT_ENTRIES ?s3 = int e"
    using findEmpty_root[of s ?s3] loaded assms(9) by simp
  let ?ea = "VOLUME1_ROOTDIR_ADDRESS + of_nat (32 * e)"
  have ea: "VOLUME1_ROOTDIR_ADDRESS + 2 * word_of_int (int e * 16) = ?ea" by simp
  have uea: "unat ?ea = 0x70000 + 32 * e"
    using e by (simp add: VOLUME1_ROOTDIR_ADDRESS_def unat_word_ariths unat_of_nat)
  let ?m4 = "put_bytes ?ea entry m"
  let ?s4 = "?s3\<lparr>fmem := ?m4\<rparr>"
  have ok4: "fs_ok ?s4" "g_fat_cache_loaded ?s4 = FAT_CACHE_LOADED" using assms(1) by simp_all
  have "fat_image ?s4 = fat_image ?s2"
    using fat_image_apart[of ?s3 ?ea entry] e entry(2) uea
    by (simp add: apart_def VOLUME1_FAT_ADDRESS_def fat_image_def del: upt_rec_numeral)
  then have fat4: "fat_val ?s4 n = fat_val s n" for n using fat2[of n] by (simp add: fat_val_def)
  have cl: "\<forall>c\<in>set cs. cluster_ok ?s4 c"
  proof
    fix c assume "c \<in> set cs"
    then obtain x where x: "x \<in> set (free_clusters s)" "c = of_nat x" by (auto simp: cs_def dest: in_set_takeD)
    then have "3 \<le> x" "x < 32771" by (simp_all add: free_clusters_def CLUSTERS_TO_SAVE_MAX_def del: upt_rec_numeral)
    then show "cluster_ok ?s4 c" using x(2) assms(2) by (simp add: cluster_ok_def word_le_nat_alt unat_of_nat)
  qed
  have ne: "cs \<noteq> []" using lcs assms(6) by auto
  have l4: "\<forall>j<length cs. fat16ClustersToSave ?s4 (0 + j) = cs ! j" "fat16ClustersToSave ?s4 (0 + length cs) = 0xFFF8"
    using L lcs by (simp_all add: L_def)
  obtain u where u: "save_clusters 0 a ?s4 = Inr (TRUE, u)" "wrote cs a ?s4 u"
    using save_clusters_ok[OF ok4 ne cl l4] lcs assms(7,10) by auto
  note uf = only_io_frame[of ?s4 u]
  have uo: "only_io ?s4 u" "fs_ok u" using u(2) by (simp_all add: wrote_def)
  obtain t where t: "fs_save_rootdir VOLUME1_ROOTDIR_ADDRESS VOLUME1_ROOTDIR_LBA 32 u = Inr (0, t)"
      "only_io u t" "fmem t = fmem u" "fs_ok t"
      "root_image t = mem_bytes (fmem u) VOLUME1_ROOTDIR_ADDRESS 16384"
      "\<And>n. n < 2 ^ 32 \<Longrightarrow> n < 559 \<or> 591 \<le> n \<Longrightarrow> sec t n = sec u n"
    using fs_save_rootdir_ok[OF uo(2)] by metis
  let ?t = "fs_fat16_cache_not_saved t"
  have mem4: "?m4 (a + of_nat j) = fmem s (a + of_nat j)" if "j < 512 * k" for j
  proof -
    have x: "unat (a + of_nat j) = unat a + j"
      using that assms(10) by (auto simp: apart_def unat_word_ariths unat_of_nat)
    have far: "unat a + j < 0x30000 \<or> 0x4EC00 \<le> unat a + j" "unat a + j < 0x70000 \<or> 0x74000 \<le> unat a + j"
      using assms(10,11) that by (auto simp: apart_def VOLUME1_FAT_ADDRESS_def VOLUME1_ROOTDIR_ADDRESS_def)
    have "?m4 (a + of_nat j) = m (a + of_nat j)"
      by (rule put_bytes_out) (use x far(2) uea e entry(2) in auto)
    also have "\<dots> = fmem s (a + of_nat j)" by (rule m(4)) (use x far in auto)
    finally show ?thesis .
  qed
  have root_u: "mem_bytes (fmem u) VOLUME1_ROOTDIR_ADDRESS 16384 = mem_bytes ?m4 VOLUME1_ROOTDIR_ADDRESS 16384"
  proof (rule nth_equalityI)
    fix j assume "j < length (mem_bytes (fmem u) VOLUME1_ROOTDIR_ADDRESS 16384)"
    then have j: "j < 16384" by simp
    have "unat (VOLUME1_ROOTDIR_ADDRESS + of_nat j) = 0x70000 + j"
      using j by (simp add: VOLUME1_ROOTDIR_ADDRESS_def unat_word_ariths unat_of_nat)
    then show "mem_bytes (fmem u) VOLUME1_ROOTDIR_ADDRESS 16384 ! j = mem_bytes ?m4 VOLUME1_ROOTDIR_ADDRESS 16384 ! j"
      using u(2) j by (simp add: wrote_def)
  qed simp
  have loaded_t: "root_loaded t ?m4" using t(5) root_u by (simp add: root_loaded_def)
  show thesis
  proof (rule that[of ?t entry])
    show "fsSaveFile VOLUME1_FAT_ADDRESS VOLUME1_ROOTDIR_ADDRESS 512 (Some (nm @ r)) (of_nat k) sz a flag s = Inr (0, ?t)"
    proof -
      have "nm \<noteq> []" using assms(3) by auto
      then have nm: "hd (nm @ r) = hd nm" "nm @ r \<noteq> []" by simp_all
      have k: "\<not> (of_nat k :: u64) > 16" using assms(7) by (simp add: word_less_nat_alt unat_of_nat)
      have c: "VOLUME1_FAT_ADDRESS \<noteq> 0" "VOLUME1_ROOTDIR_ADDRESS \<noteq> 0" "FAT16_ROOT_ENTRIES = 512" "int e \<noteq> -1"
        by (simp_all add: VOLUME1_FAT_ADDRESS_def VOLUME1_ROOTDIR_ADDRESS_def FAT16_ROOT_ENTRIES_def)
      have f: "findEmptyDirectoryEntry VOLUME1_ROOTDIR_ADDRESS 512 ?s3 = int e" using FreeIndex c(3) by simp
      show ?thesis
        using c nm assms(4) k fs_load_rootdir_ok[OF assms(1)] m(1) search L0 entry(1) f u(1) t(1) ea
        by (simp add: fsSaveFile_def Let_def)
    qed
    show "DirEntry (nm @ r) flag (hd cs) sz = Inr entry" by (rule entry(1))
    show "fs_ok ?t" using t(4) by (simp add: fs_fat16_cache_not_saved_def)
    show "sectors ?t = sectors s"
      using only_io_frame(3)[OF t(2)] only_io_frame(3)[OF uo(1)] by (simp add: fs_fat16_cache_not_saved_def)
    show "g_fat_cache_loaded ?t = FAT_CACHE_LOADED"
      using only_io_frame(1)[OF t(2)] only_io_frame(1)[OF uo(1)] by (simp add: fs_fat16_cache_not_saved_def)
    show "g_fat_cache_saved ?t = FAT_CACHE_NOT_SAVED" by (simp add: fs_fat16_cache_not_saved_def)
    show "fat_val ?t n = link cs (fat_val s) n" if "n < 62976" for n
    proof -
      have "fat_image ?t = fat_image u"
        using t(3) only_io_frame(1)[OF t(2)] only_io_frame(1)[OF uo(1)]
        by (simp add: fat_image_def fs_fat16_cache_not_saved_def del: upt_rec_numeral)
      then have "fat_val ?t n = fat_val u n" by (simp add: fat_val_def)
      also have "\<dots> = link cs (fat_val ?s4) n" using u(2) that by (simp add: wrote_def)
      also have "\<dots> = link cs (fat_val s) n" by (rule link_cong[OF fat4 that])
      finally show ?thesis .
    qed
    show "sec ?t n = put_clusters cs (fmem s) a (sec s) n" if "n < 2 ^ 32" "n < 559 \<or> 591 \<le> n" for n
    proof -
      have "sec ?t n = sec u n" using t(6)[OF that] by (simp add: fs_fat16_cache_not_saved_def)
      also have "\<dots> = put_clusters cs ?m4 a (sec ?s4) n" using u(2) that(1) by (simp add: wrote_def)
      also have "\<dots> = put_clusters cs (fmem s) a (sec s) n"
        using put_clusters_cong[of cs ?m4 a "fmem s" "sec s"] mem4 lcs by simp
      finally show ?thesis .
    qed
    show "dirent ?t i = (if i = e then entry else dirent s i)" if "i < 512" for i
    proof -
      let ?ia = "VOLUME1_ROOTDIR_ADDRESS + of_nat (32 * i)"
      have "dirent ?t i = mem_bytes ?m4 ?ia 32"
        using dirent_mem[OF loaded_t that]
        by (simp add: dirent_def root_image_def fs_fat16_cache_not_saved_def del: upt_rec_numeral)
      also have "\<dots> = (if i = e then entry else dirent s i)"
      proof (cases "i = e")
        case True
        then show ?thesis using mem_bytes_put_bytes[of entry ?ea m] entry(2) by simp
      next
        case False
        have ui: "unat ?ia = 0x70000 + 32 * i"
          using that by (simp add: VOLUME1_ROOTDIR_ADDRESS_def unat_word_ariths unat_of_nat)
        have "apart ?ia 32 ?ea (length entry)"
          using False ui uea that e entry(2) by (auto simp: apart_def)
        then have "mem_bytes ?m4 ?ia 32 = mem_bytes m ?ia 32" by (rule mem_bytes_apart)
        then show ?thesis using False dirent_mem[OF loaded that] by simp
      qed
      finally show ?thesis .
    qed
  qed
qed


section \<open>The names after a save\<close>

text \<open>
  \<open>stores s nm cs sz\<close>: the name finds a directory entry with the chain \<open>cs\<close> and the size \<open>sz\<close>; the
  bytes of the file are the first \<open>sz\<close> of \<open>cluster_data s cs\<close>.
\<close>

definition stores :: "fs_state \<Rightarrow> u8 list \<Rightarrow> u16 list \<Rightarrow> u32 \<Rightarrow> bool" where
  "stores s nm cs sz \<longleftrightarrow> (\<exists>i. lookup s nm = Some i \<and> is_chain s cs \<and> hd cs = dirent_cluster s i
     \<and> dirent_size s i = sz)"

lemma length_dirent: "disk_ok s \<Longrightarrow> i < 512 \<Longrightarrow> length (dirent s i) = 32"
  using image_length(1)[of s] by (simp add: dirent_def)

lemma lookup_iff:
  "lookup s nm = Some i \<longleftrightarrow> i < 512 \<and> dirent_begins s nm i \<and> (\<forall>j<i. \<not> dirent_begins s nm j)"
  by (auto simp: lookup_def find_Some_iff simp del: upt_rec_numeral)

lemma lookup_None: "lookup s nm = None \<longleftrightarrow> (\<forall>i<512. \<not> dirent_begins s nm i)"
  by (auto simp: lookup_def find_None_iff simp del: upt_rec_numeral)

lemma dirent_begins_cong: "dirent t i = dirent s i \<Longrightarrow> dirent_begins t nm i = dirent_begins s nm i"
  by (simp add: dirent_begins_def)

lemma empty_entry_begins:
  assumes "dirent s i ! 0 = 0" and "name_ok nm" and "disk_ok s" and "i < 512"
  shows "\<not> dirent_begins s nm i"
proof
  assume "dirent_begins s nm i"
  then have "take (length nm) (dirent s i) = nm" by (simp add: dirent_begins_def)
  then have "nm ! 0 = dirent s i ! 0" using assms(2) by (metis length_greater_0_conv name_ok_def nth_take)
  then show False using assms(1,2) by (auto simp: name_ok_def) (metis length_greater_0_conv nth_mem)
qed

text \<open>The new entry is the only one that changes what a name finds.\<close>

lemma lookup_after:
  assumes "fs_ok s" and "free_entry s = Some e" and "name_ok nm'" and "take 11 entry = nm" and "length entry = 32"
    and "length nm = 11" and "\<forall>i<512. dirent t i = (if i = e then entry else dirent s i)"
  shows "take (length nm') nm \<noteq> nm' \<Longrightarrow> lookup t nm' = lookup s nm'"
    and "lookup s nm' = Some i \<Longrightarrow> i < e \<Longrightarrow> lookup t nm' = Some i"
    and "lookup s nm' = None \<Longrightarrow> take (length nm') nm = nm' \<Longrightarrow> lookup t nm' = Some e"
proof -
  have e: "e < 512" "dirent s e ! 0 = 0" using assms(2) by (auto simp: free_entry_def find_Some_iff)
  have old: "\<not> dirent_begins s nm' e"
    by (rule empty_entry_begins[OF e(2) assms(3) fs_ok_disk[OF assms(1)] e(1)])
  have same: "dirent_begins t nm' i = dirent_begins s nm' i" if "i < 512" "i \<noteq> e" for i
    using assms(7)[rule_format, OF that(1)] that(2) by (intro dirent_begins_cong) simp
  have n: "length nm' \<le> 11" "nm' \<noteq> []" "0 \<notin> set nm'" using assms(3) by (auto simp: name_ok_def)
  have tk: "take (length nm') entry = take (length nm') nm"
    using assms(4) n(1) by (metis min.absorb1 take_take)
  show "lookup t nm' = lookup s nm'" if "take (length nm') nm \<noteq> nm'"
  proof -
    have "\<not> dirent_begins t nm' e" using assms(7)[rule_format, OF e(1)] tk that by (simp add: dirent_begins_def)
    then show ?thesis unfolding lookup_def
      by (intro find_cong_set) (use same old in \<open>auto simp del: upt_rec_numeral\<close>)
  qed
  show "lookup t nm' = Some i" if "lookup s nm' = Some i" "i < e"
    using that same e(1) by (auto simp: lookup_iff)
  show "lookup t nm' = Some e" if "lookup s nm' = None" "take (length nm') nm = nm'"
  proof -
    have "entry ! 0 = nm' ! 0" using tk that(2) n(2) assms(5) by (metis length_greater_0_conv nth_take)
    then have "entry ! 0 \<noteq> 0" using n(2,3) by (metis length_greater_0_conv nth_mem)
    then have "dirent_begins t nm' e" using assms(7)[rule_format, OF e(1)] tk that(2) by (simp add: dirent_begins_def)
    then show ?thesis using that(1) same e(1) by (auto simp: lookup_iff lookup_None)
  qed
qed

lemma free_cluster: "c \<in> set (free_clusters s) \<Longrightarrow> 3 \<le> c \<and> c < 32771 \<and> fat_val s c = 0"
  by (simp add: free_clusters_def CLUSTERS_TO_SAVE_MAX_def del: upt_rec_numeral)

lemma chain_not_free: "is_chain s cs \<Longrightarrow> c \<in> set cs \<Longrightarrow> fat_val s (unat c) \<noteq> 0"
proof (induction s cs rule: is_chain.induct)
  case (3 s c d cs)
  have "d \<noteq> 0" using is_chain_hd[of s "d # cs"] 3(2) cluster_in_range[of s d] by auto
  then show ?case using 3 by auto
qed auto


definition can_save :: "fs_state \<Rightarrow> u8 list \<Rightarrow> nat \<Rightarrow> u64 \<Rightarrow> nat \<Rightarrow> bool" where
  "can_save s nm k a e \<longleftrightarrow> fs_ok s \<and> 33360 \<le> sectors s \<and> length nm = 11 \<and> name_ok nm
     \<and> 0 < k \<and> k \<le> 16 \<and> k < length (free_clusters s) \<and> free_entry s = Some e
     \<and> apart a (512 * k) VOLUME1_FAT_ADDRESS 125952 \<and> apart a (512 * k) VOLUME1_ROOTDIR_ADDRESS 16384"

lemma save_effect:
  assumes "can_save s nm k a e" and "flag \<noteq> 0x10"
  obtains t cs entry where
    "fsSaveFile VOLUME1_FAT_ADDRESS VOLUME1_ROOTDIR_ADDRESS 512 (Some (nm @ r)) (of_nat k) sz a flag s = Inr (0, t)"
    and "fs_ok t" and "g_fat_cache_loaded t = FAT_CACHE_LOADED" and "g_fat_cache_saved t = FAT_CACHE_NOT_SAVED"
    and "length cs = k" and "is_chain t cs" and "cluster_data t cs = mem_bytes (fmem s) a (512 * k)"
    and "hd cs = dirent_cluster t e" and "dirent_size t e = ucast sz"
    and "take 11 entry = nm" and "length entry = 32"
    and "\<And>i. i < 512 \<Longrightarrow> dirent t i = (if i = e then entry else dirent s i)"
    and "\<And>ds. is_chain s ds \<Longrightarrow> is_chain t ds \<and> cluster_data t ds = cluster_data s ds"
    and "\<And>n. n < 559 \<Longrightarrow> sec t n = sec s n" and "fat_val s (unat (hd cs)) = 0" and "sectors t = sectors s"
proof -
  let ?cs = "map of_nat (take k (free_clusters s)) :: u16 list"
  have a: "fs_ok s" "33360 \<le> sectors s" "length nm = 11" "0 < k" "k \<le> 16" "k < length (free_clusters s)"
      "free_entry s = Some e" "apart a (512 * k) VOLUME1_FAT_ADDRESS 125952"
      "apart a (512 * k) VOLUME1_ROOTDIR_ADDRESS 16384" and n: "name_ok nm"
    using assms(1) by (simp_all add: can_save_def)
  have "hd nm \<noteq> 0" using name_hd[OF n] by simp
  then obtain t entry where t:
    "fsSaveFile VOLUME1_FAT_ADDRESS VOLUME1_ROOTDIR_ADDRESS 512 (Some (nm @ r)) (of_nat k) sz a flag s = Inr (0, t)"
    "DirEntry (nm @ r) flag (hd ?cs) sz = Inr entry" "fs_ok t" "sectors t = sectors s"
    "g_fat_cache_loaded t = FAT_CACHE_LOADED" "g_fat_cache_saved t = FAT_CACHE_NOT_SAVED"
    "\<And>n. n < 62976 \<Longrightarrow> fat_val t n = link ?cs (fat_val s) n"
    "\<And>n. n < 2 ^ 32 \<Longrightarrow> n < 559 \<or> 591 \<le> n \<Longrightarrow> sec t n = put_clusters ?cs (fmem s) a (sec s) n"
    "\<And>i. i < 512 \<Longrightarrow> dirent t i = (if i = e then entry else dirent s i)"
    using fsSaveFile_root[OF a(1-3) _ assms(2) a(4-9), of r sz] by blast
  have e: "e < 512" using a(7) by (auto simp: free_entry_def find_Some_iff simp del: upt_rec_numeral)
  obtain entry' where en: "entry' = entry" "take 11 entry = nm" "length entry = 32"
      "word16 (entry ! 26) (entry ! 27) = hd ?cs" "load32 (\<lambda>k. entry ! unat k) 28 = ucast sz"
    using DirEntry_ok[OF a(3), of r flag "hd ?cs" sz] t(2) assms(2) by (metis sum.inject(2))
  have mem: "3 \<le> unat c \<and> unat c < 32771 \<and> fat_val s (unat c) = 0" if c: "c \<in> set ?cs" for c
  proof -
    obtain x where x: "x \<in> set (take k (free_clusters s))" "c = of_nat x"
      using c unfolding set_map by blast
    then show ?thesis using free_cluster[OF in_set_takeD[OF x(1)]] by (simp add: unat_of_nat)
  qed
  have ok: "\<forall>c\<in>set ?cs. cluster_ok t c"
  proof
    fix c assume "c \<in> set ?cs"
    from mem[OF this] show "cluster_ok t c" using a(2) t(4) by (simp add: cluster_ok_def word_le_nat_alt)
  qed
  have ne: "?cs \<noteq> []" using a(4,6) by (cases "free_clusters s") auto
  have len: "length ?cs = k" using a(6) by simp
  have "distinct (take k (free_clusters s))" by (simp add: free_clusters_def)
  moreover have "inj_on (of_nat :: nat \<Rightarrow> u16) (set (take k (free_clusters s)))"
  proof (rule inj_onI)
    fix x y assume "x \<in> set (take k (free_clusters s))" "y \<in> set (take k (free_clusters s))"
      and eq: "(of_nat x :: u16) = of_nat y"
    then have "x < 32771" "y < 32771" using free_cluster by (auto dest: in_set_takeD)
    then show "x = y" using arg_cong[OF eq, of unat] by (simp add: unat_of_nat)
  qed
  ultimately have d: "distinct ?cs" by (simp add: distinct_map)
  have chain: "is_chain t ?cs" by (rule link_chain[OF d ne ok t(7)])
  have "map (\<lambda>c. sec t (589 + unat c)) ?cs = map (\<lambda>c. put_clusters ?cs (fmem s) a (sec s) (589 + unat c)) ?cs"
  proof (rule map_cong[OF refl])
    fix c assume "c \<in> set ?cs"
    from mem[OF this] show "sec t (589 + unat c) = put_clusters ?cs (fmem s) a (sec s) (589 + unat c)"
      by (intro t(8)) simp_all
  qed
  then have data: "cluster_data t ?cs = mem_bytes (fmem s) a (512 * k)"
    using put_clusters_data[OF d, of "fmem s" a "sec s"] len unfolding cluster_data_def by (simp only:)
  have keep: "is_chain t ds \<and> cluster_data t ds = cluster_data s ds" if "is_chain s ds" for ds
  proof -
    have c: "cluster_ok s c" "unat c \<notin> unat ` set ?cs" if "c \<in> set ds" for c
    proof -
      show "cluster_ok s c" using is_chain_ok[OF \<open>is_chain s ds\<close> that] .
      show "unat c \<notin> unat ` set ?cs"
      proof
        assume "unat c \<in> unat ` set ?cs"
        then obtain c' where "c' \<in> set ?cs" "unat c = unat c'" by blast
        then show False using mem[of c'] chain_not_free[OF \<open>is_chain s ds\<close> that] by simp
      qed
    qed
    have "is_chain t ds = is_chain s ds"
      by (rule is_chain_cong[OF t(4)]) (use t(7) c link_other in \<open>simp add: cluster_ok_def\<close>)
    moreover have "sec t (589 + unat c) = sec s (589 + unat c)" if "c \<in> set ds" for c
    proof -
      have "unat c < 62976" "2 \<le> unat c" using c(1)[OF that] by (simp_all add: cluster_ok_def word_le_nat_alt)
      then have "sec t (589 + unat c) = put_clusters ?cs (fmem s) a (sec s) (589 + unat c)"
        by (intro t(8)) simp_all
      also have "\<dots> = sec s (589 + unat c)" using c(2)[OF that] by (intro put_clusters_other) auto
      finally show ?thesis .
    qed
    ultimately show ?thesis using that by (simp add: cluster_data_def cong: map_cong)
  qed
  have low: "sec t n = sec s n" if "n < 559" for n
    using t(8)[of n] that by (simp add: put_clusters_other)
  have zero: "fat_val s (unat (hd ?cs)) = 0" using mem[of "hd ?cs"] ne by (simp only: list.set_sel simp_thms)
  have hd: "hd ?cs = dirent_cluster t e" "dirent_size t e = ucast sz"
    using t(9)[OF e] en by (simp_all only: dirent_cluster_def dirent_size_def if_True simp_thms)
  show thesis by (rule that[OF t(1,3,5,6) len chain data hd en(2,3) t(9) keep low zero t(4)])
qed


lemma stores_after_save:
  assumes "can_save s nm k a e" and "flag \<noteq> 0x10" and "lookup s nm = None"
  shows "\<exists>t cs. fsSaveFile VOLUME1_FAT_ADDRESS VOLUME1_ROOTDIR_ADDRESS 512 (Some (nm @ r)) (of_nat k) sz a flag s = Inr (0, t)
     \<and> stores t nm cs (ucast sz) \<and> length cs = k \<and> cluster_data t cs = mem_bytes (fmem s) a (512 * k) \<and> fs_ok t
     \<and> (\<forall>nm' cs' sz'. name_ok nm' \<longrightarrow> take (length nm') nm \<noteq> nm' \<longrightarrow> stores s nm' cs' sz'
          \<longrightarrow> stores t nm' cs' sz' \<and> cluster_data t cs' = cluster_data s cs')"
proof -
  have c: "fs_ok s" "length nm = 11" "name_ok nm" "free_entry s = Some e" using assms(1) by (simp_all add: can_save_def)
  obtain t cs entry where
    t: "fsSaveFile VOLUME1_FAT_ADDRESS VOLUME1_ROOTDIR_ADDRESS 512 (Some (nm @ r)) (of_nat k) sz a flag s = Inr (0, t)"
    "fs_ok t" "length cs = k" "is_chain t cs" "cluster_data t cs = mem_bytes (fmem s) a (512 * k)"
    "hd cs = dirent_cluster t e" "dirent_size t e = ucast sz" "take 11 entry = nm" "length entry = 32"
    "\<And>i. i < 512 \<Longrightarrow> dirent t i = (if i = e then entry else dirent s i)"
    "\<And>ds. is_chain s ds \<Longrightarrow> is_chain t ds \<and> cluster_data t ds = cluster_data s ds"
    by (rule save_effect[OF assms(1,2), of r sz]) blast
  have all: "\<forall>i<512. dirent t i = (if i = e then entry else dirent s i)" using t(10) by blast
  note after = lookup_after[OF c(1,4) _ t(8,9) c(2) all]
  have "stores t nm cs (ucast sz)"
    using after(3)[OF c(3) assms(3)] c(2) t(4,6,7) by (simp add: stores_def)
  moreover have "stores t nm' cs' sz' \<and> cluster_data t cs' = cluster_data s cs'"
    if n: "name_ok nm'" "take (length nm') nm \<noteq> nm'" and st: "stores s nm' cs' sz'" for nm' cs' sz'
  proof -
    obtain i where i: "lookup s nm' = Some i" "is_chain s cs'" "hd cs' = dirent_cluster s i" "dirent_size s i = sz'"
      using st by (auto simp: stores_def)
    have "i \<noteq> e"
      using i(1) empty_entry_begins[of s e nm'] n(1) c(1,4) lookup_Some[of s nm' i]
      by (auto simp: free_entry_def find_Some_iff fs_ok_def simp del: upt_rec_numeral)
    then have "dirent t i = dirent s i" using t(10) lookup_Some[OF i(1)] by simp
    then show ?thesis
      using i after(1)[OF n(1,2)] t(11)[OF i(2)] by (simp add: stores_def dirent_cluster_def dirent_size_def)
  qed
  ultimately show ?thesis using t(1-3,5) by blast
qed

lemma load_stored:
  assumes "fs_ok s" and "name_ok nm" and "stores s nm cs sz" and "length cs \<le> 811" and "length cs \<le> fuel"
    and "ucast sz < bs" and "bs \<le> 512 * 4096" and "buffer_ok b (length cs)"
  shows "\<exists>u. fsLoadFile fuel VOLUME1_FAT_ADDRESS VOLUME1_ROOTDIR_ADDRESS 512 (Some (nm @ 0 # r)) b bs s = Some (Inr (0, u))
     \<and> mem_bytes (fmem u) b (512 * length cs) = cluster_data s cs \<and> disk u = disk s
     \<and> (\<forall>x. unat x < 0x30000 \<or> (0x4EC00 \<le> unat x \<and> unat x < 0x70000) \<or> 0x74000 \<le> unat x \<longrightarrow>
          unat x < unat b \<or> unat b + 512 * length cs \<le> unat x \<longrightarrow> fmem u x = fmem s x)"
proof -
  obtain i where i: "lookup s nm = Some i" "is_chain s cs" "hd cs = dirent_cluster s i" "dirent_size s i = sz"
    using assms(3) by (auto simp: stores_def)
  have sz: "ucast (dirent_size s i) < bs" using i(4) assms(6) by simp
  obtain m where m: "fsLoadFile fuel VOLUME1_FAT_ADDRESS VOLUME1_ROOTDIR_ADDRESS 512 (Some (nm @ 0 # r)) b bs s
      = Some (Inr (0, s\<lparr>fmem := put_bytes b (cluster_data s cs) m, g_fat_cache_loaded := FAT_CACHE_LOADED\<rparr>))"
    "\<And>x. unat x < 0x30000 \<or> (0x4EC00 \<le> unat x \<and> unat x < 0x70000) \<or> 0x74000 \<le> unat x \<Longrightarrow> m x = fmem s x"
    using fsLoadFile_root[OF assms(1,2) i(1-3) assms(4,5) sz assms(7,8), of r] by metis
  have len: "length (cluster_data s cs) = 512 * length cs" using cluster_data_length assms(1) by (simp add: fs_ok_def)
  have b: "unat b + 512 * length cs \<le> 2 ^ 64" using assms(8) by (simp add: buffer_ok_def apart_def)
  have "mem_bytes (put_bytes b (cluster_data s cs) m) b (512 * length cs) = cluster_data s cs"
    using mem_bytes_put_bytes[of "cluster_data s cs" b m] len b by simp
  moreover have "put_bytes b (cluster_data s cs) m x = fmem s x"
    if "unat x < 0x30000 \<or> (0x4EC00 \<le> unat x \<and> unat x < 0x70000) \<or> 0x74000 \<le> unat x"
      and "unat x < unat b \<or> unat b + 512 * length cs \<le> unat x" for x
    using m(2)[OF that(1)] put_bytes_out[of x b "cluster_data s cs" m] that(2) len b by simp
  ultimately show ?thesis using m(1) by auto
qed

lemma buffer_ok_mono: "buffer_ok b n \<Longrightarrow> k \<le> n \<Longrightarrow> buffer_ok b k"
  by (auto simp: buffer_ok_def apart_def)

text \<open>The first two assignments of fat16Init(): after a restart nothing of the FAT is cached.\<close>

definition fat16Init_cache :: "fs_state \<Rightarrow> fs_state" where
  "fat16Init_cache s = s\<lparr>g_fat_cache_loaded := FAT_CACHE_NOT_LOADED, g_fat_cache_saved := FAT_CACHE_NOT_SAVED\<rparr>"

definition fat_on_disk :: "fs_state \<Rightarrow> u8 list" where
  "fat_on_disk s = concat (map (sec s) [67..<67 + 246])"

lemma fat_image_init: "fat_image (fat16Init_cache s) = fat_on_disk s"
  by (simp add: fat_image_def fat16Init_cache_def FAT_CACHE_NOT_LOADED_def FAT_CACHE_LOADED_def fat_on_disk_def
      del: upt_rec_numeral)

lemma fs_save_fat_ok:
  assumes "fs_ok s"
  obtains t where "fs_save_fat VOLUME1_FAT_ADDRESS VOLUME1_FAT_LBA VOLUME1_FAT_SIZE s = Inr (0, t)"
    and "only_io s t" and "fmem t = fmem s" and "fs_ok t"
    and "fat_on_disk t = mem_bytes (fmem s) VOLUME1_FAT_ADDRESS 125952"
    and "\<And>n. n < 2 ^ 32 \<Longrightarrow> n < 67 \<or> 313 \<le> n \<Longrightarrow> sec t n = sec s n"
proof -
  let ?f = "\<lambda>i. mem_bytes (fmem s) (VOLUME1_FAT_ADDRESS + of_nat (512 * i)) 512"
  obtain q where q: "kfold (save_step VOLUME1_FAT_ADDRESS (of_nat 67)) [0..<246] s
      = Inr (put_secs 67 246 ?f (s\<lparr>ata_irq_invoked := q\<rparr>))"
    using save_steps_ok[of s 67 246 VOLUME1_FAT_ADDRESS] assms by (auto simp: fs_ok_def simp del: upt_rec_numeral)
  let ?t = "put_secs 67 246 ?f (s\<lparr>ata_irq_invoked := q\<rparr>)"
  show thesis
  proof (rule that[of ?t])
    show "fs_save_fat VOLUME1_FAT_ADDRESS VOLUME1_FAT_LBA VOLUME1_FAT_SIZE s = Inr (0, ?t)"
      using q by (simp add: fs_save_fat_def do_save_sequence_def VOLUME1_FAT_LBA_def VOLUME1_FAT_SIZE_def
          VOLUME1_FAT_ADDRESS_def del: upt_rec_numeral)
    show "only_io s ?t" by (simp add: only_io_def put_secs_def)
    show "fmem ?t = fmem s" by simp
    show "fs_ok ?t" using assms by (simp add: fs_ok_def)
    have "map (sec ?t) [67..<67 + 246] = map (\<lambda>i. ?f (i - 67)) [67..<67 + 246]"
      by (rule map_cong) (simp_all add: sec_put_secs del: upt_rec_numeral)
    then have "fat_on_disk ?t = concat (map (\<lambda>i. ?f (i - 67)) [67..<67 + 246])"
      unfolding fat_on_disk_def by (simp only:)
    also have "\<dots> = mem_bytes (fmem s) VOLUME1_FAT_ADDRESS (512 * 246)" by (rule concat_mem_bytes)
    finally show "fat_on_disk ?t = mem_bytes (fmem s) VOLUME1_FAT_ADDRESS 125952" by simp
    show "sec ?t n = sec s n" if "n < 2 ^ 32" "n < 67 \<or> 313 \<le> n" for n
      using that by (auto simp: sec_put_secs)
  qed
qed

lemma stores_cong:
  assumes "stores s nm cs sz" and "root_image t = root_image s" and "fat_image t = fat_image s"
    and "sectors t = sectors s"
  shows "stores t nm cs sz"
proof -
  have "dirent t = dirent s" using assms(2) by (simp add: dirent_def fun_eq_iff)
  moreover from this have "dirent_begins t = dirent_begins s" by (intro ext) (simp add: dirent_begins_def)
  ultimately have "lookup t nm = lookup s nm" "dirent_cluster t = dirent_cluster s" "dirent_size t = dirent_size s"
    by (simp_all add: lookup_def dirent_cluster_def[abs_def] dirent_size_def[abs_def] del: upt_rec_numeral)
  moreover have "is_chain t cs = is_chain s cs" using assms(3,4) by (intro is_chain_cong) (simp_all add: fat_val_def)
  ultimately show ?thesis using assms(1) by (simp add: stores_def)
qed

section \<open>Properties of the file system\<close>

text \<open>
  C9. Loading a file. When a name of at most 11 bytes finds an entry with a chain of clusters,
  fsLoadFile() with one unit of fuel per cluster returns 0 and the buffer holds the clusters' bytes;
  the disk is untouched, and so is all memory but the two caches and the buffer.
\<close>

theorem load_returns_file:
  assumes "fs_ok s" and "name_ok nm" and "stores s nm cs sz" and "length cs \<le> 811" and "length cs \<le> fuel"
    and "ucast sz < bs" and "bs \<le> 512 * 4096" and "buffer_ok b (length cs)"
  shows "\<exists>u. fsLoadFile fuel VOLUME1_FAT_ADDRESS VOLUME1_ROOTDIR_ADDRESS 512 (Some (nm @ 0 # r)) b bs s = Some (Inr (0, u))
     \<and> mem_bytes (fmem u) b (512 * length cs) = cluster_data s cs \<and> disk u = disk s
     \<and> (\<forall>x. unat x < 0x30000 \<or> (0x4EC00 \<le> unat x \<and> unat x < 0x70000) \<or> 0x74000 \<le> unat x \<longrightarrow>
          unat x < unat b \<or> unat b + 512 * length cs \<le> unat x \<longrightarrow> fmem u x = fmem s x)"
  using load_stored[OF assms] .


text \<open>
  C11. Save and load. Loading the name just saved returns 0 and puts the saved bytes at the buffer,
  up to the end of the last cluster; the load leaves the disk as it is.
\<close>

theorem save_then_load:
  assumes "can_save s nm k a e" and "flag \<noteq> 0x10" and "lookup s nm = None"
    and "ucast (ucast sz :: u32) < bs" and "bs \<le> 512 * 4096" and "buffer_ok b k" and "k \<le> fuel"
  shows "\<exists>t u. fsSaveFile VOLUME1_FAT_ADDRESS VOLUME1_ROOTDIR_ADDRESS 512 (Some (nm @ 0 # r)) (of_nat k) sz a flag s = Inr (0, t)
     \<and> fsLoadFile fuel VOLUME1_FAT_ADDRESS VOLUME1_ROOTDIR_ADDRESS 512 (Some (nm @ 0 # r)) b bs t = Some (Inr (0, u))
     \<and> mem_bytes (fmem u) b (512 * k) = mem_bytes (fmem s) a (512 * k) \<and> disk u = disk t"
proof -
  have c: "name_ok nm" "k \<le> 16" using assms(1) by (simp_all add: can_save_def)
  obtain t cs where t: "fsSaveFile VOLUME1_FAT_ADDRESS VOLUME1_ROOTDIR_ADDRESS 512 (Some (nm @ 0 # r)) (of_nat k) sz a flag s = Inr (0, t)"
      "stores t nm cs (ucast sz)" "length cs = k" "cluster_data t cs = mem_bytes (fmem s) a (512 * k)" "fs_ok t"
    using stores_after_save[OF assms(1-3), of "0 # r" sz] by blast
  have "length cs \<le> 811" "length cs \<le> fuel" "buffer_ok b (length cs)" using t(3) c(2) assms(6,7) by simp_all
  from load_stored[OF t(5) c(1) t(2) this(1,2) assms(4,5) this(3), of r] show ?thesis using t(1,3,4) by auto
qed


text \<open>
  C12. The FAT must be flushed. fsSaveFile() writes the clusters and the root directory but not the
  FAT: when the kernel restarts before fs_save_fat16_cache(), loading the new file stops it with a
  panic; when the cache was saved, the file is there.
\<close>

theorem fat_must_be_flushed:
  assumes "can_save s nm k a e" and "flag \<noteq> 0x10" and "lookup s nm = None" and "fat_on_disk s = fat_image s"
    and "ucast (ucast sz :: u32) < bs" and "bs \<le> 512 * 4096" and "buffer_ok b (k + 1)" and "k + 1 \<le> fuel"
  shows "\<exists>t u v. fsSaveFile VOLUME1_FAT_ADDRESS VOLUME1_ROOTDIR_ADDRESS 512 (Some (nm @ 0 # r)) (of_nat k) sz a flag s = Inr (0, t)
     \<and> fsLoadFile fuel VOLUME1_FAT_ADDRESS VOLUME1_ROOTDIR_ADDRESS 512 (Some (nm @ 0 # r)) b bs (fat16Init_cache t)
         = Some (Inl (KPanic ''fsLoadFile: fat[] vector limits.''))
     \<and> fs_save_fat16_cache t = Inr (0, u)
     \<and> fsLoadFile fuel VOLUME1_FAT_ADDRESS VOLUME1_ROOTDIR_ADDRESS 512 (Some (nm @ 0 # r)) b bs (fat16Init_cache u)
         = Some (Inr (0, v))
     \<and> mem_bytes (fmem v) b (512 * k) = mem_bytes (fmem s) a (512 * k)"
proof -
  have c: "fs_ok s" "length nm = 11" "name_ok nm" "free_entry s = Some e" "k \<le> 16" "0 < k"
    using assms(1) by (simp_all add: can_save_def)
  obtain t cs entry where
    t: "fsSaveFile VOLUME1_FAT_ADDRESS VOLUME1_ROOTDIR_ADDRESS 512 (Some (nm @ 0 # r)) (of_nat k) sz a flag s = Inr (0, t)"
    "fs_ok t" "g_fat_cache_loaded t = FAT_CACHE_LOADED" "g_fat_cache_saved t = FAT_CACHE_NOT_SAVED" "length cs = k"
    "is_chain t cs" "cluster_data t cs = mem_bytes (fmem s) a (512 * k)"
    "hd cs = dirent_cluster t e" "dirent_size t e = ucast sz" "take 11 entry = nm" "length entry = 32"
    "\<And>i. i < 512 \<Longrightarrow> dirent t i = (if i = e then entry else dirent s i)"
    "\<And>n. n < 559 \<Longrightarrow> sec t n = sec s n" "fat_val s (unat (hd cs)) = 0" "sectors t = sectors s"
    by (rule save_effect[OF assms(1,2), of "0 # r" sz]) blast
  have all: "\<forall>i<512. dirent t i = (if i = e then entry else dirent s i)" using t(12) by blast
  have l: "lookup t nm = Some e" using lookup_after(3)[OF c(1,4,3) t(10,11) c(2) all assms(3)] c(2) by simp
  have st: "stores t nm cs (ucast sz)" using l t(6,8,9) by (simp add: stores_def)
  note bk = buffer_ok_mono[OF assms(7)]
  let ?t = "fat16Init_cache t"
  have panic: "fsLoadFile fuel VOLUME1_FAT_ADDRESS VOLUME1_ROOTDIR_ADDRESS 512 (Some (nm @ 0 # r)) b bs ?t
      = Some (Inl (KPanic ''fsLoadFile: fat[] vector limits.''))"
  proof -
    have sec: "sec ?t = sec t" "sectors ?t = sectors t" "fs_ok ?t" using t(2) by (simp_all add: fat16Init_cache_def)
    have "map (sec t) [67..<67 + 246] = map (sec s) [67..<67 + 246]"
      by (rule map_cong[OF refl]) (use t(13) in \<open>simp del: upt_rec_numeral\<close>)
    then have "fat_on_disk t = fat_on_disk s" unfolding fat_on_disk_def by (simp only:)
    then have img: "fat_image ?t = fat_image s" using assms(4) by (simp only: fat_image_init)
    have dir: "dirent ?t = dirent t" using sec(1) by (simp add: dirent_def[abs_def] root_image_def del: upt_rec_numeral)
    then have "dirent_begins ?t = dirent_begins t" by (intro ext) (simp add: dirent_begins_def)
    then have lk: "lookup ?t nm = Some e" using l by (simp add: lookup_def del: upt_rec_numeral)
    have cl: "cluster_ok ?t (dirent_cluster ?t e)" "dirent_cluster ?t e = hd cs"
      using is_chain_hd[OF t(6)] t(8) dir sec by (simp_all add: dirent_cluster_def cluster_ok_def)
    have "ucast (dirent_size ?t e) < bs" using t(9) dir assms(5) by (simp add: dirent_size_def)
    then obtain m where m: "fsLoadFile fuel VOLUME1_FAT_ADDRESS VOLUME1_ROOTDIR_ADDRESS 512 (Some (nm @ 0 # r)) b bs ?t
        = load_chain fuel (dirent_cluster ?t e) b 0 (?t\<lparr>fmem := m, g_fat_cache_loaded := FAT_CACHE_LOADED\<rparr>)"
      "mem_bytes m VOLUME1_FAT_ADDRESS 125952 = fat_image ?t"
      using fsLoadFile_enters[OF sec(3) c(3) lk cl(1) _ assms(6)] by metis
    let ?u = "?t\<lparr>fmem := m, g_fat_cache_loaded := FAT_CACHE_LOADED\<rparr>"
    have "fat_image ?u = fat_image s" using m(2) img by (simp add: fat_image_def del: upt_rec_numeral)
    then have "fat_val ?u (unat (hd cs)) = 0" using t(14) by (simp add: fat_val_def)
    moreover have "fs_ok ?u" "cluster_ok ?u (hd cs)" using sec(3) cl by (simp_all add: cluster_ok_def)
    ultimately show ?thesis
      using load_chain_breaks[of ?u "hd cs" b fuel] bk[of 2] assms(8) c(6) m(1) cl(2) by simp
  qed
  obtain u where u: "fs_save_fat VOLUME1_FAT_ADDRESS VOLUME1_FAT_LBA VOLUME1_FAT_SIZE t = Inr (0, u)"
      "only_io t u" "fs_ok u" "fat_on_disk u = mem_bytes (fmem t) VOLUME1_FAT_ADDRESS 125952"
      "\<And>n. n < 2 ^ 32 \<Longrightarrow> n < 67 \<or> 313 \<le> n \<Longrightarrow> sec u n = sec t n"
    using fs_save_fat_ok[OF t(2)] by metis
  let ?u = "u\<lparr>g_fat_cache_saved := FAT_CACHE_SAVED\<rparr>"
  let ?v = "fat16Init_cache ?u"
  have save: "fs_save_fat16_cache t = Inr (0, ?u)" using t(4) u(1) by (simp add: fs_save_fat16_cache_def)
  have v: "sec ?v = sec u" "fs_ok ?v" "sectors ?v = sectors t"
    using u(3) only_io_frame(3)[OF u(2)] by (simp_all add: fat16Init_cache_def)
  have "map (sec ?v) [559..<559 + 32] = map (sec t) [559..<559 + 32]"
    by (rule map_cong[OF refl]) (use u(5) v(1) in \<open>simp del: upt_rec_numeral\<close>)
  then have root: "root_image ?v = root_image t" unfolding root_image_def by (simp only:)
  have fat: "fat_image ?v = fat_image t"
  proof -
    have "fat_on_disk ?u = fat_on_disk u" by (simp add: fat_on_disk_def del: upt_rec_numeral)
    then show ?thesis using u(4) t(3) unfolding fat_image_init by (simp add: fat_image_def del: upt_rec_numeral)
  qed
  have stv: "stores ?v nm cs (ucast sz)" by (rule stores_cong[OF st root fat v(3)])
  have "map (\<lambda>c. sec ?v (589 + unat c)) cs = map (\<lambda>c. sec t (589 + unat c)) cs"
  proof (rule map_cong[OF refl])
    fix c assume "c \<in> set cs"
    then have "unat c < 62976" using is_chain_ok[OF t(6)] by (simp add: cluster_ok_def)
    then show "sec ?v (589 + unat c) = sec t (589 + unat c)" using u(5) v(1) by simp
  qed
  then have data: "cluster_data ?v cs = mem_bytes (fmem s) a (512 * k)"
    using t(7) unfolding cluster_data_def by (simp only:)
  have "length cs \<le> 811" "length cs \<le> fuel" "buffer_ok b (length cs)" using t(5) c(5) assms(8) bk[of k] by simp_all
  from load_stored[OF v(2) c(3) stv this(1,2) assms(5,6) this(3), of r] show ?thesis
    using t(1,5) panic save data by auto
qed



section \<open>A small disk\<close>

text \<open>
  A disk with one file, HELLO.TXT, of 5 bytes in cluster 3, its entry the first of the root directory.
\<close>

definition hello_txt :: "u8 list" where "hello_txt = bytes ''HELLO   TXT''"
definition notes_txt :: "u8 list" where "notes_txt = bytes ''NOTES   TXT''"

definition hello_entry :: "u8 list" where
  "hello_entry = hello_txt @ [0x20, 0, 0, 0, 0, 0, 0, 0, 0, 0, 0, 0, 0, 0, 0, 3, 0, 5, 0, 0, 0]"

definition demo_disk :: "u32 \<Rightarrow> u8 list" where
  "demo_disk k = (if unat k = 67 then [0, 0, 0, 0, 0, 0, 0xF8, 0xFF] @ replicate 504 0
     else if unat k = 559 then hello_entry @ replicate 480 0
     else if unat k = 592 then replicate 512 7 else replicate 512 0)"

definition demo_fs :: fs_state where
  "demo_fs = \<lparr>fmem = (\<lambda>_. 9), disk = (\<lambda>_. demo_disk), data_ready = (\<lambda>_ _. True), write_error = (\<lambda>_ _. False),
     ide_ports = (\<lambda>_. \<lparr>base_port = 0x1F0, dev_num = ATA_MASTER\<rparr>), g_current_ide_port_index = 0,
     ata_irq_invoked = 0, gNumberOfSectorsInBootDisk = 65536, g_currentvolume_fatbits = 16,
     g_fat_cache_saved = FAT_CACHE_NOT_SAVED, g_fat_cache_loaded = FAT_CACHE_NOT_LOADED, g_filesystem_type = 16,
     root = Some \<lparr>fs_used = TRUE, fs_magic = 1234, fs_type = 16, spc = 1, dir_entries = 512, entry_size = 32,
       rootdir_address = VOLUME1_ROOTDIR_ADDRESS, rootdir_first_lba = 559, rootdir_size_in_sectors = 0,
       fat_address = VOLUME1_FAT_ADDRESS, fat_first_lba = 67, fat_size_in_sectors = 0, dataarea_first_lba = 591\<rparr>,
     fat16ClustersToSave = (\<lambda>_. 0), sdGRAMADO = \<lparr>sd_initialized = 0, sd_address = 0\<rparr>,
     sdDE = \<lparr>sd_initialized = 0, sd_address = 0\<rparr>\<rparr>"

lemma names_ok: "name_ok hello_txt" "name_ok notes_txt" "length hello_txt = 11" "length notes_txt = 11" "hello_txt \<noteq> notes_txt"
  by (simp_all add: name_ok_def hello_txt_def notes_txt_def bytes_def)


lemma demo_sec: "n < 2 ^ 32 \<Longrightarrow> sec demo_fs n = (if n = 67 then [0, 0, 0, 0, 0, 0, 0xF8, 0xFF] @ replicate 504 0
     else if n = 559 then hello_entry @ replicate 480 0
     else if n = 592 then replicate 512 7 else replicate 512 0)"
  by (simp add: sec_def demo_fs_def demo_disk_def unat_of_nat)

lemma demo_zero_secs:
  assumes "k + j < 2 ^ 32" and "\<And>i. k \<le> i \<Longrightarrow> i < k + j \<Longrightarrow> i \<notin> {67, 559, 592}"
  shows "concat (map (sec demo_fs) [k..<k + j]) = replicate (512 * j) 0"
  using assms
proof (induction j)
  case (Suc j)
  have "sec demo_fs (k + j) = replicate 512 0"
    using Suc.prems(1) Suc.prems(2)[of "k + j"] by (simp add: demo_sec)
  then show ?case using Suc by (simp add: replicate_add[symmetric])
qed simp

lemma demo_images:
  "root_image demo_fs = hello_entry @ replicate 16352 0"
  "fat_on_disk demo_fs = [0, 0, 0, 0, 0, 0, 0xF8, 0xFF] @ replicate 125944 0"
proof -
  have "concat (map (sec demo_fs) [560..<560 + 31]) = replicate (512 * 31) 0"
    by (rule demo_zero_secs) auto
  moreover have "[559..<559 + 32] = 559 # [560..<560 + 31]" by (subst upt_conv_Cons) simp_all
  ultimately show "root_image demo_fs = hello_entry @ replicate 16352 0"
    unfolding root_image_def by (simp add: demo_sec replicate_add[symmetric] del: upt_rec_numeral)
  have "concat (map (sec demo_fs) [68..<68 + 245]) = replicate (512 * 245) 0"
    by (rule demo_zero_secs) auto
  moreover have "[67..<67 + 246] = 67 # [68..<68 + 245]" by (subst upt_conv_Cons) simp_all
  ultimately show "fat_on_disk demo_fs = [0, 0, 0, 0, 0, 0, 0xF8, 0xFF] @ replicate 125944 0"
    unfolding fat_on_disk_def by (simp add: demo_sec replicate_add[symmetric] del: upt_rec_numeral)
qed

lemma demo_fs_ok: "fs_ok demo_fs"
  by (simp add: fs_ok_def disk_ok_def demo_fs_def drive_def Let_def ATA_MASTER_def FAT16_ROOT_ENTRIES_def
      demo_disk_def hello_entry_def names_ok word_le_nat_alt)

lemma demo_fat: "c < 62976 \<Longrightarrow> fat_val demo_fs c = (if c = 3 then 0xFFF8 else 0)"
proof -
  assume c: "c < 62976"
  have img: "fat_image demo_fs = fat_on_disk demo_fs"
    by (simp add: fat_image_def demo_fs_def FAT_CACHE_NOT_LOADED_def FAT_CACHE_LOADED_def fat_on_disk_def del: upt_rec_numeral)
  have i: "fat_image demo_fs ! n = (if n = 6 then 0xF8 else if n = 7 then 0xFF else 0)" if "n < 125952" for n
  proof (cases "n < 8")
    case True
    then have "n \<in> {0, 1, 2, 3, 4, 5, 6, 7}" by auto
    then show ?thesis by (auto simp: img demo_images(2) nth_append)
  next
    case False
    then show ?thesis using that by (simp add: img demo_images(2) nth_append)
  qed
  show ?thesis using c by (simp add: fat_val_def i word16_def)
qed

lemma demo_dirent: "i < 512 \<Longrightarrow> dirent demo_fs i = (if i = 0 then hello_entry else replicate 32 0)"
proof -
  assume i: "i < 512"
  have len: "length hello_entry = 32" by (simp add: hello_entry_def names_ok)
  show ?thesis
  proof (cases i)
    case 0
    then show ?thesis using len by (simp add: dirent_def demo_images)
  next
    case (Suc j)
    then show ?thesis using len i by (simp add: dirent_def demo_images min_def)
  qed
qed

lemma demo_lookup: "lookup demo_fs hello_txt = Some 0" "lookup demo_fs notes_txt = None" "free_entry demo_fs = Some 1"
proof -
  have "dirent_begins demo_fs hello_txt 0"
    by (simp add: dirent_begins_def demo_dirent hello_entry_def names_ok) (simp add: hello_txt_def bytes_def)
  then show "lookup demo_fs hello_txt = Some 0" by (simp add: lookup_iff)
  have "\<not> dirent_begins demo_fs notes_txt i" if "i < 512" for i
    using that by (simp add: dirent_begins_def demo_dirent hello_entry_def names_ok)
  then show "lookup demo_fs notes_txt = None" unfolding lookup_None by blast
  have "dirent demo_fs 0 ! 0 \<noteq> 0" by (simp add: demo_dirent hello_entry_def hello_txt_def bytes_def)
  moreover have "[0..<512] = 0 # Suc 0 # [Suc (Suc 0)..<512]"
    by (subst upt_conv_Cons, simp, subst upt_conv_Cons, simp, simp del: upt_rec_numeral)
  ultimately show "free_entry demo_fs = Some 1"
    by (simp add: free_entry_def demo_dirent del: upt_rec_numeral)
qed

lemma demo_stores: "stores demo_fs hello_txt [3] 5" "cluster_data demo_fs [3] = replicate 512 7"
proof -
  have "sectors demo_fs = 65536" by (simp add: demo_fs_def)
  then show "stores demo_fs hello_txt [3] 5"
    by (simp add: stores_def demo_lookup demo_fat cluster_ok_def dirent_cluster_def dirent_size_def demo_dirent
        hello_entry_def names_ok nth_append word16_def load32_def word_le_nat_alt)
  show "cluster_data demo_fs [3] = replicate 512 7" by (simp add: cluster_data_def demo_sec)
qed

lemma demo_free: "2 < length (free_clusters demo_fs)"
proof -
  have "[3..<Suc (Suc (Suc (Suc n))) + 3] = 3 # 4 # 5 # 6 # [7..<n + 7]" for n
    by (simp add: upt_conv_Cons add.commute del: upt_rec_numeral upt_Suc)
  from this[of 32764] have "[3..<3 + CLUSTERS_TO_SAVE_MAX] = 3 # 4 # 5 # 6 # [7..<32771]"
    by (simp add: CLUSTERS_TO_SAVE_MAX_def del: upt_rec_numeral)
  then show ?thesis by (simp add: free_clusters_def demo_fat del: upt_rec_numeral)
qed


lemma demo_can_save: "can_save demo_fs notes_txt 1 0x200000 1"
  using demo_fs_ok demo_free demo_lookup(3) names_ok
  by (simp add: can_save_def apart_def VOLUME1_FAT_ADDRESS_def VOLUME1_ROOTDIR_ADDRESS_def) (simp add: demo_fs_def)

lemma demo_can_resave: "can_save demo_fs hello_txt 1 0x200000 1"
  using demo_fs_ok demo_free demo_lookup(3) names_ok
  by (simp add: can_save_def apart_def VOLUME1_FAT_ADDRESS_def VOLUME1_ROOTDIR_ADDRESS_def) (simp add: demo_fs_def)

lemma demo_buffer: "buffer_ok 0x300000 2"
  by (auto simp: buffer_ok_def apart_def VOLUME1_FAT_ADDRESS_def VOLUME1_ROOTDIR_ADDRESS_def less_2_cases_iff
      check_address_validation_def KERNEL_IMAGE_BASE_def DEFAULT_LFB_VIRTUALADDRESS_def DEFAULT_BACKBUFFER_VIRTUALADDRESS_def)

theorem load_returns_file_witness:
  "\<exists>u. fsLoadFile 1 VOLUME1_FAT_ADDRESS VOLUME1_ROOTDIR_ADDRESS 512 (Some (hello_txt @ [0])) 0x300000 1024 demo_fs = Some (Inr (0, u))
     \<and> mem_bytes (fmem u) 0x300000 512 = replicate 512 7"
  using load_returns_file[OF demo_fs_ok names_ok(1) demo_stores(1), where fuel = 1 and bs = 1024 and b = "0x300000" and r = "[]"]
    buffer_ok_mono[OF demo_buffer, of 1] demo_stores(2) by auto


theorem save_then_load_witness:
  "\<exists>t u. fsSaveFile VOLUME1_FAT_ADDRESS VOLUME1_ROOTDIR_ADDRESS 512 (Some (notes_txt @ [0])) 1 300 0x200000 0x20 demo_fs = Inr (0, t)
     \<and> fsLoadFile 1 VOLUME1_FAT_ADDRESS VOLUME1_ROOTDIR_ADDRESS 512 (Some (notes_txt @ [0])) 0x300000 1024 t = Some (Inr (0, u))
     \<and> mem_bytes (fmem u) 0x300000 512 = mem_bytes (fmem demo_fs) 0x200000 512"
  using save_then_load[OF demo_can_save _ demo_lookup(2), where flag = "0x20" and sz = 300 and bs = 1024
      and b = "0x300000" and fuel = 1 and r = "[]"]
    buffer_ok_mono[OF demo_buffer, of 1] by auto


theorem fat_must_be_flushed_witness:
  "\<exists>t u v. fsSaveFile VOLUME1_FAT_ADDRESS VOLUME1_ROOTDIR_ADDRESS 512 (Some (notes_txt @ [0])) 1 300 0x200000 0x20 demo_fs = Inr (0, t)
     \<and> fsLoadFile 2 VOLUME1_FAT_ADDRESS VOLUME1_ROOTDIR_ADDRESS 512 (Some (notes_txt @ [0])) 0x300000 1024 (fat16Init_cache t)
         = Some (Inl (KPanic ''fsLoadFile: fat[] vector limits.''))
     \<and> fs_save_fat16_cache t = Inr (0, u)
     \<and> fsLoadFile 2 VOLUME1_FAT_ADDRESS VOLUME1_ROOTDIR_ADDRESS 512 (Some (notes_txt @ [0])) 0x300000 1024 (fat16Init_cache u)
         = Some (Inr (0, v))"
proof -
  have "fat_on_disk demo_fs = fat_image demo_fs"
    by (simp add: fat_image_def demo_fs_def FAT_CACHE_NOT_LOADED_def FAT_CACHE_LOADED_def fat_on_disk_def del: upt_rec_numeral)
  note sync = this
  have "buffer_ok 0x300000 (1 + 1)" using demo_buffer by (simp only: one_add_one)
  moreover have "(1 :: nat) + 1 \<le> 2" by simp
  ultimately show ?thesis
    using fat_must_be_flushed[OF demo_can_save _ demo_lookup(2) sync, where flag = "0x20" and sz = 300 and bs = 1024
        and b = "0x300000" and fuel = 2 and r = "[]"] by auto
qed


end
