(* ===== verification/KName.thy ===== *)
theory KName
  imports KSave
begin

text \<open>
  File names: the 8.3 form that the directory search expects, built in place by fs_fntos() and
  fs_fntos2() of fslib.c, the conversions of fat16.c, and the ELF signature of elf.c. A name is the
  list of bytes from its pointer to the end of the object it lies in; writing past it is a fault.
\<close>

section \<open>The 8.3 form in place\<close>

definition lower :: "u8 \<Rightarrow> bool" where "lower c \<longleftrightarrow> 97 \<le> c \<and> c \<le> 122"

definition upcase :: "u8 \<Rightarrow> u8" where "upcase c = (if lower c then c - 0x20 else c)"

text \<open>\<open>while ( *name \<and> *name \<noteq> '.' )\<close>: the upper case name so far, and the rest of the object.\<close>

fun upcase_name :: "u8 list \<Rightarrow> kfault + (u8 list \<times> u8 list)" where
  "upcase_name [] = Inl (OutOfBounds ''name'')"
| "upcase_name (c # cs) = (if c = 0 \<or> c = 46 then Inr ([], c # cs)
     else kbind (upcase_name cs) (\<lambda>(p, r). Inr (upcase c # p, r)))"

text \<open>
  One byte of the extension: small letters are raised, the special bytes and the digits copied. A
  capital letter matches none of the tests and leaves \<open>ext[i]\<close> at 0.
\<close>

definition ext_byte :: "u8 \<Rightarrow> u8" where
  "ext_byte c = (if lower c then c - 0x20
     else if c \<in> {36, 37, 45, 95, 40, 41, 123, 125} then c
     else if 48 \<le> c \<and> c \<le> 57 then c else 0)"

fun ext_loop :: "nat \<Rightarrow> u8 list \<Rightarrow> kfault + (u8 list \<times> u8 list)" where
  "ext_loop 0 t = Inr ([], t)"
| "ext_loop (Suc n) [] = Inl (OutOfBounds ''name[i+1]'')"
| "ext_loop (Suc n) (c # t) = (if c = 0 then Inr ([], c # t)
     else kbind (ext_loop n t) (\<lambda>(e, t'). Inr (ext_byte c # e, upcase c # t')))"

definition save_ext :: "u8 list \<Rightarrow> u8 list" where
  "save_ext ext = map (\<lambda>c. if c \<noteq> 0 then c else 32) ext"

text \<open>The stores from CompleteName8WithSpaces to the end, at the pointer behind the name.\<close>

definition complete_name :: "u8 list \<Rightarrow> u8 list \<Rightarrow> u8 list \<Rightarrow> kfault + u8 list" where
  "complete_name p rest ext =
    (let w = replicate (8 - length p) 32 @ save_ext ext @ [0] in
     if length rest < length w then Inl (OutOfBounds ''name'') else Inr (p @ w @ drop (length w) rest))"

definition fs_fntos_with :: "u8 list \<Rightarrow> u8 list option \<Rightarrow> kfault + u8 list option" where
  "fs_fntos_with new_ext name =
    (case name of None \<Rightarrow> Inr None
     | Some nm \<Rightarrow>
       if nm = [] then Inl (OutOfBounds ''name'')
       else if hd nm = 0 then Inr (Some nm)
       else kbind (upcase_name nm) (\<lambda>(p, rest).
         if hd rest = 0 \<and> length p \<le> 8
         then kbind (complete_name p rest new_ext) (\<lambda>r. Inr (Some r))
         else kbind (ext_loop 3 (tl rest)) (\<lambda>(e, t).
           kbind (complete_name p (hd rest # t) (e @ replicate (3 - length e) 0)) (\<lambda>r. Inr (Some r)))))"

definition fs_fntos :: "u8 list option \<Rightarrow> kfault + u8 list option" where
  "fs_fntos name = fs_fntos_with [66, 73, 78] name"

definition fs_fntos2 :: "u8 list option \<Rightarrow> kfault + u8 list option" where
  "fs_fntos2 name = fs_fntos_with [32, 32, 32] name"

section \<open>The conversions of fat16.c\<close>

definition to_FAT_name :: "u8 list \<Rightarrow> u8 list \<Rightarrow> kfault + u8 list" where
  "to_FAT_name src dst =
    kbind (strcmp src [46, 46, 0]) (\<lambda>c1. kbind (strcmp src [46, 0]) (\<lambda>c2.
      if 0 \<notin> set src \<or> length dst < 11 then Inl (OutOfBounds ''to_FAT_name'')
      else if c1 = 0 then kbind (strcpy dst src) (\<lambda>d. Inr (take 2 d @ replicate 9 0x20 @ drop 11 d))
      else if c2 = 0 then kbind (strcpy dst src) (\<lambda>d. Inr (take 1 d @ replicate 10 0x20 @ drop 11 d))
      else let s = cstr src; base = take 8 (takeWhile (\<lambda>c. c \<noteq> 46) s);
               rest = drop (length base) s;
               ext = take 3 (if rest \<noteq> [] \<and> hd rest = 46 then tl rest else rest) in
           Inr (base @ replicate (8 - length base) 0x20 @ ext @ replicate (3 - length ext) 0x20 @ drop 11 dst)))"

definition fs_count_path_levels :: "u8 list option \<Rightarrow> kfault + u64" where
  "fs_count_path_levels path =
    (case path of None \<Rightarrow> Inr 0
     | Some s \<Rightarrow>
       if s = [] then Inl (OutOfBounds ''path'')
       else if hd s = 0 then Inr 0
       else if 0 \<notin> set s \<and> length s < 2000 then Inl (OutOfBounds ''path'')
       else Inr (of_nat (length (filter (\<lambda>c. c = 47) (take 2000 (cstr s))))))"

definition elfCheckSignature :: "u64 \<Rightarrow> fs_state \<Rightarrow> int" where
  "elfCheckSignature address s =
    (if address = 0 then -1
     else if fmem s address \<noteq> 0x7F \<or> fmem s (address + 1) \<noteq> 0x45 \<or> fmem s (address + 2) \<noteq> 0x4C
        \<or> fmem s (address + 3) \<noteq> 0x46 then -1 else 0)"

section \<open>What the form is\<close>

text \<open>The specification: eight bytes of name and three of extension, filled with spaces.\<close>

definition name_8_3 :: "u8 list \<Rightarrow> u8 list \<Rightarrow> u8 list" where
  "name_8_3 p e = map upcase p @ replicate (8 - length p) 32 @ map upcase e @ replicate (3 - length e) 32"

definition plain :: "u8 list \<Rightarrow> bool" where "plain p \<longleftrightarrow> 0 \<notin> set p \<and> 46 \<notin> set p"

definition allowed_ext :: "u8 \<Rightarrow> bool" where "allowed_ext c \<longleftrightarrow> ext_byte c \<noteq> 0"

lemma upcase_name_plain:
  "plain p \<Longrightarrow> c = 0 \<or> c = 46 \<Longrightarrow> upcase_name (p @ c # r) = Inr (map upcase p, c # r)"
  by (induction p) (auto simp: plain_def)

lemma ext_byte_0 [simp]: "ext_byte 0 = 0" by (simp add: ext_byte_def lower_def)

lemma ext_byte_upcase: "allowed_ext c \<Longrightarrow> ext_byte c = upcase c"
  by (auto simp: allowed_ext_def ext_byte_def upcase_def split: if_splits)

lemma ext_loop_ext:
  "\<forall>c\<in>set e. allowed_ext c \<Longrightarrow> length e \<le> n \<Longrightarrow> ext_loop n (e @ 0 # r) =
    Inr (map upcase e, map upcase e @ 0 # r)"
proof (induction e arbitrary: n)
  case Nil
  then show ?case by (cases n) auto
next
  case (Cons c e)
  then obtain k where n: "n = Suc k" by (cases n) auto
  have "c \<noteq> 0" using Cons.prems(1) by (auto simp: allowed_ext_def)
  then show ?case using Cons ext_byte_upcase[of c] by (simp add: n)
qed


lemma upcase_0 [simp]: "upcase c = 0 \<longleftrightarrow> c = 0"
proof -
  have "c - 0x20 \<noteq> 0" if "lower c"
  proof
    assume "c - 0x20 = 0"
    then have "c = 0x20" by simp
    then show False using that by (simp add: lower_def)
  qed
  then show ?thesis by (auto simp: upcase_def lower_def)
qed

lemma upcase_idem [simp]: "upcase (upcase c) = upcase c"
proof (cases "lower c")
  case True
  have "unat (c - 32) = unat c - 32" using True by (subst unat_sub) (auto simp: lower_def word_le_nat_alt)
  then have "\<not> lower (c - 32)" using True by (auto simp: lower_def word_le_nat_alt)
  then show ?thesis using True by (simp add: upcase_def)
qed (simp add: upcase_def)

lemma name_8_3_ok:
  "length p \<le> 8 \<Longrightarrow> length e \<le> 3 \<Longrightarrow> p \<noteq> [] \<Longrightarrow> 0 \<notin> set p \<Longrightarrow> 0 \<notin> set e \<Longrightarrow>
    name_ok (name_8_3 p e) \<and> length (name_8_3 p e) = 11"
  by (auto simp: name_ok_def name_8_3_def)

lemma save_ext_pad: "0 \<notin> set e \<Longrightarrow> save_ext (e @ replicate n 0) = e @ replicate n 32"
proof -
  assume "0 \<notin> set e"
  then have "map (\<lambda>c. if c \<noteq> 0 then c else 32) e = e" by (intro map_idI) auto
  then show ?thesis by (simp add: save_ext_def)
qed

lemma complete_name_ok:
  assumes "length p \<le> 8" and "length ext = 3" and "12 \<le> length p + length rest"
  shows "complete_name p rest ext = Inr (p @ replicate (8 - length p) 32 @ save_ext ext @ 0 # drop (12 - length p) rest)"
  using assms by (simp add: complete_name_def Let_def save_ext_def)


text \<open>
  A capital letter of an extension is lost, and formatting a formatted name a second time makes it 14
  bytes long, which the directory search refuses.
\<close>

lemma capital_extension_lost:
  "fs_fntos (Some (bytes ''a.TXT'' @ 0 # replicate 10 0)) = Inr (Some (bytes ''A          '' @ replicate 5 0))"
  by code_simp

lemma formatting_twice:
  "fs_fntos (Some (bytes ''a.txt'' @ 0 # replicate 10 0)) = Inr (Some (bytes ''A       TXT'' @ replicate 5 0))"
  "fs_fntos (Some (bytes ''A       TXT'' @ replicate 5 0)) = Inr (Some (bytes ''A       TXT   '' @ replicate 2 0))"
  by code_simp+


end
