(* ===== verification/KFile.thy ===== *)
theory KFile
  imports KLife KName
begin

text \<open>
  Open files: the structure \<open>file_d\<close> of kstdio.h, its buffer (file_read_buffer() and
  file_write_buffer() of fslib.c), the system calls of fs.c and the pipes and duplicates of pipe.c.
  The state \<open>io_state\<close> puts the kernel state, the bytes of memory with the file system, and the stores
  of file, socket and sync structures together. The fields of a process that only these functions use
  (\<open>priv\<close> and the two counters) are the store \<open>pio\<close>. \<open>Objects\<close> holds pointers to files.
\<close>

section \<open>The state\<close>

text \<open>\<open>object_type_t\<close>; \<open>ObjectTypeOther\<close> stands for the constants none of the functions here asks for.\<close>

datatype object_type =
    ObjectTypeNull | ObjectTypeDirectory | ObjectTypeFile | ObjectTypePipe | ObjectTypeFileSystem
  | ObjectTypePTMX | ObjectTypeTTY | ObjectTypePTY | ObjectTypeVirtualConsole | ObjectTypeNIC
  | ObjectTypeSocket | ObjectTypeIoBuffer | ObjectTypeOther

record kstdio_sync_d =
  y_used :: int
  y_magic :: int
  sender_pid :: int
  receiver_pid :: int
  action :: int
  is_blocked :: int
  can_read :: int
  can_write :: int
  can_execute :: int
  can_accept :: int
  can_connect :: int
  block_on_write :: int
  block_on_write_full :: int
  block_on_read :: int
  block_on_read_empty :: int

record file_d =
  f_object :: object_type
  f_used :: int
  f_magic :: int
  f_tmpfname :: ptr
  f_file :: int
  f_pid :: int
  f_uid :: int
  f_gid :: int
  isDevice :: int
  socket_buffer_full :: int
  f_socket :: ptr
  f_base :: u64
  f_p :: u64
  f_r :: int
  f_w :: int
  f_lbfsize :: int
  f_fsize :: int
  f_cnt :: int
  f_flags :: u16
  f_sync :: kstdio_sync_d
  fd_counter :: int
  tid_waiting :: int

text \<open>\<open>struct socket_d\<close> of socket.h.\<close>

record socket_d =
  so_object :: object_type
  so_used :: int
  so_magic :: int
  so_family :: int
  so_type :: int
  so_protocol :: int
  so_pid :: int
  so_uid :: int
  so_gid :: int
  connection_type :: int
  ip_ipv4 :: u32
  ip_ipv6 :: u64
  so_port :: u16
  so_flags :: u16
  connections_count :: int
  backlog_max :: int
  backlog_head :: int
  backlog_tail :: int
  pending_connections :: "int \<Rightarrow> ptr"
  client_backlog_pos :: int
  isAcceptingConnections :: int
  so_link :: ptr
  so_state :: int
  conn_copy :: int
  clientfd_on_server :: int
  private_file :: ptr
  magic_string :: "nat \<Rightarrow> u8"
  sa_family :: u16
  sa_data :: "nat \<Rightarrow> u8"
  in_family :: u8
  in_port :: u16
  in_addr :: u32

record process_io_d =
  priv :: ptr
  read_counter :: u32
  write_counter :: u32

text \<open>A registered device: what devmgr_search_in_dev_list() looks at.\<close>

record device_d =
  dv_magic :: int
  mount_point :: "u8 list option"
  dv_fp :: ptr

text \<open>
  \<open>console_answer\<close> is the result of console_write(), which draws on the screen; no operation here
  changes it. \<open>localhost_ipv4\<close> is the constant 127.0.0.1 of socket.c.
\<close>

record dev_dir_entry_d =
  dd_magic :: int
  dd_initialized :: int
  dd_fp :: ptr

record io_state =
  ker :: kstate
  fss :: fs_state
  fimem :: "ptr \<Rightarrow> file_d"
  somem :: "ptr \<Rightarrow> socket_d"
  symem :: "ptr \<Rightarrow> kstdio_sync_d"
  pio :: "ptr \<Rightarrow> process_io_d"
  deviceList :: "nat \<Rightarrow> device_d option"
  dev_dir :: "int \<Rightarrow> dev_dir_entry_d"
  syncList :: "int \<Rightarrow> ptr"
  sync_count :: int
  saved_sync_id :: int
  current_user :: int
  current_group :: int
  fg_console :: int
  console_answer :: "int \<Rightarrow> u64 \<Rightarrow> int \<Rightarrow> int"
  new_client_port_number :: u16

definition OPEN_MAX :: int where "OPEN_MAX = 32"
definition NUMBER_OF_FILES :: int where "NUMBER_OF_FILES = 32"
definition BUFSIZ :: int where "BUFSIZ = 1024"
definition EOF :: int where "EOF = -1"
definition SRD :: u16 where "SRD = 4"
definition SWR :: u16 where "SWR = 8"
definition EPERM :: int where "EPERM = 1"
definition EBADF :: int where "EBADF = 9"
definition EFAULT :: int where "EFAULT = 14"
definition EINVAL :: int where "EINVAL = 22"
definition EMFILE :: int where "EMFILE = 24"
definition CONTROLTHREAD_BASE :: u64 where "CONTROLTHREAD_BASE = 0x200000"
definition ACTION_NULL :: int where "ACTION_NULL = 0"
definition SYNC_REQUEST_SET_ACTION :: int where "SYNC_REQUEST_SET_ACTION = 1"
definition SYNC_REQUEST_GET_ACTION :: int where "SYNC_REQUEST_GET_ACTION = 2"
definition SYNC_REQUEST_RESET_WR :: int where "SYNC_REQUEST_RESET_WR = 216"
definition SYNC_REQUEST_RESET_RD :: int where "SYNC_REQUEST_RESET_RD = 217"
definition SYNC_COUNT_MAX :: int where "SYNC_COUNT_MAX = 1024"
definition O_CREAT :: int where "O_CREAT = 0x200"
definition DEVICE_LIST_MAX :: nat where "DEVICE_LIST_MAX = 512"

text \<open>\<open>sizeof(file)\<close> and \<open>sizeof(struct kstdio_sync_d)\<close> with the alignment of x86-64.\<close>

definition file_size_of :: int where "file_size_of = 312"
definition sync_size_of :: int where "sync_size_of = 64"

definition zero_sync :: kstdio_sync_d where
  "zero_sync = \<lparr>y_used = 0, y_magic = 0, sender_pid = 0, receiver_pid = 0, action = 0, is_blocked = 0,
     can_read = 0, can_write = 0, can_execute = 0, can_accept = 0, can_connect = 0, block_on_write = 0,
     block_on_write_full = 0, block_on_read = 0, block_on_read_empty = 0\<rparr>"

definition zero_file :: file_d where
  "zero_file = \<lparr>f_object = ObjectTypeNull, f_used = 0, f_magic = 0, f_tmpfname = NULL, f_file = 0,
     f_pid = 0, f_uid = 0, f_gid = 0, isDevice = 0, socket_buffer_full = 0, f_socket = NULL, f_base = 0,
     f_p = 0, f_r = 0, f_w = 0, f_lbfsize = 0, f_fsize = 0, f_cnt = 0, f_flags = 0, f_sync = zero_sync,
     fd_counter = 0, tid_waiting = 0\<rparr>"

section \<open>Access to the stores\<close>

definition upd_file :: "ptr \<Rightarrow> (file_d \<Rightarrow> file_d) \<Rightarrow> io_state \<Rightarrow> io_state" where
  "upd_file f g s = s\<lparr>fimem := (fimem s)(f := g (fimem s f))\<rparr>"

abbreviation upd_sync :: "ptr \<Rightarrow> (kstdio_sync_d \<Rightarrow> kstdio_sync_d) \<Rightarrow> io_state \<Rightarrow> io_state" where
  "upd_sync f g \<equiv> upd_file f (\<lambda>r. r\<lparr>f_sync := g (f_sync r)\<rparr>)"

definition upd_pio :: "ptr \<Rightarrow> (process_io_d \<Rightarrow> process_io_d) \<Rightarrow> io_state \<Rightarrow> io_state" where
  "upd_pio p g s = s\<lparr>pio := (pio s)(p := g (pio s p))\<rparr>"

definition upd_ker :: "(kstate \<Rightarrow> kstate) \<Rightarrow> io_state \<Rightarrow> io_state" where
  "upd_ker g s = s\<lparr>ker := g (ker s)\<rparr>"

definition io_bytes :: "io_state \<Rightarrow> u64 \<Rightarrow> nat \<Rightarrow> u8 list" where
  "io_bytes s a n = mem_bytes (fmem (fss s)) a n"

definition io_store :: "u64 \<Rightarrow> u8 list \<Rightarrow> io_state \<Rightarrow> io_state" where
  "io_store a xs s = s\<lparr>fss := (fss s)\<lparr>fmem := put_bytes a xs (fmem (fss s))\<rparr>\<rparr>"

text \<open>memcpy() between areas of memory that do not overlap.\<close>

definition io_copy :: "u64 \<Rightarrow> u64 \<Rightarrow> nat \<Rightarrow> io_state \<Rightarrow> io_state" where
  "io_copy dst src n s = io_store dst (io_bytes s src n) s"

definition process_object :: "io_state \<Rightarrow> ptr \<Rightarrow> int \<Rightarrow> ptr" where
  "process_object s p i = p_Objects (pmem (ker s) p) i"

definition set_object :: "ptr \<Rightarrow> int \<Rightarrow> ptr \<Rightarrow> io_state \<Rightarrow> io_state" where
  "set_object p i f = upd_ker (upd_process p (\<lambda>r. r\<lparr>p_Objects := (p_Objects r)(i := f)\<rparr>))"

definition io_alloc :: "int \<Rightarrow> io_state \<Rightarrow> kfault + (u64 \<times> io_state)" where
  "io_alloc n s = kbind (kmalloc n (ker s)) (\<lambda>(a, k). Inr (a, s\<lparr>ker := k\<rparr>))"

section \<open>The buffer of a file\<close>

definition file_read_buffer :: "ptr \<Rightarrow> u64 \<Rightarrow> int \<Rightarrow> io_state \<Rightarrow> int \<times> io_state" where
  "file_read_buffer f buffer len s =
    (let Count = len AND 0xFFFF; F = fimem s f in
     if f = NULL then (EOF, s)
     else if f_used F \<noteq> TRUE \<or> f_magic F \<noteq> 1234 then (EOF, s)
     else if buffer = 0 then (EOF, s)
     else if Count \<le> 0 then (EOF, s)
     else if Count > f_lbfsize F then (EOF, s)
     else if f_object F = ObjectTypeSocket \<or> f_object F = ObjectTypePipe
     then (Count, upd_file f (\<lambda>r. r\<lparr>f_flags := f_flags r OR SWR\<rparr>) (io_copy buffer (f_base F) (nat Count) s))
     else if f_object F = ObjectTypeFile \<or> f_object F = ObjectTypeTTY \<or> f_object F = ObjectTypeIoBuffer
     then (if f_lbfsize F \<le> 0 then (EOF, s)
       else if f_lbfsize F > 8 * 1024 then (EOF, s)
       else if f_r F < 0 then (EOF, upd_file f (\<lambda>r. r\<lparr>f_r := 0\<rparr>) s)
       else if f_r F > f_lbfsize F then (EOF, s)
       else if f_r F > f_w F then (0, upd_file f (\<lambda>r. r\<lparr>f_r := f_w r\<rparr>) s)
       else let delta = f_w F - f_r F in
         if delta = 0 then (0, s)
         else let Count = (if Count > delta then delta else Count); p = f_base F + word_of_int (f_r F) in
           if Count \<le> 0 then (EOF, upd_file f (\<lambda>r. r\<lparr>f_p := p\<rparr>) s)
           else let r' = f_r F + Count in
             (Count, upd_file f (\<lambda>r. r\<lparr>f_p := p + word_of_int Count, f_r := (if r' > f_w F then f_w F else r'),
                  f_flags := f_flags r OR SWR, f_sync := (f_sync r)\<lparr>can_write := TRUE\<rparr>\<rparr>)
                (io_copy buffer p (nat Count) s)))
     else (EOF, s))"

text \<open>
  The tail of file_write_buffer(), from the choice of the offset on: an offset of writing behind the
  offset of reading is moved up to it.
\<close>

definition write_at :: "ptr \<Rightarrow> u64 \<Rightarrow> int \<Rightarrow> io_state \<Rightarrow> int \<times> io_state" where
  "write_at f string len s =
    (let s1 = (if f_w (fimem s f) < f_r (fimem s f)
               then upd_file f (\<lambda>r. r\<lparr>f_w := f_r r, f_cnt := f_lbfsize r - f_r r\<rparr>) s else s);
         F = fimem s1 f; p = f_base F + word_of_int (f_w F) in
     (len, upd_file f (\<lambda>r. r\<lparr>f_p := p + word_of_int len, f_w := f_w r + len, f_cnt := f_cnt r - len,
             f_flags := SRD, f_sync := (f_sync r)\<lparr>can_read := TRUE\<rparr>\<rparr>) (io_copy p string (nat len) s1)))"

definition file_write_buffer :: "ptr \<Rightarrow> u64 \<Rightarrow> int \<Rightarrow> io_state \<Rightarrow> kfault + (int \<times> io_state)" where
  "file_write_buffer f string len s =
    (let F = fimem s f in
     if f = NULL then Inr (EOF, s)
     else if string = 0 then Inr (EOF, s)
     else if len \<ge> BUFSIZ then Inr (EOF, s)
     else if f_object F = ObjectTypeSocket \<or> f_object F = ObjectTypePipe
     then (if len < 0 then Inl (OutOfBounds ''memcpy'') else Inr (len, io_copy (f_base F) string (nat len) s))
     else if f_object F = ObjectTypeFile \<or> f_object F = ObjectTypeTTY \<or> f_object F = ObjectTypeIoBuffer
     then (if f_lbfsize F > BUFSIZ then Inr (EOF, s)
       else if f_w F < 0
       then Inr (EOF, upd_file f (\<lambda>r. r\<lparr>f_p := f_base r, f_w := 0, f_r := 0, f_cnt := f_lbfsize r\<rparr>) s)
       else if f_w F \<ge> BUFSIZ then Inr (EOF, upd_file f (\<lambda>r. r\<lparr>f_w := BUFSIZ, f_cnt := 0\<rparr>) s)
       else if f_cnt F < 0
       then Inr (EOF, upd_file f (\<lambda>r. r\<lparr>f_cnt := 0, f_w := f_lbfsize r, f_r := f_lbfsize r,
              f_p := f_base r + word_of_int (f_lbfsize r)\<rparr>) s)
       else let s1 = (if f_cnt F > f_lbfsize F
                then upd_file f (\<lambda>r. r\<lparr>f_cnt := f_lbfsize r, f_p := f_base r, f_w := 0, f_r := 0\<rparr>) s else s);
                cnt = f_cnt (fimem s1 f) in
         if len < 0 then Inr (-1, s1)
         else if len > cnt \<and> cnt \<le> 0
         then Inr (-1, upd_file f (\<lambda>r. r\<lparr>f_w := f_lbfsize r, f_r := f_lbfsize r,
                f_p := f_base r + word_of_int (f_lbfsize r), f_cnt := 0\<rparr>) s1)
         else Inr (write_at f string (if len > cnt then cnt else len) s1))
     else Inr (EOF, s))"

section \<open>Descriptors\<close>

definition get_file_from_fd :: "int \<Rightarrow> io_state \<Rightarrow> kfault + ptr" where
  "get_file_from_fd fd s =
    (if fd < 0 \<or> fd \<ge> 32 then Inr NULL
     else let pid = get_current_process (ker s) in
     if pid < 0 \<or> pid \<ge> PROCESS_COUNT_MAX then Inr NULL
     else let p = processList (ker s) pid in
     if p = NULL then Inl (KPanic ''get_file_from_fd: p'')
     else if p_used (pmem (ker s) p) \<noteq> TRUE then Inr NULL
     else if p_magic (pmem (ker s) p) \<noteq> 1234 then Inr NULL
     else Inr (process_object s p fd))"

definition fs_get_free_fd_from_pid :: "int \<Rightarrow> io_state \<Rightarrow> int" where
  "fs_get_free_fd_from_pid pid s =
    (if pid < 0 \<or> pid \<ge> PROCESS_COUNT_MAX then -1
     else let p = processList (ker s) pid in
     if p = NULL then -1
     else if p_used (pmem (ker s) p) \<noteq> TRUE \<or> p_magic (pmem (ker s) p) \<noteq> 1234 then -1
     else case find (\<lambda>i. process_object s p i = NULL) (slots 0 32) of Some i \<Rightarrow> i | None \<Rightarrow> -1)"

text \<open>The check of the current process that opens most of the system calls; None is \<open>goto fail\<close>.\<close>

definition calling_process :: "io_state \<Rightarrow> ptr option" where
  "calling_process s =
    (let pid = get_current_process (ker s) in
     if pid < 0 \<or> pid \<ge> PROCESS_COUNT_MAX then None
     else let p = processList (ker s) pid in
     if p = NULL then None
     else if p_used (pmem (ker s) p) \<noteq> TRUE \<or> p_magic (pmem (ker s) p) \<noteq> 1234 then None
     else Some p)"


type_synonym 'a ioresult = "kfault + ('a \<times> io_state)"

section \<open>Read\<close>

definition sys_read_pipe :: "int \<Rightarrow> u64 \<Rightarrow> int \<Rightarrow> int" where
  "sys_read_pipe fd ubuf count =
    (if fd < 0 \<or> fd \<ge> OPEN_MAX then -EBADF else if ubuf = 0 then -EINVAL else if count \<le> 0 then -1 else -1)"

definition sys_write_pipe :: "int \<Rightarrow> u64 \<Rightarrow> int \<Rightarrow> int" where
  "sys_write_pipe fd ubuf count =
    (if fd < 0 \<or> fd \<ge> OPEN_MAX then -EBADF else if ubuf = 0 then -EINVAL else if count \<le> 0 then -1 else -1)"

text \<open>
  The branch of __read_imp() for a socket. An empty buffer with the flag to read set stops the kernel
  when the socket blocks on that, which every socket does.
\<close>

definition read_socket :: "ptr \<Rightarrow> u64 \<Rightarrow> int \<Rightarrow> io_state \<Rightarrow> int ioresult" where
  "read_socket fp ubuf count s0 =
    (let me = current_thread (ker s0); s = upd_ker (do_credits_by_tid me) s0; F = fimem s fp in
     if f_flags F AND SRD = 0 then Inr (-1, s)
     else if socket_buffer_full F = FALSE
     then let s1 = upd_file fp (\<lambda>r. r\<lparr>f_flags := SWR, tid_waiting := -1\<rparr>) s in
          if block_on_read_empty (f_sync F) = TRUE
          then Inl (KPanic ''__read_imp: [DEBUG] Couldn't read socket. Buffer not full'')
          else Inr (-1, upd_ker (yield me) s1)
     else if socket_buffer_full F = TRUE
     then let (nbytes, s1) = file_read_buffer fp ubuf count s in
          if nbytes \<le> 0 then Inr (-1, s1)
          else Inr (nbytes, upd_file fp (\<lambda>r. r\<lparr>socket_buffer_full := FALSE,
                 f_flags := (f_flags r AND NOT SRD) OR SWR, tid_waiting := -1\<rparr>) s1)
     else Inl (KPanic ''__read_imp: Unexpected error when reading socket''))"

definition read_regular :: "ptr \<Rightarrow> u64 \<Rightarrow> int \<Rightarrow> io_state \<Rightarrow> int \<times> io_state" where
  "read_regular fp ubuf count s =
    (if f_flags (fimem s fp) AND SRD = 0 then (-1, s)
     else let (nbytes, s1) = file_read_buffer fp ubuf count s in
       if nbytes \<le> 0 then (-1, s1)
       else (nbytes, upd_file fp (\<lambda>r. r\<lparr>f_flags := f_flags r OR SWR, f_sync := (f_sync r)\<lparr>can_write := TRUE\<rparr>\<rparr>) s1))"

definition read_imp :: "int \<Rightarrow> u64 \<Rightarrow> int \<Rightarrow> io_state \<Rightarrow> int ioresult" where
  "read_imp fd ubuf count s0 =
    (case calling_process s0 of None \<Rightarrow> Inr (-1, s0)
     | Some p \<Rightarrow>
       let s = upd_pio p (\<lambda>r. r\<lparr>read_counter := read_counter r + 1\<rparr>) s0 in
       if fd < 0 \<or> fd \<ge> OPEN_MAX then Inr (-EBADF, s)
       else if ubuf = 0 then Inr (-EINVAL, s)
       else if count < 0 then Inr (-EINVAL, s)
       else if count = 0 then Inr (0, s)
       else kbind (get_file_from_fd fd s) (\<lambda>fp.
         if fp = NULL then Inr (-1, s)
         else let F = fimem s fp in
           if can_read (f_sync F) \<noteq> TRUE then Inr (-1, s)
           else (case f_object F of
               ObjectTypeSocket \<Rightarrow> read_socket fp ubuf count s
             | ObjectTypeFile \<Rightarrow> Inr (read_regular fp ubuf count s)
             | ObjectTypePTMX \<Rightarrow> Inr (0, s)
             | ObjectTypePTY \<Rightarrow> Inr (0, s)
             | ObjectTypeFileSystem \<Rightarrow> Inr (0, s)
             | ObjectTypePipe \<Rightarrow> Inr (sys_read_pipe fd ubuf count, s)
             | _ \<Rightarrow> Inr (-1, s))))"

definition sys_read :: "int \<Rightarrow> u64 \<Rightarrow> int \<Rightarrow> io_state \<Rightarrow> int ioresult" where
  "sys_read fd ubuf count s =
    (if fd < 0 then Inr (-EBADF, s)
     else if fd = 0 \<and> current_thread (ker s) \<noteq> foreground_thread (ker s) then Inr (-EPERM, s)
     else if ubuf < CONTROLTHREAD_BASE then Inl (KPanic ''sys_read: Invalid ubuf'')
     else if count = 0 then Inr (-EINVAL, s)
     else read_imp fd ubuf count s)"

section \<open>Write\<close>

definition write_socket :: "ptr \<Rightarrow> u64 \<Rightarrow> int \<Rightarrow> io_state \<Rightarrow> int ioresult" where
  "write_socket fp ubuf count s0 =
    (let me = current_thread (ker s0); s = upd_ker (do_credits_by_tid me) s0; F = fimem s fp in
     if f_flags F AND SWR = 0 then Inr (-1, s)
     else if socket_buffer_full F = TRUE
     then let s1 = upd_file fp (\<lambda>r. r\<lparr>f_flags := SRD\<rparr>) s;
              s2 = upd_file fp (\<lambda>r. r\<lparr>tid_waiting := -1\<rparr>) (upd_ker (do_thread_ready (tid_waiting F)) s1);
              s3 = (if block_on_write_full (f_sync F) = TRUE
                    then upd_file fp (\<lambda>r. r\<lparr>tid_waiting := me\<rparr>) s2 else s2) in
          Inr (-1, upd_ker (yield me) s3)
     else if socket_buffer_full F = FALSE
     then let s1 = upd_file fp (\<lambda>r. r\<lparr>f_flags := 0\<rparr>) s in
          kbind (file_write_buffer fp ubuf count s1) (\<lambda>(nbytes, s2).
            if nbytes \<le> 0 then Inr (-1, upd_ker (yield me) s2)
            else let s3 = upd_file fp (\<lambda>r. r\<lparr>socket_buffer_full := TRUE,
                       f_flags := (f_flags r AND NOT SWR) OR SRD, tid_waiting := -1\<rparr>) s2 in
              Inr (nbytes, if block_on_write (f_sync F) = TRUE
                           then upd_file fp (\<lambda>r. r\<lparr>tid_waiting := me\<rparr>) s3 else s3))
     else Inl (KPanic ''__write_imp: Unexpected error when writing on socket''))"

definition write_regular :: "ptr \<Rightarrow> u64 \<Rightarrow> int \<Rightarrow> io_state \<Rightarrow> int ioresult" where
  "write_regular fp ubuf count s =
    (if f_flags (fimem s fp) AND SWR = 0 then Inr (0, s)
     else kbind (file_write_buffer fp ubuf count s) (\<lambda>(nbytes, s1).
       if nbytes > 0
       then let s2 = upd_file fp (\<lambda>r. r\<lparr>f_flags := SRD, f_sync := (f_sync r)\<lparr>can_read := TRUE\<rparr>\<rparr>) s1 in
            Inr (nbytes, upd_ker (do_thread_ready (tid_waiting (fimem s2 fp))) s2)
       else Inr (0, s1)))"

definition write_imp :: "int \<Rightarrow> u64 \<Rightarrow> int \<Rightarrow> io_state \<Rightarrow> int ioresult" where
  "write_imp fd ubuf count s0 =
    (case calling_process s0 of None \<Rightarrow> Inr (-1, s0)
     | Some p \<Rightarrow>
       let s = upd_pio p (\<lambda>r. r\<lparr>write_counter := write_counter r + 1\<rparr>) s0 in
       if fd < 0 \<or> fd \<ge> OPEN_MAX then Inr (-EBADF, s)
       else if ubuf = 0 then Inr (-EINVAL, s)
       else if count < 0 then Inr (-EINVAL, s)
       else if count = 0 then Inr (0, s)
       else kbind (get_file_from_fd fd s) (\<lambda>fp.
         if fp = NULL then Inr (-1, s)
         else let F = fimem s fp in
           if can_write (f_sync F) \<noteq> TRUE then Inr (-1, s)
           else if f_file F = 1 \<and> f_object F = ObjectTypeVirtualConsole
           then Inr (console_answer s (fg_console s) ubuf count, s)
           else if 0 \<le> f_file F \<and> f_file F \<le> 2 \<and> f_object F \<noteq> ObjectTypeFile then Inr (-1, s)
           else (case f_object F of
               ObjectTypeNIC \<Rightarrow> Inr (0, s)
             | ObjectTypeSocket \<Rightarrow> write_socket fp ubuf count s
             | ObjectTypeFile \<Rightarrow> write_regular fp ubuf count s
             | ObjectTypePTMX \<Rightarrow> Inr (0, s)
             | ObjectTypePTY \<Rightarrow> Inr (0, s)
             | ObjectTypeFileSystem \<Rightarrow> Inr (0, s)
             | ObjectTypePipe \<Rightarrow> Inr (sys_write_pipe fd ubuf count, s)
             | _ \<Rightarrow> Inr (-1, s))))"

definition sys_write :: "int \<Rightarrow> u64 \<Rightarrow> int \<Rightarrow> io_state \<Rightarrow> int ioresult" where
  "sys_write fd ubuf count s =
    (if fd < 0 then Inr (-EBADF, s)
     else if ubuf < CONTROLTHREAD_BASE then Inl (KPanic ''sys_write: Invalid ubuf'')
     else if count = 0 then Inr (-EINVAL, s)
     else write_imp fd ubuf count s)"

section \<open>Duplicates and pipes\<close>

text \<open>\<open>processList[current_process]\<close> without a test of the index, then the validation.\<close>

definition listed_process :: "io_state \<Rightarrow> kfault + ptr option" where
  "listed_process s =
    (let pid = get_current_process (ker s) in
     if pid < 0 \<or> pid \<ge> PROCESS_COUNT_MAX then Inl (OutOfBounds ''processList'')
     else let p = processList (ker s) pid in
     if p = NULL then Inr None
     else if p_used (pmem (ker s) p) \<noteq> TRUE \<or> p_magic (pmem (ker s) p) \<noteq> 1234 then Inr None
     else Inr (Some p))"

text \<open>
  What a duplicate inherits: the object, the buffer, its pointer, size and count; not the offsets, the
  flags and the permissions, which keep what the memory of the new structure held before.
\<close>

definition inherit :: "file_d \<Rightarrow> file_d \<Rightarrow> file_d" where
  "inherit old r = r\<lparr>f_object := f_object old, f_base := f_base old, f_p := f_p old,
     f_tmpfname := f_tmpfname old, f_lbfsize := f_lbfsize old, f_cnt := f_cnt old, f_used := TRUE,
     f_magic := 1234\<rparr>"

definition sys_dup :: "int \<Rightarrow> io_state \<Rightarrow> int ioresult" where
  "sys_dup oldfd s =
    (if oldfd < 0 \<or> oldfd \<ge> OPEN_MAX then Inr (-EINVAL, s)
     else kbind (listed_process s) (\<lambda>pp. case pp of None \<Rightarrow> Inr (-1, s)
     | Some p \<Rightarrow>
       (case find (\<lambda>i. process_object s p i = NULL) (slots 3 NUMBER_OF_FILES) of
          None \<Rightarrow> Inr (-1, set_object p NUMBER_OF_FILES NULL s)
        | Some slot \<Rightarrow> let f_old = process_object s p oldfd in
          if f_old = NULL then Inr (-1, set_object p slot NULL s)
          else kbind (io_alloc file_size_of s) (\<lambda>(a, s1).
            if a = 0 then Inr (-1, set_object p slot NULL s1)
            else let f_new = unat a in
              Inr (slot, set_object p slot f_new (upd_file f_new (inherit (fimem s1 f_old)) s1))))))"

definition sys_dup2 :: "int \<Rightarrow> int \<Rightarrow> io_state \<Rightarrow> int ioresult" where
  "sys_dup2 oldfd newfd s =
    (if oldfd < 0 \<or> oldfd \<ge> OPEN_MAX then Inr (-EINVAL, s)
     else if newfd < 0 \<or> newfd \<ge> OPEN_MAX then Inr (-EINVAL, s)
     else kbind (listed_process s) (\<lambda>pp. case pp of None \<Rightarrow> Inr (-1, s)
     | Some p \<Rightarrow> let f_old = process_object s p oldfd; f_new = process_object s p newfd in
       if f_old = NULL then Inr (-1, set_object p newfd NULL s)
       else if f_new = NULL then Inr (-1, set_object p newfd NULL s)
       else Inr (newfd, upd_file f_new (inherit (fimem s f_old)) s)))"

definition sys_dup3 :: "int \<Rightarrow> int \<Rightarrow> int \<Rightarrow> io_state \<Rightarrow> int ioresult" where
  "sys_dup3 oldfd newfd flags s = sys_dup2 oldfd newfd s"

definition le_int :: "int \<Rightarrow> u8 list" where
  "le_int i = (let w = word_of_int i :: u32 in
     [ucast w, ucast (drop_bit 8 w), ucast (drop_bit 16 w), ucast (drop_bit 24 w)])"

definition pipe_sync :: "kstdio_sync_d \<Rightarrow> kstdio_sync_d" where
  "pipe_sync y = y\<lparr>sender_pid := -1, receiver_pid := -1, action := ACTION_NULL, can_read := TRUE,
     can_write := TRUE, can_execute := FALSE, can_accept := FALSE, can_connect := FALSE\<rparr>"

definition pipe_file :: "io_state \<Rightarrow> u64 \<Rightarrow> int \<Rightarrow> file_d \<Rightarrow> file_d" where
  "pipe_file s buff slot r = r\<lparr>f_used := TRUE, f_magic := 1234, f_object := ObjectTypePipe,
     f_pid := get_current_process (ker s), f_uid := current_user s, f_gid := current_group s,
     f_sync := pipe_sync (f_sync r), f_tmpfname := NULL, f_base := buff, f_p := buff, f_lbfsize := BUFSIZ,
     f_cnt := BUFSIZ, f_r := 0, f_w := 0, f_file := slot\<rparr>"

text \<open>Both loops of sys_pipe() look for the first free slot; the first does not reserve what it found.\<close>

definition sys_pipe :: "u64 \<Rightarrow> int \<Rightarrow> io_state \<Rightarrow> int ioresult" where
  "sys_pipe pipefd flags s =
    kbind (listed_process s) (\<lambda>pp. case pp of None \<Rightarrow> Inr (-1, s)
     | Some p \<Rightarrow>
       let free = (\<lambda>i. process_object s p i = NULL);
           slot1 = (case find free (slots 3 OPEN_MAX) of Some i \<Rightarrow> i | None \<Rightarrow> -1);
           slot2 = (case find free (slots 3 OPEN_MAX) of Some i \<Rightarrow> i | None \<Rightarrow> -1) in
       if slot1 = -1 \<or> slot2 = -1 then Inr (-1, s)
       else kbind (io_alloc BUFSIZ s) (\<lambda>(buff, s1).
         if buff = 0 then Inr (-1, set_object p slot2 NULL (set_object p slot1 NULL s1))
         else kbind (io_alloc file_size_of s1) (\<lambda>(a1, s2). kbind (io_alloc file_size_of s2) (\<lambda>(a2, s3).
           if a1 = 0 \<or> a2 = 0 then Inr (-1, set_object p slot2 NULL (set_object p slot1 NULL s3))
           else let f1 = unat a1; f2 = unat a2;
                    s4 = upd_file f2 (pipe_file s3 buff slot2) (upd_file f1 (pipe_file s3 buff slot1) s3);
                    s5 = set_object p slot2 f2 (set_object p slot1 f1 s4) in
             Inr (0, io_store pipefd (le_int slot1 @ le_int slot2) s5)))))"

definition pipe_ioctl :: "int \<Rightarrow> u64 \<Rightarrow> u64 \<Rightarrow> int" where
  "pipe_ioctl fd request arg = (if fd < 0 \<or> fd \<ge> OPEN_MAX then -EBADF else -1)"

section \<open>Synchronization\<close>

definition F_FREESP :: int where "F_FREESP = 8"

definition sys_fcntl :: "int \<Rightarrow> int \<Rightarrow> u64 \<Rightarrow> int" where
  "sys_fcntl fd cmd arg =
    (if fd < 0 \<or> fd \<ge> OPEN_MAX then -EBADF
     else if cmd < 0 then -EINVAL
     else if cmd \<le> F_FREESP then -1 else -EINVAL)"

definition sys_get_global_sync :: "int \<Rightarrow> int \<Rightarrow> io_state \<Rightarrow> int" where
  "sys_get_global_sync sync_id request s =
    (if sync_id < 0 \<or> sync_id \<ge> SYNC_COUNT_MAX then -1
     else if request = SYNC_REQUEST_GET_ACTION
     then (if syncList s sync_id = NULL then -1 else action (symem s (syncList s sync_id)))
     else -1)"

definition sys_set_global_sync :: "int \<Rightarrow> int \<Rightarrow> int \<Rightarrow> io_state \<Rightarrow> io_state" where
  "sys_set_global_sync sync_id request data s =
    (if sync_id < 0 \<or> sync_id \<ge> SYNC_COUNT_MAX then s
     else let y = syncList s sync_id in
       if request = SYNC_REQUEST_SET_ACTION \<and> y \<noteq> NULL
       then s\<lparr>symem := (symem s)(y := (symem s y)\<lparr>action := data\<rparr>)\<rparr> else s)"

definition get_saved_sync :: "io_state \<Rightarrow> int" where
  "get_saved_sync s = saved_sync_id s"

definition sys_create_new_sync :: "io_state \<Rightarrow> int ioresult" where
  "sys_create_new_sync s =
    kbind (io_alloc sync_size_of s) (\<lambda>(a, s1).
      if a = 0 then Inr (-1, s1)
      else let y = unat a; n = sync_count s1 + 1;
               s2 = s1\<lparr>symem := (symem s1)(y := zero_sync\<lparr>y_used := TRUE, y_magic := 1234, action := ACTION_NULL\<rparr>),
                      sync_count := n\<rparr> in
        if n > 0 \<and> n < SYNC_COUNT_MAX
        then Inr (n, s2\<lparr>syncList := (syncList s2)(n := y), saved_sync_id := n\<rparr>)
        else Inr (-1, s2))"

text \<open>The valid file behind a descriptor of the calling process, as the sync calls look it up.\<close>

definition valid_object :: "int \<Rightarrow> io_state \<Rightarrow> ptr option" where
  "valid_object fd s =
    (let pid = get_current_process (ker s) in
     if pid < 0 \<or> pid \<ge> PROCESS_COUNT_MAX then None
     else let p = processList (ker s) pid in
     if p = NULL then None
     else if p_magic (pmem (ker s) p) \<noteq> 1234 then None
     else let f = process_object s p fd in
     if f = NULL then None
     else if f_used (fimem s f) \<noteq> TRUE \<or> f_magic (fimem s f) \<noteq> 1234 then None
     else Some f)"

definition k_rewind :: "ptr \<Rightarrow> io_state \<Rightarrow> io_state" where
  "k_rewind f s = (if f = NULL then s else upd_file f (\<lambda>r. r\<lparr>f_p := f_base r\<rparr>) s)"

definition sys_set_file_sync :: "int \<Rightarrow> int \<Rightarrow> int \<Rightarrow> io_state \<Rightarrow> io_state" where
  "sys_set_file_sync fd request data s =
    (if fd < 0 \<or> fd \<ge> OPEN_MAX then s
     else case valid_object fd s of None \<Rightarrow> s
     | Some f \<Rightarrow>
       if request = SYNC_REQUEST_SET_ACTION then upd_sync f (\<lambda>y. y\<lparr>action := data\<rparr>) s
       else if request = SYNC_REQUEST_RESET_WR
       then upd_file f (\<lambda>r. r\<lparr>f_r := 0, f_w := 0, socket_buffer_full := FALSE\<rparr>)
              (k_rewind f (upd_file f (\<lambda>r. r\<lparr>f_sync := (f_sync r)\<lparr>action := 0\<rparr>, f_flags := SWR\<rparr>) s))
       else if request = SYNC_REQUEST_RESET_RD
       then upd_file f (\<lambda>r. r\<lparr>f_sync := (f_sync r)\<lparr>action := 0\<rparr>, f_flags := SRD\<rparr>) s
       else s)"

definition sys_get_file_sync :: "int \<Rightarrow> int \<Rightarrow> io_state \<Rightarrow> int" where
  "sys_get_file_sync fd request s =
    (if fd < 0 \<or> fd \<ge> OPEN_MAX then -EBADF
     else case valid_object fd s of None \<Rightarrow> -1
     | Some f \<Rightarrow> if request = SYNC_REQUEST_GET_ACTION then action (f_sync (fimem s f)) else -1)"

definition sys_sleep_if_socket_is_empty :: "int \<Rightarrow> io_state \<Rightarrow> int \<times> io_state" where
  "sys_sleep_if_socket_is_empty fd s =
    (if fd < 0 \<or> fd \<ge> OPEN_MAX then (-EBADF, s)
     else case valid_object fd s of None \<Rightarrow> (-1, s)
     | Some f \<Rightarrow>
       if f_object (fimem s f) \<noteq> ObjectTypeSocket then (-1, s)
       else if socket_buffer_full (fimem s f) = FALSE
       then (FALSE, upd_file f (\<lambda>r. r\<lparr>f_flags := f_flags r OR SWR, tid_waiting := current_thread (ker s)\<rparr>) s)
       else if socket_buffer_full (fimem s f) = TRUE
       then (TRUE, upd_file f (\<lambda>r. r\<lparr>f_flags := f_flags r OR SRD\<rparr>) s)
       else (-1, s))"

section \<open>Close\<close>

text \<open>
  The name of the file is read at \<open>_tmpfname\<close>, a NULL pointer for every file open() made; for other
  names the parameter \<open>name_at\<close> gives the bytes of the object the pointer points into.
\<close>

definition close_regular :: "(ptr \<Rightarrow> u8 list) \<Rightarrow> ptr \<Rightarrow> io_state \<Rightarrow> kfault + io_state" where
  "close_regular name_at f s =
    (let s1 = (if f_lbfsize (fimem s f) < 512 then upd_file f (\<lambda>r. r\<lparr>f_lbfsize := 512\<rparr>) s else s);
         F = fimem s1 f; name = (if f_tmpfname F = NULL then None else Some (name_at (f_tmpfname F))) in
     kbind (fsSaveFile VOLUME1_FAT_ADDRESS VOLUME1_ROOTDIR_ADDRESS FAT16_ROOT_ENTRIES name
              (word_of_int (f_lbfsize F div 512)) (word_of_int (f_lbfsize F)) (f_base F) 0x20 (fss s1))
       (\<lambda>(_, fs). Inr (s1\<lparr>fss := fs\<rparr>)))"

definition close_imp :: "(ptr \<Rightarrow> u8 list) \<Rightarrow> int \<Rightarrow> io_state \<Rightarrow> int ioresult" where
  "close_imp name_at fd s =
    (if fd < 0 \<or> fd \<ge> OPEN_MAX then Inr (-EBADF, s)
     else case calling_process s of None \<Rightarrow> Inr (-1, s)
     | Some p \<Rightarrow> let f = process_object s p fd in
       if f = NULL then Inr (-1, s)
       else if f_used (fimem s f) \<noteq> TRUE \<or> f_magic (fimem s f) \<noteq> 1234 then Inr (-1, s)
       else (case f_object (fimem s f) of
           ObjectTypeSocket \<Rightarrow> let k = f_socket (fimem s f) in
             if k = NULL then Inl (NullDeref ''object->socket'')
             else Inr (0, set_object p fd NULL
                    (s\<lparr>somem := (somem s)(k := (somem s k)\<lparr>so_used := FALSE, so_magic := 0\<rparr>)\<rparr>))
         | ObjectTypePipe \<Rightarrow> Inr (0, set_object p fd NULL s)
         | ObjectTypeVirtualConsole \<Rightarrow> Inr (0, s)
         | ObjectTypeTTY \<Rightarrow> Inr (0, set_object p fd NULL s)
         | ObjectTypeFile \<Rightarrow> kbind (close_regular name_at f s) (\<lambda>s1. Inr (0, set_object p fd NULL s1))
         | _ \<Rightarrow> Inr (-1, s)))"

definition sys_close :: "(ptr \<Rightarrow> u8 list) \<Rightarrow> int \<Rightarrow> io_state \<Rightarrow> int ioresult" where
  "sys_close name_at fd s = (if fd < 0 then Inr (-EBADF, s) else close_imp name_at fd s)"


section \<open>Open\<close>

definition devmgr_search_in_dev_list :: "u8 list option \<Rightarrow> io_state \<Rightarrow> kfault + ptr" where
  "devmgr_search_in_dev_list path s =
    (case path of None \<Rightarrow> Inr NULL
     | Some nm \<Rightarrow> kbind (strlen nm) (\<lambda>PathSize.
         if PathSize \<ge> 64 then Inr NULL
         else kbind (kfind (\<lambda>i. case deviceList s i of None \<Rightarrow> Inr False
             | Some d \<Rightarrow> if dv_magic d \<noteq> 1234 then Inr False
                 else case mount_point d of None \<Rightarrow> Inr False
                 | Some p \<Rightarrow> kbind (kstrncmp p nm PathSize) (\<lambda>c. Inr (c = 0))) [0..<DEVICE_LIST_MAX])
           (\<lambda>r. Inr (case r of None \<Rightarrow> NULL | Some i \<Rightarrow> dv_fp (the (deviceList s i))))))"

text \<open>A step that cannot run out of fuel in front of one that can.\<close>

definition obind :: "kfault + 'a \<Rightarrow> ('a \<Rightarrow> (kfault + 'b) option) \<Rightarrow> (kfault + 'b) option" where
  "obind m f = (case m of Inl e \<Rightarrow> Some (Inl e) | Inr x \<Rightarrow> f x)"

text \<open>The first byte of a name can choose a directory: \<open>@\<close> for GRAMADO/, \<open>#\<close> for DE/.\<close>

definition shortcut_dir :: "u8 list \<Rightarrow> fs_state \<Rightarrow> (u64 \<times> u8 list) option" where
  "shortcut_dir nm fs =
    (if hd nm = 64
     then (if sd_initialized (sdGRAMADO fs) \<noteq> TRUE \<or> sd_address (sdGRAMADO fs) = 0 then None
           else Some (sd_address (sdGRAMADO fs), tl nm))
     else if hd nm = 35
     then (if sd_initialized (sdDE fs) \<noteq> TRUE \<or> sd_address (sdDE fs) = 0 then None
           else Some (sd_address (sdDE fs), tl nm))
     else Some (VOLUME1_ROOTDIR_ADDRESS, nm))"

definition new_file_text :: "u8 list" where
  "new_file_text = bytes ''This is a new file.'' @ replicate 1005 0"

definition create_file :: "u8 list option \<Rightarrow> u64 \<Rightarrow> io_state \<Rightarrow> bool ioresult" where
  "create_file name dir s =
    kbind (io_alloc BUFSIZ s) (\<lambda>(buff, s1).
      if buff = 0 then Inr (False, s1)
      else let s2 = io_store buff new_file_text s1 in
        kbind (fsSaveFile VOLUME1_FAT_ADDRESS dir FAT16_ROOT_ENTRIES name 1 512 buff 0x20 (fss s2))
          (\<lambda>(ret, fs). Inr (ret = 0, s2\<lparr>fss := fs\<rparr>)))"

text \<open>The fields set before the buffer is there.\<close>

definition open_header :: "io_state \<Rightarrow> ptr \<Rightarrow> int \<Rightarrow> file_d" where
  "open_header s p slot = zero_file\<lparr>f_used := TRUE, f_magic := 1234, f_pid := p_pid (pmem (ker s) p),
     f_uid := current_user s, f_gid := current_group s, f_object := ObjectTypeFile,
     f_sync := zero_sync\<lparr>can_read := TRUE, can_write := TRUE, action := ACTION_NULL\<rparr>, f_fsize := 0,
     f_lbfsize := BUFSIZ, f_r := 0, f_w := 0, f_cnt := BUFSIZ, f_file := slot, fd_counter := 1\<rparr>"

text \<open>A file that does not fit into the first buffer gets one of its size and eight bytes more.\<close>

definition grow_buffer :: "ptr \<Rightarrow> int \<Rightarrow> io_state \<Rightarrow> bool ioresult" where
  "grow_buffer f FileSize s =
    (if FileSize < f_lbfsize (fimem s f) then Inr (True, s)
     else if FileSize > 8 * 1024 then Inr (False, s)
     else let buflen = FileSize + 8 in
       kbind (io_alloc buflen s) (\<lambda>(a, s1).
         let s2 = upd_file f (\<lambda>r. r\<lparr>f_base := a\<rparr>) s1 in
         if a = 0 then Inr (False, s2)
         else Inr (True, upd_file f (\<lambda>r. r\<lparr>f_lbfsize := buflen\<rparr>) (io_store a (replicate (nat buflen) 0) s2))))"

definition set_offsets :: "ptr \<Rightarrow> io_state \<Rightarrow> io_state" where
  "set_offsets f s =
    upd_file f (\<lambda>r. r\<lparr>f_p := f_base r, f_r := 0, f_w := f_fsize r, f_cnt := f_lbfsize r - f_fsize r\<rparr>) s"

definition early_offsets :: "ptr \<Rightarrow> io_state \<Rightarrow> io_state" where
  "early_offsets f s =
    (let s1 = upd_file f (\<lambda>r. r\<lparr>f_p := f_base r, f_r := 0, f_w := f_fsize r\<rparr>) s;
         s2 = (if f_fsize (fimem s1 f) \<ge> f_lbfsize (fimem s1 f)
               then upd_file f (\<lambda>r. r\<lparr>f_r := f_lbfsize r, f_w := f_lbfsize r, f_cnt := 0\<rparr>) s1 else s1) in
     upd_file f (\<lambda>r. r\<lparr>f_cnt := f_lbfsize r - f_fsize r\<rparr>) s2)"

definition load_opened ::
  "nat \<Rightarrow> u8 list option \<Rightarrow> u64 \<Rightarrow> ptr \<Rightarrow> int \<Rightarrow> ptr \<Rightarrow> io_state \<Rightarrow> (int ioresult) option" where
  "load_opened fuel name dir p slot f s0 =
    (let s = early_offsets f s0; F = fimem s f in
     case fsLoadFile fuel VOLUME1_FAT_ADDRESS dir FAT16_ROOT_ENTRIES name (f_base F)
            (word_of_int (f_lbfsize F)) (fss s) of
       None \<Rightarrow> None
     | Some r \<Rightarrow> obind r (\<lambda>(Status, fs).
         let s1 = s\<lparr>fss := fs\<rparr> in
         if Status \<noteq> 0 then Some (Inr (-1, s1))
         else let s2 = upd_file f (\<lambda>r. r\<lparr>f_flags := f_flags r OR SRD\<rparr>) (set_offsets f s1) in
           Some (Inr (f_file (fimem s2 f), set_object p slot f s2))))"

definition open_found ::
  "nat \<Rightarrow> u8 list option \<Rightarrow> u64 \<Rightarrow> io_state \<Rightarrow> (int ioresult) option" where
  "open_found fuel name dir s =
    obind (get_current_process_pointer (ker s)) (\<lambda>p.
      if p = NULL then Some (Inr (-1, s))
      else if p_used (pmem (ker s) p) \<noteq> TRUE \<or> p_magic (pmem (ker s) p) \<noteq> 1234 then Some (Inr (-1, s))
      else case find (\<lambda>i. process_object s p i = NULL) (slots 0 32) of None \<Rightarrow> Some (Inr (-1, s))
      | Some slot \<Rightarrow>
        obind (io_alloc file_size_of s) (\<lambda>(a, s1).
        if a = 0 then Some (Inr (-1, s1))
        else let f = unat a; s2 = upd_file f (\<lambda>_. open_header s1 p slot) s1 in
        obind (io_alloc BUFSIZ s2) (\<lambda>(base, s3).
        let s4 = upd_file f (\<lambda>r. r\<lparr>f_base := base\<rparr>) s3 in
        if base = 0 then Some (Inr (-1, s4))
        else let s5 = io_store base (replicate 1024 0) s4 in
        obind (fsGetFileSize name dir (fss s5)) (\<lambda>(sz, fs).
        let s6 = s5\<lparr>fss := fs\<rparr>; FileSize = sint (ucast sz :: u32) in
        if FileSize \<le> 0 then Some (Inr (-1, s6))
        else obind (grow_buffer f FileSize (upd_file f (\<lambda>r. r\<lparr>f_fsize := FileSize\<rparr>) s6)) (\<lambda>(ok, s7).
        if \<not> ok then Some (Inr (-1, s7)) else load_opened fuel name dir p slot f s7)))))"

definition do_read_file_from_disk ::
  "nat \<Rightarrow> u8 list option \<Rightarrow> int \<Rightarrow> int \<Rightarrow> io_state \<Rightarrow> (int ioresult) option" where
  "do_read_file_from_disk fuel file_name flags mode s =
    (case file_name of None \<Rightarrow> Some (Inr (-EINVAL, s))
     | Some nm \<Rightarrow>
       if nm = [] then Some (Inl (OutOfBounds ''file_name''))
       else if hd nm = 0 then Some (Inr (-EINVAL, s))
       else let nm1 = (if hd nm = 47 then tl nm else nm) in
       if nm1 = [] then Some (Inl (OutOfBounds ''file_name''))
       else case shortcut_dir nm1 (fss s) of None \<Rightarrow> Some (Inr (-1, s))
       | Some (dir, nm2) \<Rightarrow>
         obind (fs_fntos2 (Some nm2)) (\<lambda>nm3.
         obind (search_in_dir nm3 dir (fss s)) (\<lambda>Status.
         obind (if Status = TRUE then Inr (True, s)
                else if flags AND O_CREAT \<noteq> 0 then create_file nm3 dir s else Inr (False, s)) (\<lambda>(ok, s1).
         if \<not> ok then Some (Inr (-1, s1)) else open_found fuel nm3 dir s1))))"

definition open_imp :: "nat \<Rightarrow> u8 list option \<Rightarrow> int \<Rightarrow> int \<Rightarrow> io_state \<Rightarrow> (int ioresult) option" where
  "open_imp fuel pathname flags mode s =
    (case pathname of None \<Rightarrow> Some (Inr (-EFAULT, s))
     | Some nm \<Rightarrow>
       if nm = [] then Some (Inl (OutOfBounds ''pathname''))
       else if hd nm = 0 then Some (Inr (-EFAULT, s))
       else obind (strncpy (replicate 256 0) nm 256) (\<lambda>local.
       obind (devmgr_search_in_dev_list (Some local) s) (\<lambda>fp.
       if fp \<noteq> NULL \<and> isDevice (fimem s fp) = TRUE then Some (Inr (-1, s))
       else case do_read_file_from_disk fuel (Some local) flags mode s of None \<Rightarrow> None
       | Some r \<Rightarrow> obind r (\<lambda>(value, s1).
           Some (Inr (if value < 0 then -1 else if value > 31 then -EMFILE else value, s1))))))"

definition sys_open :: "nat \<Rightarrow> u8 list option \<Rightarrow> int \<Rightarrow> int \<Rightarrow> io_state \<Rightarrow> (int ioresult) option" where
  "sys_open fuel pathname flags mode s =
    (case pathname of None \<Rightarrow> Some (Inr (-EFAULT, s))
     | Some nm \<Rightarrow>
       if nm = [] then Some (Inl (OutOfBounds ''pathname''))
       else if hd nm = 0 then Some (Inr (-EFAULT, s)) else open_imp fuel pathname flags mode s)"

section \<open>Services on names\<close>

definition sys_open_device_by_number :: "int \<Rightarrow> io_state \<Rightarrow> int ioresult" where
  "sys_open_device_by_number i s =
    (if i < 0 \<or> i \<ge> 32 then Inr (-EINVAL, s)
     else if dd_magic (dev_dir s i) \<noteq> 1234 then Inr (-1, s)
     else if dd_initialized (dev_dir s i) \<noteq> TRUE then Inr (-1, s)
     else let fp = dd_fp (dev_dir s i) in
     if fp = NULL then Inr (-1, s)
     else if f_magic (fimem s fp) \<noteq> 1234 then Inr (-1, s)
     else case calling_process s of None \<Rightarrow> Inr (-1, s)
     | Some p \<Rightarrow>
       (case find (\<lambda>k. process_object s p k = NULL) (slots 0 32) of
          None \<Rightarrow> Inl (KPanic ''sys_open_device_by_number: No slots!'')
        | Some slot \<Rightarrow> Inr (slot, set_object p slot fp s)))"

definition sys_get_file_size :: "u8 list option \<Rightarrow> io_state \<Rightarrow> u64 ioresult" where
  "sys_get_file_size path s =
    (case path of None \<Rightarrow> Inr (0, s)
     | Some nm \<Rightarrow>
       if nm = [] then Inl (OutOfBounds ''path'')
       else if hd nm = 0 then Inr (0, s)
       else kbind (fsGetFileSize path VOLUME1_ROOTDIR_ADDRESS (fss s)) (\<lambda>(sz, fs). Inr (sz, s\<lparr>fss := fs\<rparr>)))"

definition sys_read_file_from_disk ::
  "nat \<Rightarrow> u8 list option \<Rightarrow> int \<Rightarrow> int \<Rightarrow> io_state \<Rightarrow> (int ioresult) option" where
  "sys_read_file_from_disk fuel file_name flags mode s =
    (case file_name of None \<Rightarrow> Some (Inr (-EINVAL, s))
     | Some nm \<Rightarrow>
       if nm = [] then Some (Inl (OutOfBounds ''file_name''))
       else if hd nm = 0 then Some (Inr (-EINVAL, s))
       else obind (strncpy (replicate 256 0) nm 256) (\<lambda>local.
         do_read_file_from_disk fuel (Some local) flags mode s))"

definition sys_write_file_to_disk ::
  "u8 list option \<Rightarrow> u64 \<Rightarrow> u64 \<Rightarrow> u64 \<Rightarrow> u8 \<Rightarrow> io_state \<Rightarrow> int ioresult" where
  "sys_write_file_to_disk file_name n_sectors sz address flag s =
    (case file_name of None \<Rightarrow> Inr (-EINVAL, s)
     | Some nm \<Rightarrow>
       if nm = [] then Inl (OutOfBounds ''file_name'')
       else if hd nm = 0 then Inr (-EINVAL, s)
       else kbind (strncpy (replicate 256 0) nm 256) (\<lambda>local.
         kbind (do_write_file_to_disk (Some local) n_sectors sz address flag (fss s)) (\<lambda>(ret, fs).
           Inr (ret, s\<lparr>fss := fs\<rparr>))))"

text \<open>
  An empty file or directory: two sectors from a local array, whose address on the kernel's stack is
  an argument. Only a negative answer counts as a failure, and fsSaveFile() answers 1.
\<close>

definition create_empty :: "u64 \<Rightarrow> u8 list \<Rightarrow> u8 \<Rightarrow> u8 list option \<Rightarrow> io_state \<Rightarrow> int ioresult" where
  "create_empty stack text flag name s =
    (case name of None \<Rightarrow> Inr (-EINVAL, s)
     | Some nm \<Rightarrow>
       if nm = [] then Inl (OutOfBounds ''file_name'')
       else if hd nm = 0 then Inr (-EINVAL, s)
       else kbind (fs_fntos name) (\<lambda>nm1.
         let s1 = io_store stack text s in
         kbind (fsSaveFile VOLUME1_FAT_ADDRESS VOLUME1_ROOTDIR_ADDRESS FAT16_ROOT_ENTRIES nm1 2
                  (word_of_int BUFSIZ) stack flag (fss s1)) (\<lambda>(ret, fs).
           Inr (if ret < 0 then -1 else ret, s1\<lparr>fss := fs\<rparr>))))"

definition sys_create_empty_file :: "u64 \<Rightarrow> u8 list option \<Rightarrow> io_state \<Rightarrow> int ioresult" where
  "sys_create_empty_file stack name s = create_empty stack new_file_text 0x20 name s"

definition sys_create_empty_directory :: "u64 \<Rightarrow> u8 list option \<Rightarrow> io_state \<Rightarrow> int ioresult" where
  "sys_create_empty_directory stack name s = create_empty stack (replicate 1024 0) 0x10 name s"

end
