(* ===== verification/KStream.thy ===== *)
theory KStream
  imports KFile
begin

text \<open>
  What open files promise. The buffer of a regular file is a stream of bytes: the locale
  \<open>byte_stream\<close> states that contract and what follows from it for any interleaving of writes and
  reads, and file_write_buffer() and file_read_buffer() provide it. Then the system calls over it:
  who may write when, what a pipe is, what open() followed by read() delivers and what close() saves.
\<close>

section \<open>The contract of a stream\<close>

datatype stream_op = Put "u8 list" | Get nat

text \<open>
  \<open>put\<close> takes some of the bytes and answers how many, \<open>get\<close> gives some of the bytes that were asked
  for. \<open>run_stream\<close> collects what was taken and what was given.
\<close>

fun run_stream ::
  "(u8 list \<Rightarrow> 's \<Rightarrow> nat \<times> 's) \<Rightarrow> (nat \<Rightarrow> 's \<Rightarrow> u8 list \<times> 's) \<Rightarrow> stream_op list \<Rightarrow> 's
     \<Rightarrow> u8 list \<times> u8 list \<times> 's" where
  "run_stream put get [] s = ([], [], s)"
| "run_stream put get (Put xs # ops) s =
    (let (n, s1) = put xs s; (ins, outs, t) = run_stream put get ops s1 in (take n xs @ ins, outs, t))"
| "run_stream put get (Get n # ops) s =
    (let (ys, s1) = get n s; (ins, outs, t) = run_stream put get ops s1 in (ins, ys @ outs, t))"

locale byte_stream =
  fixes put :: "u8 list \<Rightarrow> 's \<Rightarrow> nat \<times> 's" and get :: "nat \<Rightarrow> 's \<Rightarrow> u8 list \<times> 's"
    and contents :: "'s \<Rightarrow> u8 list" and good :: "'s \<Rightarrow> bool" and allowed :: "stream_op \<Rightarrow> bool"
  assumes put_law: "good s \<Longrightarrow> allowed (Put xs) \<Longrightarrow> \<exists>n t. put xs s = (n, t) \<and> good t \<and> contents t = contents s @ take n xs"
    and get_law: "good s \<Longrightarrow> allowed (Get n) \<Longrightarrow>
      \<exists>t. get n s = (take n (contents s), t) \<and> good t \<and> contents t = drop n (contents s)"
begin

lemma stream_in_order:
  assumes "good s" and "\<forall>q\<in>set ops. allowed q"
  shows "\<exists>ins outs t. run_stream put get ops s = (ins, outs, t) \<and> good t \<and> contents s @ ins = outs @ contents t"
  using assms
proof (induction ops arbitrary: s)
  case Nil
  then show ?case by simp
next
  case (Cons q ops)
  show ?case
  proof (cases q)
    case (Put xs)
    then obtain n s1 where p: "put xs s = (n, s1)" "good s1" "contents s1 = contents s @ take n xs"
      using put_law[of s xs] Cons.prems by auto
    obtain ins outs t where "run_stream put get ops s1 = (ins, outs, t)" "good t" "contents s1 @ ins = outs @ contents t"
      using Cons.IH[OF p(2)] Cons.prems(2) by auto
    then show ?thesis using p Put by simp
  next
    case (Get n)
    then obtain s1 where p: "get n s = (take n (contents s), s1)" "good s1" "contents s1 = drop n (contents s)"
      using get_law[of s n] Cons.prems by auto
    obtain ins outs t where t: "run_stream put get ops s1 = (ins, outs, t)" "good t" "contents s1 @ ins = outs @ contents t"
      using Cons.IH[OF p(2)] Cons.prems(2) by auto
    have "contents s = take n (contents s) @ contents s1" by (simp add: p(3))
    then have "contents s @ ins = (take n (contents s) @ outs) @ contents t"
      using t(3) by (metis append.assoc)
    then show ?thesis using p(1) t(1,2) Get by simp
  qed
qed

end

text \<open>A stream with room for a number of bytes, which reading does not give back.\<close>

locale bounded_stream = byte_stream +
  fixes room :: "'s \<Rightarrow> nat"
  assumes put_room: "good s \<Longrightarrow> allowed (Put xs) \<Longrightarrow> put xs s = (n, t) \<Longrightarrow> n = min (length xs) (room s) \<and> room t = room s - n"
    and get_room: "good s \<Longrightarrow> allowed (Get n) \<Longrightarrow> get n s = (ys, t) \<Longrightarrow> room t = room s"
begin

lemma stream_total:
  assumes "good s" and "\<forall>q\<in>set ops. allowed q" and "run_stream put get ops s = (ins, outs, t)"
  shows "length ins + room t = room s"
  using assms
proof (induction ops arbitrary: s ins outs t)
  case Nil
  then show ?case by simp
next
  case (Cons q ops)
  show ?case
  proof (cases q)
    case (Put xs)
    then obtain n s1 where p: "put xs s = (n, s1)" "good s1"
      using put_law[of s xs] Cons.prems by auto
    obtain ins' outs' t' where r: "run_stream put get ops s1 = (ins', outs', t')" by (metis prod_cases3)
    have "length ins' + room t' = room s1" using Cons.IH[OF p(2) _ r] Cons.prems(2) by simp
    moreover have "ins = take n xs @ ins'" "t = t'" using Cons.prems(3) p(1) r Put by simp_all
    ultimately show ?thesis using put_room[OF Cons.prems(1) _ p(1)] Cons.prems(2) Put by auto
  next
    case (Get n)
    then obtain s1 where p: "get n s = (take n (contents s), s1)" "good s1"
      using get_law[of s n] Cons.prems by auto
    obtain ins' outs' t' where r: "run_stream put get ops s1 = (ins', outs', t')" by (metis prod_cases3)
    have "length ins' + room t' = room s1" using Cons.IH[OF p(2) _ r] Cons.prems(2) by simp
    moreover have "ins = ins'" "t = t'" using Cons.prems(3) p(1) r Get by simp_all
    ultimately show ?thesis using get_room[OF Cons.prems(1) _ p(1)] Cons.prems(2) Get by simp
  qed
qed

end

section \<open>The stores\<close>

lemma upd_file_simps [simp]:
  "fimem (upd_file f g s) = (fimem s)(f := g (fimem s f))"
  "ker (upd_file f g s) = ker s" "fss (upd_file f g s) = fss s" "somem (upd_file f g s) = somem s"
  "pio (upd_file f g s) = pio s" "symem (upd_file f g s) = symem s" "deviceList (upd_file f g s) = deviceList s"
  by (simp_all add: upd_file_def)

lemma io_store_simps [simp]:
  "fimem (io_store a xs s) = fimem s" "ker (io_store a xs s) = ker s" "somem (io_store a xs s) = somem s"
  "pio (io_store a xs s) = pio s" "fmem (fss (io_store a xs s)) = put_bytes a xs (fmem (fss s))"
  "disk (fss (io_store a xs s)) = disk (fss s)"
  by (simp_all add: io_store_def)

lemma io_copy_simps [simp]:
  "fimem (io_copy a b n s) = fimem s" "ker (io_copy a b n s) = ker s" "somem (io_copy a b n s) = somem s"
  "pio (io_copy a b n s) = pio s" "disk (fss (io_copy a b n s)) = disk (fss s)"
  by (simp_all add: io_copy_def)

lemma upd_ker_simps [simp]:
  "fimem (upd_ker g s) = fimem s" "fss (upd_ker g s) = fss s" "somem (upd_ker g s) = somem s"
  "pio (upd_ker g s) = pio s" "ker (upd_ker g s) = g (ker s)"
  by (simp_all add: upd_ker_def)

lemma upd_pio_simps [simp]:
  "fimem (upd_pio p g s) = fimem s" "fss (upd_pio p g s) = fss s" "somem (upd_pio p g s) = somem s"
  "ker (upd_pio p g s) = ker s"
  by (simp_all add: upd_pio_def)

lemma io_bytes_upd [simp]:
  "io_bytes (upd_file f g s) a n = io_bytes s a n" "io_bytes (upd_ker h s) a n = io_bytes s a n"
  "io_bytes (upd_pio p k s) a n = io_bytes s a n"
  by (simp_all add: io_bytes_def)

lemma length_io_bytes [simp]: "length (io_bytes s a n) = n"
  by (simp add: io_bytes_def)

lemma io_bytes_store: "length xs \<le> 2 ^ 64 \<Longrightarrow> io_bytes (io_store a xs s) a (length xs) = xs"
  by (simp add: io_bytes_def mem_bytes_put_bytes)

lemma io_bytes_store_apart: "apart a n b (length xs) \<Longrightarrow> io_bytes (io_store b xs s) a n = io_bytes s a n"
  by (simp add: io_bytes_def mem_bytes_apart)

section \<open>The buffer of a regular file\<close>

definition buffered :: "object_type \<Rightarrow> bool" where
  "buffered t \<longleftrightarrow> t = ObjectTypeFile \<or> t = ObjectTypeTTY \<or> t = ObjectTypeIoBuffer"

definition stream_ok :: "ptr \<Rightarrow> io_state \<Rightarrow> bool" where
  "stream_ok f s \<longleftrightarrow> (let F = fimem s f in f \<noteq> NULL \<and> f_used F = TRUE \<and> f_magic F = 1234
     \<and> buffered (f_object F) \<and> f_lbfsize F = BUFSIZ \<and> 0 \<le> f_r F \<and> f_r F \<le> f_w F \<and> f_w F \<le> BUFSIZ
     \<and> f_cnt F = BUFSIZ - f_w F \<and> unat (f_base F) + 1024 \<le> 2 ^ 64)"

definition stream_contents :: "ptr \<Rightarrow> io_state \<Rightarrow> u8 list" where
  "stream_contents f s = (let F = fimem s f in
     drop (nat (f_r F)) (io_bytes s (f_base F) (nat (f_w F))))"

lemma length_stream_contents: "length (stream_contents f s) = nat (f_w (fimem s f)) - nat (f_r (fimem s f))"
  by (simp add: stream_contents_def Let_def)

text \<open>The bytes written behind the first \<open>w\<close> bytes of an area extend them.\<close>

lemma io_bytes_extend:
  assumes "w + length xs \<le> n" and "unat b + n \<le> 2 ^ 64"
  shows "io_bytes (io_store (b + of_nat w) xs s) b (w + length xs) = io_bytes s b w @ xs"
proof (cases "xs = []")
  case True
  then show ?thesis by (simp add: io_bytes_def)
next
  case False
  then have u: "unat (b + of_nat w) = unat b + w"
    using assms by (cases xs) (auto simp: unat_word_ariths unat_of_nat)
  have "apart b w (b + of_nat w) (length xs)" using u assms by (simp add: apart_def)
  then have "io_bytes (io_store (b + of_nat w) xs s) b w = io_bytes s b w" by (rule io_bytes_store_apart)
  moreover have "length xs \<le> 2 ^ 64" using assms by simp
  ultimately show ?thesis
    using mem_bytes_append[of "fmem (fss (io_store (b + of_nat w) xs s))" b w "length xs"]
      io_bytes_store[of xs "b + of_nat w" s]
    by (simp add: io_bytes_def)
qed

lemma file_write_stream:
  assumes "stream_ok f s" and "string \<noteq> 0" and "0 < n" and "n < 1024"
  shows "\<exists>k t. file_write_buffer f string (int n) s = Inr (if k = 0 then EOF else int k, t)
     \<and> k = min n (1024 - nat (f_w (fimem s f))) \<and> stream_ok f t
     \<and> stream_contents f t = stream_contents f s @ take k (io_bytes s string n)
     \<and> f_flags (fimem t f) = (if k = 0 then f_flags (fimem s f) else SRD) \<and> f_base (fimem t f) = f_base (fimem s f)
     \<and> f_w (fimem t f) = f_w (fimem s f) + int k
     \<and> f_object (fimem t f) = f_object (fimem s f)
     \<and> (can_write (f_sync (fimem s f)) = TRUE \<longrightarrow> can_write (f_sync (fimem t f)) = TRUE)
     \<and> (can_read (f_sync (fimem s f)) = TRUE \<longrightarrow> can_read (f_sync (fimem t f)) = TRUE)
     \<and> (\<forall>g. g \<noteq> f \<longrightarrow> fimem t g = fimem s g) \<and> ker t = ker s \<and> disk (fss t) = disk (fss s)"
proof -
  let ?F = "fimem s f" and ?w = "nat (f_w (fimem s f))"
  have F: "f \<noteq> NULL" "buffered (f_object ?F)" "f_lbfsize ?F = 1024" "0 \<le> f_r ?F" "f_r ?F \<le> f_w ?F"
    "f_w ?F \<le> 1024" "f_cnt ?F = 1024 - f_w ?F" "unat (f_base ?F) + 1024 \<le> 2 ^ 64"
    using assms(1) by (simp_all add: stream_ok_def Let_def BUFSIZ_def)
  show ?thesis
  proof (cases "f_w ?F = 1024")
    case True
    let ?t = "upd_file f (\<lambda>r. r\<lparr>f_w := BUFSIZ, f_cnt := 0\<rparr>) s"
    have "file_write_buffer f string (int n) s = Inr (EOF, ?t)"
      using F True assms(2,4) by (auto simp: file_write_buffer_def Let_def BUFSIZ_def buffered_def)
    moreover have "stream_ok f ?t" using assms(1) True by (auto simp: stream_ok_def Let_def BUFSIZ_def)
    moreover have "stream_contents f ?t = stream_contents f s"
      using True by (simp add: stream_contents_def Let_def BUFSIZ_def)
    ultimately show ?thesis using True by (intro exI[of _ 0] exI[of _ ?t]) (simp add: BUFSIZ_def)
  next
    case False
    define k where "k = min n (1024 - ?w)"
    have k: "0 < k" "?w + k \<le> 1024" "k \<le> n" using False F assms(3) by (auto simp: k_def)
    have ki: "(if int n > f_cnt ?F then f_cnt ?F else int n) = int k" using F False by (auto simp: k_def)
    let ?p = "f_base ?F + word_of_int (f_w ?F)"
    have p: "?p = f_base ?F + of_nat ?w" using F by simp
    let ?t = "upd_file f (\<lambda>r. r\<lparr>f_p := ?p + of_nat k, f_w := f_w r + int k, f_cnt := f_cnt r - int k,
      f_flags := SRD, f_sync := (f_sync r)\<lparr>can_read := TRUE\<rparr>\<rparr>) (io_copy ?p string k s)"
    have w: "write_at f string (int k) s = (int k, ?t)" using F by (simp add: write_at_def Let_def)
    have "file_write_buffer f string (int n) s = Inr (write_at f string (if int n > f_cnt ?F then f_cnt ?F else int n) s)"
      using F False assms(2-4) by (auto simp: file_write_buffer_def Let_def BUFSIZ_def buffered_def)
    then have e: "file_write_buffer f string (int n) s = Inr (int k, ?t)" unfolding ki w .
    have wk: "nat (f_w ?F + int k) = ?w + k" using F by simp
    have "io_bytes (io_copy ?p string k s) (f_base ?F) (?w + k) = io_bytes s (f_base ?F) ?w @ io_bytes s string k"
      using io_bytes_extend[of ?w "io_bytes s string k" 1024 "f_base ?F" s] k F unfolding p by (simp add: io_copy_def)
    moreover have "io_bytes s string k = take k (io_bytes s string n)"
      using k by (simp add: io_bytes_def take_mem_bytes)
    ultimately have "stream_contents f ?t = stream_contents f s @ take k (io_bytes s string n)"
      using F by (simp add: stream_contents_def Let_def wk)
    moreover have "stream_ok f ?t" using assms(1) k F by (simp add: stream_ok_def Let_def BUFSIZ_def)
    ultimately show ?thesis using e k(1) by (intro exI[of _ k] exI[of _ ?t]) (simp add: k_def[symmetric])
  qed
qed

lemma file_read_stream:
  assumes "stream_ok f s" and "buffer \<noteq> 0" and "0 < n" and "n \<le> 1024"
    and "apart (f_base (fimem s f)) 1024 buffer n"
  shows "\<exists>t. file_read_buffer f buffer (int n) s = (int (min n (length (stream_contents f s))), t)
     \<and> io_bytes t buffer (min n (length (stream_contents f s))) = take n (stream_contents f s)
     \<and> stream_ok f t \<and> stream_contents f t = drop n (stream_contents f s)
     \<and> f_flags (fimem t f) = (if stream_contents f s = [] then f_flags (fimem s f) else f_flags (fimem s f) OR SWR)
     \<and> f_base (fimem t f) = f_base (fimem s f) \<and> f_w (fimem t f) = f_w (fimem s f)
     \<and> f_object (fimem t f) = f_object (fimem s f)
     \<and> (can_write (f_sync (fimem s f)) = TRUE \<longrightarrow> can_write (f_sync (fimem t f)) = TRUE)
     \<and> (can_read (f_sync (fimem s f)) = TRUE \<longrightarrow> can_read (f_sync (fimem t f)) = TRUE)
     \<and> (\<forall>g. g \<noteq> f \<longrightarrow> fimem t g = fimem s g) \<and> ker t = ker s \<and> disk (fss t) = disk (fss s)"
proof -
  let ?F = "fimem s f" and ?b = "f_base (fimem s f)"
  let ?r = "nat (f_r ?F)" and ?w = "nat (f_w ?F)"
  have F: "f \<noteq> NULL" "f_used ?F = TRUE" "f_magic ?F = 1234" "buffered (f_object ?F)" "f_lbfsize ?F = 1024"
    "0 \<le> f_r ?F" "f_r ?F \<le> f_w ?F" "f_w ?F \<le> 1024" "unat (f_base ?F) + 1024 \<le> 2 ^ 64"
    using assms(1) by (simp_all add: stream_ok_def Let_def BUFSIZ_def)
  have "int n AND mask 16 = int n" using assms(4) by (simp add: take_bit_eq_mask[symmetric] take_bit_int_eq_self)
  then have m: "int n AND 0xFFFF = int n" by (simp add: mask_eq_exp_minus_1)
  have len: "length (stream_contents f s) = ?w - ?r" by (rule length_stream_contents)
  have head: "file_read_buffer f buffer (int n) s =
     (let delta = f_w ?F - f_r ?F in
         if delta = 0 then (0, s)
         else let Count = (if int n > delta then delta else int n); p = ?b + word_of_int (f_r ?F) in
           if Count \<le> 0 then (EOF, upd_file f (\<lambda>r. r\<lparr>f_p := p\<rparr>) s)
           else let r' = f_r ?F + Count in
             (Count, upd_file f (\<lambda>r. r\<lparr>f_p := p + word_of_int Count, f_r := (if r' > f_w ?F then f_w ?F else r'),
                  f_flags := f_flags r OR SWR, f_sync := (f_sync r)\<lparr>can_write := TRUE\<rparr>\<rparr>)
                (io_copy buffer p (nat Count) s)))"
    using F assms(2-4) m by (auto simp: file_read_buffer_def Let_def buffered_def)
  show ?thesis
  proof (cases "f_w ?F = f_r ?F")
    case True
    then have "stream_contents f s = []" using len by simp
    then show ?thesis using head True assms(1) by (intro exI[of _ s]) (simp add: io_bytes_def mem_bytes_def)
  next
    case False
    define k where "k = min n (?w - ?r)"
    have k: "0 < k" "?r + k \<le> ?w" "k \<le> n" using False F assms(3) by (auto simp: k_def)
    have ki: "(if int n > f_w ?F - f_r ?F then f_w ?F - f_r ?F else int n) = int k"
      using F False by (auto simp: k_def)
    let ?p = "?b + word_of_int (f_r ?F)"
    have p: "?p = ?b + of_nat ?r" using F by simp
    let ?t = "upd_file f (\<lambda>r. r\<lparr>f_p := ?p + of_nat k, f_r := f_r ?F + int k,
      f_flags := f_flags r OR SWR, f_sync := (f_sync r)\<lparr>can_write := TRUE\<rparr>\<rparr>) (io_copy buffer ?p k s)"
    have rk: "f_r ?F + int k \<le> f_w ?F" "nat (f_r ?F + int k) = ?r + k" using k F by auto
    have e: "file_read_buffer f buffer (int n) s = (int k, ?t)"
      using head k rk(1) False by (simp add: Let_def ki)
    have ap: "apart ?b ?w buffer k"
      using apart_sub[of buffer n ?b 1024 0 k] apart_sub[of ?b 1024 buffer k 0 ?w] assms(5) k F
      by (cases "?w = 0") (auto simp: apart_commute)
    have eq: "io_bytes (io_copy buffer ?p k s) ?b ?w = io_bytes s ?b ?w"
      using io_bytes_store_apart[of ?b ?w buffer "io_bytes s ?p k" s] ap by (simp add: io_copy_def)
    have src: "io_bytes s ?p k = take k (stream_contents f s)"
      using k unfolding p by (simp add: stream_contents_def Let_def io_bytes_def drop_mem_bytes take_mem_bytes)
    have "io_bytes ?t buffer k = io_bytes s ?p k"
      using io_bytes_store[of "io_bytes s ?p k" buffer s] k F by (simp add: io_copy_def)
    then have g: "io_bytes ?t buffer k = take n (stream_contents f s)"
      unfolding src using len by (simp add: k_def min_def)
    have c: "stream_contents f ?t = drop n (stream_contents f s)"
      using F len k by (simp add: stream_contents_def Let_def eq rk(2)) (auto simp: k_def min_def add.commute)
    have "stream_ok f ?t" using assms(1) rk F by (simp add: stream_ok_def Let_def)
    moreover have mk: "min n (length (stream_contents f s)) = k" using len by (simp add: k_def)
    moreover have "stream_contents f s \<noteq> []" using mk k(1) by auto
    ultimately show ?thesis using e g c unfolding mk by (intro exI[of _ ?t]) simp
  qed
qed


section \<open>The file as a stream\<close>

text \<open>
  The two calls as a program uses them, with a buffer of 1024 bytes at \<open>u\<close>: fill it and write, or read
  and take what came.
\<close>

definition put_file :: "ptr \<Rightarrow> u64 \<Rightarrow> u8 list \<Rightarrow> io_state \<Rightarrow> nat \<times> io_state" where
  "put_file f u xs s =
    (case file_write_buffer f u (int (length xs)) (io_store u xs s) of
       Inr (n, t) \<Rightarrow> (nat n, t) | Inl e \<Rightarrow> (0, s))"

definition get_file :: "ptr \<Rightarrow> u64 \<Rightarrow> nat \<Rightarrow> io_state \<Rightarrow> u8 list \<times> io_state" where
  "get_file f u n s = (let (k, t) = file_read_buffer f u (int n) s in (io_bytes t u (nat k), t))"

definition stream_at :: "ptr \<Rightarrow> u64 \<Rightarrow> io_state \<Rightarrow> bool" where
  "stream_at f u s \<longleftrightarrow> stream_ok f s \<and> apart (f_base (fimem s f)) 1024 u 1024"

fun op_fits :: "stream_op \<Rightarrow> bool" where
  "op_fits (Put xs) \<longleftrightarrow> 0 < length xs \<and> length xs < 1024"
| "op_fits (Get n) \<longleftrightarrow> 0 < n \<and> n \<le> 1024"

lemma stream_ok_store:
  assumes "stream_at f u s" and "length xs \<le> 1024"
  shows "stream_ok f (io_store u xs s)" "stream_contents f (io_store u xs s) = stream_contents f s"
proof -
  let ?F = "fimem s f"
  show "stream_ok f (io_store u xs s)" using assms by (simp add: stream_at_def stream_ok_def)
  have "f_w ?F \<le> 1024" using assms by (simp add: stream_at_def stream_ok_def Let_def BUFSIZ_def)
  then have "xs = [] \<or> nat (f_w ?F) = 0 \<or> apart (f_base ?F) (nat (f_w ?F)) u (length xs)"
    using assms by (auto simp: stream_at_def apart_def)
  then have "io_bytes (io_store u xs s) (f_base ?F) (nat (f_w ?F)) = io_bytes s (f_base ?F) (nat (f_w ?F))"
    using io_bytes_store_apart by (auto simp: io_bytes_def mem_bytes_def)
  then show "stream_contents f (io_store u xs s) = stream_contents f s"
    by (simp add: stream_contents_def Let_def)
qed

definition file_room :: "ptr \<Rightarrow> io_state \<Rightarrow> nat" where
  "file_room f s = 1024 - nat (f_w (fimem s f))"

lemma put_file_law:
  assumes "u \<noteq> 0" and "stream_at f u s" and "op_fits (Put xs)"
  shows "\<exists>n t. put_file f u xs s = (n, t) \<and> stream_at f u t \<and> stream_contents f t = stream_contents f s @ take n xs
     \<and> n = min (length xs) (file_room f s) \<and> file_room f t = file_room f s - n"
proof -
  let ?s = "io_store u xs s"
  have n: "0 < length xs" "length xs < 1024" using assms(3) by simp_all
  note st = stream_ok_store[OF assms(2), of xs]
  obtain k t where t: "file_write_buffer f u (int (length xs)) ?s = Inr (if k = 0 then EOF else int k, t)"
      "stream_ok f t" "stream_contents f t = stream_contents f ?s @ take k (io_bytes ?s u (length xs))"
      "f_base (fimem t f) = f_base (fimem ?s f)" "f_w (fimem t f) = f_w (fimem ?s f) + int k"
      "k = min (length xs) (1024 - nat (f_w (fimem ?s f)))"
    using file_write_stream[OF st(1) assms(1) n] n by auto
  have "io_bytes ?s u (length xs) = xs" using n by (intro io_bytes_store) simp
  moreover have "0 \<le> f_w (fimem s f)" using assms(2) by (simp add: stream_at_def stream_ok_def Let_def)
  ultimately show ?thesis
    using t st(2) n assms(2) by (auto simp: put_file_def stream_at_def EOF_def file_room_def nat_add_distrib)
qed

lemma get_file_law:
  assumes "u \<noteq> 0" and "stream_at f u s" and "op_fits (Get n)"
  shows "\<exists>t. get_file f u n s = (take n (stream_contents f s), t) \<and> stream_at f u t
     \<and> stream_contents f t = drop n (stream_contents f s) \<and> file_room f t = file_room f s"
proof -
  have n: "0 < n" "n \<le> 1024" using assms(3) by simp_all
  have "apart (f_base (fimem s f)) 1024 u n" using assms(2) n by (auto simp: stream_at_def apart_def)
  then obtain t where t: "file_read_buffer f u (int n) s = (int (min n (length (stream_contents f s))), t)"
      "io_bytes t u (min n (length (stream_contents f s))) = take n (stream_contents f s)" "stream_ok f t"
      "stream_contents f t = drop n (stream_contents f s)" "f_base (fimem t f) = f_base (fimem s f)"
      "f_w (fimem t f) = f_w (fimem s f)"
    using file_read_stream[of f s u n] assms(1,2) n by (auto simp: stream_at_def)
  then show ?thesis using assms(2) by (simp add: get_file_def stream_at_def file_room_def)
qed

interpretation buffer: bounded_stream "put_file f u" "get_file f u" "stream_contents f" "\<lambda>s. u \<noteq> 0 \<and> stream_at f u s"
  op_fits "file_room f" for f u
proof
  show "\<exists>n t. put_file f u xs s = (n, t) \<and> (u \<noteq> 0 \<and> stream_at f u t) \<and> stream_contents f t = stream_contents f s @ take n xs"
    if "u \<noteq> 0 \<and> stream_at f u s" "op_fits (Put xs)" for s xs
    using put_file_law[of u f s xs] that by blast
  show "\<exists>t. get_file f u n s = (take n (stream_contents f s), t) \<and> (u \<noteq> 0 \<and> stream_at f u t)
      \<and> stream_contents f t = drop n (stream_contents f s)"
    if "u \<noteq> 0 \<and> stream_at f u s" "op_fits (Get n)" for s n
    using get_file_law[of u f s n] that by blast
  show "n = min (length xs) (file_room f s) \<and> file_room f t = file_room f s - n"
    if "u \<noteq> 0 \<and> stream_at f u s" "op_fits (Put xs)" "put_file f u xs s = (n, t)" for s xs n t
    using put_file_law[of u f s xs] that by auto
  show "file_room f t = file_room f s"
    if "u \<noteq> 0 \<and> stream_at f u s" "op_fits (Get n)" "get_file f u n s = (ys, t)" for s n ys t
    using get_file_law[of u f s n] that by auto
qed

text \<open>
  C16. The buffer of a file is a queue of at most 1024 bytes in all. Whatever sequence of writes (of 1 to
  1023 bytes) and reads is made through the file, no byte is lost, changed or reordered: what was in
  the buffer followed by what the writes took is what the reads gave followed by what is still there;
  and the bytes taken are subtracted from the room for good, because reading frees nothing.
\<close>

theorem file_buffer_in_order:
  assumes "u \<noteq> 0" and "stream_at f u s" and "\<forall>q\<in>set ops. op_fits q"
  shows "\<exists>ins outs t. run_stream (put_file f u) (get_file f u) ops s = (ins, outs, t) \<and> stream_at f u t
     \<and> stream_contents f s @ ins = outs @ stream_contents f t
     \<and> length ins + file_room f t = file_room f s \<and> file_room f s \<le> 1024"
proof -
  obtain ins outs t where r: "run_stream (put_file f u) (get_file f u) ops s = (ins, outs, t)" "stream_at f u t"
      "stream_contents f s @ ins = outs @ stream_contents f t"
    using buffer.stream_in_order[of u f s ops] assms by blast
  moreover have "length ins + file_room f t = file_room f s"
    using buffer.stream_total[of u f s ops ins outs t] assms r(1) by simp
  ultimately show ?thesis by (auto simp: file_room_def)
qed

section \<open>The system calls\<close>

text \<open>The calling process \<open>p\<close> has the file \<open>f\<close> open as \<open>fd\<close>.\<close>

definition opened :: "io_state \<Rightarrow> ptr \<Rightarrow> int \<Rightarrow> ptr \<Rightarrow> bool" where
  "opened s p fd f \<longleftrightarrow> calling_process s = Some p \<and> 0 \<le> fd \<and> fd < OPEN_MAX \<and> process_object s p fd = f"

lemma calling_process_upd [simp]:
  "calling_process (upd_file f g s) = calling_process s" "calling_process (upd_pio p h s) = calling_process s"
  "process_object (upd_file f g s) = process_object s" "process_object (upd_pio p h s) = process_object s"
  by (simp_all add: calling_process_def process_object_def fun_eq_iff Let_def)

lemma get_file_opened: "opened s p fd f \<Longrightarrow> get_file_from_fd fd s = Inr f"
  by (auto simp: opened_def calling_process_def get_file_from_fd_def Let_def OPEN_MAX_def split: if_splits)

lemma sys_write_file:
  assumes "opened s p fd f" and "stream_ok f s" and "f_object (fimem s f) = ObjectTypeFile"
    and "can_write (f_sync (fimem s f)) = TRUE" and "CONTROLTHREAD_BASE \<le> ubuf" and "0 < count"
  shows "sys_write fd ubuf count s = write_regular f ubuf count (upd_pio p (\<lambda>r. r\<lparr>write_counter := write_counter r + 1\<rparr>) s)"
proof -
  have o: "0 \<le> fd" "fd < OPEN_MAX" "calling_process s = Some p" using assms(1) by (simp_all add: opened_def)
  let ?s = "upd_pio p (\<lambda>r. r\<lparr>write_counter := write_counter r + 1\<rparr>) s"
  have g: "get_file_from_fd fd ?s = Inr f" using get_file_opened[of ?s p fd f] assms(1) by (simp add: opened_def)
  have f: "f \<noteq> NULL" using assms(2) by (simp add: stream_ok_def Let_def)
  have u: "ubuf \<noteq> 0" "\<not> ubuf < CONTROLTHREAD_BASE" using assms(5) by (auto simp: CONTROLTHREAD_BASE_def)
  show ?thesis using o g f u assms(3-6) by (simp add: sys_write_def write_imp_def Let_def)
qed

lemma sys_read_file:
  assumes "opened s p fd f" and "stream_ok f s" and "f_object (fimem s f) = ObjectTypeFile"
    and "can_read (f_sync (fimem s f)) = TRUE" and "CONTROLTHREAD_BASE \<le> ubuf" and "0 < count"
    and "fd \<noteq> 0 \<or> current_thread (ker s) = foreground_thread (ker s)"
  shows "sys_read fd ubuf count s = Inr (read_regular f ubuf count (upd_pio p (\<lambda>r. r\<lparr>read_counter := read_counter r + 1\<rparr>) s))"
proof -
  have o: "0 \<le> fd" "fd < OPEN_MAX" "calling_process s = Some p" using assms(1) by (simp_all add: opened_def)
  let ?s = "upd_pio p (\<lambda>r. r\<lparr>read_counter := read_counter r + 1\<rparr>) s"
  have g: "get_file_from_fd fd ?s = Inr f" using get_file_opened[of ?s p fd f] assms(1) by (simp add: opened_def)
  have f: "f \<noteq> NULL" using assms(2) by (simp add: stream_ok_def Let_def)
  have u: "ubuf \<noteq> 0" "\<not> ubuf < CONTROLTHREAD_BASE" using assms(5) by (auto simp: CONTROLTHREAD_BASE_def)
  show ?thesis using o g f u assms(3,4,6,7) by (auto simp: sys_read_def read_imp_def Let_def)
qed


lemma do_thread_ready_frame [simp]:
  "pmem (do_thread_ready tid k) = pmem k" "processList (do_thread_ready tid k) = processList k"
  "current_pid (do_thread_ready tid k) = current_pid k" "heap (do_thread_ready tid k) = heap k"
  "current_thread (do_thread_ready tid k) = current_thread k"
  "foreground_thread (do_thread_ready tid k) = foreground_thread k"
  by (simp_all add: do_thread_ready_def upd_thread_def Let_def)

lemma calling_process_cong:
  "pmem (ker t) = pmem (ker s) \<Longrightarrow> processList (ker t) = processList (ker s) \<Longrightarrow> current_pid (ker t) = current_pid (ker s)
    \<Longrightarrow> calling_process t = calling_process s \<and> process_object t = process_object s"
  by (simp add: calling_process_def process_object_def get_current_process_def Let_def fun_eq_iff)

lemma stream_cong:
  "fimem t f = fimem s f \<Longrightarrow> fss t = fss s \<Longrightarrow> stream_ok f t = stream_ok f s \<and> stream_contents f t = stream_contents f s"
  by (simp add: stream_ok_def stream_contents_def io_bytes_def Let_def)

lemma flag_bits [simp]: "SRD AND SWR = 0" "SRD AND SRD \<noteq> 0" "SWR AND SWR \<noteq> 0" "SWR AND SRD = 0"
  "(x OR SWR) AND SWR \<noteq> 0" "(SRD OR x) AND SRD \<noteq> 0" "EOF = -1"
proof -
  have "bit ((x OR SWR) AND SWR) 3" "bit ((SRD OR x) AND SRD) 2"
    by (simp_all add: SWR_def SRD_def bit_simps)
  then show "(x OR SWR) AND SWR \<noteq> 0" "(SRD OR x) AND SRD \<noteq> 0" by auto
qed (simp_all add: SRD_def SWR_def EOF_def)

text \<open>A regular file of the caller that can be written and read through descriptor \<open>fd\<close>.\<close>

definition file_open :: "io_state \<Rightarrow> ptr \<Rightarrow> int \<Rightarrow> ptr \<Rightarrow> u64 \<Rightarrow> bool" where
  "file_open s p fd f u \<longleftrightarrow> opened s p fd f \<and> stream_at f u s \<and> f_object (fimem s f) = ObjectTypeFile
     \<and> can_write (f_sync (fimem s f)) = TRUE \<and> can_read (f_sync (fimem s f)) = TRUE \<and> CONTROLTHREAD_BASE \<le> u
     \<and> (fd \<noteq> 0 \<or> current_thread (ker s) = foreground_thread (ker s))"


lemma sys_write_ok:
  assumes o: "file_open s p fd f u" and fl: "f_flags (fimem s f) AND SWR \<noteq> 0" and n: "0 < n" "n < 1024"
    and room: "file_room f s \<noteq> 0"
  shows "\<exists>t. sys_write fd u (int n) s = Inr (int (min n (file_room f s)), t) \<and> file_open t p fd f u
     \<and> stream_contents f t = stream_contents f s @ take (min n (file_room f s)) (io_bytes s u n)
     \<and> f_flags (fimem t f) = SRD \<and> file_room f t = file_room f s - min n (file_room f s) \<and> disk (fss t) = disk (fss s)"
proof -
  let ?k = "min n (file_room f s)" and ?s = "upd_pio p (\<lambda>r. r\<lparr>write_counter := write_counter r + 1\<rparr>) s"
  have so: "opened s p fd f" "stream_ok f s" "f_object (fimem s f) = ObjectTypeFile" "u \<noteq> 0"
    "can_write (f_sync (fimem s f)) = TRUE" "CONTROLTHREAD_BASE \<le> u" "can_read (f_sync (fimem s f)) = TRUE"
    "apart (f_base (fimem s f)) 1024 u 1024"
    using o by (auto simp: file_open_def stream_at_def CONTROLTHREAD_BASE_def)
  have sc: "stream_ok f ?s" "stream_contents f ?s = stream_contents f s" using stream_cong[of ?s f s] so(2) by simp_all
  have k: "?k \<noteq> 0" using room n by simp
  obtain j t where j: "file_write_buffer f u (int n) ?s = Inr (if j = 0 then EOF else int j, t)"
      "j = min n (1024 - nat (f_w (fimem ?s f)))" "stream_ok f t"
      "stream_contents f t = stream_contents f ?s @ take j (io_bytes ?s u n)"
      "f_base (fimem t f) = f_base (fimem ?s f)" "f_w (fimem t f) = f_w (fimem ?s f) + int j"
      "f_object (fimem t f) = f_object (fimem ?s f)"
      "can_write (f_sync (fimem ?s f)) = TRUE \<longrightarrow> can_write (f_sync (fimem t f)) = TRUE"
      "can_read (f_sync (fimem ?s f)) = TRUE \<longrightarrow> can_read (f_sync (fimem t f)) = TRUE"
      "ker t = ker ?s" "disk (fss t) = disk (fss ?s)"
    using file_write_stream[OF sc(1) so(4) n] by blast
  have jk: "j = ?k" using j(2) by (simp add: file_room_def)
  have
      t: "file_write_buffer f u (int n) ?s = Inr (int ?k, t)" "stream_ok f t"
        "stream_contents f t = stream_contents f s @ take ?k (io_bytes s u n)" "f_base (fimem t f) = f_base (fimem s f)"
        "f_w (fimem t f) = f_w (fimem s f) + int ?k" "f_object (fimem t f) = ObjectTypeFile"
        "can_write (f_sync (fimem t f)) = TRUE" "can_read (f_sync (fimem t f)) = TRUE" "ker t = ker s" "disk (fss t) = disk (fss s)"
    using j(1,3-11) k sc(2) so(3,5,7) unfolding jk by simp_all
  let ?v = "upd_file f (\<lambda>r. r\<lparr>f_flags := SRD, f_sync := (f_sync r)\<lparr>can_read := TRUE\<rparr>\<rparr>) t"
  let ?w = "upd_ker (do_thread_ready (tid_waiting (fimem ?v f))) ?v"
  have e: "sys_write fd u (int n) s = Inr (int ?k, ?w)"
    using sys_write_file[OF so(1-3,5,6), of "int n"] n fl t(1) k by (simp add: write_regular_def Let_def)
  have "calling_process ?w = calling_process s \<and> process_object ?w = process_object s"
    by (rule calling_process_cong) (simp_all add: t(9))
  moreover have "stream_ok f ?w \<and> stream_contents f ?w = stream_contents f t"
    using t(2) by (simp add: stream_ok_def stream_contents_def io_bytes_def upd_ker_def upd_file_def Let_def)
  moreover have "0 \<le> f_w (fimem s f)" using so(2) by (simp add: stream_ok_def Let_def)
  ultimately have "file_open ?w p fd f u \<and> stream_contents f ?w = stream_contents f s @ take ?k (io_bytes s u n)
      \<and> f_flags (fimem ?w f) = SRD \<and> file_room f ?w = file_room f s - ?k \<and> disk (fss ?w) = disk (fss s)"
    using o t(3-10) so by (auto simp: file_open_def opened_def stream_at_def file_room_def nat_add_distrib)
  then show ?thesis using e by blast
qed

lemma sys_write_refused:
  assumes o: "file_open s p fd f u" and fl: "f_flags (fimem s f) AND SWR = 0" and n: "0 < n"
  shows "\<exists>t. sys_write fd u n s = Inr (0, t) \<and> fimem t = fimem s \<and> fss t = fss s"
  using sys_write_file[of s p fd f u n] assms
  by (auto simp: file_open_def stream_at_def write_regular_def)

lemma sys_read_ok:
  assumes o: "file_open s p fd f u" and fl: "f_flags (fimem s f) AND SRD \<noteq> 0" and n: "0 < n" "n \<le> 1024"
    and c: "stream_contents f s \<noteq> []"
  shows "\<exists>t. sys_read fd u (int n) s = Inr (int (min n (length (stream_contents f s))), t)
     \<and> io_bytes t u (min n (length (stream_contents f s))) = take n (stream_contents f s) \<and> file_open t p fd f u
     \<and> stream_contents f t = drop n (stream_contents f s) \<and> f_flags (fimem t f) = f_flags (fimem s f) OR SWR
     \<and> file_room f t = file_room f s \<and> disk (fss t) = disk (fss s)"
proof -
  let ?s = "upd_pio p (\<lambda>r. r\<lparr>read_counter := read_counter r + 1\<rparr>) s" and ?l = "length (stream_contents f s)"
  have so: "opened s p fd f" "stream_ok f s" "f_object (fimem s f) = ObjectTypeFile" "u \<noteq> 0"
    "can_read (f_sync (fimem s f)) = TRUE" "CONTROLTHREAD_BASE \<le> u" "fd \<noteq> 0 \<or> current_thread (ker s) = foreground_thread (ker s)"
    "apart (f_base (fimem s f)) 1024 u n"
    using o n by (auto simp: file_open_def stream_at_def CONTROLTHREAD_BASE_def apart_def)
  have sc: "stream_ok f ?s" "stream_contents f ?s = stream_contents f s" using stream_cong[of ?s f s] so(2) by simp_all
  have ap: "apart (f_base (fimem ?s f)) 1024 u n" using so(8) by simp
  from file_read_stream[OF sc(1) so(4) n ap, unfolded sc(2)] obtain t where
      t: "file_read_buffer f u (int n) ?s = (int (min n ?l), t)" "io_bytes t u (min n ?l) = take n (stream_contents f s)"
        "stream_ok f t" "stream_contents f t = drop n (stream_contents f s)" "f_flags (fimem t f) = f_flags (fimem s f) OR SWR"
        "f_base (fimem t f) = f_base (fimem s f)" "f_w (fimem t f) = f_w (fimem s f)" "f_object (fimem t f) = ObjectTypeFile"
        "can_read (f_sync (fimem t f)) = TRUE" "ker t = ker s" "disk (fss t) = disk (fss s)"
    using c so(3,5) by (auto simp only: if_False upd_pio_simps)
  let ?v = "upd_file f (\<lambda>r. r\<lparr>f_flags := f_flags r OR SWR, f_sync := (f_sync r)\<lparr>can_write := TRUE\<rparr>\<rparr>) t"
  have "0 < min n ?l" using n c by simp
  then have e: "sys_read fd u (int n) s = Inr (int (min n ?l), ?v)"
    using sys_read_file[OF so(1-3,5,6) _ so(7), of "int n"] n fl t(1) by (simp add: read_regular_def Let_def)
  have "calling_process ?v = calling_process s \<and> process_object ?v = process_object s"
    by (rule calling_process_cong) (simp_all add: t(10))
  moreover have "stream_ok f ?v \<and> stream_contents f ?v = stream_contents f t"
    using t(3) by (simp add: stream_ok_def stream_contents_def Let_def)
  moreover have "(x OR SWR) OR SWR = x OR SWR" for x by (simp add: or.assoc)
  ultimately have "io_bytes ?v u (min n ?l) = take n (stream_contents f s) \<and> file_open ?v p fd f u
      \<and> stream_contents f ?v = drop n (stream_contents f s) \<and> f_flags (fimem ?v f) = f_flags (fimem s f) OR SWR
      \<and> file_room f ?v = file_room f s \<and> disk (fss ?v) = disk (fss s)"
    using o t(2-11) so by (simp add: file_open_def opened_def stream_at_def file_room_def)
  then show ?thesis using e by blast
qed

text \<open>
  C17. Writing and reading a file take turns. When the flag to write is set and the buffer is empty with
  room left, write() of up to 1023 bytes takes what fits and turns the file to reading; every further
  write() answers 0 and changes nothing, whatever room there is; read() gives the bytes that were
  written and allows writing again. Nothing reaches the disk.
\<close>

theorem file_turns:
  assumes "file_open s p fd f u" and "f_flags (fimem s f) AND SWR \<noteq> 0" and "0 < n" and "n < 1024"
    and "file_room f s \<noteq> 0" and "stream_contents f s = []" and "0 < k" and "k \<le> 1024"
  shows "\<exists>t v. sys_write fd u (int n) s = Inr (int (min n (file_room f s)), t)
     \<and> (\<forall>m > 0. \<exists>w. sys_write fd u m t = Inr (0, w) \<and> fimem w = fimem t \<and> fss w = fss t)
     \<and> sys_read fd u (int k) t = Inr (int (min k (min n (file_room f s))), v)
     \<and> io_bytes v u (min k (min n (file_room f s))) = take (min k (file_room f s)) (io_bytes s u n)
     \<and> f_flags (fimem v f) AND SWR \<noteq> 0 \<and> file_open v p fd f u \<and> disk (fss v) = disk (fss s)"
proof -
  obtain t where t: "sys_write fd u (int n) s = Inr (int (min n (file_room f s)), t)" "file_open t p fd f u"
      "stream_contents f t = take (min n (file_room f s)) (io_bytes s u n)" "f_flags (fimem t f) = SRD"
      "disk (fss t) = disk (fss s)"
    using sys_write_ok[OF assms(1-5)] assms(6) by auto
  have l: "length (stream_contents f t) = min n (file_room f s)" by (simp add: t(3))
  then have c: "stream_contents f t \<noteq> []" using assms(3,5) by auto
  have fl: "f_flags (fimem t f) AND SRD \<noteq> 0" "f_flags (fimem t f) AND SWR = 0"
    using flag_bits(1,2) by (simp_all add: t(4) del: and.idem)
  from sys_read_ok[OF t(2) fl(1) assms(7,8) c, unfolded l] obtain v where
    v: "sys_read fd u (int k) t = Inr (int (min k (min n (file_room f s))), v)"
      "io_bytes v u (min k (min n (file_room f s))) = take k (stream_contents f t)" "file_open v p fd f u"
      "f_flags (fimem v f) = f_flags (fimem t f) OR SWR" "disk (fss v) = disk (fss t)"
    by blast
  have "take k (stream_contents f t) = take (min k (file_room f s)) (io_bytes s u n)"
    by (simp add: t(3) min.commute min.left_commute take_all_iff min_def)
  moreover have "f_flags (fimem v f) AND SWR \<noteq> 0" unfolding v(4) by (rule flag_bits(5))
  moreover have "\<forall>m > 0. \<exists>w. sys_write fd u m t = Inr (0, w) \<and> fimem w = fimem t \<and> fss w = fss t"
    using sys_write_refused[OF t(2) fl(2)] by blast
  ultimately show ?thesis using t(1,5) v(1-3,5) by auto
qed

section \<open>Pipes\<close>

lemma charged_objects: "charged pm pm' \<Longrightarrow> p_Objects (pm' q) = p_Objects (pm q)"
proof -
  assume "charged pm pm'"
  then have "(pm' q)\<lparr>p_allocated_memory := 0\<rparr> = (pm q)\<lparr>p_allocated_memory := 0\<rparr>" by (simp add: charged_def)
  from arg_cong[OF this, of p_Objects] show ?thesis by simp
qed

lemma io_alloc_room:
  assumes "heap_room (ker s) p (nat n + 72 + b) (k + 1)" and "0 < n" and "n < 2 ^ 31"
  shows "\<exists>a h pm. io_alloc n s = Inr (a, s\<lparr>ker := (ker s)\<lparr>heap := h, pmem := pm\<rparr>\<rparr>) \<and> unat a = heap_top (ker s) + 72
     \<and> charged (pmem (ker s)) pm \<and> heap_room ((ker s)\<lparr>heap := h, pmem := pm\<rparr>) p b k
     \<and> heap_top ((ker s)\<lparr>heap := h, pmem := pm\<rparr>) = heap_top (ker s) + nat n + 72"
proof -
  obtain a h pm where "kmalloc n (ker s) = Inr (a, (ker s)\<lparr>heap := h, pmem := pm\<rparr>)" "unat a = heap_top (ker s) + 72"
      "charged (pmem (ker s)) pm" "heap_room ((ker s)\<lparr>heap := h, pmem := pm\<rparr>) p b k"
      "heap_top ((ker s)\<lparr>heap := h, pmem := pm\<rparr>) = heap_top (ker s) + nat n + 72"
    using kmalloc_room[OF assms] by blast
  then show ?thesis by (intro exI[of _ a] exI[of _ h] exI[of _ pm]) (simp add: io_alloc_def)
qed

lemma current_listed:
  assumes "process_current (ker s) p"
  shows "listed_process s = Inr (Some p)" "calling_process s = Some p" "get_current_process_pointer (ker s) = Inr p"
    "fd < 0 \<or> 32 \<le> fd \<or> get_file_from_fd fd s = Inr (process_object s p fd)"
    "p \<noteq> NULL" "p_used (pmem (ker s) p) = TRUE" "p_magic (pmem (ker s) p) = 1234"
  using assms get_current_process_pointer_current[OF assms]
  by (auto simp: process_current_def listed_process_def calling_process_def get_current_process_def pid_ok_def
      get_file_from_fd_def Let_def)

lemma length_le_int [simp]: "length (le_int i) = 4"
  by (simp add: le_int_def Let_def)

text \<open>Reading and writing a pipe through a descriptor.\<close>

lemma pipe_io_fails:
  assumes "process_current (ker s) p" and "0 < fd" and "fd < OPEN_MAX" and "process_object s p fd = f" and "f \<noteq> NULL"
    and "f_object (fimem s f) = ObjectTypePipe" and "f_file (fimem s f) = fd" and "2 < fd"
    and "CONTROLTHREAD_BASE \<le> u"
  shows "\<exists>e t. sys_read fd u n s = Inr (e, t) \<and> e < 0 \<and> fss t = fss s"
    and "\<exists>e t. sys_write fd u n s = Inr (e, t) \<and> e < 0 \<and> fss t = fss s"
proof -
  have u: "u \<noteq> 0" "\<not> u < CONTROLTHREAD_BASE" using assms(9) by (auto simp: CONTROLTHREAD_BASE_def)
  note c = current_listed(2)[OF assms(1)]
  have g: "get_file_from_fd fd (upd_pio p h s) = Inr f" for h
    using current_listed(4)[of "upd_pio p h s" p fd] assms(1-4) by (auto simp: OPEN_MAX_def)
  show "\<exists>e t. sys_read fd u n s = Inr (e, t) \<and> e < 0 \<and> fss t = fss s"
    using assms(2,3,5,6) c u g by (auto simp: sys_read_def read_imp_def sys_read_pipe_def EINVAL_def Let_def)
  show "\<exists>e t. sys_write fd u n s = Inr (e, t) \<and> e < 0 \<and> fss t = fss s"
    using assms(2,3,5-8) c u g by (auto simp: sys_write_def write_imp_def sys_write_pipe_def EINVAL_def Let_def)
qed

text \<open>
  C18. A pipe cannot carry a byte. With a free descriptor and room in the heap, pipe() answers 0, stores
  the same descriptor twice, and every read() and every write() through it answers a negative number
  and leaves all bytes of memory as they are.
\<close>

theorem pipe_useless:
  assumes "heap_room (ker s) p 1864 3" and "find (\<lambda>j. process_object s p j = NULL) (slots 3 OPEN_MAX) = Some i"
    and "CONTROLTHREAD_BASE \<le> u"
  shows "\<exists>t f. sys_pipe pipefd flags s = Inr (0, t) \<and> io_bytes t pipefd 8 = le_int i @ le_int i
     \<and> process_object t p i = f \<and> f_object (fimem t f) = ObjectTypePipe
     \<and> (\<forall>j. j \<noteq> i \<longrightarrow> process_object t p j = process_object s p j)
     \<and> (\<forall>n. \<exists>e v. sys_write i u n t = Inr (e, v) \<and> e < 0 \<and> fss v = fss t)
     \<and> (\<forall>n. \<exists>e v. sys_read i u n t = Inr (e, v) \<and> e < 0 \<and> fss v = fss t)"
proof -
  have pc: "process_current (ker s) p" using assms(1) by (simp add: heap_room_def)
  have i: "3 \<le> i" "i < 32" using assms(2) by (auto simp: find_Some_iff OPEN_MAX_def dest: nth_mem)
  have sz: "0 < BUFSIZ" "BUFSIZ < 2 ^ 31" "0 < file_size_of" "file_size_of < 2 ^ 31"
    by (simp_all add: BUFSIZ_def file_size_of_def)
  have r1: "heap_room (ker s) p (nat BUFSIZ + 72 + 768) (2 + 1)" using assms(1) by (simp add: BUFSIZ_def)
  obtain a1 h1 m1 where k1: "io_alloc BUFSIZ s = Inr (a1, s\<lparr>ker := (ker s)\<lparr>heap := h1, pmem := m1\<rparr>\<rparr>)" "unat a1 = heap_top (ker s) + 72"
      "charged (pmem (ker s)) m1" "heap_room ((ker s)\<lparr>heap := h1, pmem := m1\<rparr>) p 768 2"
    using io_alloc_room[OF r1 sz(1,2)] by blast
  let ?s1 = "s\<lparr>ker := (ker s)\<lparr>heap := h1, pmem := m1\<rparr>\<rparr>"
  have r2: "heap_room (ker ?s1) p (nat file_size_of + 72 + 384) (1 + 1)"
    using k1(4) by (simp add: file_size_of_def numeral_2_eq_2)
  obtain a2 h2 m2 where k2: "io_alloc file_size_of ?s1 = Inr (a2, ?s1\<lparr>ker := (ker ?s1)\<lparr>heap := h2, pmem := m2\<rparr>\<rparr>)"
      "unat a2 = heap_top (ker ?s1) + 72" "charged m1 m2" "heap_room ((ker ?s1)\<lparr>heap := h2, pmem := m2\<rparr>) p 384 1"
    using io_alloc_room[OF r2 sz(3,4)] by auto
  let ?s2 = "?s1\<lparr>ker := (ker ?s1)\<lparr>heap := h2, pmem := m2\<rparr>\<rparr>"
  have r3: "heap_room (ker ?s2) p (nat file_size_of + 72 + 0) (0 + 1)" using k2(4) by (simp add: file_size_of_def)
  obtain a3 h3 m3 where k3: "io_alloc file_size_of ?s2 = Inr (a3, ?s2\<lparr>ker := (ker ?s2)\<lparr>heap := h3, pmem := m3\<rparr>\<rparr>)"
      "unat a3 = heap_top (ker ?s2) + 72" "charged m2 m3" "heap_room ((ker ?s2)\<lparr>heap := h3, pmem := m3\<rparr>) p 0 0"
    using io_alloc_room[OF r3 sz(3,4)] by auto
  let ?s3 = "?s2\<lparr>ker := (ker ?s2)\<lparr>heap := h3, pmem := m3\<rparr>\<rparr>"
  have ch: "charged (pmem (ker s)) m3" using charged_trans k1(3) k2(3) k3(3) by blast
  have nz: "a1 \<noteq> 0" "a2 \<noteq> 0" "a3 \<noteq> 0" using k1(2) k2(2) k3(2) by auto
  have i1: "i \<noteq> -1" using i(1) by simp
  let ?s4 = "upd_file (unat a3) (pipe_file ?s3 a1 i) (upd_file (unat a2) (pipe_file ?s3 a1 i) ?s3)"
  let ?s5 = "set_object p i (unat a3) (set_object p i (unat a2) ?s4)"
  let ?t = "io_store pipefd (le_int i @ le_int i) ?s5"
  have e: "sys_pipe pipefd flags s = Inr (0, ?t)"
    using current_listed(1)[OF pc] assms(2) k1(1) k2(1) k3(1) nz i1 by (simp add: sys_pipe_def Let_def)
  have w: "io_bytes ?t pipefd 8 = le_int i @ le_int i"
    using io_bytes_store[of "le_int i @ le_int i" pipefd ?s5] by simp
  have obj: "process_object ?t p j = (if j = i then unat a3 else process_object s p j)" for j
    by (simp add: process_object_def set_object_def upd_process_def charged_objects[OF ch])
  have f: "f_object (fimem ?t (unat a3)) = ObjectTypePipe" "f_file (fimem ?t (unat a3)) = i"
    by (simp_all add: set_object_def pipe_file_def)
  have pc3: "process_current (ker ?s3) p" using k3(4) by (simp add: heap_room_def)
  have "process_current (ker ?t) p"
    using pc3 by (auto simp: process_current_def set_object_def upd_process_def)
  moreover have "unat a3 \<noteq> NULL" using nz by (simp add: unat_eq_0)
  ultimately have "\<exists>e v. sys_write i u n ?t = Inr (e, v) \<and> e < 0 \<and> fss v = fss ?t"
      "\<exists>e v. sys_read i u n ?t = Inr (e, v) \<and> e < 0 \<and> fss v = fss ?t" for n
    using pipe_io_fails[of ?t p i "unat a3" u n] f i assms(3) obj[of i] by (simp_all add: OPEN_MAX_def)
  then show ?thesis using e w f(1) obj by (intro exI[of _ ?t] exI[of _ "unat a3"]) simp
qed

section \<open>Close\<close>

text \<open>
  C19. close() does not save. Closing a file that open() made (its \<open>_tmpfname\<close> is NULL) answers 0 and
  frees the descriptor; whatever was written to its buffer, neither a sector of the disk nor a byte of
  memory changes, and the descriptor cannot be read, written or closed afterwards.
\<close>

theorem close_saves_nothing:
  assumes "opened s p fd f" and "f \<noteq> NULL" and "f_used (fimem s f) = TRUE" and "f_magic (fimem s f) = 1234"
    and "f_object (fimem s f) = ObjectTypeFile" and "f_tmpfname (fimem s f) = NULL"
  shows "\<exists>t. sys_close name_at fd s = Inr (0, t) \<and> fss t = fss s \<and> process_object t p fd = NULL
     \<and> (\<forall>j. j \<noteq> fd \<longrightarrow> process_object t p j = process_object s p j)
     \<and> sys_close name_at fd t = Inr (-1, t)
     \<and> (\<forall>u n. CONTROLTHREAD_BASE \<le> u \<longrightarrow> 0 < n \<longrightarrow> (\<exists>v. sys_write fd u n t = Inr (-1, v) \<and> fss v = fss t))"
proof -
  have o: "0 \<le> fd" "fd < OPEN_MAX" "calling_process s = Some p" "process_object s p fd = f"
    using assms(1) by (auto simp: opened_def)
  let ?s1 = "if f_lbfsize (fimem s f) < 512 then upd_file f (\<lambda>r. r\<lparr>f_lbfsize := 512\<rparr>) s else s"
  let ?t = "set_object p fd NULL ?s1"
  have s1: "f_tmpfname (fimem ?s1 f) = NULL" using assms(6) by simp
  have "close_regular name_at f s = Inr ?s1"
    using s1 by (simp add: close_regular_def Let_def fsSaveFile_def VOLUME1_FAT_ADDRESS_def VOLUME1_ROOTDIR_ADDRESS_def)
  then have e: "sys_close name_at fd s = Inr (0, ?t)"
    using o assms(2-5) by (simp add: sys_close_def close_imp_def Let_def)
  have obj: "process_object ?t p j = (if j = fd then NULL else process_object s p j)" for j
    by (simp add: process_object_def set_object_def upd_process_def)
  have cp: "calling_process ?t = Some p"
    using o(3) by (auto simp: calling_process_def set_object_def upd_process_def get_current_process_def Let_def split: if_splits)
  have c: "sys_close name_at fd ?t = Inr (-1, ?t)"
    using o cp obj[of fd] by (simp add: sys_close_def close_imp_def Let_def)
  have "\<exists>v. sys_write fd u n ?t = Inr (-1, v) \<and> fss v = fss ?t" if "CONTROLTHREAD_BASE \<le> u" "0 < n" for u n
  proof -
    let ?v = "upd_pio p (\<lambda>r. r\<lparr>write_counter := write_counter r + 1\<rparr>) ?t"
    have "opened ?v p fd NULL" using cp o obj[of fd] by (simp add: opened_def)
    then have "get_file_from_fd fd ?v = Inr NULL" by (rule get_file_opened)
    moreover have "u \<noteq> 0" "\<not> u < CONTROLTHREAD_BASE" using that(1) by (auto simp: CONTROLTHREAD_BASE_def)
    ultimately show ?thesis
      using o cp that(2) by (intro exI[of _ ?v]) (simp add: sys_write_def write_imp_def Let_def)
  qed
  moreover have "fss ?t = fss s" by (simp add: set_object_def)
  ultimately show ?thesis using e c obj by (intro exI[of _ ?t]) simp
qed

section \<open>Witnesses\<close>

text \<open>Process 100 has a file with an empty buffer at 0x300000 open as 3, and a buffer at 0x200000.\<close>

definition demo_file :: file_d where
  "demo_file = zero_file\<lparr>f_object := ObjectTypeFile, f_used := TRUE, f_magic := 1234, f_base := 0x300000,
     f_p := 0x300000, f_lbfsize := BUFSIZ, f_cnt := BUFSIZ, f_flags := SWR, f_file := 3,
     f_sync := zero_sync\<lparr>can_read := TRUE, can_write := TRUE\<rparr>\<rparr>"

definition demo_io :: io_state where
  "demo_io = \<lparr>ker = upd_process 7 (\<lambda>r. r\<lparr>p_Objects := (\<lambda>_. NULL)(3 := 1000)\<rparr>) demo_mm, fss = demo_fs,
     fimem = (\<lambda>_. demo_file), somem = (\<lambda>_. undefined), symem = (\<lambda>_. zero_sync),
     pio = (\<lambda>_. \<lparr>priv = NULL, read_counter = 0, write_counter = 0\<rparr>), deviceList = (\<lambda>_. None),
     dev_dir = (\<lambda>_. \<lparr>dd_magic = 0, dd_initialized = 0, dd_fp = NULL\<rparr>), syncList = (\<lambda>_. NULL), sync_count = 0,
     saved_sync_id = 0, current_user = 0, current_group = 0, fg_console = 0, console_answer = (\<lambda>_ _ n. n),
     new_client_port_number = 0\<rparr>"

lemma demo_io_file:
  "file_open demo_io 7 3 1000 0x200000" "stream_at 1000 0x200000 demo_io" "stream_contents 1000 demo_io = []"
  "file_room 1000 demo_io = 1024" "f_flags (fimem demo_io 1000) AND SWR \<noteq> 0"
proof -
  show "stream_contents 1000 demo_io = []"
    by (simp add: stream_contents_def demo_io_def demo_file_def zero_file_def io_bytes_def mem_bytes_def)
  show st: "stream_at 1000 0x200000 demo_io"
    by (simp add: stream_at_def stream_ok_def demo_io_def demo_file_def zero_file_def buffered_def BUFSIZ_def apart_def)
  show "file_room 1000 demo_io = 1024" "f_flags (fimem demo_io 1000) AND SWR \<noteq> 0"
    using flag_bits(3) by (simp_all add: file_room_def demo_io_def demo_file_def zero_file_def del: and.idem)
  have "opened demo_io 7 3 1000"
    by (simp add: opened_def calling_process_def process_object_def demo_io_def get_current_process_def Let_def
        demo_mm_def demo_switch_def upd_process_def PROCESS_COUNT_MAX_def OPEN_MAX_def)
  then show "file_open demo_io 7 3 1000 0x200000"
    using st by (simp add: file_open_def demo_io_def demo_file_def zero_file_def CONTROLTHREAD_BASE_def)
qed

theorem file_buffer_in_order_witness:
  "\<exists>ins outs t. run_stream (put_file 1000 0x200000) (get_file 1000 0x200000) [Put [1, 2], Get 1, Put [3], Get 7] demo_io
     = (ins, outs, t) \<and> ins = outs @ stream_contents 1000 t \<and> length ins + file_room 1000 t = 1024"
proof -
  have f: "\<forall>q\<in>set [Put [1, 2], Get 1, Put [3], Get 7]. op_fits q" by simp
  show ?thesis
    using file_buffer_in_order[OF _ demo_io_file(2) f] unfolding demo_io_file(3,4) by auto
qed

theorem file_turns_witness:
  "\<exists>t v. sys_write 3 0x200000 5 demo_io = Inr (5, t) \<and> sys_read 3 0x200000 10 t = Inr (5, v)
     \<and> io_bytes v 0x200000 5 = replicate 5 9"
proof -
  have "io_bytes demo_io 0x200000 5 = replicate 5 9"
    by (rule nth_equalityI) (simp_all add: io_bytes_def demo_io_def demo_fs_def)
  then show ?thesis
    using file_turns[OF demo_io_file(1,5), of 5 10] unfolding demo_io_file(3,4) by auto
qed

lemma demo_io_room: "heap_room (ker demo_io) 7 1864 3"
proof -
  have "heap (ker demo_io) = demo_heap"
    by (simp add: demo_io_def upd_process_def demo_mm_current)
  moreover have "process_current (ker demo_io) 7"
    using demo_mm_current(1) by (simp add: process_current_def demo_io_def upd_process_def)
  ultimately show ?thesis by (simp add: heap_room_def MMBLOCK_COUNT_MAX_def)
qed

theorem pipe_useless_witness:
  "\<exists>t. sys_pipe 0x201000 0 demo_io = Inr (0, t) \<and> io_bytes t 0x201000 8 = [4, 0, 0, 0, 4, 0, 0, 0]
     \<and> (\<exists>e v. sys_write 4 0x200000 5 t = Inr (e, v) \<and> e < 0)"
proof -
  have "slots 3 OPEN_MAX = 3 # 4 # slots 5 OPEN_MAX" by (simp add: slots_Cons OPEN_MAX_def)
  then have f: "find (\<lambda>j. process_object demo_io 7 j = NULL) (slots 3 OPEN_MAX) = Some 4"
    by (simp add: process_object_def demo_io_def upd_process_def)
  have le: "le_int 4 = [4, 0, 0, 0]" by (simp add: le_int_def drop_bit_eq_div)
  have u: "CONTROLTHREAD_BASE \<le> 0x200000" by (simp add: CONTROLTHREAD_BASE_def)
  obtain t where t: "sys_pipe 0x201000 0 demo_io = Inr (0, t)" "io_bytes t 0x201000 8 = le_int 4 @ le_int 4"
      "\<forall>n. \<exists>e v. sys_write 4 0x200000 n t = Inr (e, v) \<and> e < 0 \<and> fss v = fss t"
    using pipe_useless[OF demo_io_room f u, of "0x201000" 0] by blast
  have "\<exists>e v. sys_write 4 0x200000 5 t = Inr (e, v) \<and> e < 0" using t(3) by blast
  then show ?thesis using t(1,2) unfolding le append.simps by blast
qed

theorem close_saves_nothing_witness:
  "\<exists>t. sys_close (\<lambda>_. []) 3 demo_io = Inr (0, t) \<and> fss t = fss demo_io \<and> process_object t 7 3 = NULL"
proof -
  have "opened demo_io 7 3 1000" using demo_io_file(1) by (simp add: file_open_def)
  then show ?thesis
    using close_saves_nothing[of demo_io 7 3 1000, where name_at = "\<lambda>_. []"] by (auto simp: demo_io_def demo_file_def zero_file_def)
qed

end
