(* ===== verification/KOpen.thy ===== *)
theory KOpen
  imports KStream
begin

text \<open>
  open() from the path to the bytes: the 8.3 form of the name, the search in the loaded root directory,
  the structure and the buffer from the kernel heap, the chain of clusters from the disk, and the first
  read() through the new descriptor.
\<close>

section \<open>Names and the directory in memory\<close>

lemma strncpy_pad:
  "0 \<notin> set xs \<Longrightarrow> length xs \<le> n \<Longrightarrow> n \<le> length d \<Longrightarrow>
    strncpy d (xs @ 0 # r) n = Inr (xs @ replicate (n - length xs) 0 @ drop n d)"
proof (induction xs arbitrary: d n)
  case Nil
  then show ?case by (simp add: strncpy_zeros)
next
  case (Cons x xs)
  then obtain k where n: "n = Suc k" by (cases n) auto
  obtain y ys where d: "d = y # ys" using Cons.prems(3) n by (cases d) auto
  show ?case using Cons n d by simp
qed

lemma fs_fntos2_form:
  assumes "plain p" and "p \<noteq> []" and "length p \<le> 8" and "\<forall>c\<in>set e. allowed_ext c" and "length e \<le> 3"
    and "12 \<le> length p + length e + length r"
  shows "\<exists>r'. fs_fntos2 (Some (p @ 46 # e @ 0 # r)) = Inr (Some (name_8_3 p e @ 0 # r'))"
proof -
  have h: "hd (p @ x) = hd p" "hd p \<noteq> 0" "p @ x \<noteq> []" for x using assms(1,2) by (cases p; auto simp: plain_def)+
  have "0 \<notin> set e" using assms(4) by (auto simp: allowed_ext_def)
  then have e1: "0 \<notin> set (map upcase e)" using upcase_0 by (auto simp: image_iff)
  show ?thesis
    using h upcase_name_plain[OF assms(1), of 46 "e @ 0 # r"] ext_loop_ext[OF assms(4,5), of r]
      complete_name_ok[of "map upcase p" "map upcase e @ replicate (3 - length e) 0" "46 # map upcase e @ 0 # r"]
      assms(3,5,6) save_ext_pad[OF e1]
    by (auto simp: fs_fntos2_def fs_fntos_with_def name_8_3_def)
qed

lemma kstrncmp_same:
  "length xs = length ys \<Longrightarrow> kstrncmp (xs @ 0 # a) (ys @ 0 # b) (length xs) = Inr (if xs = ys then 0 else 1)"
  by (induction xs ys rule: list_induct2) auto

lemma same_11_root:
  assumes l: "root_loaded s m" and i: "i < 512" and nm: "length nm = 11" "0 \<notin> set nm" "hd nm \<noteq> 0xE5" "hd nm \<noteq> 46"
  shows "same_11 (nm @ [0, 0]) m VOLUME1_ROOTDIR_ADDRESS i = Inr (dirent_begins s nm i)"
proof -
  let ?j = "VOLUME1_ROOTDIR_ADDRESS + of_nat (32 * i)" and ?d = "dirent s i"
  have first: "m ?j = ?d ! 0" using dirent_nth[OF l i, of 0] by simp
  have d11: "mem_bytes m ?j 11 = take 11 ?d" using dirent_mem[OF l i] by (simp add: take_mem_bytes)
  have len: "length (take 11 ?d) = 11" using arg_cong[OF d11, of length] by simp
  then have hd: "hd (take 11 ?d) = ?d ! 0" by (cases ?d) auto
  have nm0: "nm \<noteq> []" "hd nm \<noteq> 0" using nm(1,2) by (cases nm; auto)+
  have b: "dirent_begins s nm i \<longleftrightarrow> take 11 ?d = nm"
  proof -
    have "?d ! 0 \<noteq> 0" if "take 11 ?d = nm" using hd that nm0(2) by simp
    then show ?thesis using nm(1) by (auto simp: dirent_begins_def)
  qed
  have c: "kstrncmp (nm @ [0, 0]) (take 11 ?d @ [0, 0]) 11 = Inr (if nm = take 11 ?d then 0 else 1)"
    using kstrncmp_same[of nm "take 11 ?d" "[0]" "[0]"] len nm(1) by simp
  have cp: "memcpy (replicate 13 0) (mem_bytes m ?j 11) 11 = Inr (take 11 ?d @ [0, 0])"
    using memcpy_eq[of 11 "replicate 13 0" "mem_bytes m ?j 11"] unfolding d11[symmetric] by (simp add: numeral_2_eq_2)
  have up: "(take 11 ?d @ [0, 0])[11 := 0] = take 11 ?d @ [0, 0]"
    using len by (simp add: list_update_append)
  have "take 11 ?d \<noteq> nm" if "?d ! 0 = 0xE5 \<or> ?d ! 0 = 46 \<or> ?d ! 0 = 0"
    using that hd nm(3,4) nm0(2) by auto
  then show ?thesis
    unfolding same_11_def Let_def first cp b using c up
    by (auto simp: FAT_DIRECTORY_ENTRY_FREE_def simp del: take_append append_take_drop_id)
qed

lemma search_in_dir_root:
  assumes "root_loaded s (fmem s)" and nm: "length nm = 11" "0 \<notin> set nm" "hd nm \<noteq> 0xE5" "hd nm \<noteq> 46" "hd nm \<noteq> 47"
  shows "search_in_dir (Some (nm @ 0 # r)) VOLUME1_ROOTDIR_ADDRESS s = Inr (if lookup s nm = None then -1 else 1)"
proof -
  have f: "kfind (same_11 (nm @ [0, 0]) (fmem s) VOLUME1_ROOTDIR_ADDRESS) [0..<512] = Inr (lookup s nm)"
    unfolding lookup_def by (rule kfind_total, rule same_11_root) (use assms in auto)
  have "strncpy (replicate 13 0) (nm @ 0 # r) 11 = Inr (nm @ [0, 0])"
    using strncpy_pad[of nm 11 "replicate 13 0" r] nm(1,2) by (simp add: numeral_2_eq_2)
  moreover have "(nm @ [0, 0])[11 := 0] = nm @ [0, 0]" using nm(1) by (simp add: list_update_append)
  moreover have "hd (nm @ 0 # r) = hd nm" "hd nm \<noteq> 0" using nm(1,2) by (cases nm; auto)+
  ultimately show ?thesis
    using f nm(1,5) strlen_name[OF nm(2), of r]
    by (simp add: search_in_dir_def name_spaces_def VOLUME1_ROOTDIR_ADDRESS_def Let_def del: upt_rec_numeral)
qed

text \<open>The mount points of the registered devices begin with a slash.\<close>

definition devices_ok :: "io_state \<Rightarrow> bool" where
  "devices_ok s \<longleftrightarrow> (\<forall>i d m. deviceList s i = Some d \<longrightarrow> mount_point d = Some m \<longrightarrow> m \<noteq> [] \<and> hd m = 47)"

lemma dev_list_misses:
  assumes "devices_ok s"
    and "0 \<notin> set nm" and "nm \<noteq> []" and "hd nm \<noteq> 47"
  shows "devmgr_search_in_dev_list (Some (nm @ 0 # r)) s = Inr NULL"
proof -
  obtain c nm' where nm: "nm = c # nm'" "c \<noteq> 47" using assms(3,4) by (cases nm) auto
  have "(case deviceList s i of None \<Rightarrow> Inr False
             | Some d \<Rightarrow> if dv_magic d \<noteq> 1234 then Inr False
                 else case mount_point d of None \<Rightarrow> Inr False
                 | Some p \<Rightarrow> kbind (kstrncmp p (nm @ 0 # r) (length nm)) (\<lambda>c. Inr (c = 0))) = Inr False" for i
  proof (cases "deviceList s i")
    case (Some d)
    show ?thesis
    proof (cases "mount_point d")
      case mp: (Some m)
      then have "m \<noteq> [] \<and> hd m = 47" using assms(1) Some unfolding devices_ok_def by blast
      then obtain m' where "m = 47 # m'" by (cases m) auto
      then show ?thesis using Some mp nm by simp
    qed (simp add: Some)
  qed simp
  then have "kfind (\<lambda>i. case deviceList s i of None \<Rightarrow> Inr False
             | Some d \<Rightarrow> if dv_magic d \<noteq> 1234 then Inr False
                 else case mount_point d of None \<Rightarrow> Inr False
                 | Some p \<Rightarrow> kbind (kstrncmp p (nm @ 0 # r) (length nm)) (\<lambda>c. Inr (c = 0))) [0..<DEVICE_LIST_MAX]
     = Inr (find (\<lambda>i. False) [0..<DEVICE_LIST_MAX])"
    by (intro kfind_total) blast
  moreover have "find (\<lambda>i. False) xs = None" for xs :: "nat list" by (induction xs) auto
  ultimately show ?thesis using strlen_name[OF assms(2), of r] by (simp add: devmgr_search_in_dev_list_def)
qed

section \<open>The structure, the buffer and the clusters\<close>

lemma fat_image_put:
  assumes "apart b (length xs) VOLUME1_FAT_ADDRESS 125952"
  shows "fat_image (s\<lparr>fmem := put_bytes b xs (fmem s)\<rparr>) = fat_image s"
proof (cases "g_fat_cache_loaded s = FAT_CACHE_LOADED")
  case True
  then show ?thesis by (rule fat_image_apart[OF _ assms])
qed (simp add: fat_image_def del: upt_rec_numeral)

lemma stores_put:
  assumes "stores s nm cs sz" and "apart b (length xs) VOLUME1_FAT_ADDRESS 125952"
  shows "stores (s\<lparr>fmem := put_bytes b xs (fmem s)\<rparr>) nm cs sz"
  by (rule stores_cong[OF assms(1) _ fat_image_put[OF assms(2)]]) (simp_all add: root_image_def del: upt_rec_numeral)

text \<open>A buffer in the kernel heap is clear of the caches and of the addresses load refuses.\<close>

lemma heap_buffer:
  assumes "0x30100000 \<le> unat a" and "unat a < 0x301D0000" and "n \<le> 1024"
  shows "apart a n VOLUME1_FAT_ADDRESS 125952" "k \<le> 2 \<Longrightarrow> buffer_ok a k"
proof -
  have ap: "apart a n VOLUME1_FAT_ADDRESS 125952" if "n \<le> 1024" for n
    using assms(1,2) that by (simp add: apart_def VOLUME1_FAT_ADDRESS_def)
  have "check_address_validation (a + of_nat (512 * i)) = TRUE" if "i < 2" for i
  proof -
    have "unat (a + of_nat (512 * i)) = unat a + 512 * i"
      using that assms(2) by (auto simp: less_2_cases_iff unat_word_ariths)
    then have "0x30100000 \<le> unat (a + of_nat (512 * i))" "unat (a + of_nat (512 * i)) < 0x301D0200 + 1"
      using that assms by auto
    then show ?thesis
      by (auto simp: check_address_validation_def VOLUME1_FAT_ADDRESS_def VOLUME1_ROOTDIR_ADDRESS_def KERNEL_IMAGE_BASE_def
          DEFAULT_LFB_VIRTUALADDRESS_def DEFAULT_BACKBUFFER_VIRTUALADDRESS_def)
  qed
  then show "buffer_ok a k" if "k \<le> 2" using ap[of "512 * k"] that by (auto simp: buffer_ok_def)
  show "apart a n VOLUME1_FAT_ADDRESS 125952" by (rule ap[OF assms(3)])
qed

lemma heap_room_top:
  assumes "heap_room s p n k"
  shows "0x30100000 \<le> heap_top s" "heap_top s + n \<le> 0x301D0000"
  using heap_wf_top[of "heap s"] assms unfolding heap_room_def heap_top_def by linarith+

lemma small_size:
  assumes "sz < 1024"
  shows "sint (ucast (ucast (sz :: u32) :: u64) :: u32) = uint sz" "unat sz < 1024"
    "ucast sz < (word_of_int BUFSIZ :: u64)" "uint sz < 1024"
proof -
  show u: "unat sz < 1024" using assms by (simp add: word_less_nat_alt)
  show v: "uint sz < 1024" using assms by (simp add: word_less_def)
  have "- (2 ^ 31) \<le> uint sz" by (rule order_trans[OF _ uint_ge_0]) simp
  moreover have "uint sz < 2 ^ 31" using v by simp
  ultimately have "sint (word_of_int (uint sz) :: u32) = uint sz" by (rule sint_word_of_int_32)
  then have "sint sz = uint sz" by simp
  moreover have "(ucast (ucast sz :: u64) :: u32) = sz" by (rule bit_word_eqI) (simp add: bit_simps)
  ultimately show "sint (ucast (ucast sz :: u64) :: u32) = uint sz" by simp
  show "ucast sz < (word_of_int BUFSIZ :: u64)" using u
    by (simp add: BUFSIZ_def word_less_nat_alt unsigned_ucast_eq take_bit_nat_eq_self)
qed

text \<open>What open_found() leaves: descriptor \<open>i\<close> of process \<open>p\<close> is a readable file that holds \<open>xs\<close>.\<close>

definition holds_file :: "io_state \<Rightarrow> ptr \<Rightarrow> int \<Rightarrow> ptr \<Rightarrow> u8 list \<Rightarrow> bool" where
  "holds_file t p i f xs \<longleftrightarrow> opened t p i f \<and> stream_ok f t \<and> stream_contents f t = xs
     \<and> f_object (fimem t f) = ObjectTypeFile \<and> f_flags (fimem t f) = SRD \<and> f_tmpfname (fimem t f) = NULL
     \<and> can_read (f_sync (fimem t f)) = TRUE \<and> can_write (f_sync (fimem t f)) = TRUE
     \<and> 0x30100000 \<le> unat (f_base (fimem t f)) \<and> unat (f_base (fimem t f)) + 1024 \<le> 0x301D0000"

lemma load_opened_ok:
  assumes fs: "fs_ok (fss s)" "name_ok nm" "stores (fss s) nm cs sz" "length cs \<le> 2" "length cs \<le> fuel"
    and sz: "0 < sz" "sz < 1024" "unat sz \<le> 512 * length cs"
    and hd: "fimem s f = (open_header s0 p i)\<lparr>f_base := b, f_fsize := uint sz\<rparr>"
    and b: "0x30100000 \<le> unat b" "unat b + 1024 \<le> 0x301D0000"
    and pr: "calling_process s = Some p" "0 \<le> i" "i < OPEN_MAX" "f \<noteq> NULL"
  shows "\<exists>t. load_opened fuel (Some (nm @ 0 # r)) VOLUME1_ROOTDIR_ADDRESS p i f s = Some (Inr (i, t))
     \<and> holds_file t p i f (take (unat sz) (cluster_data (fss s) cs)) \<and> disk (fss t) = disk (fss s)"
proof -
  let ?s = "early_offsets f s" and ?n = "uint sz"
  note z = small_size[OF sz(2)]
  have F: "fimem ?s f = (open_header s0 p i)\<lparr>f_base := b, f_fsize := ?n, f_p := b, f_r := 0, f_w := ?n,
      f_cnt := 1024 - ?n\<rparr>" "fss ?s = fss s" "ker ?s = ker s"
    using z(2,4) hd by (simp_all add: early_offsets_def open_header_def zero_file_def BUFSIZ_def Let_def)
  have bs: "(word_of_int BUFSIZ :: u64) \<le> 512 * 4096" by (simp add: BUFSIZ_def)
  have bo: "buffer_ok b (length cs)" using heap_buffer(2)[of b 0 "length cs"] b fs(4) by simp
  obtain u where u: "fsLoadFile fuel VOLUME1_FAT_ADDRESS VOLUME1_ROOTDIR_ADDRESS 512 (Some (nm @ 0 # r)) b
        (word_of_int BUFSIZ) (fss s) = Some (Inr (0, u))"
      "mem_bytes (fmem u) b (512 * length cs) = cluster_data (fss s) cs" "disk u = disk (fss s)"
    using load_stored[OF fs(1-3) _ fs(5) z(3) bs bo, of r] fs(4) by auto
  let ?t = "set_object p i f (upd_file f (\<lambda>q. q\<lparr>f_flags := f_flags q OR SRD\<rparr>) (set_offsets f (?s\<lparr>fss := u\<rparr>)))"
  have e: "load_opened fuel (Some (nm @ 0 # r)) VOLUME1_ROOTDIR_ADDRESS p i f s = Some (Inr (i, ?t))"
    using u(1) F by (simp add: load_opened_def obind_def Let_def open_header_def FAT16_ROOT_ENTRIES_def set_offsets_def)
  have T: "fimem ?t f = (open_header s0 p i)\<lparr>f_base := b, f_fsize := ?n, f_p := b, f_r := 0, f_w := ?n,
      f_cnt := 1024 - ?n, f_flags := SRD\<rparr>" "fss ?t = u"
    using F(1) by (simp_all add: set_object_def set_offsets_def open_header_def zero_file_def BUFSIZ_def)
  have "stream_contents f ?t = take (unat sz) (cluster_data (fss s) cs)"
    using sz(3) take_mem_bytes[of "unat sz" "512 * length cs" "fmem u" b] unfolding u(2)
    by (simp add: stream_contents_def io_bytes_def T Let_def)
  moreover have "stream_ok f ?t"
    unfolding stream_ok_def Let_def T(1)
    using z(2,4) b pr(4) by (simp add: open_header_def zero_file_def BUFSIZ_def buffered_def)
  moreover have "calling_process ?t = Some p"
    using pr(1) F(3) by (auto simp: calling_process_def set_object_def upd_process_def get_current_process_def Let_def
        set_offsets_def split: if_splits)
  moreover have "process_object ?t p i = f" by (simp add: process_object_def set_object_def upd_process_def)
  ultimately have "holds_file ?t p i f (take (unat sz) (cluster_data (fss s) cs))"
    unfolding holds_file_def opened_def T(1) using pr b by (simp add: open_header_def zero_file_def zero_sync_def)
  then show ?thesis using e u(3) T(2) by auto
qed

lemma open_found_ok:
  assumes rm: "heap_room (ker s) p 1480 2" and i: "find (\<lambda>j. process_object s p j = NULL) (slots 0 32) = Some i"
    and fs: "fs_ok (fss s)" "name_ok nm" "stores (fss s) nm cs sz" "length cs \<le> 2" "length cs \<le> fuel"
    and sz: "0 < sz" "sz < 1024" "unat sz \<le> 512 * length cs"
  shows "\<exists>t f. open_found fuel (Some (nm @ 0 # r)) VOLUME1_ROOTDIR_ADDRESS s = Some (Inr (i, t))
     \<and> holds_file t p i f (take (unat sz) (cluster_data (fss s) cs)) \<and> disk (fss t) = disk (fss s)"
proof -
  have pc: "process_current (ker s) p" using rm by (simp add: heap_room_def)
  have ib: "0 \<le> i" "i < 32" using i by (auto simp: find_Some_iff dest: nth_mem)
  have sx: "0 < BUFSIZ" "BUFSIZ < 2 ^ 31" "0 < file_size_of" "file_size_of < 2 ^ 31"
    by (simp_all add: BUFSIZ_def file_size_of_def)
  have r1: "heap_room (ker s) p (nat file_size_of + 72 + 1096) (1 + 1)"
    using rm by (simp add: file_size_of_def numeral_2_eq_2)
  obtain a h1 m1 where k1: "io_alloc file_size_of s = Inr (a, s\<lparr>ker := (ker s)\<lparr>heap := h1, pmem := m1\<rparr>\<rparr>)" "unat a = heap_top (ker s) + 72"
      "charged (pmem (ker s)) m1" "heap_room ((ker s)\<lparr>heap := h1, pmem := m1\<rparr>) p 1096 1"
    using io_alloc_room[OF r1 sx(3,4)] by blast
  let ?s1 = "s\<lparr>ker := (ker s)\<lparr>heap := h1, pmem := m1\<rparr>\<rparr>"
  let ?f = "unat a" and ?s2 = "upd_file (unat a) (\<lambda>_. open_header ?s1 p i) ?s1"
  have r2: "heap_room (ker ?s2) p (nat BUFSIZ + 72 + 0) (0 + 1)" using k1(4) by (simp add: BUFSIZ_def)
  obtain b h2 m2 where k2: "io_alloc BUFSIZ ?s2 = Inr (b, ?s2\<lparr>ker := (ker ?s2)\<lparr>heap := h2, pmem := m2\<rparr>\<rparr>)" "unat b = heap_top (ker ?s2) + 72"
      "charged m1 m2" "heap_room ((ker ?s2)\<lparr>heap := h2, pmem := m2\<rparr>) p 0 0"
    using io_alloc_room[OF r2 sx(1,2)] by auto
  let ?s3 = "?s2\<lparr>ker := (ker ?s2)\<lparr>heap := h2, pmem := m2\<rparr>\<rparr>"
  let ?s5 = "io_store b (replicate 1024 0) (upd_file ?f (\<lambda>q. q\<lparr>f_base := b\<rparr>) ?s3)"
  have b: "0x30100000 \<le> unat b" "unat b + 1024 \<le> 0x301D0000"
    using heap_room_top[OF r2] k2(2) by (simp_all add: BUFSIZ_def)
  have nz: "a \<noteq> 0" "b \<noteq> 0" "?f \<noteq> NULL" using k1(2) k2(2) by auto
  have ap: "apart b (length (replicate 1024 (0 :: u8))) VOLUME1_FAT_ADDRESS 125952"
    using heap_buffer(1)[of b 1024] b by simp
  have f5: "fss ?s5 = (fss s)\<lparr>fmem := put_bytes b (replicate 1024 0) (fmem (fss s))\<rparr>"
    by (simp add: io_store_def upd_file_def)
  have st5: "fs_ok (fss ?s5)" "stores (fss ?s5) nm cs sz" "cluster_data (fss ?s5) cs = cluster_data (fss s) cs"
    unfolding f5 using fs(1) stores_put[OF fs(3) ap] by (simp_all add: cluster_data_def)
  obtain n where n: "lookup (fss ?s5) nm = Some n" "dirent_size (fss ?s5) n = sz"
    using st5(2) by (auto simp: stores_def)
  let ?rt = "put_bytes VOLUME1_ROOTDIR_ADDRESS (root_image (fss ?s5)) (fmem (fss ?s5))"
  have g: "fsGetFileSize (Some (nm @ 0 # r)) VOLUME1_ROOTDIR_ADDRESS (fss ?s5) = Inr (ucast sz, (fss ?s5)\<lparr>fmem := ?rt\<rparr>)"
    using fsGetFileSize_root[OF st5(1) fs(2), of r] n by simp
  let ?s6 = "?s5\<lparr>fss := (fss ?s5)\<lparr>fmem := ?rt\<rparr>\<rparr>"
  let ?s7 = "upd_file ?f (\<lambda>q. q\<lparr>f_fsize := uint sz\<rparr>) ?s6"
  have apr: "apart VOLUME1_ROOTDIR_ADDRESS (length (root_image (fss ?s5))) VOLUME1_FAT_ADDRESS 125952"
    using image_length(1)[OF fs_ok_disk[OF st5(1)]] by (simp add: apart_def VOLUME1_FAT_ADDRESS_def VOLUME1_ROOTDIR_ADDRESS_def)
  have st7: "fs_ok (fss ?s7)" "stores (fss ?s7) nm cs sz" "cluster_data (fss ?s7) cs = cluster_data (fss s) cs"
    "disk (fss ?s7) = disk (fss s)"
    using st5 stores_put[OF st5(2) apr] by (simp_all add: cluster_data_def f5)
  note z = small_size[OF sz(2)]
  have pos: "0 < uint sz" using sz(1) by (simp add: word_less_def)
  have grow: "grow_buffer ?f (uint sz) ?s7 = Inr (True, ?s7)"
    using z(4) by (simp add: grow_buffer_def open_header_def BUFSIZ_def)
  have e: "open_found fuel (Some (nm @ 0 # r)) VOLUME1_ROOTDIR_ADDRESS s
      = load_opened fuel (Some (nm @ 0 # r)) VOLUME1_ROOTDIR_ADDRESS p i ?f ?s7"
    unfolding open_found_def using current_listed(3,5-7)[OF pc] i k1(1) k2(1) g grow pos nz z(1)
    by (simp add: obind_def Let_def)
  have hd: "fimem ?s7 ?f = (open_header ?s1 p i)\<lparr>f_base := b, f_fsize := uint sz\<rparr>" by simp
  have "process_current ((ker ?s2)\<lparr>heap := h2, pmem := m2\<rparr>) p" using k2(4) by (simp add: heap_room_def)
  then have cp: "calling_process ?s7 = Some p" using current_listed(2)[of ?s7 p] by simp
  show ?thesis
    using load_opened_ok[OF st7(1) fs(2) st7(2) fs(4,5) sz hd b cp ib(1) _ nz(3), of r] ib(2)
    unfolding e st7(3,4) by (auto simp: OPEN_MAX_def)
qed

section \<open>Open and read\<close>

text \<open>
  A path \<open>p.e\<close> in the root directory: a plain name of at most 8 bytes and an extension of at most three
  small letters, digits or special bytes, which begins with none of the bytes that mean something else.
\<close>

definition good_path :: "u8 list \<Rightarrow> u8 list \<Rightarrow> bool" where
  "good_path q e \<longleftrightarrow> plain q \<and> q \<noteq> [] \<and> length q \<le> 8 \<and> (\<forall>c\<in>set e. allowed_ext c) \<and> length e \<le> 3
     \<and> hd q \<notin> {47, 64, 35, 0xE5}"

lemma good_path_form:
  assumes "good_path q e"
  shows "name_ok (name_8_3 q e)" "length (name_8_3 q e) = 11" "hd (name_8_3 q e) \<notin> {0xE5, 46, 47}" "0 \<notin> set (name_8_3 q e)"
    "0 \<notin> set (q @ 46 # e)" "hd (q @ 46 # e @ x) = hd q" "hd q \<noteq> 0" "q @ x \<noteq> []"
proof -
  have e0: "0 \<notin> set e" using assms by (auto simp: good_path_def allowed_ext_def)
  have q: "q \<noteq> []" "0 \<notin> set q" "46 \<notin> set q" "length q \<le> 8" "length e \<le> 3" "hd q \<notin> {47, 64, 35, 0xE5}"
    using assms by (auto simp: good_path_def plain_def)
  show "name_ok (name_8_3 q e)" "length (name_8_3 q e) = 11"
    using name_8_3_ok[OF q(4,5,1,2) e0] by simp_all
  then show "0 \<notin> set (name_8_3 q e)" by (simp add: name_ok_def)
  show "0 \<notin> set (q @ 46 # e)" using q e0 by simp
  obtain c q' where c: "q = c # q'" using q(1) by (cases q) auto
  show "hd (q @ 46 # e @ x) = hd q" "q @ x \<noteq> []" using c by simp_all
  show "hd q \<noteq> 0" using q(2) c by auto
  have u: "upcase c = c \<or> 65 \<le> upcase c \<and> upcase c \<le> 90"
  proof (cases "lower c")
    case True
    have "unat (c - 32) = unat c - 32" using True by (subst unat_sub) (auto simp: lower_def word_le_nat_alt)
    then show ?thesis using True by (auto simp: upcase_def lower_def word_le_nat_alt)
  qed (simp add: upcase_def)
  have "hd (name_8_3 q e) = upcase c" by (simp add: name_8_3_def c)
  moreover have "\<not> (65 \<le> (0xE5 :: u8) \<and> (0xE5 :: u8) \<le> 90)" "\<not> (65 \<le> (46 :: u8))" "\<not> (65 \<le> (47 :: u8))" by simp_all
  ultimately show "hd (name_8_3 q e) \<notin> {0xE5, 46, 47}"
    using u q(3,6) c by auto
qed

lemma sys_open_ok:
  assumes path: "good_path q e" and dev: "devices_ok s"
    and rm: "heap_room (ker s) p 1480 2" and i: "find (\<lambda>j. process_object s p j = NULL) (slots 0 32) = Some i"
    and root: "root_loaded (fss s) (fmem (fss s))"
    and fs: "fs_ok (fss s)" "stores (fss s) (name_8_3 q e) cs sz" "length cs \<le> 2" "length cs \<le> fuel"
    and sz: "0 < sz" "sz < 1024" "unat sz \<le> 512 * length cs"
  shows "\<exists>t f. sys_open fuel (Some (q @ 46 # e @ 0 # r)) flags mode s = Some (Inr (i, t))
     \<and> holds_file t p i f (take (unat sz) (cluster_data (fss s) cs)) \<and> disk (fss t) = disk (fss s)"
proof -
  note g = good_path_form[OF path]
  have q: "plain q" "q \<noteq> []" "length q \<le> 8" "\<forall>c\<in>set e. allowed_ext c" "length e \<le> 3" "hd q \<notin> {47, 64, 35, 0xE5}"
    using path by (simp_all add: good_path_def)
  define k where "k = 255 - length (q @ 46 # e)"
  have k: "256 - length (q @ 46 # e) = Suc k" "12 \<le> length q + length e + length (replicate k (0 :: u8))"
    using q(3,5) by (simp_all add: k_def)
  let ?l = "(q @ 46 # e) @ 0 # replicate k 0"
  have l: "strncpy (replicate 256 0) (q @ 46 # e @ 0 # r) 256 = Inr ?l"
    using strncpy_pad[OF g(5), of 256 "replicate 256 0" r] q(3,5) k(1) by simp
  have d: "devmgr_search_in_dev_list (Some ?l) s = Inr NULL"
    using dev_list_misses[OF dev g(5)] g(6)[of "[]"] q(2,6) by simp
  obtain r' where n: "fs_fntos2 (Some (q @ 46 # e @ 0 # replicate k 0)) = Inr (Some (name_8_3 q e @ 0 # r'))"
    using fs_fntos2_form[OF q(1-5) k(2)] by blast
  have "lookup (fss s) (name_8_3 q e) \<noteq> None" using fs(2) by (auto simp: stores_def)
  then have sr: "search_in_dir (Some (name_8_3 q e @ 0 # r')) VOLUME1_ROOTDIR_ADDRESS (fss s) = Inr 1"
    using search_in_dir_root[OF root g(2,4), of r'] g(3) by simp
  obtain t f where t: "open_found fuel (Some (name_8_3 q e @ 0 # r')) VOLUME1_ROOTDIR_ADDRESS s = Some (Inr (i, t))"
      "holds_file t p i f (take (unat sz) (cluster_data (fss s) cs))" "disk (fss t) = disk (fss s)"
    using open_found_ok[OF rm i fs(1) g(1) fs(2-4) sz, of r'] by blast
  have sh: "shortcut_dir (q @ 46 # e @ 0 # replicate k 0) (fss s)
      = Some (VOLUME1_ROOTDIR_ADDRESS, q @ 46 # e @ 0 # replicate k 0)"
    using q(6) g(6) by (simp add: shortcut_dir_def)
  have rd: "do_read_file_from_disk fuel (Some ?l) flags mode s = Some (Inr (i, t))"
    using g(6)[of "0 # replicate k 0"] g(7) q(2,6) sh n sr t(1) by (simp add: do_read_file_from_disk_def obind_def Let_def)
  have ib: "0 \<le> i" "i < 32" using i by (auto simp: find_Some_iff dest: nth_mem)
  have "sys_open fuel (Some (q @ 46 # e @ 0 # r)) flags mode s = Some (Inr (i, t))"
    using g(6)[of "0 # r"] g(7) l d rd ib by (simp add: sys_open_def open_imp_def obind_def)
  then show ?thesis using t(2,3) by blast
qed


section \<open>Witness\<close>

text \<open>Process 100 has its three standard descriptors; HELLO.TXT has 5 bytes in cluster 3.\<close>

definition demo_open :: io_state where
  "demo_open = demo_io\<lparr>ker := upd_process 7 (\<lambda>r. r\<lparr>p_Objects := (\<lambda>j. if j < 3 then 1000 else NULL)\<rparr>) demo_mm,
     fss := demo_fs\<lparr>fmem := put_bytes VOLUME1_ROOTDIR_ADDRESS (root_image demo_fs) (fmem demo_fs)\<rparr>\<rparr>"

lemma demo_open_facts:
  "devices_ok demo_open" "root_loaded (fss demo_open) (fmem (fss demo_open))" "heap_room (ker demo_open) 7 1480 2"
  "find (\<lambda>j. process_object demo_open 7 j = NULL) (slots 0 32) = Some 3" "fs_ok (fss demo_open)"
  "stores (fss demo_open) hello_txt [3] 5" "cluster_data (fss demo_open) [3] = replicate 512 7"
proof -
  have len: "length (root_image demo_fs) = 16384" using image_length(1)[OF fs_ok_disk[OF demo_fs_ok]] .
  have fs: "fss demo_open = demo_fs\<lparr>fmem := put_bytes VOLUME1_ROOTDIR_ADDRESS (root_image demo_fs) (fmem demo_fs)\<rparr>"
    by (simp add: demo_open_def)
  have ri: "root_image (demo_fs\<lparr>fmem := m\<rparr>) = root_image demo_fs" for m by (simp add: root_image_def del: upt_rec_numeral)
  show "devices_ok demo_open" by (simp add: devices_ok_def demo_open_def demo_io_def)
  show "root_loaded (fss demo_open) (fmem (fss demo_open))"
    using root_loaded_put[OF fs_ok_disk[OF demo_fs_ok]] unfolding fs root_loaded_def ri by simp
  show "fs_ok (fss demo_open)" using demo_fs_ok by (simp add: fs)
  have "apart VOLUME1_ROOTDIR_ADDRESS (length (root_image demo_fs)) VOLUME1_FAT_ADDRESS 125952"
    by (simp add: len apart_def VOLUME1_FAT_ADDRESS_def VOLUME1_ROOTDIR_ADDRESS_def)
  then show "stores (fss demo_open) hello_txt [3] 5" unfolding fs by (rule stores_put[OF demo_stores(1)])
  show "cluster_data (fss demo_open) [3] = replicate 512 7"
    using demo_stores(2) by (simp add: cluster_data_def fs)
  have "heap (ker demo_open) = demo_heap" by (simp add: demo_open_def upd_process_def demo_mm_current)
  moreover have "process_current (ker demo_open) 7"
    using demo_mm_current(1) by (simp add: process_current_def demo_open_def upd_process_def)
  ultimately show "heap_room (ker demo_open) 7 1480 2" by (simp add: heap_room_def MMBLOCK_COUNT_MAX_def)
  have "slots 0 32 = 0 # 1 # 2 # 3 # slots 4 32" by (simp add: slots_Cons)
  then show "find (\<lambda>j. process_object demo_open 7 j = NULL) (slots 0 32) = Some 3"
    by (simp add: process_object_def demo_open_def upd_process_def)
qed


end
