(* ===== verification/KSocket.thy ===== *)
theory KSocket
  imports KOpen
begin

text \<open>
  Sockets between processes of this machine: sockint.c and socket.c. A socket is a structure
  \<open>socket_d\<close> and an open file of type socket with a buffer of its own. connect() finds the server's
  process by a port, puts the client's file into descriptor 31 of the server and the client's socket
  into the server's list of pending connections; accept() takes one from the list. Addresses are read
  from user memory.
\<close>

section \<open>Constants and access\<close>

definition SS_UNCONNECTED :: int where "SS_UNCONNECTED = 1"
definition SS_CONNECTING :: int where "SS_CONNECTING = 2"
definition SS_CONNECTED :: int where "SS_CONNECTED = 3"
definition AF_UNIX :: int where "AF_UNIX = 1"
definition AF_INET :: int where "AF_INET = 2"
definition AF_GRAMADO :: int where "AF_GRAMADO = 8000"
definition SOCK_STREAM :: int where "SOCK_STREAM = 1"
definition SOCK_DGRAM :: int where "SOCK_DGRAM = 2"
definition SOCK_RAW :: int where "SOCK_RAW = 3"
definition PORTS_WS :: u16 where "PORTS_WS = 4040"
definition PORTS_NS :: u16 where "PORTS_NS = 4041"
definition GRAMADO_PORT_NS :: int where "GRAMADO_PORT_NS = 14"
definition GRAMADO_PORT_FS :: int where "GRAMADO_PORT_FS = 16"

text \<open>\<open>sizeof(struct socket_d)\<close> with the alignment of x86-64.\<close>

definition socket_size_of :: int where "socket_size_of = 424"

definition zero_socket :: socket_d where
  "zero_socket = \<lparr>so_object = ObjectTypeNull, so_used = 0, so_magic = 0, so_family = 0, so_type = 0,
     so_protocol = 0, so_pid = 0, so_uid = 0, so_gid = 0, connection_type = 0, ip_ipv4 = 0, ip_ipv6 = 0,
     so_port = 0, so_flags = 0, connections_count = 0, backlog_max = 0, backlog_head = 0, backlog_tail = 0,
     pending_connections = (\<lambda>_. NULL), client_backlog_pos = 0, isAcceptingConnections = 0, so_link = NULL,
     so_state = 0, conn_copy = 0, clientfd_on_server = 0, private_file = NULL, magic_string = (\<lambda>_. 0),
     sa_family = 0, sa_data = (\<lambda>_. 0), in_family = 0, in_port = 0, in_addr = 0\<rparr>"

definition upd_sock :: "ptr \<Rightarrow> (socket_d \<Rightarrow> socket_d) \<Rightarrow> io_state \<Rightarrow> io_state" where
  "upd_sock k g s = s\<lparr>somem := (somem s)(k := g (somem s k))\<rparr>"

text \<open>Half words and words of user memory, little endian.\<close>

definition user16 :: "io_state \<Rightarrow> u64 \<Rightarrow> u16" where "user16 s a = load16 (fmem (fss s)) a"

definition user32 :: "io_state \<Rightarrow> u64 \<Rightarrow> u32" where "user32 s a = load32 (fmem (fss s)) a"

definition user8 :: "io_state \<Rightarrow> u64 \<Rightarrow> u8" where "user8 s a = fmem (fss s) a"

definition is_socket :: "ptr \<Rightarrow> io_state \<Rightarrow> int" where
  "is_socket f s =
    (if f = NULL then FALSE
     else if f_magic (fimem s f) \<noteq> 1234 then FALSE
     else if f_object (fimem s f) = ObjectTypeSocket then TRUE else FALSE)"

text \<open>\<open>processList[current_process]\<close> after the test of the index, without validation.\<close>

definition current_entry :: "io_state \<Rightarrow> ptr option" where
  "current_entry s =
    (let pid = get_current_process (ker s) in
     if pid < 0 \<or> pid \<ge> PROCESS_COUNT_MAX then None
     else if processList (ker s) pid = NULL then None else Some (processList (ker s) pid))"

text \<open>\<open>processList[current_process]\<close> without any test of the index.\<close>

definition raw_entry :: "io_state \<Rightarrow> kfault + ptr" where
  "raw_entry s =
    (let pid = get_current_process (ker s) in
     if pid < 0 \<or> pid \<ge> PROCESS_COUNT_MAX then Inl (OutOfBounds ''processList'')
     else Inr (processList (ker s) pid))"

section \<open>The workers of sockint.c\<close>

definition initialize_gramado_ports :: "kstate \<Rightarrow> kstate" where
  "initialize_gramado_ports k =
    k\<lparr>gramado_ports := (\<lambda>i. if 0 \<le> i \<and> i < 32 then 0 else gramado_ports k i)\<rparr>"

definition socket_set_gramado_port :: "int \<Rightarrow> int \<Rightarrow> kstate \<Rightarrow> int \<times> kstate" where
  "socket_set_gramado_port port pid k =
    (if port < 0 \<or> port > 31 then (-1, k)
     else if pid < 0 \<or> pid \<ge> PROCESS_COUNT_MAX then (-1, k)
     else (0, k\<lparr>gramado_ports := (gramado_ports k)(port := pid)\<rparr>))"

definition create_socket_object :: "io_state \<Rightarrow> ptr ioresult" where
  "create_socket_object s =
    kbind (io_alloc socket_size_of s) (\<lambda>(a, s1).
      if a = 0 then Inr (NULL, s1)
      else Inr (unat a, upd_sock (unat a) (\<lambda>_. zero_socket\<lparr>so_pid := get_current_process (ker s1),
        so_uid := current_user s1, so_gid := current_group s1, backlog_max := 4,
        isAcceptingConnections := FALSE, so_state := SS_UNCONNECTED, conn_copy := TRUE,
        clientfd_on_server := -1, so_used := TRUE, so_magic := 1234\<rparr>) s1))"

definition get_socket_from_fd :: "int \<Rightarrow> io_state \<Rightarrow> ptr" where
  "get_socket_from_fd fd s =
    (if fd < 0 \<or> fd \<ge> OPEN_MAX then NULL
     else case current_entry s of None \<Rightarrow> NULL
     | Some p \<Rightarrow> let f = process_object s p fd in
       if f = NULL then NULL
       else if f_magic (fimem s f) \<noteq> 1234 then NULL
       else f_socket (fimem s f))"

definition getSocketIPV4 :: "ptr \<Rightarrow> io_state \<Rightarrow> u32" where
  "getSocketIPV4 k s = (if k = NULL then 0 else if so_magic (somem s k) \<noteq> 1234 then 0 else ip_ipv4 (somem s k))"

definition getSocketIPV6 :: "ptr \<Rightarrow> io_state \<Rightarrow> u64" where
  "getSocketIPV6 k s = (if k = NULL then 0 else if so_magic (somem s k) \<noteq> 1234 then 0 else ip_ipv6 (somem s k))"

definition getSocketPort :: "ptr \<Rightarrow> io_state \<Rightarrow> u16" where
  "getSocketPort k s = (if k = NULL then 0 else if so_magic (somem s k) \<noteq> 1234 then 0 else so_port (somem s k))"

definition get_socket_in_process_list :: "u16 \<Rightarrow> io_state \<Rightarrow> ptr" where
  "get_socket_in_process_list target_port s =
    (case find (\<lambda>i. let p = processList (ker s) i; k = priv (pio s p) in
             p \<noteq> NULL \<and> p_magic (pmem (ker s) p) = 1234 \<and> k \<noteq> NULL \<and> so_magic (somem s k) = 1234
             \<and> so_object (somem s k) = ObjectTypeSocket \<and> so_port (somem s k) = target_port)
           (slots 0 PROCESS_COUNT_MAX) of
       None \<Rightarrow> NULL | Some i \<Rightarrow> priv (pio s (processList (ker s) i)))"

definition update_socket :: "ptr \<Rightarrow> u32 \<Rightarrow> u16 \<Rightarrow> io_state \<Rightarrow> int \<times> io_state" where
  "update_socket k ipv4 port s =
    (if k = NULL then (-1, s) else (0, upd_sock k (\<lambda>r. r\<lparr>ip_ipv4 := ipv4, so_port := port\<rparr>) s))"

definition socket_read :: "int \<Rightarrow> u64 \<Rightarrow> int \<Rightarrow> io_state \<Rightarrow> int ioresult" where
  "socket_read fd buf count s = (if fd < 0 then Inr (-EINVAL, s) else read_imp fd buf count s)"

definition socket_write :: "int \<Rightarrow> u64 \<Rightarrow> int \<Rightarrow> io_state \<Rightarrow> int ioresult" where
  "socket_write fd buf count s = (if fd < 0 then Inr (-EINVAL, s) else write_imp fd buf count s)"

definition socket_ioctl :: "int \<Rightarrow> u64 \<Rightarrow> u64 \<Rightarrow> io_state \<Rightarrow> int ioresult" where
  "socket_ioctl fd request arg s =
    (if fd < 0 \<or> fd \<ge> OPEN_MAX then Inr (-EBADF, s)
     else kbind (raw_entry s) (\<lambda>p.
       if p = NULL then Inr (-1, s)
       else let f = process_object s p fd; y = f_sync (fimem s f) in
         if f = NULL then Inr (-1, s)
         else if f_used (fimem s f) \<noteq> TRUE \<or> f_magic (fimem s f) \<noteq> 1234
         then Inl (KPanic ''socket_ioctl: validation'')
         else if request = 4000
         then Inr (0, upd_sync f (\<lambda>y. y\<lparr>sender_pid := sint (ucast arg :: u32)\<rparr>) s)
         else if request = 4001 then Inr (sender_pid y, s)
         else if request = 4002 then Inr (can_read y, s)
         else if request = 4003 then Inr (can_write y, s)
         else if request = 4004 then Inr (can_execute y, s)
         else Inr (-EINVAL, s)))"

section \<open>A new socket\<close>

definition socket_sync :: kstdio_sync_d where
  "socket_sync = zero_sync\<lparr>sender_pid := -1, receiver_pid := -1, action := ACTION_NULL, can_read := TRUE,
     can_write := TRUE, can_execute := FALSE, can_accept := TRUE, can_connect := TRUE, block_on_read := FALSE,
     block_on_read_empty := TRUE, block_on_write := TRUE, block_on_write_full := TRUE, is_blocked := FALSE\<rparr>"

definition socket_file :: "io_state \<Rightarrow> u64 \<Rightarrow> ptr \<Rightarrow> int \<Rightarrow> file_d" where
  "socket_file s buff sock slot = zero_file\<lparr>f_used := TRUE, f_magic := 1234, f_pid := get_current_process (ker s),
     f_uid := current_user s, f_gid := current_group s, f_object := ObjectTypeSocket, f_sync := socket_sync,
     f_flags := SWR, f_tmpfname := NULL, f_base := buff, f_p := buff, f_lbfsize := BUFSIZ, f_cnt := BUFSIZ,
     f_r := 0, f_w := 0, socket_buffer_full := 0, f_socket := sock, f_file := slot\<rparr>"

text \<open>The common part of socket_gramado(), socket_unix() and socket_inet(): the file and its descriptor.\<close>

definition install_socket :: "ptr \<Rightarrow> io_state \<Rightarrow> int ioresult" where
  "install_socket sock s =
    (case calling_process s of None \<Rightarrow> Inr (-1, s)
     | Some p \<Rightarrow>
       (case find (\<lambda>i. process_object s p i = NULL) (slots 3 31) of None \<Rightarrow> Inr (-1, s)
        | Some slot \<Rightarrow>
          kbind (io_alloc BUFSIZ s) (\<lambda>(buff, s1).
          if buff = 0 then Inr (-1, s1)
          else kbind (io_alloc file_size_of s1) (\<lambda>(a, s2).
          if a = 0 then Inr (-1, s2)
          else let f = unat a; s3 = upd_file f (\<lambda>_. socket_file s2 buff sock slot) s2;
                   s4 = upd_sock sock (\<lambda>r. r\<lparr>private_file := f\<rparr>) s3;
                   s5 = upd_pio p (\<lambda>r. r\<lparr>priv := sock\<rparr>) s4 in
            Inr (slot, set_object p slot f s5)))))"

definition named_socket :: "ptr \<Rightarrow> int \<Rightarrow> io_state \<Rightarrow> io_state" where
  "named_socket sock family s =
    upd_sock sock (\<lambda>r. r\<lparr>sa_family := word_of_int family, sa_data := (sa_data r)(0 := 120, 1 := 120)\<rparr>) s"

definition socket_gramado :: "ptr \<Rightarrow> int \<Rightarrow> int \<Rightarrow> int \<Rightarrow> io_state \<Rightarrow> int ioresult" where
  "socket_gramado sock family type protocol s =
    (if sock = NULL then Inr (-1, s)
     else if so_magic (somem s sock) \<noteq> 1234 then Inr (-1, s)
     else if family \<noteq> AF_GRAMADO then Inr (-1, s)
     else install_socket sock (named_socket sock family s))"

definition socket_unix :: "ptr \<Rightarrow> int \<Rightarrow> int \<Rightarrow> int \<Rightarrow> io_state \<Rightarrow> int ioresult" where
  "socket_unix sock family type protocol s =
    (if sock = NULL then Inr (-1, s)
     else if so_magic (somem s sock) \<noteq> 1234 then Inr (-1, s)
     else if family \<noteq> AF_UNIX then Inr (-1, s)
     else install_socket sock (named_socket sock family s))"

definition socket_inet :: "ptr \<Rightarrow> int \<Rightarrow> int \<Rightarrow> int \<Rightarrow> io_state \<Rightarrow> int ioresult" where
  "socket_inet sock family type protocol s =
    (if sock = NULL then Inr (-1, s)
     else if so_magic (somem s sock) \<noteq> 1234 then Inr (-1, s)
     else if family \<noteq> AF_INET then Inr (-1, s)
     else install_socket sock
            (upd_sock sock (\<lambda>r. r\<lparr>in_family := 2, in_addr := 0x7F000001, in_port := 11369\<rparr>) s))"

definition sys_socket :: "int \<Rightarrow> int \<Rightarrow> int \<Rightarrow> io_state \<Rightarrow> int ioresult" where
  "sys_socket family type protocol s0 =
    (let s = upd_ker (do_credits_by_tid (current_thread (ker s0))) s0; pid = get_current_process (ker s) in
     if family < 0 then Inr (-EINVAL, s)
     else if type \<noteq> SOCK_STREAM \<and> type \<noteq> SOCK_DGRAM \<and> type \<noteq> SOCK_RAW then Inr (-EINVAL, s)
     else if protocol < 0 then Inr (-EINVAL, s)
     else if protocol \<noteq> 0 then Inl (KPanic ''sys_socket: protocol not supported yet.'')
     else if pid < 0 \<or> pid \<ge> PROCESS_COUNT_MAX then Inl (KPanic ''sys_socket: current_process fail'')
     else let p = processList (ker s) pid in
     if p = NULL then Inl (KPanic ''sys_socket: p'')
     else if p_magic (pmem (ker s) p) \<noteq> 1234 then Inl (KPanic ''sys_socket: p validation'')
     else kbind (create_socket_object s) (\<lambda>(sock, s1).
       if sock = NULL then Inr (-1, s1)
       else let s2 = upd_sock sock (\<lambda>r. r\<lparr>so_family := family, so_type := type, so_protocol := protocol,
                       ip_ipv6 := 0, ip_ipv4 := 0, so_port := 0, so_pid := pid, so_uid := current_user s1,
                       so_gid := current_group s1\<rparr>) s1;
                s3 = upd_pio p (\<lambda>r. r\<lparr>priv := sock\<rparr>) s2;
                s4 = (\<lambda>t. upd_sock sock (\<lambda>r. r\<lparr>connection_type := t\<rparr>) s3) in
         if family = AF_GRAMADO then socket_gramado sock AF_GRAMADO type protocol (s4 1)
         else if family = AF_UNIX then socket_unix sock AF_UNIX type protocol (s4 1)
         else if family = AF_INET
         then (if type \<noteq> SOCK_RAW then Inl (KPanic ''sys_socket: Only SOCK_RAW in AF_INET for now'')
               else socket_inet sock AF_INET type protocol (s4 0))
         else Inr (-1, s3)))"

definition sock_socketpair :: "int \<Rightarrow> int \<Rightarrow> int \<Rightarrow> u64 \<Rightarrow> io_state \<Rightarrow> int ioresult" where
  "sock_socketpair family type protocol usockvec s =
    kbind (sys_socket family type protocol s) (\<lambda>(fd1, s1).
      if get_socket_from_fd fd1 s1 = NULL then Inr (-1, s1)
      else kbind (sys_socket family type protocol s1) (\<lambda>(fd2, s2).
        if get_socket_from_fd fd2 s2 = NULL then Inr (-1, s2)
        else Inr (0, io_store usockvec (le_int fd1 @ le_int fd2) s2)))"

section \<open>The server's side\<close>

text \<open>\<open>while (i \<le> backlog_max)\<close> over the 32 entries of the list.\<close>

fun scan_pending :: "(int \<Rightarrow> ptr) \<Rightarrow> int list \<Rightarrow> kfault + ptr" where
  "scan_pending q [] = Inr NULL"
| "scan_pending q (i # is) = (if i > 31 then Inl (OutOfBounds ''pending_connections'')
     else if q i \<noteq> NULL then Inr (q i) else scan_pending q is)"

definition accept_pending :: "ptr \<Rightarrow> ptr \<Rightarrow> io_state \<Rightarrow> int ioresult" where
  "accept_pending p k s0 =
    (let R = somem s0 k; h = (if backlog_head R + 1 \<ge> backlog_max R then 0 else backlog_head R + 1);
         s = upd_sock k (\<lambda>r. r\<lparr>so_state := SS_CONNECTED, backlog_head := h\<rparr>) s0;
         undo = upd_sock k (\<lambda>r. r\<lparr>so_state := SS_CONNECTING\<rparr>) in
     if h < 0 \<or> h \<ge> backlog_max R then Inl (KPanic ''sys_accept: Backlog limits'')
     else kbind (scan_pending (pending_connections R) (slots h (backlog_max R + 1))) (\<lambda>c.
       if c = NULL then Inr (-1, undo s)
       else if so_used (somem s c) \<noteq> TRUE \<or> so_magic (somem s c) \<noteq> 1234 then Inr (-1, undo s)
       else let s1 = upd_sock c (\<lambda>r. r\<lparr>so_state := SS_CONNECTED\<rparr>) s; f = private_file (somem s1 c) in
         if f = NULL then Inl (NullDeref ''cFile->_file'')
         else Inr (31, upd_file f (\<lambda>r. r\<lparr>f_file := 31\<rparr>) (set_object p 31 f s1))))"

definition sys_accept :: "int \<Rightarrow> u64 \<Rightarrow> u64 \<Rightarrow> io_state \<Rightarrow> int ioresult" where
  "sys_accept sockfd addr addrlen s0 =
    (let s = upd_ker (do_credits_by_tid (current_thread (ker s0))) s0 in
     if sockfd < 0 \<or> sockfd \<ge> OPEN_MAX then Inr (-EINVAL, s)
     else if addr = 0 then Inr (-EINVAL, s)
     else if addr < CONTROLTHREAD_BASE then Inl (KPanic ''sys_accept: addr is not ring3'')
     else if addrlen = 0 then Inr (-EINVAL, s)
     else case calling_process s of None \<Rightarrow> Inr (-1, s)
     | Some p \<Rightarrow> let f = process_object s p sockfd; F = fimem s f; k = f_socket F in
       if f = NULL then Inr (-1, s)
       else if f_used F \<noteq> TRUE \<or> f_magic F \<noteq> 1234 then Inr (-1, s)
       else if is_socket f s \<noteq> TRUE then Inr (-1, s)
       else if can_accept (f_sync F) \<noteq> TRUE then Inr (-1, s)
       else if k = NULL then Inr (-1, s)
       else if so_used (somem s k) \<noteq> TRUE \<or> so_magic (somem s k) \<noteq> 1234 then Inr (-1, s)
       else if so_state (somem s k) = SS_CONNECTING \<or> so_state (somem s k) = SS_CONNECTED
       then accept_pending p k s else Inr (-1, s))"

definition sys_bind :: "int \<Rightarrow> u64 \<Rightarrow> u32 \<Rightarrow> io_state \<Rightarrow> int ioresult" where
  "sys_bind sockfd addr addrlen s0 =
    (let s = upd_ker (do_credits_by_tid (current_thread (ker s0))) s0 in
     if sockfd < 0 \<or> sockfd \<ge> OPEN_MAX then Inr (-EINVAL, s)
     else if addr = 0 then Inr (-1, s)
     else if addr < CONTROLTHREAD_BASE then Inl (KPanic ''sys_bind: addr is not ring3'')
     else if addrlen = 0 then Inr (-EINVAL, s)
     else case current_entry s of None \<Rightarrow> Inr (-1, s)
     | Some p \<Rightarrow>
       if p_magic (pmem (ker s) p) \<noteq> 1234 then Inr (-1, s)
       else let f = process_object s p sockfd; k = f_socket (fimem s f) in
       if f = NULL then Inr (-1, s)
       else if f_magic (fimem s f) \<noteq> 1234 then Inr (-1, s)
       else if is_socket f s \<noteq> TRUE then Inr (-1, s)
       else if k = NULL then Inr (-1, s)
       else if uint (sa_family (somem s k)) = AF_GRAMADO
       then Inr (0, upd_sock k (\<lambda>r. r\<lparr>sa_data := (\<lambda>i. if i < 14 then user8 s (addr + 2 + of_nat i) else sa_data r i)\<rparr>) s)
       else Inr (-1, s))"

definition sys_listen :: "int \<Rightarrow> int \<Rightarrow> io_state \<Rightarrow> int ioresult" where
  "sys_listen sockfd backlog s0 =
    (let s = upd_ker (do_credits_by_tid (current_thread (ker s0))) s0;
         b = (if backlog \<le> 0 then 1 else if backlog \<ge> 32 then 31 else backlog) in
     if sockfd < 0 \<or> sockfd \<ge> OPEN_MAX then Inr (-EINVAL, s)
     else case current_entry s of None \<Rightarrow> Inr (-1, s)
     | Some p \<Rightarrow> let f = process_object s p sockfd; k = f_socket (fimem s f) in
       if f = NULL then Inr (-1, s)
       else if is_socket f s \<noteq> TRUE then Inr (-1, s)
       else if k = NULL then Inr (-1, s)
       else if k \<noteq> priv (pio s p) then Inl (KPanic ''sys_listen: [TEST] f->socket != p->priv'')
       else Inr (0, upd_sock k (\<lambda>r. r\<lparr>backlog_max := b, isAcceptingConnections := TRUE\<rparr>) s))"

section \<open>The client's side\<close>

text \<open>
  The common part of __connect_inet() and __connect_local(), from the client's process on. The writes
  are in the order of the code, so that a process that connects to itself is covered.
\<close>

definition link_sockets :: "ptr \<Rightarrow> ptr \<Rightarrow> io_state \<Rightarrow> io_state" where
  "link_sockets c k s =
    upd_sock c (\<lambda>r. r\<lparr>magic_string := (magic_string r)(0 := 67, 1 := 0)\<rparr>)
      (upd_sock k (\<lambda>r. r\<lparr>so_state := SS_CONNECTING\<rparr>) (upd_sock c (\<lambda>r. r\<lparr>so_state := SS_CONNECTING\<rparr>)
        (upd_sock k (\<lambda>r. r\<lparr>so_link := c\<rparr>) (upd_sock c (\<lambda>r. r\<lparr>so_link := k\<rparr>) s))))"

definition queue_client :: "ptr \<Rightarrow> ptr \<Rightarrow> io_state \<Rightarrow> kfault + io_state" where
  "queue_client c k s =
    (let R = somem s k; t = (if backlog_tail R + 1 \<ge> backlog_max R then 0 else backlog_tail R + 1) in
     if t < 0 \<or> t > 31 then Inl (OutOfBounds ''pending_connections'')
     else Inr (upd_sock c (\<lambda>r. r\<lparr>client_backlog_pos := t\<rparr>)
       (upd_sock k (\<lambda>r. r\<lparr>backlog_tail := t, pending_connections := (pending_connections r)(t := c)\<rparr>) s)))"

definition connect_to :: "int \<Rightarrow> int \<Rightarrow> io_state \<Rightarrow> int ioresult" where
  "connect_to target_pid sockfd s =
    (case current_entry s of None \<Rightarrow> Inr (-1, s)
     | Some p \<Rightarrow> let f = process_object s p sockfd; c = f_socket (fimem s f) in
       if f = NULL then Inr (-1, s)
       else if is_socket f s \<noteq> TRUE then Inr (-1, s)
       else if can_connect (f_sync (fimem s f)) \<noteq> TRUE then Inr (-1, s)
       else if c = NULL then Inr (-1, s)
       else if so_state (somem s c) \<noteq> SS_UNCONNECTED then Inr (-1, s)
       else let n = new_client_port_number s + 1;
                s1 = upd_sock c (\<lambda>r. r\<lparr>so_port := n\<rparr>) (s\<lparr>new_client_port_number := n\<rparr>) in
         if target_pid < 0 \<or> target_pid \<ge> PROCESS_COUNT_MAX then Inr (-1, s1)
         else let q = processList (ker s1) target_pid in
         if q = NULL then Inr (-1, s1)
         else (case find (\<lambda>i. process_object s1 q i = NULL) (slots 3 31) of
             None \<Rightarrow> Inl (KPanic ''__connect: [FIXME] We need a slot in the server'')
           | Some slot \<Rightarrow> let k = priv (pio s1 q) in
             if k = NULL then Inr (-1, s1)
             else let s2 = upd_sock c (\<lambda>r. r\<lparr>clientfd_on_server := slot\<rparr>)
                        (upd_sock k (\<lambda>r. r\<lparr>clientfd_on_server := slot\<rparr>) s1);
                      s3 = link_sockets c k (set_object q 31 f s2) in
               kbind (queue_client c k s3) (\<lambda>s4. Inr (0, s4))))"

definition connect_local :: "int \<Rightarrow> u64 \<Rightarrow> io_state \<Rightarrow> int ioresult" where
  "connect_local sockfd addr s0 =
    (let s = upd_ker (do_credits_by_tid (current_thread (ker s0))) s0;
         a = user8 s (addr + 2); b = user8 s (addr + 3);
         port = (\<lambda>n. socket_get_gramado_port n (ker s)) in
     if sockfd < 0 \<or> sockfd \<ge> OPEN_MAX then Inr (-EINVAL, s)
     else if addr = 0 then Inr (-EINVAL, s)
     else if uint (user16 s addr) = AF_GRAMADO
     then (let pid = (if a = 102 \<and> b = 115 then port GRAMADO_PORT_FS
                 else if a = 110 \<and> b = 115 then port GRAMADO_PORT_NS
                 else if a = 100 \<and> b = 115 then port GRAMADO_PORT_WS else -1) in
       if pid < 0 \<or> pid \<ge> PROCESS_COUNT_MAX then Inr (-1, s) else connect_to pid sockfd s)
     else Inr (-1, s))"

text \<open>The fields of \<open>sockaddr_in\<close>: the family is the second byte, then the port and the address.\<close>

definition connect_inet :: "int \<Rightarrow> u64 \<Rightarrow> io_state \<Rightarrow> int ioresult" where
  "connect_inet sockfd addr s0 =
    (let s = upd_ker (do_credits_by_tid (current_thread (ker s0))) s0; port = user16 s (addr + 2);
         localhost = (user8 s (addr + 7) = 127 \<and> user8 s (addr + 6) = 0 \<and> user8 s (addr + 5) = 0
                      \<and> user8 s (addr + 4) = 1) in
     if sockfd < 0 \<or> sockfd \<ge> OPEN_MAX then Inr (-EINVAL, s)
     else if addr = 0 then Inr (-EINVAL, s)
     else if uint (user16 s addr) = AF_UNIX \<or> uint (user16 s addr) = AF_GRAMADO then Inr (-1, s)
     else if uint (user8 s (addr + 1)) \<noteq> AF_INET then Inr (-1, s)
     else if port \<noteq> PORTS_WS \<and> port \<noteq> PORTS_NS then Inr (-1, s)
     else if \<not> localhost then Inr (-1, s)
     else connect_to (socket_get_gramado_port
            (if port = PORTS_WS then GRAMADO_PORT_WS else GRAMADO_PORT_NS) (ker s)) sockfd s)"

definition sys_connect :: "int \<Rightarrow> u64 \<Rightarrow> u32 \<Rightarrow> io_state \<Rightarrow> int ioresult" where
  "sys_connect sockfd addr addrlen s =
    (if addr = 0 then Inr (-EINVAL, s)
     else if addr < CONTROLTHREAD_BASE then Inl (KPanic ''sys_connect: addr is not ring3'')
     else if addrlen = 0 then Inr (-EINVAL, s)
     else if uint (user16 s addr) = AF_UNIX \<or> uint (user16 s addr) = AF_GRAMADO
     then connect_local sockfd addr s else connect_inet sockfd addr s)"

text \<open>
  The name of a socket is copied to any address, with \<open>*addrlen\<close> set to 0 before; the socket is the
  last one of the process, not the one behind the descriptor.
\<close>

definition sys_getsockname :: "int \<Rightarrow> u64 \<Rightarrow> u64 \<Rightarrow> io_state \<Rightarrow> int ioresult" where
  "sys_getsockname sockfd addr addrlen s =
    (if sockfd < 0 \<or> sockfd \<ge> OPEN_MAX then Inr (-1, s)
     else if addr = 0 then Inr (-1, s)
     else if addrlen = 0 then Inr (-EINVAL, s)
     else kbind (raw_entry s) (\<lambda>p.
       if p = NULL then Inr (-1, s)
       else if process_object s p sockfd = NULL then Inr (-1, s)
       else let k = priv (pio s p) in
         if k = NULL then Inr (-1, s)
         else if uint (sa_family (somem s k)) = AF_GRAMADO
         then Inr (0, io_store (addr + 2) (map (sa_data (somem s k)) [0..<14]) (io_store addrlen (le_int 0) s))
         else Inr (-1, s)))"

definition sys_socket_shutdown :: "int \<Rightarrow> int \<Rightarrow> io_state \<Rightarrow> int \<times> io_state" where
  "sys_socket_shutdown fd how s =
    (if fd < 0 \<or> fd \<ge> OPEN_MAX then (-EBADF, s)
     else case current_entry s of None \<Rightarrow> (-1, s)
     | Some p \<Rightarrow> let f = process_object s p fd; k = f_socket (fimem s f) in
       if f = NULL then (-1, s)
       else if is_socket f s \<noteq> TRUE then (-1, s)
       else if k = NULL then (-1, s)
       else (0, upd_sock k (\<lambda>r. r\<lparr>so_state := 216\<rparr>) s))"

text \<open>The services of the C library, of which there is one; the arguments are cast to \<open>int\<close>.\<close>

definition socket_dialog :: "u64 \<Rightarrow> u64 \<Rightarrow> u64 \<Rightarrow> u64 \<Rightarrow> io_state \<Rightarrow> u64 ioresult" where
  "socket_dialog number arg2 arg3 arg4 s =
    (if number < 7000 \<or> number \<ge> 8000 then Inr (0, s)
     else if number = 7000
     then kbind (sys_socket (sint (ucast arg2 :: u32)) (sint (ucast arg3 :: u32)) (sint (ucast arg4 :: u32)) s)
            (\<lambda>(r, t). Inr (word_of_int r, t))
     else Inr (0, s))"

end
