(* ===== verification/KTalk.thy ===== *)
theory KTalk
  imports KSocket
begin

text \<open>
  What sockets promise: a client that connects to a server of this machine is accepted and the two talk
  over the client's buffer; and what the list of pending connections does to clients.
\<close>

section \<open>Frames\<close>

lemma credits_by_tid_fields [simp]:
  "pmem (do_credits_by_tid tid k) = pmem k" "processList (do_credits_by_tid tid k) = processList k"
  "current_pid (do_credits_by_tid tid k) = current_pid k" "current_thread (do_credits_by_tid tid k) = current_thread k"
  "foreground_thread (do_credits_by_tid tid k) = foreground_thread k" "heap (do_credits_by_tid tid k) = heap k"
  "gramado_ports (do_credits_by_tid tid k) = gramado_ports k" "system_state (do_credits_by_tid tid k) = system_state k"
  by (simp_all add: do_credits_by_tid_def do_credits_def upd_thread_def Let_def)

lemma upd_sock_simps [simp]:
  "somem (upd_sock k g s) = (somem s)(k := g (somem s k))" "fimem (upd_sock k g s) = fimem s"
  "ker (upd_sock k g s) = ker s" "fss (upd_sock k g s) = fss s" "pio (upd_sock k g s) = pio s"
  by (simp_all add: upd_sock_def)

lemma set_object_simps [simp]:
  "somem (set_object p i f s) = somem s" "fimem (set_object p i f s) = fimem s"
  "fss (set_object p i f s) = fss s" "pio (set_object p i f s) = pio s"
  "processList (ker (set_object p i f s)) = processList (ker s)"
  "current_pid (ker (set_object p i f s)) = current_pid (ker s)"
  "p_used (pmem (ker (set_object p i f s)) r) = p_used (pmem (ker s) r)"
  "p_magic (pmem (ker (set_object p i f s)) r) = p_magic (pmem (ker s) r)"
  "process_object (set_object p i f s) = (process_object s)(p := (process_object s p)(i := f))"
  by (auto simp: set_object_def upd_process_def process_object_def fun_eq_iff)

lemma process_object_frames [simp]:
  "process_object (upd_sock k g s) = process_object s"
  "process_object (upd_ker (do_credits_by_tid tid) s) = process_object s"
  by (simp_all add: process_object_def fun_eq_iff)

lemma user_memory_frames [simp]:
  "user8 (upd_ker h s) = user8 s" "user16 (upd_ker h s) = user16 s"
  by (simp_all add: user8_def user16_def fun_eq_iff)

lemma current_entry_frames [simp]:
  "current_entry (upd_ker (do_credits_by_tid tid) s) = current_entry s" "current_entry (upd_sock k g s) = current_entry s"
  "current_entry (set_object p i f s) = current_entry s"
  by (simp_all add: current_entry_def get_current_process_def Let_def)

lemma calling_process_frames [simp]:
  "calling_process (upd_ker (do_credits_by_tid tid) s) = calling_process s" "calling_process (upd_sock k g s) = calling_process s"
  "calling_process (set_object p i f s) = calling_process s" "calling_process (upd_file e h s) = calling_process s"
  by (simp_all add: calling_process_def get_current_process_def Let_def)

lemma is_socket_frames [simp]:
  "is_socket f (upd_ker h s) = is_socket f s" "is_socket f (upd_sock k g s) = is_socket f s"
  by (simp_all add: is_socket_def)

lemma is_socket_TRUE: "is_socket f s = TRUE \<longleftrightarrow> f \<noteq> NULL \<and> f_magic (fimem s f) = 1234 \<and> f_object (fimem s f) = ObjectTypeSocket"
  by (simp add: is_socket_def)

text \<open>The scheduler gives the processor to thread \<open>tid\<close> of process \<open>pid\<close>.\<close>

definition run_as :: "int \<Rightarrow> int \<Rightarrow> io_state \<Rightarrow> io_state" where
  "run_as pid tid = upd_ker (\<lambda>k. k\<lparr>current_pid := pid, current_thread := tid\<rparr>)"

lemma run_as_simps [simp]:
  "somem (run_as pid tid s) = somem s" "fimem (run_as pid tid s) = fimem s" "fss (run_as pid tid s) = fss s"
  "pio (run_as pid tid s) = pio s" "process_object (run_as pid tid s) = process_object s"
  "processList (ker (run_as pid tid s)) = processList (ker s)" "pmem (ker (run_as pid tid s)) = pmem (ker s)"
  "current_pid (ker (run_as pid tid s)) = pid" "current_thread (ker (run_as pid tid s)) = tid"
  by (simp_all add: run_as_def process_object_def fun_eq_iff)

definition process_at :: "io_state \<Rightarrow> int \<Rightarrow> ptr \<Rightarrow> bool" where
  "process_at s pid p \<longleftrightarrow> pid_ok pid \<and> processList (ker s) pid = p \<and> p \<noteq> NULL
     \<and> p_used (pmem (ker s) p) = TRUE \<and> p_magic (pmem (ker s) p) = 1234"

lemma process_at_calls:
  assumes "process_at s pid p" and "current_pid (ker s) = pid"
  shows "calling_process s = Some p" "current_entry s = Some p"
  using assms by (auto simp: process_at_def calling_process_def current_entry_def get_current_process_def pid_ok_def Let_def)

lemma process_at_frames [simp]:
  "process_at (run_as i j s) pid p = process_at s pid p" "process_at (upd_sock k g s) pid p = process_at s pid p"
  "process_at (set_object r m f s) pid p = process_at s pid p" "process_at (upd_file e h s) pid p = process_at s pid p"
  "process_at (upd_ker (do_credits_by_tid tid) s) pid p = process_at s pid p" "process_at (io_store a xs s) pid p = process_at s pid p"
  "process_at (upd_pio r w s) pid p = process_at s pid p" "process_at (s\<lparr>new_client_port_number := n\<rparr>) pid p = process_at s pid p"
  by (simp_all add: process_at_def)

section \<open>Connect\<close>

text \<open>Descriptor \<open>fd\<close> of process \<open>p\<close> is the file \<open>f\<close> of socket \<open>c\<close>.\<close>

definition socket_fd :: "io_state \<Rightarrow> ptr \<Rightarrow> int \<Rightarrow> ptr \<Rightarrow> ptr \<Rightarrow> bool" where
  "socket_fd s p fd f c \<longleftrightarrow> 0 \<le> fd \<and> fd < OPEN_MAX \<and> process_object s p fd = f \<and> f \<noteq> NULL
     \<and> f_used (fimem s f) = TRUE \<and> f_magic (fimem s f) = 1234 \<and> f_object (fimem s f) = ObjectTypeSocket
     \<and> f_socket (fimem s f) = c \<and> c \<noteq> NULL \<and> so_used (somem s c) = TRUE \<and> so_magic (somem s c) = 1234"

definition next_index :: "int \<Rightarrow> int \<Rightarrow> int" where
  "next_index i n = (if i + 1 \<ge> n then 0 else i + 1)"

lemma next_index_range: "0 \<le> i \<Longrightarrow> i < n \<Longrightarrow> 0 \<le> next_index i n \<and> next_index i n < n"
  by (auto simp: next_index_def)

lemma connect_to_ok:
  assumes "current_entry s = Some p" and "socket_fd s p fd f c" and "can_connect (f_sync (fimem s f)) = TRUE"
    and "so_state (somem s c) = SS_UNCONNECTED" and "process_at s pid q" and "priv (pio s q) = k" and "k \<noteq> NULL" and "k \<noteq> c"
    and "find (\<lambda>i. process_object s q i = NULL) (slots 3 31) = Some slot"
    and "0 \<le> backlog_tail (somem s k)" and "backlog_tail (somem s k) < backlog_max (somem s k)" and "backlog_max (somem s k) \<le> 31"
  shows "\<exists>t. connect_to pid fd s = Inr (0, t) \<and> fimem t = fimem s \<and> fss t = fss s \<and> pio t = pio s
     \<and> process_object t = (process_object s)(q := (process_object s q)(31 := f))
     \<and> (\<forall>i r. process_at t i r = process_at s i r) \<and> (\<forall>d. d \<noteq> c \<longrightarrow> d \<noteq> k \<longrightarrow> somem t d = somem s d)
     \<and> somem t k = (somem s k)\<lparr>clientfd_on_server := slot, so_link := c, so_state := SS_CONNECTING,
          backlog_tail := next_index (backlog_tail (somem s k)) (backlog_max (somem s k)),
          pending_connections := (pending_connections (somem s k))
            (next_index (backlog_tail (somem s k)) (backlog_max (somem s k)) := c)\<rparr>
     \<and> so_used (somem t c) = so_used (somem s c) \<and> so_magic (somem t c) = so_magic (somem s c)
     \<and> private_file (somem t c) = private_file (somem s c) \<and> so_state (somem t c) = SS_CONNECTING"
proof -
  let ?n = "new_client_port_number s + 1"
  let ?s1 = "upd_sock c (\<lambda>r. r\<lparr>so_port := ?n\<rparr>) (s\<lparr>new_client_port_number := ?n\<rparr>)"
  let ?s2 = "upd_sock c (\<lambda>r. r\<lparr>clientfd_on_server := slot\<rparr>) (upd_sock k (\<lambda>r. r\<lparr>clientfd_on_server := slot\<rparr>) ?s1)"
  let ?s3 = "link_sockets c k (set_object q 31 f ?s2)"
  let ?tl = "next_index (backlog_tail (somem s k)) (backlog_max (somem s k))"
  let ?t = "upd_sock c (\<lambda>r. r\<lparr>client_backlog_pos := ?tl\<rparr>)
       (upd_sock k (\<lambda>r. r\<lparr>backlog_tail := ?tl, pending_connections := (pending_connections r)(?tl := c)\<rparr>) ?s3)"
  have c: "process_object s p fd = f" "f \<noteq> NULL" "is_socket f s = TRUE" "f_socket (fimem s f) = c" "c \<noteq> NULL"
    using assms(2) by (auto simp: socket_fd_def is_socket_def)
  have q: "\<not> pid < 0" "\<not> pid \<ge> PROCESS_COUNT_MAX" "processList (ker s) pid = q" "q \<noteq> NULL"
    using assms(5) by (auto simp: process_at_def pid_ok_def)
  have po: "process_object ?s1 = process_object s" by (simp add: process_object_def fun_eq_iff)
  have k3: "backlog_tail (somem ?s3 k) = backlog_tail (somem s k)" "backlog_max (somem ?s3 k) = backlog_max (somem s k)"
    using assms(8) by (simp_all add: link_sockets_def)
  have tl: "0 \<le> ?tl" "?tl \<le> 31" using next_index_range[OF assms(10,11)] assms(12) by auto
  have "queue_client c k ?s3 = Inr ?t"
    using tl unfolding queue_client_def Let_def k3 by (simp add: next_index_def)
  then have e: "connect_to pid fd s = Inr (0, ?t)"
    using assms(1,3,4,6,7,9) c q po by (simp add: connect_to_def Let_def)
  have "somem ?t k = (somem s k)\<lparr>clientfd_on_server := slot, so_link := c, so_state := SS_CONNECTING,
          backlog_tail := ?tl, pending_connections := (pending_connections (somem s k))(?tl := c)\<rparr>"
    using assms(8) by (simp add: link_sockets_def)
  moreover have "so_used (somem ?t c) = so_used (somem s c) \<and> so_magic (somem ?t c) = so_magic (somem s c)
     \<and> private_file (somem ?t c) = private_file (somem s c) \<and> so_state (somem ?t c) = SS_CONNECTING"
    using assms(8) by (simp add: link_sockets_def)
  moreover have "\<forall>d. d \<noteq> c \<longrightarrow> d \<noteq> k \<longrightarrow> somem ?t d = somem s d" by (simp add: link_sockets_def)
  moreover have "process_object ?t = (process_object s)(q := (process_object s q)(31 := f))"
    using po by (simp add: link_sockets_def)
  moreover have "fimem ?t = fimem s \<and> fss ?t = fss s \<and> pio ?t = pio s" by (simp add: link_sockets_def)
  moreover have "\<forall>i r. process_at ?t i r = process_at s i r" by (simp add: link_sockets_def)
  ultimately show ?thesis using e by blast
qed

text \<open>An address of this machine: 127.0.0.1 and the port of the display server, as \<open>sockaddr_in\<close>.\<close>

definition display_address :: "io_state \<Rightarrow> u64 \<Rightarrow> bool" where
  "display_address s a \<longleftrightarrow> CONTROLTHREAD_BASE \<le> a \<and> (\<exists>l. io_bytes s a 8 = [l, 2, 0xC8, 0x0F, 1, 0, 0, 127])"

lemma high_byte_word16 [simp]: "high_byte (word16 l h) = h"
  by (rule bit_word_eqI) (auto simp: word16_def high_byte_def bit_simps dest: bit_imp_le_length)

lemma display_address_fields:
  assumes "display_address s a"
  shows "a \<noteq> 0" "\<not> a < CONTROLTHREAD_BASE" "user8 s (a + 1) = 2" "user16 s (a + 2) = PORTS_WS"
    "user8 s (a + 4) = 1" "user8 s (a + 5) = 0" "user8 s (a + 6) = 0" "user8 s (a + 7) = 127"
    "uint (user16 s a) \<noteq> AF_UNIX" "uint (user16 s a) \<noteq> AF_GRAMADO"
proof -
  obtain l where l: "io_bytes s a 8 = [l, 2, 0xC8, 0x0F, 1, 0, 0, 127]" using assms by (auto simp: display_address_def)
  have "[0..<8] = [0, 1, 2, 3, 4, 5, 6, 7 :: nat]" by (simp add: upt_rec)
  then have b: "fmem (fss s) a = l" "fmem (fss s) (a + 1) = 2" "fmem (fss s) (a + 2) = 0xC8" "fmem (fss s) (a + 3) = 0x0F"
      "fmem (fss s) (a + 4) = 1" "fmem (fss s) (a + 5) = 0" "fmem (fss s) (a + 6) = 0" "fmem (fss s) (a + 7) = 127"
    using l by (simp_all add: io_bytes_def mem_bytes_def)
  show "a \<noteq> 0" "\<not> a < CONTROLTHREAD_BASE" using assms by (auto simp: display_address_def CONTROLTHREAD_BASE_def)
  show "user8 s (a + 1) = 2" "user8 s (a + 4) = 1" "user8 s (a + 5) = 0" "user8 s (a + 6) = 0" "user8 s (a + 7) = 127"
    using b by (simp_all add: user8_def)
  have "fmem (fss s) (3 + a) = 0x0F" using b(4) by (simp add: add.commute)
  then show "user16 s (a + 2) = PORTS_WS"
    using b(3) by (simp add: user16_def load16_def word16_def PORTS_WS_def)
  have h: "high_byte (user16 s a) = 2" using b(1,2) by (simp add: user16_def load16_def)
  have n: "high_byte 1 = 0" "high_byte 8000 = 0x1F" by (simp_all add: high_byte_def)
  have "user16 s a \<noteq> 1" "user16 s a \<noteq> 8000" using h n by auto
  then show "uint (user16 s a) \<noteq> AF_UNIX" "uint (user16 s a) \<noteq> AF_GRAMADO"
    by (auto simp: AF_UNIX_def AF_GRAMADO_def word_uint_eq_iff)
qed

lemma sys_connect_display:
  assumes "display_address s a" and "0 < len" and "0 \<le> fd" and "fd < OPEN_MAX"
  shows "sys_connect fd a len s = (let t = upd_ker (do_credits_by_tid (current_thread (ker s))) s in
     connect_to (gramado_ports (ker s) 11) fd t)"
proof -
  note d = display_address_fields[OF assms(1)]
  have "len \<noteq> 0" using assms(2) by auto
  then show ?thesis
    using d assms(3,4) by (simp add: sys_connect_def connect_inet_def Let_def AF_INET_def socket_get_gramado_port_def
        GRAMADO_PORT_WS_def)
qed

section \<open>Accept\<close>

lemma scan_pending_first:
  assumes "find (\<lambda>i. q i \<noteq> NULL) xs = r" and "\<forall>i\<in>set xs. i \<le> 31"
  shows "scan_pending q xs = Inr (case r of None \<Rightarrow> NULL | Some i \<Rightarrow> q i)"
  using assms by (induction xs arbitrary: r) auto

text \<open>A server socket of the current process, and what accept() does with its list.\<close>

definition accepting :: "io_state \<Rightarrow> ptr \<Rightarrow> int \<Rightarrow> ptr \<Rightarrow> ptr \<Rightarrow> bool" where
  "accepting s q sfd g k \<longleftrightarrow> calling_process s = Some q \<and> socket_fd s q sfd g k \<and> sfd \<noteq> 31
     \<and> can_accept (f_sync (fimem s g)) = TRUE \<and> so_state (somem s k) \<in> {SS_CONNECTING, SS_CONNECTED}
     \<and> 0 \<le> backlog_head (somem s k) \<and> backlog_head (somem s k) < backlog_max (somem s k) \<and> backlog_max (somem s k) \<le> 31"

abbreviation accept_head :: "io_state \<Rightarrow> ptr \<Rightarrow> int" where
  "accept_head s k \<equiv> next_index (backlog_head (somem s k)) (backlog_max (somem s k))"

lemma sys_accept_ok:
  assumes "accepting s q sfd g k" and "CONTROLTHREAD_BASE \<le> addr" and "addrlen \<noteq> 0"
    and "find (\<lambda>i. pending_connections (somem s k) i \<noteq> NULL)
           (slots (accept_head s k) (backlog_max (somem s k) + 1)) = Some j"
    and "pending_connections (somem s k) j = c" and "so_used (somem s c) = TRUE" and "so_magic (somem s c) = 1234"
    and "private_file (somem s c) = f" and "f \<noteq> NULL" and "c \<noteq> k"
  shows "sys_accept sfd addr addrlen s = Inr (31, upd_file f (\<lambda>r. r\<lparr>f_file := 31\<rparr>) (set_object q 31 f
     (upd_sock c (\<lambda>r. r\<lparr>so_state := SS_CONNECTED\<rparr>) (upd_sock k (\<lambda>r. r\<lparr>so_state := SS_CONNECTED, backlog_head := accept_head s k\<rparr>)
       (upd_ker (do_credits_by_tid (current_thread (ker s))) s)))))"
proof -
  note a = assms(1)[unfolded accepting_def]
  have addr: "addr \<noteq> 0" "\<not> addr < CONTROLTHREAD_BASE" using assms(2) by (auto simp: CONTROLTHREAD_BASE_def)
  let ?s = "upd_ker (do_credits_by_tid (current_thread (ker s))) s"
  let ?h = "accept_head s k"
  have h: "0 \<le> ?h" "?h < backlog_max (somem s k)" using next_index_range a by blast+
  have sc: "scan_pending (pending_connections (somem s k)) (slots ?h (backlog_max (somem s k) + 1)) = Inr c"
    using scan_pending_first[OF assms(4)] a assms(5) by simp
  have j: "pending_connections (somem s k) j \<noteq> NULL" using assms(4) by (auto simp: find_Some_iff)
  have ap: "accept_pending q k ?s = Inr (31, upd_file f (\<lambda>r. r\<lparr>f_file := 31\<rparr>) (set_object q 31 f
     (upd_sock c (\<lambda>r. r\<lparr>so_state := SS_CONNECTED\<rparr>) (upd_sock k (\<lambda>r. r\<lparr>so_state := SS_CONNECTED, backlog_head := ?h\<rparr>) ?s))))"
    using h sc j assms(5-10) unfolding accept_pending_def next_index_def by (simp add: Let_def)
  show ?thesis
    using a addr assms(3) ap by (auto simp: sys_accept_def Let_def socket_fd_def is_socket_TRUE)
qed

lemma sys_accept_none:
  assumes "accepting s q sfd g k" and "CONTROLTHREAD_BASE \<le> addr" and "addrlen \<noteq> 0"
    and "find (\<lambda>i. pending_connections (somem s k) i \<noteq> NULL)
           (slots (accept_head s k) (backlog_max (somem s k) + 1)) = None"
  shows "sys_accept sfd addr addrlen s = Inr (-1, upd_sock k (\<lambda>r. r\<lparr>so_state := SS_CONNECTING\<rparr>)
     (upd_sock k (\<lambda>r. r\<lparr>so_state := SS_CONNECTED, backlog_head := accept_head s k\<rparr>)
       (upd_ker (do_credits_by_tid (current_thread (ker s))) s)))"
proof -
  note a = assms(1)[unfolded accepting_def]
  have addr: "addr \<noteq> 0" "\<not> addr < CONTROLTHREAD_BASE" using assms(2) by (auto simp: CONTROLTHREAD_BASE_def)
  let ?s = "upd_ker (do_credits_by_tid (current_thread (ker s))) s"
  let ?h = "accept_head s k"
  have h: "0 \<le> ?h" "?h < backlog_max (somem s k)" using next_index_range a by blast+
  have sc: "scan_pending (pending_connections (somem s k)) (slots ?h (backlog_max (somem s k) + 1)) = Inr NULL"
    using scan_pending_first[OF assms(4)] a by simp
  have ap: "accept_pending q k ?s = Inr (-1, upd_sock k (\<lambda>r. r\<lparr>so_state := SS_CONNECTING\<rparr>)
     (upd_sock k (\<lambda>r. r\<lparr>so_state := SS_CONNECTED, backlog_head := ?h\<rparr>) ?s))"
    using h sc unfolding accept_pending_def next_index_def by (simp add: Let_def)
  show ?thesis
    using a addr assms(3) ap by (auto simp: sys_accept_def Let_def socket_fd_def is_socket_TRUE)
qed

section \<open>The buffer between client and server\<close>

text \<open>A socket's file through which process \<open>p\<close> can talk; the buffer is empty and writable, or full.\<close>

definition talks :: "io_state \<Rightarrow> ptr \<Rightarrow> int \<Rightarrow> ptr \<Rightarrow> bool" where
  "talks s p fd f \<longleftrightarrow> 2 < fd \<and> fd < OPEN_MAX \<and> process_object s p fd = f \<and> f \<noteq> NULL
     \<and> f_used (fimem s f) = TRUE \<and> f_magic (fimem s f) = 1234 \<and> f_object (fimem s f) = ObjectTypeSocket
     \<and> can_read (f_sync (fimem s f)) = TRUE \<and> can_write (f_sync (fimem s f)) = TRUE \<and> 2 < f_file (fimem s f)
     \<and> f_lbfsize (fimem s f) = BUFSIZ"

definition sock_empty :: "io_state \<Rightarrow> ptr \<Rightarrow> bool" where
  "sock_empty s f \<longleftrightarrow> f_flags (fimem s f) = SWR \<and> socket_buffer_full (fimem s f) = FALSE"

definition sock_full :: "io_state \<Rightarrow> ptr \<Rightarrow> u8 list \<Rightarrow> bool" where
  "sock_full s f xs \<longleftrightarrow> f_flags (fimem s f) = SRD \<and> socket_buffer_full (fimem s f) = TRUE
     \<and> io_bytes s (f_base (fimem s f)) (length xs) = xs"

lemma flag_arith: "(0 AND NOT SWR) OR SRD = SRD" "((SRD OR SWR) AND NOT SRD) OR SWR = SWR" "SWR \<noteq> 0" "SRD \<noteq> 0"
  by (simp_all add: SRD_def SWR_def)

lemma get_file_at:
  assumes "process_at s pid p" and "current_pid (ker s) = pid" and "0 \<le> fd" and "fd < OPEN_MAX"
  shows "get_file_from_fd fd s = Inr (process_object s p fd)"
  using assms by (auto simp: get_file_from_fd_def process_at_def pid_ok_def get_current_process_def OPEN_MAX_def Let_def)

lemma socket_write_ok:
  assumes pa: "process_at s pid p" "current_pid (ker s) = pid" and ta: "talks s p fd f" and em: "sock_empty s f"
    and u: "CONTROLTHREAD_BASE \<le> u" and n: "xs \<noteq> []" "length xs < 1024" and xs: "io_bytes s u (length xs) = xs"
  shows "\<exists>t. sys_write fd u (int (length xs)) s = Inr (int (length xs), t) \<and> sock_full t f xs
     \<and> (\<forall>r d g. talks t r d g = talks s r d g) \<and> (\<forall>i r. process_at t i r = process_at s i r)"
proof -
  let ?s1 = "upd_pio p (\<lambda>r. r\<lparr>write_counter := write_counter r + 1\<rparr>) s"
  let ?me = "current_thread (ker s)"
  let ?s2 = "upd_ker (do_credits_by_tid ?me) ?s1"
  let ?F = "fimem s f"
  note t = ta[unfolded talks_def] and e = em[unfolded sock_empty_def]
  have uu: "u \<noteq> 0" "\<not> u < CONTROLTHREAD_BASE" using u by (auto simp: CONTROLTHREAD_BASE_def)
  have g: "get_file_from_fd fd ?s1 = Inr f"
    using get_file_at[of ?s1 pid p fd] pa t by (simp add: process_object_def)
  have cp: "calling_process s = Some p" by (rule process_at_calls(1)[OF pa])
  let ?s3 = "upd_file f (\<lambda>r. r\<lparr>f_flags := 0\<rparr>) ?s2"
  let ?s4 = "io_copy (f_base ?F) u (length xs) ?s3"
  have l: "int (length xs) \<noteq> 0" "0 \<le> int (length xs)" using n(1) by simp_all
  have w: "file_write_buffer f u (int (length xs)) ?s3 = Inr (int (length xs), ?s4)"
    using t uu n by (auto simp: file_write_buffer_def Let_def BUFSIZ_def)
  let ?s5 = "upd_file f (\<lambda>r. r\<lparr>socket_buffer_full := TRUE,
                       f_flags := (f_flags r AND NOT SWR) OR SRD, tid_waiting := -1\<rparr>) ?s4"
  let ?t = "if block_on_write (f_sync ?F) = TRUE then upd_file f (\<lambda>r. r\<lparr>tid_waiting := ?me\<rparr>) ?s5 else ?s5"
  have ws: "write_socket f u (int (length xs)) ?s1 = Inr (int (length xs), ?t)"
    using e w n(1) flag_arith(3) by (simp add: write_socket_def Let_def)
  have r: "sys_write fd u (int (length xs)) s = Inr (int (length xs), ?t)"
    using t uu l cp g ws by (auto simp: sys_write_def write_imp_def Let_def)
  have bytes: "io_bytes ?t (f_base ?F) (length xs) = xs"
    using io_bytes_store[of xs "f_base ?F" ?s3] n(2) xs by (simp add: io_copy_def)
  have full: "sock_full ?t f xs" using bytes
    by (cases "block_on_write (f_sync ?F) = TRUE") (simp_all add: sock_full_def flag_arith)
  have po: "process_object ?t = process_object s" by (simp add: process_object_def fun_eq_iff io_copy_def)
  have fm: "fimem ?t g = (if g = f then (fimem s f)\<lparr>f_flags := f_flags (fimem ?t f), socket_buffer_full := TRUE,
      tid_waiting := tid_waiting (fimem ?t f)\<rparr> else fimem s g)" for g
    by simp
  have "talks ?t r d g = talks s r d g" for r d g
    unfolding talks_def po fm[of g] by simp
  moreover have "process_at ?t i r = process_at s i r" for i r by (simp add: process_at_def io_copy_def)
  ultimately show ?thesis using r full by blast
qed

lemma socket_read_ok:
  assumes pa: "process_at s pid p" "current_pid (ker s) = pid" and ta: "talks s p fd f" and fu: "sock_full s f xs"
    and u: "CONTROLTHREAD_BASE \<le> u" and n: "xs \<noteq> []" "length xs \<le> 1024"
  shows "\<exists>t. sys_read fd u (int (length xs)) s = Inr (int (length xs), t) \<and> sock_empty t f
     \<and> io_bytes t u (length xs) = xs
     \<and> (\<forall>r d g. talks t r d g = talks s r d g) \<and> (\<forall>i r. process_at t i r = process_at s i r)"
proof -
  let ?s1 = "upd_pio p (\<lambda>r. r\<lparr>read_counter := read_counter r + 1\<rparr>) s"
  let ?s2 = "upd_ker (do_credits_by_tid (current_thread (ker s))) ?s1"
  let ?F = "fimem s f" and ?n = "int (length xs)"
  note t = ta[unfolded talks_def] and e = fu[unfolded sock_full_def]
  have uu: "u \<noteq> 0" "\<not> u < CONTROLTHREAD_BASE" using u by (auto simp: CONTROLTHREAD_BASE_def)
  have g: "get_file_from_fd fd ?s1 = Inr f"
    using get_file_at[of ?s1 pid p fd] pa t by (simp add: process_object_def)
  have cp: "calling_process s = Some p" by (rule process_at_calls(1)[OF pa])
  have m: "?n AND 0xFFFF = ?n"
  proof -
    have "?n AND mask 16 = ?n" using n(2) by (simp add: take_bit_eq_mask[symmetric] take_bit_int_eq_self)
    then show ?thesis by (simp add: mask_eq_exp_minus_1)
  qed
  let ?s3 = "upd_file f (\<lambda>r. r\<lparr>f_flags := f_flags r OR SWR\<rparr>) (io_copy u (f_base ?F) (length xs) ?s2)"
  have rb: "file_read_buffer f u ?n ?s2 = (?n, ?s3)"
    using t uu n m by (auto simp: file_read_buffer_def Let_def BUFSIZ_def)
  let ?t = "upd_file f (\<lambda>r. r\<lparr>socket_buffer_full := FALSE,
                 f_flags := (f_flags r AND NOT SRD) OR SWR, tid_waiting := -1\<rparr>) ?s3"
  have "read_socket f u ?n ?s1 = Inr (?n, ?t)"
    using e rb n(1) flag_arith(4) by (simp add: read_socket_def Let_def)
  then have r: "sys_read fd u ?n s = Inr (?n, ?t)"
    using t uu n(1) cp g by (auto simp: sys_read_def read_imp_def Let_def)
  have bytes: "io_bytes ?t u (length xs) = xs"
    using io_bytes_store[of xs u ?s2] n(2) e by (simp add: io_copy_def)
  have em: "sock_empty ?t f" using e by (simp add: sock_empty_def flag_arith)
  have po: "process_object ?t = process_object s" by (simp add: process_object_def fun_eq_iff io_copy_def)
  have fm: "fimem ?t g = (if g = f then (fimem s f)\<lparr>f_flags := f_flags (fimem ?t f), socket_buffer_full := FALSE,
      tid_waiting := -1\<rparr> else fimem s g)" for g
    by simp
  have "talks ?t r d g = talks s r d g" for r d g
    unfolding talks_def po fm[of g] by simp
  moreover have "process_at ?t i r = process_at s i r" for i r by (simp add: process_at_def io_copy_def)
  ultimately show ?thesis using r em bytes by blast
qed

section \<open>The dialog\<close>

definition client_ready :: "io_state \<Rightarrow> int \<Rightarrow> ptr \<Rightarrow> int \<Rightarrow> ptr \<Rightarrow> ptr \<Rightarrow> bool" where
  "client_ready s pid p fd f c \<longleftrightarrow> process_at s pid p \<and> current_pid (ker s) = pid \<and> socket_fd s p fd f c
     \<and> talks s p fd f \<and> sock_empty s f \<and> can_connect (f_sync (fimem s f)) = TRUE
     \<and> so_state (somem s c) = SS_UNCONNECTED \<and> private_file (somem s c) = f"

definition server_ready :: "io_state \<Rightarrow> int \<Rightarrow> ptr \<Rightarrow> int \<Rightarrow> ptr \<Rightarrow> ptr \<Rightarrow> bool" where
  "server_ready s pid q sfd g k \<longleftrightarrow> process_at s pid q \<and> socket_fd s q sfd g k \<and> sfd \<noteq> 31
     \<and> can_accept (f_sync (fimem s g)) = TRUE \<and> priv (pio s q) = k \<and> gramado_ports (ker s) 11 = pid
     \<and> find (\<lambda>i. process_object s q i = NULL) (slots 3 31) \<noteq> None \<and> backlog_head (somem s k) = backlog_tail (somem s k)
     \<and> 0 \<le> backlog_tail (somem s k) \<and> backlog_tail (somem s k) < backlog_max (somem s k) \<and> backlog_max (somem s k) \<le> 31"

lemma sock_frames [simp]:
  "talks (run_as i j s) p fd f = talks s p fd f" "sock_empty (run_as i j s) f = sock_empty s f"
  "sock_full (run_as i j s) f xs = sock_full s f xs" "talks (io_store a ys s) p fd f = talks s p fd f"
  "sock_empty (io_store a ys s) f = sock_empty s f" "current_pid (ker (io_store a ys s)) = current_pid (ker s)"
  by (simp_all add: talks_def sock_empty_def sock_full_def process_object_def io_bytes_def)

text \<open>What connect() to the display server leaves behind.\<close>

lemma connect_display_ok:
  assumes cl: "client_ready s cp p fd f c" and sv: "server_ready s sp q sfd g k" and ne: "c \<noteq> k"
    and ad: "display_address s a" "0 < len"
    and h: "h = next_index (backlog_tail (somem s k)) (backlog_max (somem s k))"
  shows "\<exists>t slot. sys_connect fd a len s = Inr (0, t) \<and> fimem t = fimem s \<and> fss t = fss s
     \<and> process_object t = (process_object s)(q := (process_object s q)(31 := f))
     \<and> (\<forall>i r. process_at t i r = process_at s i r) \<and> (\<forall>d. d \<noteq> c \<longrightarrow> d \<noteq> k \<longrightarrow> somem t d = somem s d)
     \<and> somem t k = (somem s k)\<lparr>clientfd_on_server := slot, so_link := c, so_state := SS_CONNECTING,
          backlog_tail := h, pending_connections := (pending_connections (somem s k))(h := c)\<rparr>
     \<and> so_used (somem t c) = TRUE \<and> so_magic (somem t c) = 1234 \<and> private_file (somem t c) = f
     \<and> accepting (run_as sp st t) q sfd g k
     \<and> find (\<lambda>i. pending_connections (somem t k) i \<noteq> NULL) (slots h (backlog_max (somem t k) + 1)) = Some h"
proof -
  note C = cl[unfolded client_ready_def] and S = sv[unfolded server_ready_def]
  let ?s = "upd_ker (do_credits_by_tid (current_thread (ker s))) s"
  have fd: "0 \<le> fd" "fd < OPEN_MAX" using C by (auto simp: talks_def)
  obtain slot where slot: "find (\<lambda>i. process_object ?s q i = NULL) (slots 3 31) = Some slot" using S by auto
  have ce: "current_entry ?s = Some p" using process_at_calls(2)[of s cp p] C by simp
  have sf: "socket_fd ?s p fd f c" using C by (simp add: socket_fd_def)
  have kn: "k \<noteq> NULL" and cN: "c \<noteq> NULL" using S C by (auto simp: socket_fd_def)
  obtain t where t: "connect_to sp fd ?s = Inr (0, t)" "fimem t = fimem s" "fss t = fss s"
      "process_object t = (process_object s)(q := (process_object s q)(31 := f))"
      "\<forall>i r. process_at t i r = process_at s i r" "\<forall>d. d \<noteq> c \<longrightarrow> d \<noteq> k \<longrightarrow> somem t d = somem s d"
      "somem t k = (somem s k)\<lparr>clientfd_on_server := slot, so_link := c, so_state := SS_CONNECTING,
          backlog_tail := h, pending_connections := (pending_connections (somem s k))(h := c)\<rparr>"
      "so_used (somem t c) = TRUE" "so_magic (somem t c) = 1234" "private_file (somem t c) = f"
    using connect_to_ok[OF ce sf _ _ _ _ kn, of sp q slot] C S ne slot unfolding h by (auto simp: socket_fd_def)
  have "sys_connect fd a len s = Inr (0, t)"
    using sys_connect_display[OF ad fd] t(1) S by simp
  moreover have hr: "0 \<le> h" "h < backlog_max (somem s k)" using next_index_range S unfolding h by blast+
  have "find (\<lambda>i. pending_connections (somem t k) i \<noteq> NULL) (slots h (backlog_max (somem t k) + 1)) = Some h"
    using hr cN t(7) by (simp add: slots_Cons)
  moreover have "calling_process (run_as sp st t) = Some q"
    using process_at_calls(1)[of "run_as sp st t" sp q] t(5) S by simp
  then have "accepting (run_as sp st t) q sfd g k"
    using S t(2,4,7) by (auto simp: accepting_def socket_fd_def)
  ultimately show ?thesis using t by blast
qed

text \<open>Connect and accept hand the client's file to the server as descriptor 31.\<close>

lemma connect_accept:
  assumes cl: "client_ready s cp p fd f c" and sv: "server_ready s sp q sfd g k" and ne: "p \<noteq> q" "c \<noteq> k"
    and ad: "display_address s a" "0 < len" and b: "CONTROLTHREAD_BASE \<le> b" "blen \<noteq> 0"
  shows "\<exists>t1 t2. sys_connect fd a len s = Inr (0, t1) \<and> sys_accept sfd b blen (run_as sp st t1) = Inr (31, t2)
     \<and> talks t2 p fd f \<and> talks t2 q 31 f \<and> sock_empty t2 f \<and> process_at t2 cp p \<and> process_at t2 sp q
     \<and> so_state (somem t2 c) = SS_CONNECTED \<and> so_state (somem t2 k) = SS_CONNECTED \<and> so_link (somem t2 k) = c"
proof -
  note C = cl[unfolded client_ready_def] and S = sv[unfolded server_ready_def]
  let ?h = "next_index (backlog_tail (somem s k)) (backlog_max (somem s k))"
  obtain t1 slot where t1: "sys_connect fd a len s = Inr (0, t1)" "fimem t1 = fimem s"
      "process_object t1 = (process_object s)(q := (process_object s q)(31 := f))"
      "\<forall>i r. process_at t1 i r = process_at s i r"
      "somem t1 k = (somem s k)\<lparr>clientfd_on_server := slot, so_link := c, so_state := SS_CONNECTING,
          backlog_tail := ?h, pending_connections := (pending_connections (somem s k))(?h := c)\<rparr>"
      "so_used (somem t1 c) = TRUE" "so_magic (somem t1 c) = 1234" "private_file (somem t1 c) = f"
      "accepting (run_as sp st t1) q sfd g k"
      "find (\<lambda>i. pending_connections (somem t1 k) i \<noteq> NULL) (slots ?h (backlog_max (somem t1 k) + 1)) = Some ?h"
    using connect_display_ok[OF cl sv ne(2) ad refl, of st] by blast
  let ?r = "run_as sp st t1"
  have ah: "accept_head ?r k = ?h" using S t1(5) by simp
  have find: "find (\<lambda>i. pending_connections (somem ?r k) i \<noteq> NULL) (slots (accept_head ?r k) (backlog_max (somem ?r k) + 1)) = Some ?h"
    unfolding ah using t1(10) by simp
  have fn: "f \<noteq> NULL" using C by (simp add: socket_fd_def)
  let ?t2 = "upd_file f (\<lambda>r. r\<lparr>f_file := 31\<rparr>) (set_object q 31 f
     (upd_sock c (\<lambda>r. r\<lparr>so_state := SS_CONNECTED\<rparr>) (upd_sock k (\<lambda>r. r\<lparr>so_state := SS_CONNECTED, backlog_head := accept_head ?r k\<rparr>)
       (upd_ker (do_credits_by_tid (current_thread (ker ?r))) ?r))))"
  have e2: "sys_accept sfd b blen ?r = Inr (31, ?t2)"
    by (rule sys_accept_ok[OF t1(9) b find]) (use t1 fn ne in simp_all)
  have F: "fimem ?t2 f = (fimem s f)\<lparr>f_file := 31\<rparr>" using t1(2) by simp
  have "process_object ?t2 p fd = f" "process_object ?t2 q 31 = f" using t1(3) ne C by (simp_all add: socket_fd_def)
  then have "talks ?t2 p fd f" "talks ?t2 q 31 f" using C F by (simp_all add: talks_def OPEN_MAX_def)
  moreover have "sock_empty ?t2 f" using C F by (simp add: sock_empty_def)
  moreover have "process_at ?t2 i r = process_at s i r" for i r using t1(4) by simp
  moreover have "so_state (somem ?t2 c) = SS_CONNECTED" "so_state (somem ?t2 k) = SS_CONNECTED" "so_link (somem ?t2 k) = c"
    using ne(2) t1(5) by simp_all
  ultimately show ?thesis using t1(1) e2 C S by blast
qed


section \<open>A new socket\<close>

lemma process_current_at: "process_current (ker s) p \<Longrightarrow> process_at s (current_pid (ker s)) p"
  by (auto simp: process_current_def process_at_def)

lemma install_socket_ok:
  assumes rm: "heap_room (ker s) p 1480 2" and fr: "find (\<lambda>i. process_object s p i = NULL) (slots 3 31) = Some i"
    and c: "c \<noteq> NULL" "so_used (somem s c) = TRUE" "so_magic (somem s c) = 1234" "so_state (somem s c) = SS_UNCONNECTED"
  shows "\<exists>t f. install_socket c s = Inr (i, t) \<and> client_ready t (current_pid (ker s)) p i f c
     \<and> 0x30100000 \<le> unat (f_base (fimem t f)) \<and> unat (f_base (fimem t f)) + 1024 \<le> 0x301D0000
     \<and> (\<forall>r j. (r, j) \<noteq> (p, i) \<longrightarrow> process_object t r j = process_object s r j) \<and> fss t = fss s"
proof -
  have pc: "process_current (ker s) p" using rm by (simp add: heap_room_def)
  have ib: "3 \<le> i" "i < 31" using fr by (auto simp: find_Some_iff dest: nth_mem)
  have sz: "0 < BUFSIZ" "BUFSIZ < 2 ^ 31" "0 < file_size_of" "file_size_of < 2 ^ 31"
    by (simp_all add: BUFSIZ_def file_size_of_def)
  have r1: "heap_room (ker s) p (nat BUFSIZ + 72 + 384) (1 + 1)" using rm by (simp add: BUFSIZ_def numeral_2_eq_2)
  obtain a h1 m1 where k1: "io_alloc BUFSIZ s = Inr (a, s\<lparr>ker := (ker s)\<lparr>heap := h1, pmem := m1\<rparr>\<rparr>)"
      "unat a = heap_top (ker s) + 72" "charged (pmem (ker s)) m1" "heap_room ((ker s)\<lparr>heap := h1, pmem := m1\<rparr>) p 384 1"
    using io_alloc_room[OF r1 sz(1,2)] by blast
  let ?s1 = "s\<lparr>ker := (ker s)\<lparr>heap := h1, pmem := m1\<rparr>\<rparr>"
  have r2: "heap_room (ker ?s1) p (nat file_size_of + 72 + 0) (0 + 1)" using k1(4) by (simp add: file_size_of_def)
  obtain b h2 m2 where k2: "io_alloc file_size_of ?s1 = Inr (b, ?s1\<lparr>ker := (ker ?s1)\<lparr>heap := h2, pmem := m2\<rparr>\<rparr>)"
      "unat b = heap_top (ker ?s1) + 72" "charged m1 m2" "heap_room ((ker ?s1)\<lparr>heap := h2, pmem := m2\<rparr>) p 0 0"
    using io_alloc_room[OF r2 sz(3,4)] by auto
  let ?s2 = "?s1\<lparr>ker := (ker ?s1)\<lparr>heap := h2, pmem := m2\<rparr>\<rparr>"
  have nz: "a \<noteq> 0" "b \<noteq> 0" "unat b \<noteq> NULL" using k1(2) k2(2) by auto
  let ?t = "set_object p i (unat b) (upd_pio p (\<lambda>r. r\<lparr>priv := c\<rparr>)
    (upd_sock c (\<lambda>r. r\<lparr>private_file := unat b\<rparr>) (upd_file (unat b) (\<lambda>_. socket_file ?s2 a c i) ?s2)))"
  have e: "install_socket c s = Inr (i, ?t)"
    using current_listed(2)[OF pc] fr k1(1) k2(1) nz(1,2) by (simp add: install_socket_def Let_def)
  have po: "process_object ?s2 = process_object s"
    using charged_trans[OF k1(3) k2(3)] by (simp add: process_object_def fun_eq_iff charged_objects)
  have pt: "process_object ?t = (process_object s)(p := (process_object s p)(i := unat b))"
    unfolding po[symmetric] by simp
  have F: "fimem ?t (unat b) = socket_file ?s2 a c i" by simp
  have at: "process_at ?t (current_pid (ker s)) p" "current_pid (ker ?t) = current_pid (ker s)"
    using process_current_at[of ?s2 p] k2(4) by (simp_all add: heap_room_def)
  have sd: "socket_fd ?t p i (unat b) c" "talks ?t p i (unat b)" "sock_empty ?t (unat b)"
      "can_connect (f_sync (fimem ?t (unat b))) = TRUE"
    using ib c nz(3) unfolding socket_fd_def talks_def sock_empty_def pt F
    by (simp_all add: socket_file_def socket_sync_def zero_sync_def OPEN_MAX_def)
  have "client_ready ?t (current_pid (ker s)) p i (unat b) c"
    unfolding client_ready_def using at sd c by simp
  moreover have "unat (f_base (fimem ?t (unat b))) = unat a" unfolding F by (simp add: socket_file_def)
  moreover have "0x30100000 \<le> unat a" "unat a + 1024 \<le> 0x301D0000"
    using heap_room_top[OF r1] k1(2) by (simp_all add: BUFSIZ_def)
  moreover have "\<forall>r j. (r, j) \<noteq> (p, i) \<longrightarrow> process_object ?t r j = process_object s r j" unfolding pt by auto
  moreover have "fss ?t = fss s" by simp
  ultimately show ?thesis using e by (intro exI[of _ ?t] exI[of _ "unat b"]) simp
qed

lemma sys_socket_installs:
  assumes "heap_room (ker s) p 1976 3"
  shows "\<exists>c s1. sys_socket AF_INET SOCK_RAW 0 s = install_socket c s1 \<and> heap_room (ker s1) p 1480 2
     \<and> current_pid (ker s1) = current_pid (ker s) \<and> process_object s1 = process_object s \<and> fss s1 = fss s
     \<and> c \<noteq> NULL \<and> so_used (somem s1 c) = TRUE \<and> so_magic (somem s1 c) = 1234 \<and> so_state (somem s1 c) = SS_UNCONNECTED"
proof -
  let ?s = "upd_ker (do_credits_by_tid (current_thread (ker s))) s"
  have P: "pid_ok (current_pid (ker s))" "processList (ker s) (current_pid (ker s)) = p" "p \<noteq> NULL"
      "p_magic (pmem (ker s) p) = 1234"
    using assms by (auto simp: heap_room_def process_current_def)
  have sz: "0 < socket_size_of" "socket_size_of < 2 ^ 31" by (simp_all add: socket_size_of_def)
  have r1: "heap_room (ker ?s) p (nat socket_size_of + 72 + 1480) (2 + 1)"
    by (rule heap_room_move[where s = "ker s"]) (use assms in \<open>simp_all add: socket_size_of_def\<close>)
  obtain a h m where k: "io_alloc socket_size_of ?s = Inr (a, ?s\<lparr>ker := (ker ?s)\<lparr>heap := h, pmem := m\<rparr>\<rparr>)"
      "unat a = heap_top (ker ?s) + 72" "charged (pmem (ker ?s)) m" "heap_room ((ker ?s)\<lparr>heap := h, pmem := m\<rparr>) p 1480 2"
    using io_alloc_room[OF r1 sz] by blast
  let ?c = "unat a" and ?sa = "?s\<lparr>ker := (ker ?s)\<lparr>heap := h, pmem := m\<rparr>\<rparr>"
  have cN: "?c \<noteq> NULL" "a \<noteq> 0" using k(2) by auto
  define z where "z = zero_socket\<lparr>so_pid := get_current_process (ker ?sa), so_uid := current_user ?sa,
        so_gid := current_group ?sa, backlog_max := 4, isAcceptingConnections := FALSE, so_state := SS_UNCONNECTED,
        conn_copy := TRUE, clientfd_on_server := -1, so_used := TRUE, so_magic := 1234\<rparr>"
  have cr: "create_socket_object ?s = Inr (?c, upd_sock ?c (\<lambda>_. z) ?sa)"
    using k(1) cN(2) by (simp add: create_socket_object_def z_def)
  let ?u = "upd_sock ?c (\<lambda>_. z) ?sa"
  let ?s3 = "upd_sock ?c (\<lambda>r. r\<lparr>connection_type := 0\<rparr>) (upd_pio p (\<lambda>r. r\<lparr>priv := ?c\<rparr>)
      (upd_sock ?c (\<lambda>r. r\<lparr>so_family := AF_INET, so_type := SOCK_RAW, so_protocol := 0, ip_ipv6 := 0, ip_ipv4 := 0,
         so_port := 0, so_pid := current_pid (ker s), so_uid := current_user ?u, so_gid := current_group ?u\<rparr>) ?u))"
  let ?s4 = "upd_sock ?c (\<lambda>r. r\<lparr>in_family := 2, in_addr := 0x7F000001, in_port := 11369\<rparr>) ?s3"
  have "AF_INET \<noteq> AF_GRAMADO" "AF_INET \<noteq> AF_UNIX" by (simp_all add: AF_INET_def AF_GRAMADO_def AF_UNIX_def)
  then have "sys_socket AF_INET SOCK_RAW 0 s = socket_inet ?c AF_INET SOCK_RAW 0 ?s3"
    using P cr cN(1) by (simp add: sys_socket_def Let_def pid_ok_def get_current_process_def AF_INET_def)
  also have "\<dots> = install_socket ?c ?s4" using cN(1) by (simp add: socket_inet_def z_def)
  finally have e: "sys_socket AF_INET SOCK_RAW 0 s = install_socket ?c ?s4" .
  have "process_object ?sa = process_object ?s"
    using k(3) by (simp add: process_object_def fun_eq_iff charged_objects)
  then have "process_object ?s4 = process_object s" by simp
  moreover have "heap_room (ker ?s4) p 1480 2" using k(4) by simp
  moreover have "so_used (somem ?s4 ?c) = TRUE \<and> so_magic (somem ?s4 ?c) = 1234 \<and> so_state (somem ?s4 ?c) = SS_UNCONNECTED"
    by (simp add: z_def)
  ultimately show ?thesis using e cN(1) by (intro exI[of _ ?c] exI[of _ ?s4]) simp
qed

text \<open>
  C21. A new socket is ready to connect. With a descriptor free from 3 to 30 and room in the heap,
  socket(AF_INET, SOCK_RAW, 0) answers the first free descriptor; its file has an empty buffer of its
  own in the heap that can be written, and its socket is unconnected.
\<close>

theorem new_socket_ready:
  assumes "heap_room (ker s) p 1976 3" and "find (\<lambda>i. process_object s p i = NULL) (slots 3 31) = Some i"
  shows "\<exists>t f c. sys_socket AF_INET SOCK_RAW 0 s = Inr (i, t) \<and> client_ready t (current_pid (ker s)) p i f c
     \<and> 0x30100000 \<le> unat (f_base (fimem t f)) \<and> unat (f_base (fimem t f)) + 1024 \<le> 0x301D0000
     \<and> (\<forall>r j. (r, j) \<noteq> (p, i) \<longrightarrow> process_object t r j = process_object s r j) \<and> fss t = fss s"
proof -
  obtain c s1 where c: "sys_socket AF_INET SOCK_RAW 0 s = install_socket c s1" "heap_room (ker s1) p 1480 2"
     "current_pid (ker s1) = current_pid (ker s)" "process_object s1 = process_object s" "fss s1 = fss s"
     "c \<noteq> NULL" "so_used (somem s1 c) = TRUE" "so_magic (somem s1 c) = 1234" "so_state (somem s1 c) = SS_UNCONNECTED"
    using sys_socket_installs[OF assms(1)] by blast
  have f: "find (\<lambda>i. process_object s1 p i = NULL) (slots 3 31) = Some i" using assms(2) c(4) by simp
  show ?thesis using install_socket_ok[OF c(2) f c(6-9)] unfolding c(1,3-5) by blast
qed

section \<open>What the list of pending connections does\<close>

text \<open>The answers of \<open>n\<close> calls of accept() in a row.\<close>

fun accepts :: "nat \<Rightarrow> int \<Rightarrow> u64 \<Rightarrow> u64 \<Rightarrow> io_state \<Rightarrow> int list ioresult" where
  "accepts 0 sfd addr addrlen s = Inr ([], s)"
| "accepts (Suc n) sfd addr addrlen s = kbind (sys_accept sfd addr addrlen s) (\<lambda>(r, t).
     kbind (accepts n sfd addr addrlen t) (\<lambda>(rs, u). Inr (r # rs, u)))"

text \<open>The only client of the list of the server \<open>k\<close> is \<open>c\<close>, at \<open>j\<close>; the head of the list is at \<open>h\<close>.\<close>

definition one_pending :: "io_state \<Rightarrow> ptr \<Rightarrow> int \<Rightarrow> int \<Rightarrow> int \<Rightarrow> ptr \<Rightarrow> bool" where
  "one_pending s k m h j c \<longleftrightarrow> backlog_max (somem s k) = m \<and> backlog_head (somem s k) = h
     \<and> (\<forall>i. 0 \<le> i \<and> i \<le> m \<longrightarrow> (pending_connections (somem s k) i \<noteq> NULL \<longleftrightarrow> i = j))
     \<and> 0 \<le> j \<and> j \<le> m \<and> pending_connections (somem s k) j = c \<and> c \<noteq> k
     \<and> so_used (somem s c) = TRUE \<and> so_magic (somem s c) = 1234 \<and> private_file (somem s c) \<noteq> NULL"

lemma find_unique: "\<forall>i\<in>set xs. P i \<longleftrightarrow> i = j \<Longrightarrow> find P xs = (if j \<in> set xs then Some j else None)"
  by (induction xs) auto

lemma accept_one_pending:
  assumes ac: "accepting s q sfd g k" and op: "one_pending s k m h j c" and a: "CONTROLTHREAD_BASE \<le> addr" "addrlen \<noteq> 0"
  shows "\<exists>t. sys_accept sfd addr addrlen s = Inr (if next_index h m \<le> j then 31 else -1, t)
     \<and> accepting t q sfd g k \<and> one_pending t k m (next_index h m) j c"
proof -
  note A = ac[unfolded accepting_def] and O = op[unfolded one_pending_def]
  let ?h = "next_index h m"
  have h: "accept_head s k = ?h" "backlog_max (somem s k) = m" and bh: "backlog_head (somem s k) = h" using O by auto
  have r: "0 \<le> ?h" "?h < m" using next_index_range[of h m] A O by auto
  have "\<forall>i\<in>set (slots ?h (m + 1)). (pending_connections (somem s k) i \<noteq> NULL) = (i = j)" using O r by auto
  then have f: "find (\<lambda>i. pending_connections (somem s k) i \<noteq> NULL) (slots ?h (m + 1)) = (if ?h \<le> j then Some j else None)"
    using O r find_unique[of "slots ?h (m + 1)" "\<lambda>i. pending_connections (somem s k) i \<noteq> NULL" j] by simp
  show ?thesis
  proof (cases "?h \<le> j")
    case True
    let ?t = "upd_file (private_file (somem s c)) (\<lambda>r. r\<lparr>f_file := 31\<rparr>) (set_object q 31 (private_file (somem s c))
     (upd_sock c (\<lambda>r. r\<lparr>so_state := SS_CONNECTED\<rparr>) (upd_sock k (\<lambda>r. r\<lparr>so_state := SS_CONNECTED, backlog_head := ?h\<rparr>)
       (upd_ker (do_credits_by_tid (current_thread (ker s))) s))))"
    have "sys_accept sfd addr addrlen s = Inr (31, ?t)"
      using sys_accept_ok[OF ac a, unfolded h, of j c] f True O by simp
    moreover have "calling_process ?t = Some q" using A by simp
    then have "accepting ?t q sfd g k" using A O r by (auto simp: accepting_def socket_fd_def)
    moreover have "one_pending ?t k m ?h j c" using O by (auto simp: one_pending_def)
    ultimately show ?thesis using True by auto
  next
    case False
    let ?t = "upd_sock k (\<lambda>r. r\<lparr>so_state := SS_CONNECTING\<rparr>) (upd_sock k (\<lambda>r. r\<lparr>so_state := SS_CONNECTED, backlog_head := ?h\<rparr>)
       (upd_ker (do_credits_by_tid (current_thread (ker s))) s))"
    have "sys_accept sfd addr addrlen s = Inr (-1, ?t)"
      using sys_accept_none[OF ac a, unfolded h] f False bh by simp
    moreover have "accepting ?t q sfd g k" using A O r by (auto simp: accepting_def socket_fd_def)
    moreover have "one_pending ?t k m ?h j c" using O by (auto simp: one_pending_def)
    ultimately show ?thesis using False by auto
  qed
qed

lemma next_index_mod: "0 \<le> h \<Longrightarrow> h < m \<Longrightarrow> next_index h m = (h + 1) mod m"
  by (cases "h + 1 = m") (auto simp: next_index_def)

text \<open>
  C22. A client is accepted again and again. accept() takes a client from the list and leaves it there:
  with one client pending, of any number of calls of accept() in a row each call whose search
  starts at or before the client's entry answers a connection, descriptor 31 again, and the others
  answer -1.
\<close>

theorem accepted_again:
  assumes "accepting s q sfd g k" and "one_pending s k m h j c" and "CONTROLTHREAD_BASE \<le> addr" and "addrlen \<noteq> 0"
  shows "\<exists>t. accepts n sfd addr addrlen s = Inr (map (\<lambda>i. if (h + 1 + int i) mod m \<le> j then 31 else -1) [0..<n], t)"
  using assms(1,2)
proof (induction n arbitrary: s h)
  case (Suc n)
  have hm: "0 \<le> h" "h < m" using Suc.prems by (auto simp: accepting_def one_pending_def)
  obtain u where u: "sys_accept sfd addr addrlen s = Inr (if next_index h m \<le> j then 31 else -1, u)"
      "accepting u q sfd g k" "one_pending u k m (next_index h m) j c"
    using accept_one_pending[OF Suc.prems assms(3,4)] by blast
  obtain t where t: "accepts n sfd addr addrlen u
      = Inr (map (\<lambda>i. if (next_index h m + 1 + int i) mod m \<le> j then 31 else -1) [0..<n], t)"
    using Suc.IH[OF u(2,3)] by blast
  have "(next_index h m + 1 + int i) mod m = (h + 1 + int (Suc i)) mod m" for i
    unfolding next_index_mod[OF hm] add.assoc mod_add_left_eq by (simp add: algebra_simps)
  then have "map (\<lambda>i. if (h + 1 + int i) mod m \<le> j then 31 else -1 :: int) [0..<Suc n]
      = (if next_index h m \<le> j then 31 else -1) # map (\<lambda>i. if (next_index h m + 1 + int i) mod m \<le> j then 31 else -1) [0..<n]"
    unfolding next_index_mod[OF hm] map_upt_Suc by simp
  then show ?case using u(1) t by simp
qed simp

text \<open>
  C23. A client that connects to a full list replaces the oldest one. When the next entry of the server's
  list holds the client \<open>d\<close>, connect() of another client answers 0 and takes that entry: \<open>d\<close> is in
  the list no more, it is told nothing and stays as it was, and accept() hands the new client's file
  to the server.
\<close>

theorem full_list_drops_client:
  assumes "client_ready s cp p fd f c" and "server_ready s sp q sfd g k" and "c \<noteq> k"
    and "display_address s a" and "0 < len" and "CONTROLTHREAD_BASE \<le> b" and "blen \<noteq> 0"
    and "\<forall>i. pending_connections (somem s k) i = d \<longleftrightarrow> i = next_index (backlog_tail (somem s k)) (backlog_max (somem s k))"
    and "d \<noteq> c" and "d \<noteq> k"
  shows "\<exists>t1 t2. sys_connect fd a len s = Inr (0, t1) \<and> (\<forall>i. pending_connections (somem t1 k) i \<noteq> d)
     \<and> somem t1 d = somem s d \<and> sys_accept sfd b blen (run_as sp st t1) = Inr (31, t2) \<and> process_object t2 q 31 = f"
proof -
  note C = assms(1)[unfolded client_ready_def] and S = assms(2)[unfolded server_ready_def]
  let ?h = "next_index (backlog_tail (somem s k)) (backlog_max (somem s k))"
  obtain t1 slot where t1: "sys_connect fd a len s = Inr (0, t1)" "\<forall>d. d \<noteq> c \<longrightarrow> d \<noteq> k \<longrightarrow> somem t1 d = somem s d"
      "somem t1 k = (somem s k)\<lparr>clientfd_on_server := slot, so_link := c, so_state := SS_CONNECTING,
          backlog_tail := ?h, pending_connections := (pending_connections (somem s k))(?h := c)\<rparr>"
      "so_used (somem t1 c) = TRUE" "so_magic (somem t1 c) = 1234" "private_file (somem t1 c) = f"
      "accepting (run_as sp st t1) q sfd g k"
      "find (\<lambda>i. pending_connections (somem t1 k) i \<noteq> NULL) (slots ?h (backlog_max (somem t1 k) + 1)) = Some ?h"
    using connect_display_ok[OF assms(1-5) refl, of st] by blast
  let ?r = "run_as sp st t1"
  have ah: "accept_head ?r k = ?h" using S t1(3) by simp
  have find: "find (\<lambda>i. pending_connections (somem ?r k) i \<noteq> NULL) (slots (accept_head ?r k) (backlog_max (somem ?r k) + 1)) = Some ?h"
    unfolding ah using t1(8) by simp
  have fn: "f \<noteq> NULL" using C by (simp add: socket_fd_def)
  obtain t2 where "sys_accept sfd b blen ?r = Inr (31, t2)" "process_object t2 q 31 = f"
    using sys_accept_ok[OF t1(7) assms(6,7) find, of c f] t1(3-6) fn assms(3) by fastforce
  moreover have "\<forall>i. pending_connections (somem t1 k) i \<noteq> d" using t1(3) assms(8,9) by auto
  ultimately show ?thesis using t1(1,2) assms(9,10) by blast
qed

text \<open>
  C24. getsockname() stores at any address. Through a socket of the family AF_GRAMADO a process stores 14
  bytes of its choice at any address it names, kernel memory included: what bind() copied from the
  process is what getsockname() writes at \<open>x + 2\<close>, for every \<open>x\<close> but 0.
\<close>

theorem name_lands_anywhere:
  assumes "process_at s pid p" and "current_pid (ker s) = pid" and "socket_fd s p fd f c" and "priv (pio s p) = c"
    and "uint (sa_family (somem s c)) = AF_GRAMADO" and "CONTROLTHREAD_BASE \<le> addr" and "0 < len" and "x \<noteq> 0" and "y \<noteq> 0"
  shows "\<exists>t u. sys_bind fd addr len s = Inr (0, t) \<and> sys_getsockname fd x y t = Inr (0, u)
     \<and> io_bytes u (x + 2) 14 = io_bytes s (addr + 2) 14"
proof -
  let ?s = "upd_ker (do_credits_by_tid (current_thread (ker s))) s"
  let ?t = "upd_sock c (\<lambda>r. r\<lparr>sa_data := (\<lambda>i. if i < 14 then user8 ?s (addr + 2 + of_nat i) else sa_data r i)\<rparr>) ?s"
  note f = assms(3)[unfolded socket_fd_def]
  have a: "addr \<noteq> 0" "\<not> addr < CONTROLTHREAD_BASE" "len \<noteq> 0" using assms(6,7) by (auto simp: CONTROLTHREAD_BASE_def)
  have p: "current_entry s = Some p" "p_magic (pmem (ker s) p) = 1234" "p \<noteq> NULL"
    using process_at_calls(2)[OF assms(1,2)] assms(1) by (auto simp: process_at_def)
  have b: "sys_bind fd addr len s = Inr (0, ?t)"
    using f a p assms(5) by (simp add: sys_bind_def Let_def is_socket_TRUE)
  have r: "raw_entry ?t = Inr p"
    using assms(1,2) by (auto simp: raw_entry_def process_at_def pid_ok_def get_current_process_def Let_def)
  let ?xs = "map (sa_data (somem ?t c)) [0..<14]"
  have xs: "?xs = io_bytes s (addr + 2) 14" by (simp add: io_bytes_def mem_bytes_def user8_def)
  let ?u = "io_store (x + 2) ?xs (io_store y (le_int 0) ?t)"
  have g: "sys_getsockname fd x y ?t = Inr (0, ?u)"
    using f p r assms(4,5,8,9) by (simp add: sys_getsockname_def Let_def)
  have u: "io_bytes ?u (x + 2) 14 = ?xs" using io_bytes_store[of ?xs "x + 2"] by simp
  show ?thesis by (intro exI conjI, rule b, rule g, rule trans[OF u xs])
qed

section \<open>Witnesses\<close>

text \<open>
  Process 100 has the socket 3000 with file 1000 as descriptor 3, process 101 the socket 4000 with file
  2000 as descriptor 4; 127.0.0.1:4040 stands at 0x200000.
\<close>

definition demo_socket :: "ptr \<Rightarrow> socket_d" where
  "demo_socket k = zero_socket\<lparr>so_used := TRUE, so_magic := 1234, so_state := SS_UNCONNECTED, backlog_max := 4,
     private_file := if k = 3000 then 1000 else 2000, sa_family := 8000\<rparr>"

definition demo_talk :: io_state where
  "demo_talk = io_store 0x200000 [0, 2, 0xC8, 0x0F, 1, 0, 0, 127] (demo_io\<lparr>
     ker := demo_mm\<lparr>processList := (\<lambda>i. if i = 100 then 7 else if i = 101 then 8 else NULL),
       pmem := (\<lambda>r. (pmem demo_mm r)\<lparr>p_Objects := if r = 7 then (\<lambda>_. NULL)(3 := 1000) else (\<lambda>_. NULL)(4 := 2000)\<rparr>),
       gramado_ports := (\<lambda>_. 101)\<rparr>,
     fimem := (\<lambda>f. socket_file demo_io 0x300000 (if f = 1000 then 3000 else 4000) (if f = 1000 then 3 else 4)),
     somem := demo_socket,
     pio := (\<lambda>r. \<lparr>priv = if r = 7 then 3000 else 4000, read_counter = 0, write_counter = 0\<rparr>)\<rparr>)"

lemma demo_talk_simps [simp]:
  "current_pid (ker demo_talk) = 100" "processList (ker demo_talk) i = (if i = 100 then 7 else if i = 101 then 8 else NULL)"
  "p_used (pmem (ker demo_talk) r) = TRUE" "p_magic (pmem (ker demo_talk) r) = 1234"
  "gramado_ports (ker demo_talk) i = 101" "somem demo_talk = demo_socket"
  "priv (pio demo_talk r) = (if r = 7 then 3000 else 4000)"
  "process_object demo_talk r i = (if r = 7 then if i = 3 then 1000 else NULL else if i = 4 then 2000 else NULL)"
  "fimem demo_talk f = socket_file demo_io 0x300000 (if f = 1000 then 3000 else 4000) (if f = 1000 then 3 else 4)"
  by (simp_all add: demo_talk_def demo_mm_def demo_switch_def process_object_def)

lemma demo_display: "display_address demo_talk 0x200000"
proof -
  have l: "length [0, 2, 0xC8, 0x0F, 1, 0, 0, 127 :: u8] = 8" by simp
  have "io_bytes demo_talk 0x200000 8 = [0, 2, 0xC8, 0x0F, 1, 0, 0, 127]"
    using io_bytes_store[of "[0, 2, 0xC8, 0x0F, 1, 0, 0, 127]" "0x200000"] unfolding l demo_talk_def by simp
  then show ?thesis by (simp add: display_address_def CONTROLTHREAD_BASE_def)
qed

lemma demo_client: "client_ready demo_talk 100 7 3 1000 3000"
  by (simp add: client_ready_def process_at_def pid_ok_def PROCESS_COUNT_MAX_def socket_fd_def talks_def sock_empty_def
      OPEN_MAX_def socket_file_def socket_sync_def zero_sync_def demo_socket_def)

lemma demo_slots: "find (\<lambda>i. process_object demo_talk 8 i = NULL) (slots 3 31) = Some 3"
  by (simp add: slots_Cons)

lemma demo_server: "server_ready demo_talk 101 8 4 2000 4000"
  unfolding server_ready_def demo_slots
  by (simp add: process_at_def pid_ok_def PROCESS_COUNT_MAX_def socket_fd_def OPEN_MAX_def socket_file_def
      socket_sync_def zero_sync_def demo_socket_def zero_socket_def)


theorem new_socket_ready_witness:
  "\<exists>t f c. sys_socket AF_INET SOCK_RAW 0 demo_io = Inr (4, t) \<and> client_ready t 100 7 4 f c"
proof -
  have "slots 3 31 = 3 # 4 # slots 5 31" by (simp add: slots_Cons)
  then have f: "find (\<lambda>j. process_object demo_io 7 j = NULL) (slots 3 31) = Some 4"
    by (simp add: process_object_def demo_io_def upd_process_def)
  have r: "heap_room (ker demo_io) 7 1976 3"
    using demo_io_room by (simp add: heap_room_def demo_io_def upd_process_def demo_mm_current)
  have c: "current_pid (ker demo_io) = 100" by (simp add: demo_io_def upd_process_def demo_mm_def)
  show ?thesis using new_socket_ready[OF r f] unfolding c by blast
qed

definition demo_pending :: io_state where
  "demo_pending = run_as 101 1 (upd_sock 4000 (\<lambda>r. r\<lparr>so_state := SS_CONNECTING,
     pending_connections := (\<lambda>_. NULL)(1 := 3000)\<rparr>) demo_talk)"

theorem accepted_again_witness:
  "\<exists>t. accepts 6 4 0x200100 1 demo_pending = Inr ([31, -1, -1, 31, 31, -1], t)"
proof -
  have "process_at demo_pending 101 8" "current_pid (ker demo_pending) = 101"
    by (simp_all add: demo_pending_def process_at_def pid_ok_def PROCESS_COUNT_MAX_def)
  then have "calling_process demo_pending = Some 8" by (rule process_at_calls(1))
  then have a: "accepting demo_pending 8 4 2000 4000"
    by (simp add: accepting_def demo_pending_def socket_fd_def OPEN_MAX_def socket_file_def socket_sync_def
        zero_sync_def demo_socket_def zero_socket_def)
  have o: "one_pending demo_pending 4000 4 0 1 3000"
    by (simp add: one_pending_def demo_pending_def demo_socket_def zero_socket_def)
  have "[0..<6] = [0, 1, 2, 3, 4, 5 :: nat]" by (simp add: upt_rec)
  then show ?thesis using accepted_again[OF a o, of "0x200100" 1 6] by (simp add: CONTROLTHREAD_BASE_def)
qed

definition demo_full :: io_state where
  "demo_full = upd_sock 4000 (\<lambda>r. r\<lparr>so_state := SS_CONNECTING,
     pending_connections := (\<lambda>i. if 0 \<le> i \<and> i < 4 then nat (5000 + i) else NULL)\<rparr>) demo_talk"

theorem full_list_drops_client_witness:
  "\<exists>t1 t2. sys_connect 3 0x200000 16 demo_full = Inr (0, t1) \<and> (\<forall>i. pending_connections (somem t1 4000) i \<noteq> 5001)
     \<and> sys_accept 4 0x200100 1 (run_as 101 1 t1) = Inr (31, t2) \<and> process_object t2 8 31 = 1000"
proof -
  have c: "client_ready demo_full 100 7 3 1000 3000"
    using demo_client by (simp add: client_ready_def demo_full_def socket_fd_def talks_def sock_empty_def)
  have f: "find (\<lambda>i. process_object demo_full 8 i = NULL) (slots 3 31) = Some 3"
    using demo_slots by (simp add: demo_full_def)
  have s: "server_ready demo_full 101 8 4 2000 4000"
    using demo_server f by (simp add: server_ready_def demo_full_def socket_fd_def demo_socket_def)
  have a: "display_address demo_full 0x200000"
    using demo_display by (simp add: display_address_def demo_full_def io_bytes_def)
  have "\<forall>i. pending_connections (somem demo_full 4000) i = 5001
      \<longleftrightarrow> i = next_index (backlog_tail (somem demo_full 4000)) (backlog_max (somem demo_full 4000))"
    by (auto simp: demo_full_def demo_socket_def zero_socket_def next_index_def)
  then show ?thesis
    using full_list_drops_client[OF c s _ a, of 16 "0x200100" 1 5001 1] by (auto simp: CONTROLTHREAD_BASE_def)
qed

theorem name_lands_anywhere_witness:
  "\<exists>t u. sys_bind 3 0x200000 16 demo_talk = Inr (0, t) \<and> sys_getsockname 3 0x30100000 0x30101000 t = Inr (0, u)
     \<and> io_bytes u 0x30100002 14 = io_bytes demo_talk 0x200002 14"
proof -
  have p: "process_at demo_talk 100 7" "current_pid (ker demo_talk) = 100" "socket_fd demo_talk 7 3 1000 3000"
    using demo_client by (simp_all add: client_ready_def)
  show ?thesis
    using name_lands_anywhere[OF p, of "0x200000" 16 "0x30100000" "0x30101000"]
    by (simp add: demo_socket_def zero_socket_def AF_GRAMADO_def CONTROLTHREAD_BASE_def)
qed

end
