(* ===== verification/Spec2Isabelle.thy ===== *)
theory Spec2Isabelle
  imports KSystem KStack KString KLife KTalk
begin

text \<open>
  A verification development of the Gramado kernel (src/kernel/kernel): the parts of the kernel
  that decide which thread runs, what the threads say to each other, which memory they get, and
  what the machine answers on the network.

  The program. The kernel keeps its threads in \<open>threadList\<close> and its processes in \<open>processList\<close>.
  The timer interrupt calls psTaskSwitch() (core/ke/intake/disp/ts.c), which accounts the tick to
  the current thread; when its quantum is over it saves the registers of the thread
  (disp/x86_64/x64cont.c), asks the scheduler for a new round when the old one is used up
  (sched/sched.c), picks the next thread and gives it to the dispatcher (disp/dispatch.c). A
  thread that has never run is started by disp/spawn.c. Threads change state through
  sched/schedi.c and tlib.c, and talk through the message rings of ipc.c. The structures come
  from the heap of kres/mm/mm.c through kmalloc() of core/clibs/kstdlib.c; address spaces, pages
  and large buffers come from kres/mm/pages.c, mmpool.c and slab.c.

  The network is the kernel's second big engine. The e1000 driver (kres/dev/netdev/e1000) hands
  every received frame to the ethernet layer (kres/net/prot/core/ethernet.c), which passes it to
  arp.c or ipv4.c and from there to udp.c, tcp.c and dhcp.c; answers are built bottom up into one
  buffer and sent by the driver. Payloads for user programs go through the ring of packet buffers
  of kres/net/network.c. Text is formatted by core/clibs/kstdio.c over kstring.c.

  The theories.
  \<^item> \<open>KBase\<close>: machine words, the fault type \<open>kfault\<close> (panic, die, endless loop, undefined access),
    the sequencing combinator \<open>kbind\<close>, and lemmas on words, cyclic indices and tables.
  \<^item> \<open>KState\<close>: the C structures as records (thread.h, process.h, ipc.h, x64cont.h, dispatch.h,
    mmblock.h, x64mm.h), and the record \<open>kstate\<close> of all global variables. A pointer is a number,
    structures live in the stores \<open>tmem\<close>, \<open>pmem\<close>, \<open>mmem\<close> and so on, user memory and page tables
    in \<open>umem\<close>, so that sharing is visible.
  \<^item> \<open>KThread\<close>: schedi.c, tlib.c and accessors of thread.c, with the locale \<open>guarded_thread_op\<close> for
    the contract the state changes share.
  \<^item> \<open>KIpc\<close>: ipc.c; a ring refines a FIFO queue of at most 63 messages.
  \<^item> \<open>KSched\<close>: sched.c and schedq.c; the round a scheduler call builds.
  \<^item> \<open>KSwitch\<close>: ts.c, dispatch.c, spawn.c, x64cont.c; what one tick and what a whole round does.
  \<^item> \<open>KHeap\<close>: mm.c, kstdlib.c; the bump allocator and kmalloc().
  \<^item> \<open>KPaging\<close>: pages.c, mmpool.c, slab.c; translation, cloning and mapping.

  \<^item> \<open>KSystem\<close>: the operations above as the steps of one transition system, their common frame, and
    the simulation by an abstract post office.
  \<^item> \<open>KFifo\<close>: the contract of a bounded queue, a locale with two instances: the message rings and the
    packet buffers.
  \<^item> \<open>KString\<close>: kstring.c, atoi of kstdlib.c, and the formatted output of kstdio.c.
  \<^item> \<open>KNet\<close>: the byte order macros, the protocol headers as records with their bytes, the internet
    checksum, the network information block and the packet buffers of network.c.
  \<^item> \<open>KStack\<close>: e1000 send and receive, arp.c, udp.c, dhcp.c, tcp.c, ipv4.c, ethernet.c: a frame goes
    in, and a new state of the kernel and the frames it sent come out.
  \<^item> \<open>KLife\<close>: the creation, exit and statistics of threads (thread.c) and the timer (pit.c); a thread
    costs 11960 bytes and 66 blocks of the heap, so at most 71 threads can ever be created.
  \<^item> \<open>KDisk\<close>: atahdd.c, disk_r.c, disk_w.c and read_lba()/write_lba() of storage.c over a state of its
    own, \<open>fs_state\<close>: the bytes of memory, the sectors of the drives, the globals of the file system.
  \<^item> \<open>KFat\<close>: search.c, fsload.c, the save of fslib.c and the FAT cache of fat16.c, with the
    specification's view of the volume (\<open>lookup\<close>, \<open>is_chain\<close>, \<open>cluster_data\<close>).
  \<^item> \<open>KSave\<close>: what a load, a save, both together, and a restart between them give.
  \<^item> \<open>KName\<close>: the 8.3 names of fslib.c and fat16.c, the ELF signature.
  \<^item> \<open>KFile\<close>: open files (kstdio.h, fslib.c), the system calls of fs.c and pipe.c over a state
    \<open>io_state\<close> that holds the kernel state, the file system and the stores of files and sockets.
  \<^item> \<open>KStream\<close>: the buffer of a file as an instance of the locale \<open>byte_stream\<close>, and what read(),
    write(), pipe() and close() do over it.
  \<^item> \<open>KOpen\<close>: open() from the path to the first bytes read, across names, directory, heap and disk.
  \<^item> \<open>KSocket\<close>: sockets between processes of this machine (socket.c, sockint.c): their creation,
    bind, listen, connect, accept and the list of pending connections in the server's socket.
  \<^item> \<open>KTalk\<close>: a client and a server from socket() over connect() and accept() to the bytes that
    arrive, and what the list of pending connections does to clients.

  The groups of lemmas. Invariants and frames: \<open>threads_wf\<close>, \<open>ipc_wf\<close> with \<open>ring_frame\<close> and
  \<open>kept\<close>, \<open>touches\<close> for one step of the scheduler's walk, \<open>heap_wf\<close> in
  \<open>KHeap\<close>.
  Functional behaviour: what a tick, a round, a post, a datagram or an allocation yields on every
  branch. Equivalences: the checksum loop and the one's complement sum of RFC 1071; refinement:
  rings and buffers as lists. Error behaviour: on which inputs an operation panics, hangs or
  divides by zero. Each property has a witness that evaluates it on a small concrete kernel.

  Every operation returns a value of \<open>kfault + 'a\<close> when some branch of it can panic, hang or do
  something C leaves undefined; the theorems say on which inputs the result is \<open>Inr\<close>. Loops over
  tables are recursion over the list of the indices (\<open>slots\<close>, \<open>kfold\<close>), so they end by
  construction. The backward jump of the task switch is recursion with fuel: one unit per jump, so
  the fuel a theorem names is the number of jumps it needs, and a run that never selects a thread is
  None for every fuel. The receive loop of the e1000 driver has fuel too: 33 rounds are enough for
  a ring of 32 descriptors when the device adds none meanwhile. The loop over a chain of clusters has
  one unit of fuel per cluster; a file that can be loaded has at most 811 of them, a saved one at most
  16. The FAT is cached at 0x30000 and the root directory at 0x70000; whether a drive delivers a
  sector or reports a write error are fields of the state that no operation changes.

  Not modelled: the boot loader (its own program), the user programs and libraries, the display,
  window and font code, and the drivers apart from the e1000's data path, which only move bytes to
  devices; the assembly stubs, whose effect on the registers are the fields of
  \<open>context_globals\<close>; the walk along a path name and the loading of a whole program image; the
  detection of drives; connections to other machines, which
  connect() refuses; the registration of the servers; the system call table, which only
  dispatches to the functions modelled here and to services that are not.
\<close>

end
